(* ===== verification/GP_Prelude.thy ===== *)
theory GP_Prelude
  imports Complex_Main "HOL-Library.Word" "HOL-Library.Multiset"
begin

text \<open>
  What every component of the development shares: the model of the Go values the services use
  (identifiers, times, 64-bit integers, UTF-8 strings, maps and the order in which \<open>range\<close> visits
  them), the two string checks that each service's \<open>store/validate.go\<close> repeats
  (\<open>requireBounded\<close> and \<open>bounded\<close>), the HTTP answers of the handlers, and the lemmas on them that the
  component proofs use.
  The collection \<open>go_simps\<close> gathers the rewrite rules of this theory.
\<close>

named_theorems go_simps

section \<open>Identifiers, times and 64-bit integers\<close>

text \<open>
  A Go \<open>string\<close> is a sequence of bytes, a \<open>time.Time\<close> in UTC a number of nanoseconds since
  1970-01-01 (unbounded here: the range of \<open>time.Time\<close> is not reached), and a \<open>time.Duration\<close> a
  number of nanoseconds in an \<open>int64\<close>.
  The zero \<open>time.Time\<close> is the first instant of year 1.
\<close>

type_synonym ident = string
type_synonym time = int

abbreviation second :: int where "second \<equiv> 1000000000"
abbreviation minute :: int where "minute \<equiv> 60 * second"
abbreviation hour :: int where "hour \<equiv> 60 * minute"

definition zero_time :: time where
  "zero_time = - 62135596800 * second"

text \<open>\<open>t.Format(time.RFC3339)\<close> keeps whole seconds; the string is represented by its instant.\<close>

definition rfc3339 :: "time \<Rightarrow> time" where
  "rfc3339 t = t div second * second"

definition is_zero_time :: "time \<Rightarrow> bool" where
  "is_zero_time t \<longleftrightarrow> t = zero_time"

text \<open>\<open>int64\<close> arithmetic: the value of a sum or product is wrapped into the signed range.\<close>

definition i64 :: "int \<Rightarrow> int" where
  "i64 x = (x + 2 ^ 63) mod 2 ^ 64 - 2 ^ 63"

lemma i64_id [go_simps]: "- (2 ^ 63) \<le> x \<Longrightarrow> x < 2 ^ 63 \<Longrightarrow> i64 x = x"
  by (simp add: i64_def)

lemma i64_0 [simp]: "i64 0 = 0" and i64_1 [simp]: "i64 1 = 1"
  by (simp_all add: i64_def)

lemma i64_range: "- (2 ^ 63) \<le> i64 x \<and> i64 x < 2 ^ 63"
  by (auto simp: i64_def intro: order.strict_trans2 [OF pos_mod_bound])

lemma i64_i64 [simp]: "i64 (i64 x) = i64 x"
  using i64_range [of x] by (simp add: i64_id)

lemma i64_add_left [simp]: "i64 (i64 a + b) = i64 (a + b)"
proof -
  have "(i64 a + b + 2 ^ 63) mod 2 ^ 64 = ((a + 2 ^ 63) mod 2 ^ 64 + b) mod 2 ^ 64" by (simp add: i64_def)
  also have "\<dots> = (a + b + 2 ^ 63) mod 2 ^ 64" by (simp add: mod_simps algebra_simps)
  finally show ?thesis by (simp add: i64_def)
qed

lemma i64_add_right [simp]: "i64 (a + i64 b) = i64 (a + b)"
  by (metis add.commute i64_add_left)

lemma i64_sum_list: "i64 (t + (\<Sum>x\<leftarrow>xs. i64 (f x))) = i64 (t + (\<Sum>x\<leftarrow>xs. f x))"
proof (induction xs arbitrary: t)
  case (Cons x xs)
  have "i64 (t + (i64 (f x) + (\<Sum>x\<leftarrow>xs. i64 (f x)))) = i64 ((t + i64 (f x)) + (\<Sum>x\<leftarrow>xs. f x))"
    using Cons.IH [of "t + i64 (f x)"] by (simp add: add.assoc)
  also have "\<dots> = i64 ((t + (\<Sum>x\<leftarrow>xs. f x)) + i64 (f x))" by (simp add: algebra_simps)
  also have "\<dots> = i64 (t + (\<Sum>x\<leftarrow>xs. f x) + f x)" by (rule i64_add_right)
  finally show ?case by (simp add: algebra_simps)
qed simp

text \<open>The library's 64-bit words agree: \<open>i64\<close> is the signed value of the word.\<close>

lemma sint_word_of_int_i64: "sint (word_of_int x :: 64 word) = i64 x"
  by (simp add: sint_uint uint_word_of_int i64_def signed_take_bit_eq_take_bit_shift
      take_bit_eq_mod mod_simps)

text \<open>\<open>t.Sub(u)\<close> saturates at the range of \<open>int64\<close> (about 292 years).\<close>

definition time_Sub :: "time \<Rightarrow> time \<Rightarrow> int" where
  "time_Sub t u = max (- (2 ^ 63)) (min (2 ^ 63 - 1) (t - u))"

text \<open>\<open>time.Unix(ts, 0)\<close>: the seconds are counted from year 1 in an \<open>int64\<close>.\<close>

definition unix_time :: "int \<Rightarrow> time" where
  "unix_time ts = (i64 (ts + 62135596800) - 62135596800) * second"

lemma unix_time_id [go_simps]: "- (2 ^ 62) \<le> ts \<Longrightarrow> ts < 2 ^ 62 \<Longrightarrow> unix_time ts = ts * second"
  by (simp add: unix_time_def i64_id)

section \<open>Results\<close>

text \<open>A result \<open>(T, error)\<close> is a sum, \<open>Inl\<close> the error; \<open>map_sum id f\<close> applies \<open>f\<close> to the success.\<close>

lemma map_sum_Inr [simp]: "map_sum id f x = Inr y \<longleftrightarrow> (\<exists>z. x = Inr z \<and> y = f z)"
  by (cases x) auto

lemma map_sum_Inl [simp]: "map_sum id f x = Inl e \<longleftrightarrow> x = Inl e"
  by (cases x) auto

section \<open>Counting\<close>

text \<open>The events of a list, counted by a key, add up to its length.\<close>

lemma sum_length_filter:
  "finite K \<Longrightarrow> g ` set es \<subseteq> K \<Longrightarrow> (\<Sum>k\<in>K. length (filter (\<lambda>e. g e = k) es)) = length es"
proof (induction es)
  case (Cons e es)
  have "(\<Sum>k\<in>K. length (filter (\<lambda>e. g e = k) (e # es))) =
      (\<Sum>k\<in>K. (if g e = k then 1 else 0) + length (filter (\<lambda>e. g e = k) es))"
    by (intro sum.cong) auto
  also have "\<dots> = 1 + length es" using Cons by (simp add: sum.distrib)
  finally show ?case by simp
qed simp

section \<open>Drawn identifiers\<close>

text \<open>
  A generator of identifiers (\<open>uuid.New().String()\<close>, random bytes) is a parameter \<open>rand\<close>: its \<open>n\<close>-th
  result is \<open>rand n\<close>, and a state counts its draws.
  \<open>drawn rand n i\<close>: \<open>i\<close> is among the first \<open>n\<close> results.
\<close>

definition drawn :: "(nat \<Rightarrow> 'a) \<Rightarrow> nat \<Rightarrow> 'a \<Rightarrow> bool" where
  "drawn rand n i \<longleftrightarrow> (\<exists>k<n. i = rand k)"

lemma drawnI [intro]: "k < n \<Longrightarrow> drawn rand n (rand k)"
  by (auto simp: drawn_def)

lemma drawn_mono: "drawn rand n i \<Longrightarrow> n \<le> m \<Longrightarrow> drawn rand m i"
  unfolding drawn_def using order_less_le_trans by blast

lemma drawn_Suc [simp]: "drawn rand (Suc n) i \<longleftrightarrow> i = rand n \<or> drawn rand n i"
  by (auto simp: drawn_def less_Suc_eq)

lemma drawn_fresh: "inj rand \<Longrightarrow> n \<le> m \<Longrightarrow> \<not> drawn rand n (rand m)"
  by (auto simp: drawn_def dest: injD)

section \<open>Go maps and the order of range\<close>

text \<open>
  A Go map is a partial function; \<open>range\<close> visits each of its keys once, in an order the language
  leaves open.
  A definition that ranges over a map takes that order as an argument \<open>ks\<close>; its properties hold for
  every order with \<open>range_of ks m\<close>.
\<close>

definition range_of :: "'k list \<Rightarrow> ('k \<rightharpoonup> 'v) \<Rightarrow> bool" where
  "range_of ks m \<longleftrightarrow> distinct ks \<and> set ks = dom m"

fun range_vals :: "'k list \<Rightarrow> ('k \<rightharpoonup> 'v) \<Rightarrow> 'v list" where
  "range_vals [] m = []"
| "range_vals (k # ks) m =
     (case m k of None \<Rightarrow> range_vals ks m | Some v \<Rightarrow> v # range_vals ks m)"

lemma set_range_vals: "set (range_vals ks m) = {v. \<exists>k\<in>set ks. m k = Some v}"
  by (induction ks) (auto split: option.splits)

lemma set_range_vals_ran [go_simps]: "range_of ks m \<Longrightarrow> set (range_vals ks m) = ran m"
  by (auto simp: set_range_vals range_of_def ran_def)

lemma length_range_vals: "range_of ks m \<Longrightarrow> length (range_vals ks m) = card (dom m)"
proof -
  assume r: "range_of ks m"
  have "set ks \<subseteq> dom m \<Longrightarrow> length (range_vals ks m) = length ks"
    by (induction ks) (auto split: option.splits)
  with r show ?thesis by (metis distinct_card order_refl range_of_def)
qed

lemma range_vals_map: "range_vals ks (\<lambda>k. map_option f (m k)) = map f (range_vals ks m)"
  by (induction ks) (auto split: option.splits)

lemma range_of_map_option [simp]: "range_of ks (\<lambda>k. map_option f (m k)) = range_of ks m"
  by (simp add: range_of_def dom_def)

lemma range_of_empty [simp]: "range_of [] Map.empty"
  by (simp add: range_of_def)

lemma range_vals_filter_sum:
  assumes "range_of ks m"
  shows "sum_list (map g (filter P (range_vals ks m)))
       = (\<Sum>k\<in>{k\<in>dom m. P (the (m k))}. (g (the (m k)) :: int))"
proof -
  have "distinct ks \<Longrightarrow> set ks \<subseteq> dom m \<Longrightarrow>
     sum_list (map g (filter P (range_vals ks m))) = (\<Sum>k\<in>{k\<in>set ks. P (the (m k))}. g (the (m k)))"
  proof (induction ks)
    case (Cons k ks)
    then have k: "k \<notin> set ks" and d: "distinct ks" "set ks \<subseteq> dom m"
      and "\<exists>v. m k = Some v" by auto
    then obtain v where v: "m k = Some v" by blast
    have "{x \<in> set (k # ks). P (the (m x))}
        = (if P v then insert k {x \<in> set ks. P (the (m x))} else {x \<in> set ks. P (the (m x))})"
      using v by auto
    then show ?case using Cons.IH [OF d] k v by simp
  qed simp
  with assms show ?thesis by (simp add: range_of_def)
qed

text \<open>A search loop that returns the first value with a property: \<open>find\<close> over the range.\<close>

lemma find_range_None:
  "range_of ks m \<Longrightarrow> find P (range_vals ks m) = None \<longleftrightarrow> (\<forall>v\<in>ran m. \<not> P v)"
  by (auto simp: find_None_iff set_range_vals_ran)

lemma find_SomeD: "find P xs = Some v \<Longrightarrow> v \<in> set xs \<and> P v"
  by (auto simp: find_Some_iff)

lemma find_range_SomeD:
  "range_of ks m \<Longrightarrow> find P (range_vals ks m) = Some v \<Longrightarrow> v \<in> ran m \<and> P v"
  by (auto dest: find_SomeD simp: set_range_vals_ran)

lemma find_range_unique:
  assumes "range_of ks m" "v \<in> ran m" "P v" "\<And>w. w \<in> ran m \<Longrightarrow> P w \<Longrightarrow> w = v"
  shows "find P (range_vals ks m) = Some v"
proof (cases "find P (range_vals ks m)")
  case None
  have False using find_range_None [OF assms(1), of P] None assms(2,3) by blast
  then show ?thesis ..
next
  case (Some w)
  have "w = v" using find_range_SomeD [OF assms(1) Some] by (intro assms(4)) simp_all
  with Some show ?thesis by simp
qed

lemma ran_upd_fresh: "m k = None \<Longrightarrow> ran (m(k \<mapsto> v)) = insert v (ran m)"
  by (rule ran_map_upd)

lemma in_ranI: "m k = Some v \<Longrightarrow> v \<in> ran m"
  by (auto simp: ran_def)

lemma ran_map_option: "ran (\<lambda>k. map_option f (m k)) = f ` ran m"
  by (auto simp: ran_def image_def)

section \<open>UTF-8\<close>

text \<open>
  \<open>utf8.RuneCountInString\<close> and the conversion \<open>[]rune(s)\<close> read a string as UTF-8, an invalid
  byte counting as one rune of width 1.
  \<open>rune_size\<close> follows the table of \<open>unicode/utf8\<close> (first byte, accepted range of the second).
\<close>

definition byte :: "char \<Rightarrow> nat" where
  "byte c = of_char c"

definition in_range :: "nat \<Rightarrow> nat \<Rightarrow> string \<Rightarrow> nat \<Rightarrow> bool" where
  "in_range lo hi s i \<longleftrightarrow> i < length s \<and> lo \<le> byte (s ! i) \<and> byte (s ! i) \<le> hi"

definition rune_size :: "string \<Rightarrow> nat" where
  "rune_size s = (case s of [] \<Rightarrow> 0 | c # _ \<Rightarrow>
     (let b = byte c; tail = in_range 128 191 s in
      if b < 128 then 1
      else if 194 \<le> b \<and> b \<le> 223 \<and> tail 1 then 2
      else if b = 224 \<and> in_range 160 191 s 1 \<and> tail 2 then 3
      else if b = 237 \<and> in_range 128 159 s 1 \<and> tail 2 then 3
      else if 225 \<le> b \<and> b \<le> 239 \<and> b \<noteq> 237 \<and> tail 1 \<and> tail 2 then 3
      else if b = 240 \<and> in_range 144 191 s 1 \<and> tail 2 \<and> tail 3 then 4
      else if 241 \<le> b \<and> b \<le> 243 \<and> tail 1 \<and> tail 2 \<and> tail 3 then 4
      else if b = 244 \<and> in_range 128 143 s 1 \<and> tail 2 \<and> tail 3 then 4
      else 1))"

text \<open>
  The runes of a string, each as the bytes \<open>WriteRune\<close> writes for it: its own bytes, or the
  encoding of U+FFFD for an invalid byte.
\<close>

definition replacement :: string where
  "replacement = [CHR 0xEF, CHR 0xBF, CHR 0xBD]"

function runes :: "string \<Rightarrow> string list" where
  "runes [] = []"
| "runes (c # cs) =
     (let n = rune_size (c # cs) in
      (if n = 1 \<and> 128 \<le> byte c then replacement else take n (c # cs)) # runes (drop (n - 1) cs))"
  by pat_completeness auto
termination
  by (relation "measure length") auto

definition rune_count :: "string \<Rightarrow> nat" where
  "rune_count s = length (runes s)"

definition ascii :: "string \<Rightarrow> bool" where
  "ascii s \<longleftrightarrow> (\<forall>c\<in>set s. byte c < 128)"

lemma runes_ascii [go_simps]: "ascii s \<Longrightarrow> runes s = map (\<lambda>c. [c]) s"
  by (induction s) (simp_all add: ascii_def rune_size_def)

lemma rune_count_ascii [go_simps]: "ascii s \<Longrightarrow> rune_count s = length s"
  by (simp add: rune_count_def runes_ascii)

lemma length_runes_le: "length (runes s) \<le> length s"
  by (induction s rule: runes.induct) (auto simp: Let_def intro: order.trans)

lemma rune_count_le_length: "rune_count s \<le> length s"
  by (simp add: rune_count_def length_runes_le)

lemma runes_eq_Nil [simp]: "runes s = [] \<longleftrightarrow> s = []"
  by (cases s) (simp_all add: Let_def)

section \<open>Hexadecimal\<close>

text \<open>\<open>hex.EncodeToString\<close>: two lower-case digits per byte.\<close>

definition hex_digits :: string where
  "hex_digits = ''0123456789abcdef''"

definition hex_encode :: "string \<Rightarrow> string" where
  "hex_encode s = concat (map (\<lambda>c. [hex_digits ! (byte c div 16), hex_digits ! (byte c mod 16)]) s)"

lemma byte_less: "byte c < 256"
  by (simp add: byte_def)

lemma length_hex_encode: "length (hex_encode s) = 2 * length s"
  by (induction s) (simp_all add: hex_encode_def)

lemma hex_digit_inj: "i < 16 \<Longrightarrow> j < 16 \<Longrightarrow> hex_digits ! i = hex_digits ! j \<Longrightarrow> i = j"
proof -
  have "distinct hex_digits" "length hex_digits = 16" by (simp_all add: hex_digits_def)
  then show "i < 16 \<Longrightarrow> j < 16 \<Longrightarrow> hex_digits ! i = hex_digits ! j \<Longrightarrow> i = j"
    by (simp add: nth_eq_iff_index_eq)
qed

lemma hex_encode_inj: "hex_encode s = hex_encode t \<Longrightarrow> s = t"
proof (induction s arbitrary: t)
  case Nil
  then show ?case by (cases t) (simp_all add: hex_encode_def)
next
  case (Cons c s)
  then obtain d u where t: "t = d # u" by (cases t) (simp_all add: hex_encode_def)
  with Cons.prems have "byte c div 16 = byte d div 16" "byte c mod 16 = byte d mod 16"
    using byte_less [of c] byte_less [of d]
    by (auto simp: hex_encode_def intro!: hex_digit_inj)
  then have "byte c = byte d" by (metis div_mult_mod_eq)
  with Cons t show ?case by (simp add: hex_encode_def byte_def)
qed

section \<open>The checks of the validators\<close>

text \<open>
  Each \<open>store/validate.go\<close> is a chain of \<open>if err := check; err != nil { return err }\<close>.
  A check is an \<open>option\<close> (\<open>None\<close> is Go's nil error), one constructor of \<open>verr\<close> per format string;
  the chain is \<open>first_err\<close> of its checks in order.
\<close>

datatype verr =
    IsNil string
  | Required string
  | Exceeds string nat
  | NullBytes string
  | ControlChars string
  | NotAllowed string string
  | OutOfRange string
  | TooMany string nat
  | EmptyEntry string
  | BadTime string
  | Sentinel string

fun first_err :: "'e option list \<Rightarrow> 'e option" where
  "first_err [] = None"
| "first_err (e # es) = (case e of Some x \<Rightarrow> Some x | None \<Rightarrow> first_err es)"

lemma first_err_None [simp]: "first_err es = None \<longleftrightarrow> (\<forall>e\<in>set es. e = None)"
  by (induction es) (auto split: option.splits)

lemma first_err_Some: "first_err es = Some x \<Longrightarrow> Some x \<in> set es"
  by (induction es) (auto split: option.splits)

declare first_err.simps(2) [simp del]

definition reject :: "bool \<Rightarrow> 'e \<Rightarrow> 'e option" where
  "reject bad e = (if bad then Some e else None)"

lemma reject_None [simp]: "reject bad e = None \<longleftrightarrow> \<not> bad"
  by (simp add: reject_def)

lemma reject_Some [simp]: "reject bad e = Some x \<longleftrightarrow> bad \<and> x = e"
  by (auto simp: reject_def)

definition bounded :: "string \<Rightarrow> string \<Rightarrow> nat \<Rightarrow> verr option" where
  "bounded name v mx = first_err
     [reject (rune_count v > mx) (Exceeds name mx),
      reject (CHR 0x00 \<in> set v) (NullBytes name)]"

definition requireBounded :: "string \<Rightarrow> string \<Rightarrow> nat \<Rightarrow> verr option" where
  "requireBounded name v mx = (if v = [] then Some (Required name) else bounded name v mx)"

lemma bounded_None [simp]:
  "bounded name v mx = None \<longleftrightarrow> rune_count v \<le> mx \<and> CHR 0x00 \<notin> set v"
  by (auto simp: bounded_def)

lemma requireBounded_None [simp]:
  "requireBounded name v mx = None \<longleftrightarrow> v \<noteq> [] \<and> rune_count v \<le> mx \<and> CHR 0x00 \<notin> set v"
  by (auto simp: requireBounded_def)

section \<open>HTTP answers\<close>

text \<open>
  A handler writes one answer: \<open>writeError(status, code, message)\<close> with a fixed message
  (\<open>WriteError\<close>) or with the text of a Go error (\<open>WriteErrText\<close>, which keeps the error), or a JSON
  body with its status.
  A request body is the result of the JSON decoder, \<open>None\<close> when the decoder reports an error.
  Log lines and fixed headers are left out.
\<close>

datatype ('e, 'b) answer =
    WriteError nat string string
  | WriteErrText nat string 'e
  | WriteJSON nat 'b

fun status_of :: "('e, 'b) answer \<Rightarrow> nat" where
  "status_of (WriteError s c m) = s"
| "status_of (WriteErrText s c e) = s"
| "status_of (WriteJSON s b) = s"

fun is_error :: "('e, 'b) answer \<Rightarrow> bool" where
  "is_error (WriteError s c m) = True"
| "is_error (WriteErrText s c e) = True"
| "is_error (WriteJSON s b) = False"

end
