(* ===== verification/GP_Interfaces.thy ===== *)
theory GP_Interfaces
  imports GP_Prelude
begin

text \<open>
  The contracts several components share, each as a locale whose parameters are the operations a
  client calls and whose assumptions are the laws a provider promises.
  \<open>revocable_store\<close> is the contract of every store of records that are added under a fresh
  identifier and revoked by identifier (roles, consents, API keys); \<open>once_revocable_store\<close> adds that
  a second revocation is refused.
  The component theories interpret them on the models of the code's stores.
\<close>

locale revocable_store =
  fixes get :: "'s \<Rightarrow> ident \<Rightarrow> 'r option"
    and add :: "ident \<Rightarrow> time \<Rightarrow> 'r \<Rightarrow> 's \<Rightarrow> 's"
    and revoke :: "ident \<Rightarrow> time \<Rightarrow> 's \<Rightarrow> 'e + 's"
    and stamp :: "ident \<Rightarrow> time \<Rightarrow> 'r \<Rightarrow> 'r"
    and mark :: "time \<Rightarrow> 'r \<Rightarrow> 'r"
    and status :: "'r \<Rightarrow> string"
  assumes get_add: "get (add i t r s) j = (if j = i then Some (stamp i t r) else get s j)"
    and revoke_ok: "revoke i t s = Inr s' \<Longrightarrow>
          \<exists>r. get s i = Some r \<and> get s' = (get s)(i \<mapsto> mark t r)"
    and revoke_missing: "get s i = None \<Longrightarrow> \<exists>e. revoke i t s = Inl e"
    and mark_revoked: "status (mark t r) = ''REVOKED''"
begin

inductive run :: "'s \<Rightarrow> 's \<Rightarrow> bool" for s0 where
  run_refl: "run s0 s0"
| run_add: "run s0 s \<Longrightarrow> get s i = None \<Longrightarrow> run s0 (add i t r s)"
| run_revoke: "run s0 s \<Longrightarrow> revoke i t s = Inr s' \<Longrightarrow> run s0 s'"

lemma run_trans: "run b c \<Longrightarrow> run a b \<Longrightarrow> run a c"
  by (induction rule: run.induct) (auto intro: run.intros)

lemma revoke_effect: "revoke i t s = Inr s' \<Longrightarrow> \<exists>r. get s' i = Some r \<and> status r = ''REVOKED''"
  by (auto dest!: revoke_ok simp: mark_revoked)

lemma revoke_frame: "revoke i t s = Inr s' \<Longrightarrow> j \<noteq> i \<Longrightarrow> get s' j = get s j"
  by (auto dest!: revoke_ok)

lemma run_keeps_records: "run s0 s \<Longrightarrow> get s0 i \<noteq> None \<Longrightarrow> get s i \<noteq> None"
  by (induction rule: run.induct) (auto simp: get_add dest!: revoke_ok)

lemma revoked_forever:
  assumes "run s0 s" "get s0 i = Some r" "status r = ''REVOKED''"
  shows "\<exists>r'. get s i = Some r' \<and> status r' = ''REVOKED''"
  using assms
proof (induction rule: run.induct)
  case (run_revoke s j t s')
  show ?case
  proof (cases "j = i")
    case True
    with run_revoke.hyps(2) show ?thesis by (simp add: revoke_effect)
  next
    case False
    with run_revoke show ?thesis by (simp add: revoke_frame [OF run_revoke.hyps(2)])
  qed
qed (auto simp: get_add)

end

locale once_revocable_store = revocable_store +
  assumes revoke_again: "get s i = Some r \<Longrightarrow> status r = ''REVOKED'' \<Longrightarrow> \<exists>e. revoke i t s = Inl e"
begin

lemma revoke_once: "revoke i t s = Inr s' \<Longrightarrow> run s' s'' \<Longrightarrow> \<exists>e. revoke i t' s'' = Inl e"
  by (meson revoke_again revoke_effect revoked_forever)

lemma revoked_record_fixed:
  assumes "run s0 s" "get s0 i = Some r" "status r = ''REVOKED''"
  shows "get s i = Some r"
  using assms
proof (induction rule: run.induct)
  case (run_revoke s j t s')
  then have "get s i = Some r" by simp
  with run_revoke show ?case by (cases "j = i") (auto dest: revoke_frame revoke_again [of s i r t])
qed (auto simp: get_add)

end

end
