(* ===== verification/Corp_Model.thy ===== *)
theory Corp_Model
  imports GP_Interfaces
begin

text \<open>
  The data of the corporate-identity service (\<open>services/garudacorp\<close>): entities with their officers and
  shareholders, roles, beneficial-ownership results, the errors of the stores, the three store
  interfaces of the Go code as records of operations, and the world state of the in-memory stores.
  \<open>uuid.New()\<close> is the parameter \<open>rand\<close>: the \<open>n\<close>-th identifier drawn is \<open>rand n\<close>, and the state counts
  the draws.
\<close>

section \<open>Records\<close>

abbreviation RoleRegisteredOfficer :: string where "RoleRegisteredOfficer \<equiv> ''REGISTERED_OFFICER''"
abbreviation RoleAdmin :: string where "RoleAdmin \<equiv> ''ADMIN''"
abbreviation RoleUser :: string where "RoleUser \<equiv> ''USER''"
abbreviation StatusActive :: string where "StatusActive \<equiv> ''ACTIVE''"
abbreviation StatusRevoked :: string where "StatusRevoked \<equiv> ''REVOKED''"

record EntityRole =
  er_ID :: ident
  er_EntityID :: ident
  er_UserID :: ident
  er_Role :: string
  er_GrantedBy :: ident
  er_ServiceAccess :: "string list"
  er_Status :: string
  er_GrantedAt :: time
  er_RevokedAt :: "time option"

record EntityOfficer =
  eo_ID :: ident
  eo_EntityID :: ident
  eo_UserID :: ident
  eo_NIKToken :: string
  eo_Name :: string
  eo_Position :: string
  eo_AppointmentDate :: string
  eo_Verified :: bool

text \<open>Percentages (\<open>float64\<close>) are reals: the code only compares them and adds them up.\<close>

record EntityShareholder =
  es_ID :: ident
  es_EntityID :: ident
  es_Name :: string
  es_ShareType :: string
  es_Shares :: int
  es_Percentage :: real

record Entity =
  en_ID :: ident
  en_AHUSKNumber :: string
  en_Name :: string
  en_EntityType :: string
  en_Status :: string
  en_NPWP :: string
  en_Address :: string
  en_CapitalAuth :: int
  en_CapitalPaid :: int
  en_AHUVerifiedAt :: time
  en_OSSNIB :: string
  en_OSSVerifiedAt :: "time option"
  en_Officers :: "EntityOfficer list"
  en_Shareholders :: "EntityShareholder list"
  en_CreatedAt :: time
  en_UpdatedAt :: time

record BeneficialOwner =
  bo_Name :: string
  bo_NIKToken :: string
  bo_OwnershipType :: string
  bo_Percentage :: real
  bo_Source :: string
  bo_VerifiedAt :: time

record AnalysisResult =
  ar_EntityID :: ident
  ar_EntityName :: string
  ar_BeneficialOwners :: "BeneficialOwner list"
  ar_AnalyzedAt :: time
  ar_Criteria :: string
  ar_Status :: string

section \<open>Errors and interfaces\<close>

datatype corp_err =
    ErrRoleNotFound
  | ErrRoleAlreadyRevoked
  | ErrInsufficientRole
  | ErrCannotAssignRole
  | UnknownRole string string
  | ErrEntityNotFound
  | ErrUBONotFound
  | InvalidRecord verr
  | Backend string

text \<open>
  The Go interfaces \<open>RoleStore\<close>, \<open>EntityStore\<close> and \<open>UBOStore\<close>: what a handler may call.
  A writing operation returns an error or its result with the new state.
\<close>

record 's RoleStore =
  rs_Assign :: "EntityRole \<Rightarrow> 's \<Rightarrow> corp_err + EntityRole \<times> 's"
  rs_ListByEntity :: "ident \<Rightarrow> 's \<Rightarrow> corp_err + EntityRole list"
  rs_GetByID :: "ident \<Rightarrow> 's \<Rightarrow> corp_err + EntityRole"
  rs_Revoke :: "ident \<Rightarrow> 's \<Rightarrow> corp_err + 's"
  rs_GetUserRole :: "ident \<Rightarrow> ident \<Rightarrow> 's \<Rightarrow> corp_err + EntityRole"

record 's EntityStore =
  st_Create :: "Entity \<Rightarrow> 's \<Rightarrow> corp_err + Entity \<times> 's"
  st_GetByID :: "ident \<Rightarrow> 's \<Rightarrow> corp_err + Entity"
  st_GetBySKNumber :: "string \<Rightarrow> 's \<Rightarrow> corp_err + Entity"
  st_AddOfficers :: "ident \<Rightarrow> EntityOfficer list \<Rightarrow> 's \<Rightarrow> corp_err + 's"
  st_AddShareholders :: "ident \<Rightarrow> EntityShareholder list \<Rightarrow> 's \<Rightarrow> corp_err + 's"

record 's UBOStore =
  us_Save :: "AnalysisResult \<Rightarrow> 's \<Rightarrow> corp_err + 's"
  us_GetByEntityID :: "ident \<Rightarrow> 's \<Rightarrow> corp_err + AnalysisResult"
  us_ListAll :: "'s \<Rightarrow> corp_err + AnalysisResult list"

section \<open>The state of the in-memory stores\<close>

record corp =
  corp_roles :: "ident \<rightharpoonup> EntityRole"
  corp_entities :: "ident \<rightharpoonup> Entity"
  corp_ubos :: "ident \<rightharpoonup> AnalysisResult"
  corp_drawn :: nat

definition corp_init :: corp where
  "corp_init = \<lparr>corp_roles = Map.empty, corp_entities = Map.empty, corp_ubos = Map.empty,
                corp_drawn = 0\<rparr>"

end
