(* ===== verification/Corp_Role.thy ===== *)
theory Corp_Role
  imports Corp_Model
begin

text \<open>
  Roles of the corporate service: the in-memory role store (\<open>store/role.go\<close>) and the handlers that
  assign, list and revoke roles (\<open>handler/role.go\<close>).
  The handlers are written over the \<open>RoleStore\<close> and \<open>EntityStore\<close> interfaces, as in Go; the locale
  \<open>role_store\<close> states what a role store promises, holds the lemmas on the handlers and is
  interpreted on the in-memory store.
\<close>

section \<open>The role hierarchy\<close>

definition roleLevel :: "string \<Rightarrow> int" where
  "roleLevel r =
     (if r = RoleRegisteredOfficer then 3
      else if r = RoleAdmin then 2
      else if r = RoleUser then 1
      else - 1)"

definition ValidateRoleAssignment :: "string \<Rightarrow> string \<Rightarrow> corp_err option" where
  "ValidateRoleAssignment callerRole targetRole =
     (let callerLevel = roleLevel callerRole; targetLevel = roleLevel targetRole in
      if callerLevel < 0 \<or> targetLevel < 0 then Some (UnknownRole callerRole targetRole)
      else if callerLevel \<le> targetLevel then Some ErrCannotAssignRole
      else None)"

lemma ValidateRoleAssignment_None:
  "ValidateRoleAssignment c t = None \<longleftrightarrow> 0 < roleLevel t \<and> roleLevel t < roleLevel c"
  by (auto simp: ValidateRoleAssignment_def Let_def roleLevel_def)

lemma roleLevel_le_3: "roleLevel r \<le> 3"
  by (simp add: roleLevel_def)

lemma roleLevel_eq_3: "roleLevel r = 3 \<longleftrightarrow> r = RoleRegisteredOfficer"
  by (simp add: roleLevel_def)

section \<open>The in-memory store\<close>

definition role_Assign ::
  "ident \<Rightarrow> time \<Rightarrow> EntityRole \<Rightarrow> (ident \<rightharpoonup> EntityRole) \<Rightarrow> EntityRole \<times> (ident \<rightharpoonup> EntityRole)" where
  "role_Assign uid now r m =
     (let r' = r\<lparr>er_ID := uid, er_Status := StatusActive, er_GrantedAt := now\<rparr>
      in (r', m(uid \<mapsto> r')))"

definition role_ListByEntity ::
  "ident list \<Rightarrow> ident \<Rightarrow> (ident \<rightharpoonup> EntityRole) \<Rightarrow> EntityRole list" where
  "role_ListByEntity ks entityID m = filter (\<lambda>r. er_EntityID r = entityID) (range_vals ks m)"

definition role_GetByID :: "ident \<Rightarrow> (ident \<rightharpoonup> EntityRole) \<Rightarrow> corp_err + EntityRole" where
  "role_GetByID i m = (case m i of None \<Rightarrow> Inl ErrRoleNotFound | Some r \<Rightarrow> Inr r)"

definition role_Revoke ::
  "ident \<Rightarrow> time \<Rightarrow> (ident \<rightharpoonup> EntityRole) \<Rightarrow> corp_err + (ident \<rightharpoonup> EntityRole)" where
  "role_Revoke i now m =
     (case m i of
        None \<Rightarrow> Inl ErrRoleNotFound
      | Some r \<Rightarrow>
          if er_Status r = StatusRevoked then Inl ErrRoleAlreadyRevoked
          else Inr (m(i \<mapsto> r\<lparr>er_Status := StatusRevoked, er_RevokedAt := Some now\<rparr>)))"

definition role_GetUserRole ::
  "ident list \<Rightarrow> ident \<Rightarrow> ident \<Rightarrow> (ident \<rightharpoonup> EntityRole) \<Rightarrow> corp_err + EntityRole" where
  "role_GetUserRole ks entityID userID m =
     (case find (\<lambda>r. er_EntityID r = entityID \<and> er_UserID r = userID \<and> er_Status r = StatusActive)
             (range_vals ks m) of
        Some r \<Rightarrow> Inr r
      | None \<Rightarrow> Inl ErrRoleNotFound)"

definition InMemoryRoleStore ::
  "(nat \<Rightarrow> ident) \<Rightarrow> time \<Rightarrow> ident list \<Rightarrow> corp RoleStore" where
  "InMemoryRoleStore rand now ks = \<lparr>
     rs_Assign = (\<lambda>r s.
       let (r', m) = role_Assign (rand (corp_drawn s)) now r (corp_roles s)
       in Inr (r', s\<lparr>corp_roles := m, corp_drawn := Suc (corp_drawn s)\<rparr>)),
     rs_ListByEntity = (\<lambda>e s. Inr (role_ListByEntity ks e (corp_roles s))),
     rs_GetByID = (\<lambda>i s. role_GetByID i (corp_roles s)),
     rs_Revoke = (\<lambda>i s. map_sum id (\<lambda>m. s\<lparr>corp_roles := m\<rparr>) (role_Revoke i now (corp_roles s))),
     rs_GetUserRole = (\<lambda>e u s. role_GetUserRole ks e u (corp_roles s))\<rparr>"

lemma role_Revoke_Inr: "role_Revoke i t m = Inr m' \<longleftrightarrow>
  (\<exists>r. m i = Some r \<and> er_Status r \<noteq> StatusRevoked \<and>
       m' = m(i \<mapsto> r\<lparr>er_Status := StatusRevoked, er_RevokedAt := Some t\<rparr>))"
  by (auto simp: role_Revoke_def split: option.splits)

lemma role_GetUserRole_Inr: "role_GetUserRole ks e u m = Inr r \<Longrightarrow>
  r \<in> ran m \<and> er_EntityID r = e \<and> er_UserID r = u \<and> er_Status r = StatusActive"
  by (auto simp: role_GetUserRole_def set_range_vals ran_def dest!: find_SomeD split: option.splits)

lemma role_GetUserRole_Inl:
  assumes r: "range_of ks m"
  shows "role_GetUserRole ks e u m = Inl err \<longleftrightarrow> err = ErrRoleNotFound \<and>
    (\<forall>r\<in>ran m. \<not> (er_EntityID r = e \<and> er_UserID r = u \<and> er_Status r = StatusActive))"
proof -
  let ?P = "\<lambda>r. er_EntityID r = e \<and> er_UserID r = u \<and> er_Status r = StatusActive"
  show ?thesis
  proof (cases "find ?P (range_vals ks m)")
    case None
    with find_range_None [OF r, of ?P] show ?thesis by (auto simp: role_GetUserRole_def)
  next
    case (Some v)
    with find_range_SomeD [OF r Some] show ?thesis by (auto simp: role_GetUserRole_def)
  qed
qed

interpretation role_rev: once_revocable_store
  "\<lambda>m. m" "\<lambda>i t r m. snd (role_Assign i t r m)" role_Revoke
  "\<lambda>i t r. r\<lparr>er_ID := i, er_Status := StatusActive, er_GrantedAt := t\<rparr>"
  "\<lambda>t r. r\<lparr>er_Status := StatusRevoked, er_RevokedAt := Some t\<rparr>" er_Status
  by unfold_locales (auto simp: role_Assign_def role_Revoke_def Let_def split: option.splits if_splits)

section \<open>The handlers\<close>

record assignRoleRequest =
  aq_UserID :: ident
  aq_Role :: string
  aq_ServiceAccess :: "string list"
  aq_CallerUserID :: ident

datatype roleResponse =
    AssignRoleResponse ident string string
  | RoleList "EntityRole list"
  | StatusBody string

definition AssignRole ::
  "'s RoleStore \<Rightarrow> 's EntityStore \<Rightarrow> ident \<Rightarrow> assignRoleRequest option \<Rightarrow> 's \<Rightarrow>
     (corp_err, roleResponse) answer \<times> 's" where
  "AssignRole R E entityID body s =
     (if entityID = [] then (WriteError 400 ''invalid_request'' ''entity_id is required'', s)
      else case body of
        None \<Rightarrow> (WriteError 400 ''invalid_request'' ''Invalid JSON body'', s)
      | Some req \<Rightarrow>
        if aq_UserID req = [] \<or> aq_Role req = [] \<or> aq_CallerUserID req = []
        then (WriteError 400 ''invalid_request''
                ''user_id, role, and caller_user_id are required'', s)
        else case st_GetByID E entityID s of
          Inl err \<Rightarrow>
            if err = ErrEntityNotFound
            then (WriteError 404 ''entity_not_found'' ''Entity not found'', s)
            else (WriteError 500 ''internal_error'' ''Failed to retrieve entity'', s)
        | Inr _ \<Rightarrow> (case rs_GetUserRole R entityID (aq_CallerUserID req) s of
            Inl err \<Rightarrow>
              if err = ErrRoleNotFound
              then (WriteError 403 ''forbidden'' ''Caller has no role in this entity'', s)
              else (WriteError 500 ''internal_error'' ''Failed to check permissions'', s)
          | Inr callerRole \<Rightarrow>
              (case ValidateRoleAssignment (er_Role callerRole) (aq_Role req) of
                Some err \<Rightarrow> (WriteErrText 403 ''forbidden'' err, s)
              | None \<Rightarrow>
                 (let role = \<lparr>er_ID = [], er_EntityID = entityID, er_UserID = aq_UserID req,
                              er_Role = aq_Role req, er_GrantedBy = aq_CallerUserID req,
                              er_ServiceAccess = aq_ServiceAccess req, er_Status = [],
                              er_GrantedAt = zero_time, er_RevokedAt = None\<rparr>
                  in case rs_Assign R role s of
                       Inl err \<Rightarrow> (WriteError 500 ''internal_error'' ''Failed to assign role'', s)
                     | Inr (role', s') \<Rightarrow>
                         (WriteJSON 201
                            (AssignRoleResponse (er_ID role') (er_Role role') (er_Status role')),
                          s')))))"

definition ListRoles ::
  "'s RoleStore \<Rightarrow> ident \<Rightarrow> 's \<Rightarrow> (corp_err, roleResponse) answer" where
  "ListRoles R entityID s =
     (if entityID = [] then WriteError 400 ''invalid_request'' ''entity_id is required''
      else case rs_ListByEntity R entityID s of
        Inl err \<Rightarrow> WriteError 500 ''internal_error'' ''Failed to list roles''
      | Inr roles \<Rightarrow> WriteJSON 200 (RoleList roles))"

definition RevokeRole ::
  "'s RoleStore \<Rightarrow> ident \<Rightarrow> ident \<Rightarrow> 's \<Rightarrow> (corp_err, roleResponse) answer \<times> 's" where
  "RevokeRole R entityID roleID s =
     (if entityID = [] \<or> roleID = []
      then (WriteError 400 ''invalid_request'' ''entity_id and role_id are required'', s)
      else case rs_GetByID R roleID s of
        Inl err \<Rightarrow>
          if err = ErrRoleNotFound then (WriteError 404 ''role_not_found'' ''Role not found'', s)
          else (WriteError 500 ''internal_error'' ''Failed to retrieve role'', s)
      | Inr role \<Rightarrow>
          if er_EntityID role \<noteq> entityID
          then (WriteError 404 ''role_not_found'' ''Role not found in this entity'', s)
          else case rs_Revoke R roleID s of
            Inl err \<Rightarrow>
              if err = ErrRoleAlreadyRevoked
              then (WriteError 409 ''already_revoked'' ''Role is already revoked'', s)
              else (WriteError 500 ''internal_error'' ''Failed to revoke role'', s)
          | Inr s' \<Rightarrow> (WriteJSON 200 (StatusBody ''revoked''), s'))"

text \<open>The success path of \<open>AssignRole\<close>, over any stores.\<close>

lemma AssignRole_path:
  assumes "AssignRole R E eid body s = (ans, s')" "\<not> is_error ans \<or> s' \<noteq> s"
  obtains req caller r where "body = Some req" "st_GetByID E eid s \<noteq> Inl ErrEntityNotFound"
    "rs_GetUserRole R eid (aq_CallerUserID req) s = Inr caller"
    "ValidateRoleAssignment (er_Role caller) (aq_Role req) = None"
    "rs_Assign R \<lparr>er_ID = [], er_EntityID = eid, er_UserID = aq_UserID req,
              er_Role = aq_Role req, er_GrantedBy = aq_CallerUserID req,
              er_ServiceAccess = aq_ServiceAccess req, er_Status = [],
              er_GrantedAt = zero_time, er_RevokedAt = None\<rparr> s = Inr (r, s')"
    "ans = WriteJSON 201 (AssignRoleResponse (er_ID r) (er_Role r) (er_Status r))"
  using assms
  by (auto simp: AssignRole_def Let_def split: if_splits option.splits sum.splits intro: that)

section \<open>The contract of a role store and what the handlers do with it\<close>

locale role_store =
  fixes R :: "'s RoleStore" and roles :: "'s \<Rightarrow> (ident \<rightharpoonup> EntityRole)"
  assumes assign_ok: "rs_Assign R r s = Inr (r', s') \<Longrightarrow> er_RevokedAt r = None \<Longrightarrow>
        roles s' = (roles s)(er_ID r' \<mapsto> r') \<and> er_EntityID r' = er_EntityID r \<and>
        er_UserID r' = er_UserID r \<and> er_Role r' = er_Role r \<and> er_GrantedBy r' = er_GrantedBy r \<and>
        er_Status r' = StatusActive"
    and user_role_ok: "rs_GetUserRole R e u s = Inr r \<Longrightarrow>
        r \<in> ran (roles s) \<and> er_EntityID r = e \<and> er_UserID r = u \<and> er_Status r = StatusActive"
    and get_ok: "rs_GetByID R i s = Inr r \<Longrightarrow> roles s i = Some r"
    and revoke_ok: "rs_Revoke R i s = Inr s' \<Longrightarrow>
        \<exists>r t. roles s i = Some r \<and> er_Status r \<noteq> StatusRevoked \<and>
          roles s' = (roles s)(i \<mapsto> r\<lparr>er_Status := StatusRevoked, er_RevokedAt := Some t\<rparr>)"
begin

lemma AssignRole_error: "AssignRole R E eid body s = (ans, s') \<Longrightarrow> is_error ans \<Longrightarrow> s' = s"
  by (auto simp: AssignRole_def Let_def split: if_splits option.splits sum.splits)

lemma AssignRole_created:
  assumes "AssignRole R E eid body s = (ans, s')" "\<not> is_error ans"
  obtains req caller r where
    "body = Some req" "st_GetByID E eid s \<noteq> Inl ErrEntityNotFound"
    "caller \<in> ran (roles s)" "er_EntityID caller = eid" "er_UserID caller = aq_CallerUserID req"
    "er_Status caller = StatusActive"
    "0 < roleLevel (aq_Role req)" "roleLevel (aq_Role req) < roleLevel (er_Role caller)"
    "roles s' = (roles s)(er_ID r \<mapsto> r)" "er_EntityID r = eid" "er_UserID r = aq_UserID req"
    "er_Role r = aq_Role req" "er_GrantedBy r = aq_CallerUserID req" "er_Status r = StatusActive"
    "ans = WriteJSON 201 (AssignRoleResponse (er_ID r) (aq_Role req) StatusActive)"
proof -
  from assms(2) have "\<not> is_error ans \<or> s' \<noteq> s" ..
  from AssignRole_path [OF assms(1) this] obtain req caller r where req: "body = Some req"
    and ent: "st_GetByID E eid s \<noteq> Inl ErrEntityNotFound"
    and caller: "rs_GetUserRole R eid (aq_CallerUserID req) s = Inr caller"
    and valid: "ValidateRoleAssignment (er_Role caller) (aq_Role req) = None"
    and r: "rs_Assign R \<lparr>er_ID = [], er_EntityID = eid, er_UserID = aq_UserID req,
              er_Role = aq_Role req, er_GrantedBy = aq_CallerUserID req,
              er_ServiceAccess = aq_ServiceAccess req, er_Status = [],
              er_GrantedAt = zero_time, er_RevokedAt = None\<rparr> s = Inr (r, s')"
    and ans: "ans = WriteJSON 201 (AssignRoleResponse (er_ID r) (er_Role r) (er_Status r))" .
  from assign_ok [OF r] user_role_ok [OF caller] valid ans show thesis
    by (intro that [OF req ent]) (auto simp: ValidateRoleAssignment_None)
qed

lemma RevokeRole_error: "RevokeRole R eid rid s = (ans, s') \<Longrightarrow> is_error ans \<Longrightarrow> s' = s"
  by (auto simp: RevokeRole_def split: if_splits sum.splits)

lemma RevokeRole_ok:
  assumes "RevokeRole R eid rid s = (ans, s')" "\<not> is_error ans"
  obtains r t where "roles s rid = Some r" "er_EntityID r = eid" "er_Status r \<noteq> StatusRevoked"
    "roles s' = (roles s)(rid \<mapsto> r\<lparr>er_Status := StatusRevoked, er_RevokedAt := Some t\<rparr>)"
    "ans = WriteJSON 200 (StatusBody ''revoked'')"
proof -
  from assms obtain r where "rs_GetByID R rid s = Inr r" "er_EntityID r = eid"
    "rs_Revoke R rid s = Inr s'" "ans = WriteJSON 200 (StatusBody ''revoked'')"
    by (auto simp: RevokeRole_def split: if_splits sum.splits)
  with get_ok revoke_ok [of rid s s'] show thesis by (auto intro: that)
qed

end

interpretation mem_roles: role_store "InMemoryRoleStore rand now ks" corp_roles for rand now ks
proof unfold_locales
  show "rs_GetUserRole (InMemoryRoleStore rand now ks) e u s = Inr r \<Longrightarrow>
    r \<in> ran (corp_roles s) \<and> er_EntityID r = e \<and> er_UserID r = u \<and> er_Status r = StatusActive"
    for e u s r
    by (auto simp: InMemoryRoleStore_def dest: role_GetUserRole_Inr)
qed (auto simp: InMemoryRoleStore_def role_Assign_def role_GetByID_def role_Revoke_def Let_def
      split: option.splits if_splits)

end
