(* ===== verification/Corp_Entity.thy ===== *)
theory Corp_Entity
  imports Corp_Role
begin

text \<open>
  Corporate entities: the in-memory entity store (\<open>store/entity.go\<close>), the registration of a company
  from the AHU registry (\<open>handler/register.go\<close>) and the entity profile with its OSS enrichment
  (\<open>handler/entity.go\<close>).
  The AHU and OSS clients are the interfaces \<open>AHUVerifier\<close> and \<open>OSSSearcher\<close>; HMAC-SHA256 is the
  parameter \<open>mac\<close> (key, then message).
\<close>

section \<open>The in-memory store\<close>

definition entity_Create ::
  "ident \<Rightarrow> time \<Rightarrow> Entity \<Rightarrow> (ident \<rightharpoonup> Entity) \<Rightarrow> Entity \<times> (ident \<rightharpoonup> Entity)" where
  "entity_Create uid now e m =
     (let e' = e\<lparr>en_ID := uid, en_CreatedAt := now, en_UpdatedAt := now\<rparr> in (e', m(uid \<mapsto> e')))"

definition entity_GetByID :: "ident \<Rightarrow> (ident \<rightharpoonup> Entity) \<Rightarrow> corp_err + Entity" where
  "entity_GetByID i m = (case m i of None \<Rightarrow> Inl ErrEntityNotFound | Some e \<Rightarrow> Inr e)"

definition entity_GetBySKNumber ::
  "ident list \<Rightarrow> string \<Rightarrow> (ident \<rightharpoonup> Entity) \<Rightarrow> corp_err + Entity" where
  "entity_GetBySKNumber ks sk m =
     (case find (\<lambda>e. en_AHUSKNumber e = sk) (range_vals ks m) of
        Some e \<Rightarrow> Inr e
      | None \<Rightarrow> Inl ErrEntityNotFound)"

definition stamp_officers :: "(nat \<Rightarrow> ident) \<Rightarrow> nat \<Rightarrow> ident \<Rightarrow> EntityOfficer list \<Rightarrow> EntityOfficer list" where
  "stamp_officers rand d entityID os =
     map (\<lambda>(i, o'). o'\<lparr>eo_ID := rand i, eo_EntityID := entityID\<rparr>) (enumerate d os)"

definition stamp_shareholders ::
  "(nat \<Rightarrow> ident) \<Rightarrow> nat \<Rightarrow> ident \<Rightarrow> EntityShareholder list \<Rightarrow> EntityShareholder list" where
  "stamp_shareholders rand d entityID ss =
     map (\<lambda>(i, s). s\<lparr>es_ID := rand i, es_EntityID := entityID\<rparr>) (enumerate d ss)"

definition entity_AddOfficers ::
  "(nat \<Rightarrow> ident) \<Rightarrow> nat \<Rightarrow> time \<Rightarrow> ident \<Rightarrow> EntityOfficer list \<Rightarrow> (ident \<rightharpoonup> Entity) \<Rightarrow>
     corp_err + (ident \<rightharpoonup> Entity)" where
  "entity_AddOfficers rand d now entityID officers m =
     (case m entityID of
        None \<Rightarrow> Inl ErrEntityNotFound
      | Some e \<Rightarrow>
          Inr (m(entityID \<mapsto> e\<lparr>en_Officers := en_Officers e @ stamp_officers rand d entityID officers,
                               en_UpdatedAt := now\<rparr>)))"

definition entity_AddShareholders ::
  "(nat \<Rightarrow> ident) \<Rightarrow> nat \<Rightarrow> time \<Rightarrow> ident \<Rightarrow> EntityShareholder list \<Rightarrow> (ident \<rightharpoonup> Entity) \<Rightarrow>
     corp_err + (ident \<rightharpoonup> Entity)" where
  "entity_AddShareholders rand d now entityID shareholders m =
     (case m entityID of
        None \<Rightarrow> Inl ErrEntityNotFound
      | Some e \<Rightarrow>
          Inr (m(entityID \<mapsto>
            e\<lparr>en_Shareholders := en_Shareholders e @ stamp_shareholders rand d entityID shareholders,
              en_UpdatedAt := now\<rparr>)))"

definition InMemoryEntityStore :: "(nat \<Rightarrow> ident) \<Rightarrow> time \<Rightarrow> ident list \<Rightarrow> corp EntityStore" where
  "InMemoryEntityStore rand now ks = \<lparr>
     st_Create = (\<lambda>e s.
       let (e', m) = entity_Create (rand (corp_drawn s)) now e (corp_entities s)
       in Inr (e', s\<lparr>corp_entities := m, corp_drawn := Suc (corp_drawn s)\<rparr>)),
     st_GetByID = (\<lambda>i s. entity_GetByID i (corp_entities s)),
     st_GetBySKNumber = (\<lambda>sk s. entity_GetBySKNumber ks sk (corp_entities s)),
     st_AddOfficers = (\<lambda>i os s. map_sum id
       (\<lambda>m. s\<lparr>corp_entities := m, corp_drawn := corp_drawn s + length os\<rparr>)
       (entity_AddOfficers rand (corp_drawn s) now i os (corp_entities s))),
     st_AddShareholders = (\<lambda>i ss s. map_sum id
       (\<lambda>m. s\<lparr>corp_entities := m, corp_drawn := corp_drawn s + length ss\<rparr>)
       (entity_AddShareholders rand (corp_drawn s) now i ss (corp_entities s)))\<rparr>"

text \<open>A lookup by SK number finds an entity with it exactly when there is one.\<close>

lemma entity_GetBySKNumber_Inr:
  "entity_GetBySKNumber ks sk m = Inr e \<Longrightarrow> e \<in> ran m \<and> en_AHUSKNumber e = sk"
  by (auto simp: entity_GetBySKNumber_def set_range_vals ran_def dest!: find_SomeD
      split: option.splits)

section \<open>Registration\<close>

record CompanySearchResponse =
  cs_Found :: bool
  cs_SKNumber :: string
  cs_Name :: string
  cs_EntityType :: string
  cs_Status :: string
  cs_NPWP :: string
  cs_Address :: string
  cs_CapitalAuth :: int
  cs_CapitalPaid :: int

record AHUOfficer =
  ao_NIK :: string
  ao_Name :: string
  ao_Position :: string
  ao_AppointmentDate :: string

record AHUShareholder =
  as_Name :: string
  as_ShareType :: string
  as_Shares :: int
  as_Percentage :: real

record AHUVerifier =
  ahu_SearchCompany :: "string \<Rightarrow> string + CompanySearchResponse"
  ahu_GetOfficers :: "string \<Rightarrow> string + AHUOfficer list"
  ahu_GetShareholders :: "string \<Rightarrow> string + AHUShareholder list"

record registerRequest =
  rq_SKNumber :: string
  rq_CallerUserID :: ident
  rq_CallerNIK :: string

datatype registerResponse = RegisterResponse ident string

definition tokenizeNIK :: "(string \<Rightarrow> string \<Rightarrow> string) \<Rightarrow> string \<Rightarrow> string \<Rightarrow> string" where
  "tokenizeNIK mac nik key = hex_encode (mac key nik)"

definition isDirector ::
  "(string \<Rightarrow> string \<Rightarrow> string) \<Rightarrow> string \<Rightarrow> string \<Rightarrow> AHUOfficer list \<Rightarrow> bool" where
  "isDirector mac key callerToken officers \<longleftrightarrow>
     (\<exists>o'\<in>set officers. tokenizeNIK mac (ao_NIK o') key = callerToken \<and>
                          ao_Position o' = ''DIREKTUR_UTAMA'')"

definition to_entity :: "time \<Rightarrow> CompanySearchResponse \<Rightarrow> Entity" where
  "to_entity now c =
     \<lparr>en_ID = [], en_AHUSKNumber = cs_SKNumber c, en_Name = cs_Name c,
      en_EntityType = cs_EntityType c, en_Status = cs_Status c, en_NPWP = cs_NPWP c,
      en_Address = cs_Address c, en_CapitalAuth = cs_CapitalAuth c, en_CapitalPaid = cs_CapitalPaid c,
      en_AHUVerifiedAt = now, en_OSSNIB = [], en_OSSVerifiedAt = None, en_Officers = [],
      en_Shareholders = [], en_CreatedAt = zero_time, en_UpdatedAt = zero_time\<rparr>"

definition to_officer ::
  "(string \<Rightarrow> string \<Rightarrow> string) \<Rightarrow> string \<Rightarrow> string \<Rightarrow> AHUOfficer \<Rightarrow> EntityOfficer" where
  "to_officer mac key callerToken o' =
     \<lparr>eo_ID = [], eo_EntityID = [], eo_UserID = [], eo_NIKToken = tokenizeNIK mac (ao_NIK o') key,
      eo_Name = ao_Name o', eo_Position = ao_Position o', eo_AppointmentDate = ao_AppointmentDate o',
      eo_Verified = (tokenizeNIK mac (ao_NIK o') key = callerToken)\<rparr>"

definition to_shareholder :: "AHUShareholder \<Rightarrow> EntityShareholder" where
  "to_shareholder s =
     \<lparr>es_ID = [], es_EntityID = [], es_Name = as_Name s, es_ShareType = as_ShareType s,
      es_Shares = as_Shares s, es_Percentage = as_Percentage s\<rparr>"

text \<open>Steps 6 to 9 of the handler, once the caller is known to be a director.\<close>

definition register_entity ::
  "(string \<Rightarrow> string \<Rightarrow> string) \<Rightarrow> string \<Rightarrow> time \<Rightarrow> 's EntityStore \<Rightarrow> 's RoleStore \<Rightarrow>
     registerRequest \<Rightarrow> CompanySearchResponse \<Rightarrow> AHUOfficer list \<Rightarrow> AHUShareholder list \<Rightarrow> 's \<Rightarrow>
     (corp_err, registerResponse) answer \<times> 's" where
  "register_entity mac key now E R req company officers shareholders s =
     (case st_Create E (to_entity now company) s of
        Inl err \<Rightarrow> (WriteError 500 ''internal_error'' ''Failed to create entity'', s)
      | Inr (entity, s1) \<Rightarrow>
         (let callerToken = tokenizeNIK mac (rq_CallerNIK req) key;
              s2 = (case st_AddOfficers E (en_ID entity)
                           (map (to_officer mac key callerToken) officers) s1 of
                      Inl err \<Rightarrow> s1 | Inr s' \<Rightarrow> s');
              s3 = (if shareholders = [] then s2
                    else case st_AddShareholders E (en_ID entity)
                                (map to_shareholder shareholders) s2 of
                      Inl err \<Rightarrow> s2 | Inr s' \<Rightarrow> s');
              role = \<lparr>er_ID = [], er_EntityID = en_ID entity, er_UserID = rq_CallerUserID req,
                      er_Role = RoleRegisteredOfficer, er_GrantedBy = ''system'',
                      er_ServiceAccess = [''signing'', ''garudainfo''], er_Status = [],
                      er_GrantedAt = zero_time, er_RevokedAt = None\<rparr>
          in case rs_Assign R role s3 of
               Inl err \<Rightarrow> (WriteError 500 ''internal_error'' ''Failed to assign role'', s3)
             | Inr (_, s4) \<Rightarrow>
                 (WriteJSON 201 (RegisterResponse (en_ID entity) RoleRegisteredOfficer), s4)))"

definition Register ::
  "(string \<Rightarrow> string \<Rightarrow> string) \<Rightarrow> string \<Rightarrow> time \<Rightarrow> AHUVerifier \<Rightarrow> 's EntityStore \<Rightarrow> 's RoleStore \<Rightarrow>
     registerRequest option \<Rightarrow> 's \<Rightarrow> (corp_err, registerResponse) answer \<times> 's" where
  "Register mac key now A E R body s =
     (case body of
        None \<Rightarrow> (WriteError 400 ''invalid_request'' ''Invalid JSON body'', s)
      | Some req \<Rightarrow>
        if rq_SKNumber req = []
        then (WriteError 400 ''invalid_request'' ''sk_number is required'', s)
        else if rq_CallerUserID req = []
        then (WriteError 400 ''invalid_request'' ''caller_user_id is required'', s)
        else if rq_CallerNIK req = []
        then (WriteError 400 ''invalid_request'' ''caller_nik is required'', s)
        else case ahu_SearchCompany A (rq_SKNumber req) of
          Inl err \<Rightarrow> (WriteError 502 ''ahu_unavailable'' ''AHU service is unavailable'', s)
        | Inr company \<Rightarrow>
          if \<not> cs_Found company
          then (WriteError 404 ''company_not_found''
                  ''Company with the given SK number was not found'', s)
          else case ahu_GetOfficers A (rq_SKNumber req) of
            Inl err \<Rightarrow> (WriteError 502 ''ahu_unavailable'' ''AHU service is unavailable'', s)
          | Inr officers \<Rightarrow>
            if \<not> isDirector mac key (tokenizeNIK mac (rq_CallerNIK req) key) officers
            then (WriteError 403 ''not_authorized''
                    ''Caller is not a Direktur Utama of this company'', s)
            else (let shareholders = (case ahu_GetShareholders A (rq_SKNumber req) of
                                        Inl err \<Rightarrow> [] | Inr ss \<Rightarrow> ss)
                  in register_entity mac key now E R req company officers shareholders s))"

section \<open>The entity profile\<close>

record Business =
  bu_KBLI :: string
  bu_Description :: string
  bu_Status :: string
  bu_RiskLevel :: string

record NIBSearchResponse =
  ni_Found :: bool
  ni_NIB :: string
  ni_NPWP :: string
  ni_Name :: string
  ni_Status :: string
  ni_Businesses :: "Business list"

record entityResponse =
  ep_ID :: ident
  ep_AHUSKNumber :: string
  ep_Name :: string
  ep_EntityType :: string
  ep_Status :: string
  ep_NPWP :: string
  ep_Address :: string
  ep_CapitalAuth :: int
  ep_CapitalPaid :: int
  ep_Officers :: "EntityOfficer list"
  ep_Shareholders :: "EntityShareholder list"
  ep_OSSNIB :: string
  ep_OSSBusinesses :: "Business list"

text \<open>The OSS client is optional (\<open>h.oss != nil\<close>); a failed search leaves the profile as it is.\<close>

definition GetEntity ::
  "'s EntityStore \<Rightarrow> (string \<Rightarrow> string + NIBSearchResponse) option \<Rightarrow> ident \<Rightarrow> 's \<Rightarrow>
     (corp_err, entityResponse) answer" where
  "GetEntity E oss i s =
     (if i = [] then WriteError 400 ''invalid_request'' ''entity id is required''
      else case st_GetByID E i s of
        Inl err \<Rightarrow>
          if err = ErrEntityNotFound then WriteError 404 ''entity_not_found'' ''Entity not found''
          else WriteError 500 ''internal_error'' ''Failed to retrieve entity''
      | Inr e \<Rightarrow>
         (let resp = \<lparr>ep_ID = en_ID e, ep_AHUSKNumber = en_AHUSKNumber e, ep_Name = en_Name e,
                      ep_EntityType = en_EntityType e, ep_Status = en_Status e, ep_NPWP = en_NPWP e,
                      ep_Address = en_Address e, ep_CapitalAuth = en_CapitalAuth e,
                      ep_CapitalPaid = en_CapitalPaid e, ep_Officers = en_Officers e,
                      ep_Shareholders = en_Shareholders e, ep_OSSNIB = [], ep_OSSBusinesses = []\<rparr>
          in case oss of
               None \<Rightarrow> WriteJSON 200 resp
             | Some search \<Rightarrow>
                 if en_NPWP e = [] then WriteJSON 200 resp
                 else case search (en_NPWP e) of
                   Inl err \<Rightarrow> WriteJSON 200 resp
                 | Inr n \<Rightarrow>
                     if ni_Found n
                     then WriteJSON 200 (resp\<lparr>ep_OSSNIB := ni_NIB n, ep_OSSBusinesses := ni_Businesses n\<rparr>)
                     else WriteJSON 200 resp))"

end
