(* ===== verification/Corp_UBO.thy ===== *)
theory Corp_UBO
  imports Corp_Entity
begin

text \<open>
  Beneficial ownership (PP 13/2018): the analyzer (\<open>ubo/analyzer.go\<close>), the in-memory result store
  (\<open>store/ubo.go\<close>), the validators of the production stores (\<open>store/validate.go\<close>) and the handlers
  (\<open>handler/ubo.go\<close>).
  \<open>sort.Slice\<close> is the parameter \<open>srt\<close>, with \<open>sorts_desc\<close> its documented behaviour (some permutation in
  descending order; the order of equal percentages is left open).
\<close>

section \<open>The analyzer\<close>

abbreviation OwnershipDirectShares :: string where "OwnershipDirectShares \<equiv> ''DIRECT_SHARES''"
abbreviation OwnershipDirectorControl :: string where "OwnershipDirectorControl \<equiv> ''DIRECTOR_CONTROL''"
abbreviation StatusIdentified :: string where "StatusIdentified \<equiv> ''IDENTIFIED''"
abbreviation StatusInsufficientData :: string where "StatusInsufficientData \<equiv> ''INSUFFICIENT_DATA''"

definition DefaultThreshold :: real where
  "DefaultThreshold = 25"

record UBOShareholder =
  sh_Name :: string
  sh_NIKToken :: string
  sh_ShareType :: string
  sh_Shares :: int
  sh_Percentage :: real

record UBOOfficer =
  of_Name :: string
  of_NIKToken :: string
  of_Position :: string

definition sorts_desc :: "(BeneficialOwner list \<Rightarrow> BeneficialOwner list) \<Rightarrow> bool" where
  "sorts_desc srt \<longleftrightarrow> (\<forall>xs. mset (srt xs) = mset xs \<and>
     sorted_wrt (\<lambda>a b. bo_Percentage a \<ge> bo_Percentage b) (srt xs))"

definition share_owner :: "time \<Rightarrow> UBOShareholder \<Rightarrow> BeneficialOwner" where
  "share_owner now sh =
     \<lparr>bo_Name = sh_Name sh, bo_NIKToken = sh_NIKToken sh, bo_OwnershipType = OwnershipDirectShares,
      bo_Percentage = sh_Percentage sh, bo_Source = ''AHU'', bo_VerifiedAt = now\<rparr>"

definition director_owner :: "time \<Rightarrow> UBOOfficer \<Rightarrow> BeneficialOwner" where
  "director_owner now o' =
     \<lparr>bo_Name = of_Name o', bo_NIKToken = of_NIKToken o', bo_OwnershipType = OwnershipDirectorControl,
      bo_Percentage = 0, bo_Source = ''AHU'', bo_VerifiedAt = now\<rparr>"

definition Analyze ::
  "(BeneficialOwner list \<Rightarrow> BeneficialOwner list) \<Rightarrow> real \<Rightarrow> time \<Rightarrow> ident \<Rightarrow> string \<Rightarrow>
     UBOShareholder list \<Rightarrow> UBOOfficer list \<Rightarrow> AnalysisResult" where
  "Analyze srt threshold now0 entityID entityName shareholders officers =
     (let now = rfc3339 now0;
          direct = srt (map (share_owner now)
                         (filter (\<lambda>sh. sh_Percentage sh \<ge> threshold) shareholders));
          owners = (if direct = []
                    then (case find (\<lambda>o'. of_Position o' = ''DIREKTUR_UTAMA'') officers of
                            Some o' \<Rightarrow> [director_owner now o']
                          | None \<Rightarrow> [])
                    else direct)
      in \<lparr>ar_EntityID = entityID, ar_EntityName = entityName, ar_BeneficialOwners = owners,
          ar_AnalyzedAt = now, ar_Criteria = ''PP_13_2018'',
          ar_Status = (if owners \<noteq> [] then StatusIdentified else StatusInsufficientData)\<rparr>)"

lemma sorts_desc_Nil [simp]: "sorts_desc srt \<Longrightarrow> srt xs = [] \<longleftrightarrow> xs = []"
  by (metis mset_zero_iff sorts_desc_def)

lemma sorts_desc_set [simp]: "sorts_desc srt \<Longrightarrow> set (srt xs) = set xs"
  by (metis set_mset_mset sorts_desc_def)

lemma sorts_desc_exists: "sorts_desc (sort_key (\<lambda>b. - bo_Percentage b))"
proof -
  have "sorted_wrt (\<lambda>a b. bo_Percentage b \<le> bo_Percentage a) xs"
    if "sorted (map (\<lambda>b. - bo_Percentage b) xs)" for xs :: "BeneficialOwner list"
    using that by (simp add: sorted_map)
  then show ?thesis by (simp add: sorts_desc_def)
qed

text \<open>The owners found directly, by branch.\<close>

lemma Analyze_direct:
  assumes "sorts_desc srt" "\<exists>sh\<in>set shs. sh_Percentage sh \<ge> th"
  shows "mset (ar_BeneficialOwners (Analyze srt th now e n shs ofs)) =
           mset (map (share_owner (rfc3339 now)) (filter (\<lambda>sh. sh_Percentage sh \<ge> th) shs))"
    and "sorted_wrt (\<lambda>a b. bo_Percentage a \<ge> bo_Percentage b)
           (ar_BeneficialOwners (Analyze srt th now e n shs ofs))"
    and "ar_Status (Analyze srt th now e n shs ofs) = StatusIdentified"
proof -
  from assms(2) have ne: "filter (\<lambda>sh. sh_Percentage sh \<ge> th) shs \<noteq> []"
    by (auto simp: filter_empty_conv)
  from assms(1) have m: "mset (srt xs) = mset xs"
    and srt: "sorted_wrt (\<lambda>a b. bo_Percentage a \<ge> bo_Percentage b) (srt xs)" for xs
    unfolding sorts_desc_def by blast+
  show "mset (ar_BeneficialOwners (Analyze srt th now e n shs ofs)) =
           mset (map (share_owner (rfc3339 now)) (filter (\<lambda>sh. sh_Percentage sh \<ge> th) shs))"
    and "sorted_wrt (\<lambda>a b. bo_Percentage a \<ge> bo_Percentage b)
           (ar_BeneficialOwners (Analyze srt th now e n shs ofs))"
    and "ar_Status (Analyze srt th now e n shs ofs) = StatusIdentified"
    using ne m srt assms(1) by (simp_all add: Analyze_def Let_def)
qed

lemma Analyze_fallback:
  assumes "sorts_desc srt" "\<forall>sh\<in>set shs. sh_Percentage sh < th"
  shows "ar_BeneficialOwners (Analyze srt th now e n shs ofs) =
     (case find (\<lambda>o'. of_Position o' = ''DIREKTUR_UTAMA'') ofs of
        Some o' \<Rightarrow> [director_owner (rfc3339 now) o'] | None \<Rightarrow> [])"
proof -
  from assms(2) have "filter (\<lambda>sh. sh_Percentage sh \<ge> th) shs = []"
    by (auto simp: filter_empty_conv)
  with assms(1) show ?thesis by (simp add: Analyze_def Let_def)
qed

section \<open>The in-memory result store\<close>

definition ubo_Save ::
  "AnalysisResult \<Rightarrow> (ident \<rightharpoonup> AnalysisResult) \<Rightarrow> (ident \<rightharpoonup> AnalysisResult)" where
  "ubo_Save r m = m(ar_EntityID r \<mapsto> r)"

definition ubo_GetByEntityID ::
  "ident \<Rightarrow> (ident \<rightharpoonup> AnalysisResult) \<Rightarrow> corp_err + AnalysisResult" where
  "ubo_GetByEntityID i m = (case m i of None \<Rightarrow> Inl ErrUBONotFound | Some r \<Rightarrow> Inr r)"

definition ubo_ListAll :: "ident list \<Rightarrow> (ident \<rightharpoonup> AnalysisResult) \<Rightarrow> AnalysisResult list" where
  "ubo_ListAll ks m = range_vals ks m"

definition InMemoryUBOStore :: "ident list \<Rightarrow> corp UBOStore" where
  "InMemoryUBOStore ks = \<lparr>
     us_Save = (\<lambda>r s. Inr (s\<lparr>corp_ubos := ubo_Save r (corp_ubos s)\<rparr>)),
     us_GetByEntityID = (\<lambda>i s. ubo_GetByEntityID i (corp_ubos s)),
     us_ListAll = (\<lambda>s. Inr (ubo_ListAll ks (corp_ubos s)))\<rparr>"

section \<open>The validators\<close>

definition allowedEntityTypes :: "string list" where
  "allowedEntityTypes = [''PT'', ''CV'', ''YAYASAN'', ''KOPERASI'', ''FIRMA'', ''PERKUMPULAN'',
     ''BUMN'', ''BUMD'']"

definition allowedEntityStatuses :: "string list" where
  "allowedEntityStatuses = [''ACTIVE'', ''INACTIVE'', ''DISSOLVED'', ''SUSPENDED'']"

definition allowedRoles :: "string list" where
  "allowedRoles = [RoleRegisteredOfficer, RoleAdmin, RoleUser]"

definition allowedRoleStatuses :: "string list" where
  "allowedRoleStatuses = [StatusActive, StatusRevoked]"

definition allowedOwnershipTypes :: "string list" where
  "allowedOwnershipTypes = [''DIRECT_SHARES'', ''INDIRECT_SHARES'', ''VOTING_RIGHTS'', ''CONTROL'',
     ''OFFICER'', ''BENEFICIARY'']"

definition allowedUBOStatuses :: "string list" where
  "allowedUBOStatuses = [''IDENTIFIED'', ''VERIFIED'', ''UNVERIFIED'', ''NONE_FOUND'']"

definition ValidateEntity :: "Entity option \<Rightarrow> verr option" where
  "ValidateEntity e' = (case e' of None \<Rightarrow> Some (IsNil ''entity'') | Some e \<Rightarrow> first_err
     [requireBounded ''ahu_sk_number'' (en_AHUSKNumber e) 100,
      requireBounded ''name'' (en_Name e) 500,
      reject (en_EntityType e \<notin> set allowedEntityTypes) (NotAllowed ''entity_type'' (en_EntityType e)),
      reject (en_Status e \<notin> set allowedEntityStatuses) (NotAllowed ''status'' (en_Status e)),
      bounded ''npwp'' (en_NPWP e) 20,
      bounded ''address'' (en_Address e) 2000,
      bounded ''oss_nib'' (en_OSSNIB e) 20,
      reject (en_CapitalAuth e < 0) (OutOfRange ''capital_authorized''),
      reject (en_CapitalPaid e < 0) (OutOfRange ''capital_paid''),
      reject (en_CapitalPaid e > en_CapitalAuth e \<and> en_CapitalAuth e > 0)
        (OutOfRange ''capital_paid exceeds capital_authorized'')])"

definition ValidateOfficer :: "EntityOfficer option \<Rightarrow> verr option" where
  "ValidateOfficer o' = (case o' of None \<Rightarrow> Some (IsNil ''officer'') | Some off \<Rightarrow> first_err
     [requireBounded ''officer.nik_token'' (eo_NIKToken off) 64,
      requireBounded ''officer.name'' (eo_Name off) 255,
      requireBounded ''officer.position'' (eo_Position off) 50])"

definition ValidateShareholder :: "EntityShareholder option \<Rightarrow> verr option" where
  "ValidateShareholder s' = (case s' of None \<Rightarrow> Some (IsNil ''shareholder'') | Some s \<Rightarrow> first_err
     [requireBounded ''shareholder.name'' (es_Name s) 255,
      bounded ''shareholder.share_type'' (es_ShareType s) 50,
      reject (es_Shares s < 0) (OutOfRange ''shareholder.shares''),
      reject (es_Percentage s < 0 \<or> es_Percentage s > 100) (OutOfRange ''shareholder.percentage'')])"

definition ValidateRole :: "EntityRole option \<Rightarrow> verr option" where
  "ValidateRole r' = (case r' of None \<Rightarrow> Some (IsNil ''role'') | Some r \<Rightarrow> first_err
     ([requireBounded ''entity_id'' (er_EntityID r) 128,
       requireBounded ''user_id'' (er_UserID r) 128,
       reject (er_Role r \<notin> set allowedRoles) (NotAllowed ''role'' (er_Role r)),
       reject (er_Status r \<noteq> [] \<and> er_Status r \<notin> set allowedRoleStatuses)
         (NotAllowed ''role status'' (er_Status r)),
       reject (length (er_ServiceAccess r) > 32) (TooMany ''service_access'' 32)] @
      map (\<lambda>sa. requireBounded ''service_access[i]'' sa 64) (er_ServiceAccess r)))"

definition owner_checks :: "BeneficialOwner \<Rightarrow> verr option list" where
  "owner_checks bo =
     [requireBounded ''ubo.name'' (bo_Name bo) 255,
      requireBounded ''ubo.nik_token'' (bo_NIKToken bo) 64,
      reject (bo_OwnershipType bo \<notin> set allowedOwnershipTypes)
        (NotAllowed ''ubo.ownership_type'' (bo_OwnershipType bo)),
      reject (bo_Percentage bo < 0 \<or> bo_Percentage bo > 100) (OutOfRange ''ubo.percentage'')]"

definition ValidateUBOResult :: "AnalysisResult option \<Rightarrow> verr option" where
  "ValidateUBOResult r' = (case r' of None \<Rightarrow> Some (IsNil ''ubo result'') | Some r \<Rightarrow> first_err
     ([requireBounded ''entity_id'' (ar_EntityID r) 128,
       requireBounded ''entity_name'' (ar_EntityName r) 500,
       reject (ar_Criteria r = []) (Required ''criteria''),
       reject (ar_Status r \<notin> set allowedUBOStatuses) (NotAllowed ''ubo status'' (ar_Status r))] @
      concat (map owner_checks (ar_BeneficialOwners r)) @
      [reject (sum_list (map bo_Percentage (ar_BeneficialOwners r)) > 100.5)
         (OutOfRange ''ubo total percentage'')]))"

text \<open>
  \<open>PostgresUBOStore.Save\<close> validates before it opens its transaction; the transaction on the database
  is the parameter \<open>tx\<close>.
\<close>

definition PostgresUBO_Save ::
  "(AnalysisResult \<Rightarrow> 's \<Rightarrow> corp_err + 's) \<Rightarrow> AnalysisResult \<Rightarrow> 's \<Rightarrow> corp_err + 's" where
  "PostgresUBO_Save tx r s =
     (case ValidateUBOResult (Some r) of Some err \<Rightarrow> Inl (InvalidRecord err) | None \<Rightarrow> tx r s)"

section \<open>The handlers\<close>

definition to_ubo_shareholder :: "EntityShareholder \<Rightarrow> UBOShareholder" where
  "to_ubo_shareholder sh =
     \<lparr>sh_Name = es_Name sh, sh_NIKToken = [], sh_ShareType = es_ShareType sh,
      sh_Shares = es_Shares sh, sh_Percentage = es_Percentage sh\<rparr>"

definition to_ubo_officer :: "EntityOfficer \<Rightarrow> UBOOfficer" where
  "to_ubo_officer off =
     \<lparr>of_Name = eo_Name off, of_NIKToken = eo_NIKToken off, of_Position = eo_Position off\<rparr>"

definition AnalyzeUBO ::
  "(BeneficialOwner list \<Rightarrow> BeneficialOwner list) \<Rightarrow> time \<Rightarrow> 's EntityStore \<Rightarrow> 's UBOStore \<Rightarrow>
     ident \<Rightarrow> 's \<Rightarrow> (corp_err, AnalysisResult) answer \<times> 's" where
  "AnalyzeUBO srt now E U entityID s =
     (if entityID = [] then (WriteError 400 ''invalid_request'' ''entity_id is required'', s)
      else case st_GetByID E entityID s of
        Inl err \<Rightarrow>
          if err = ErrEntityNotFound
          then (WriteError 404 ''entity_not_found'' ''Entity not found'', s)
          else (WriteError 500 ''internal_error'' ''Failed to retrieve entity'', s)
      | Inr entity \<Rightarrow>
         (let result = Analyze srt DefaultThreshold now (en_ID entity) (en_Name entity)
                         (map to_ubo_shareholder (en_Shareholders entity))
                         (map to_ubo_officer (en_Officers entity))
          in case us_Save U result s of
               Inl err \<Rightarrow> (WriteError 500 ''internal_error'' ''Failed to save analysis result'', s)
             | Inr s' \<Rightarrow> (WriteJSON 200 result, s')))"

definition GetUBO :: "'s UBOStore \<Rightarrow> ident \<Rightarrow> 's \<Rightarrow> (corp_err, AnalysisResult) answer" where
  "GetUBO U entityID s =
     (if entityID = [] then WriteError 400 ''invalid_request'' ''entity_id is required''
      else case us_GetByEntityID U entityID s of
        Inl err \<Rightarrow>
          if err = ErrUBONotFound
          then WriteError 404 ''ubo_not_found'' ''UBO analysis not found for this entity''
          else WriteError 500 ''internal_error'' ''Failed to retrieve UBO analysis''
      | Inr r \<Rightarrow> WriteJSON 200 r)"

section \<open>Properties\<close>

lemma Analyze_owner_cases:
  assumes srt: "sorts_desc srt"
    and b: "b \<in> set (ar_BeneficialOwners (Analyze srt th now e n shs ofs))"
  shows "(\<exists>sh\<in>set shs. sh_Percentage sh \<ge> th \<and> b = share_owner (rfc3339 now) sh) \<or>
     (\<forall>sh\<in>set shs. sh_Percentage sh < th) \<and>
     (\<exists>o'\<in>set ofs. of_Position o' = ''DIREKTUR_UTAMA'' \<and> b = director_owner (rfc3339 now) o')"
proof (cases "\<exists>sh\<in>set shs. sh_Percentage sh \<ge> th")
  case True
  from Analyze_direct(1) [OF srt True, of now e n ofs, THEN mset_eq_setD] b show ?thesis by auto
next
  case False
  then have low: "\<forall>sh\<in>set shs. sh_Percentage sh < th" by (auto simp: not_le)
  from b Analyze_fallback [OF srt low, of now e n ofs] low show ?thesis
    by (auto split: option.splits dest!: find_SomeD)
qed

text \<open>
  PP 13/2018: a shareholder is reported as beneficial owner exactly when it holds at least the
  threshold; only when none does, the answer is the first \<open>DIREKTUR_UTAMA\<close>, and the status is
  \<open>INSUFFICIENT_DATA\<close> exactly when there is none of these either.
\<close>

theorem analyze_owners:
  assumes "sorts_desc srt"
  shows "set (ar_BeneficialOwners (Analyze srt th now e n shs ofs)) =
      (if \<exists>sh\<in>set shs. sh_Percentage sh \<ge> th
       then share_owner (rfc3339 now) ` {sh\<in>set shs. sh_Percentage sh \<ge> th}
       else case find (\<lambda>o'. of_Position o' = ''DIREKTUR_UTAMA'') ofs of
              Some o' \<Rightarrow> {director_owner (rfc3339 now) o'} | None \<Rightarrow> {})
     \<and> (ar_Status (Analyze srt th now e n shs ofs) = StatusInsufficientData \<longleftrightarrow>
          (\<forall>sh\<in>set shs. sh_Percentage sh < th) \<and>
          (\<forall>o'\<in>set ofs. of_Position o' \<noteq> ''DIREKTUR_UTAMA''))"
proof (cases "\<exists>sh\<in>set shs. sh_Percentage sh \<ge> th")
  case True
  from Analyze_direct(1) [OF assms True, of now e n ofs, THEN mset_eq_setD]
    Analyze_direct(3) [OF assms True, of now e n ofs] True
  show ?thesis by (auto simp: not_less)
next
  case False
  then have low: "\<forall>sh\<in>set shs. sh_Percentage sh < th" by (auto simp: not_le)
  have st: "ar_Status (Analyze srt th now e n shs ofs) =
     (if ar_BeneficialOwners (Analyze srt th now e n shs ofs) \<noteq> [] then StatusIdentified
      else StatusInsufficientData)"
    by (simp add: Analyze_def Let_def)
  show ?thesis
  proof (cases "find (\<lambda>o'. of_Position o' = ''DIREKTUR_UTAMA'') ofs")
    case None
    then have "\<forall>o'\<in>set ofs. of_Position o' \<noteq> ''DIREKTUR_UTAMA''" by (auto simp: find_None_iff)
    with None False low show ?thesis unfolding st Analyze_fallback [OF assms low] by simp
  next
    case (Some o')
    with find_SomeD [OF Some] False show ?thesis unfolding st Analyze_fallback [OF assms low] by auto
  qed
qed

theorem analyze_owners_witness:
  "sorts_desc (sort_key (\<lambda>b. - bo_Percentage b)) \<and>
   ar_Status (Analyze (sort_key (\<lambda>b. - bo_Percentage b)) 25 0 ''e'' ''PT A''
     [\<lparr>sh_Name = ''Budi'', sh_NIKToken = [], sh_ShareType = ''INDIVIDUAL'', sh_Shares = 10,
       sh_Percentage = 10\<rparr>] []) = StatusInsufficientData"
  using sorts_desc_exists analyze_owners [OF sorts_desc_exists, of 25 0 "''e''" "''PT A''"
     "[\<lparr>sh_Name = ''Budi'', sh_NIKToken = [], sh_ShareType = ''INDIVIDUAL'', sh_Shares = 10,
       sh_Percentage = 10\<rparr>]" "[]"]
  by simp

lemma sum_list_ge_length: "\<forall>x\<in>set xs. (25::real) \<le> x \<Longrightarrow> 25 * real (length xs) \<le> sum_list xs"
  by (induction xs) (auto simp: algebra_simps)

lemma sum_list_filter_le: "\<forall>x\<in>set xs. (0::real) \<le> x \<Longrightarrow> sum_list (filter P xs) \<le> sum_list xs"
  by (induction xs) auto

text \<open>
  With the code's threshold of 25 percent, shareholdings that are non-negative and add up to at
  most 100 percent give at most four beneficial owners, in descending order of their share.
\<close>

theorem analyze_at_most_four:
  assumes srt: "sorts_desc srt"
    and nonneg: "\<forall>sh\<in>set shs. 0 \<le> sh_Percentage sh"
    and total: "sum_list (map sh_Percentage shs) \<le> 100"
  shows "length (ar_BeneficialOwners (Analyze srt DefaultThreshold now e n shs ofs)) \<le> 4 \<and>
    sorted_wrt (\<lambda>a b. bo_Percentage a \<ge> bo_Percentage b)
      (ar_BeneficialOwners (Analyze srt DefaultThreshold now e n shs ofs))"
proof (cases "\<exists>sh\<in>set shs. sh_Percentage sh \<ge> DefaultThreshold")
  case True
  let ?big = "filter (\<lambda>p. p \<ge> 25) (map sh_Percentage shs)"
  have "length (ar_BeneficialOwners (Analyze srt DefaultThreshold now e n shs ofs)) = length ?big"
    using Analyze_direct(1) [OF srt True, of now e n ofs, THEN mset_eq_length]
    by (simp add: filter_map comp_def DefaultThreshold_def)
  moreover have "25 * real (length ?big) \<le> sum_list ?big" by (rule sum_list_ge_length) auto
  moreover have "sum_list ?big \<le> sum_list (map sh_Percentage shs)"
    using nonneg by (intro sum_list_filter_le) auto
  ultimately show ?thesis using total Analyze_direct(2) [OF srt True] by auto
next
  case False
  then have "\<forall>sh\<in>set shs. sh_Percentage sh < DefaultThreshold" by (auto simp: not_le)
  from Analyze_fallback [OF srt this] show ?thesis by (auto split: option.splits)
qed

theorem analyze_at_most_four_witness:
  "length (ar_BeneficialOwners (Analyze (sort_key (\<lambda>b. - bo_Percentage b)) DefaultThreshold 0
     ''e'' ''PT A''
     [\<lparr>sh_Name = ''Budi'', sh_NIKToken = [], sh_ShareType = [], sh_Shares = 3, sh_Percentage = 30\<rparr>,
      \<lparr>sh_Name = ''Siti'', sh_NIKToken = [], sh_ShareType = [], sh_Shares = 7, sh_Percentage = 70\<rparr>] []))
   \<le> 4"
  using analyze_at_most_four [OF sorts_desc_exists, of
     "[\<lparr>sh_Name = ''Budi'', sh_NIKToken = [], sh_ShareType = [], sh_Shares = 3, sh_Percentage = 30\<rparr>,
      \<lparr>sh_Name = ''Siti'', sh_NIKToken = [], sh_ShareType = [], sh_Shares = 7, sh_Percentage = 70\<rparr>]"]
  by simp

lemma Analyze_rejected:
  assumes srt: "sorts_desc srt"
  shows "ValidateUBOResult (Some (Analyze srt th now e n (map to_ubo_shareholder shs) ofs)) \<noteq> None"
proof (cases "ar_BeneficialOwners (Analyze srt th now e n (map to_ubo_shareholder shs) ofs)")
  case Nil
  then have "ar_Status (Analyze srt th now e n (map to_ubo_shareholder shs) ofs) = StatusInsufficientData"
    by (simp add: Analyze_def Let_def)
  then show ?thesis by (simp add: ValidateUBOResult_def allowedUBOStatuses_def)
next
  case (Cons b bs)
  then have "b \<in> set (ar_BeneficialOwners (Analyze srt th now e n (map to_ubo_shareholder shs) ofs))"
    by simp
  from Analyze_owner_cases [OF srt this]
  have "bo_NIKToken b = [] \<or> bo_OwnershipType b = OwnershipDirectorControl"
    by (auto simp: share_owner_def director_owner_def to_ubo_shareholder_def)
  then have "\<exists>c\<in>set (owner_checks b). c \<noteq> None"
    by (auto simp: owner_checks_def requireBounded_def allowedOwnershipTypes_def)
  with Cons show ?thesis by (auto simp: ValidateUBOResult_def)
qed

lemma Analyze_rejected_None:
  "ValidateUBOResult (Some (Analyze srt th now e n (map to_ubo_shareholder shs) ofs)) = None \<Longrightarrow>
     \<not> sorts_desc srt"
  using Analyze_rejected by blast

text \<open>
  C19. With the production store the analysis endpoint can never store or return a result:
  \<open>PostgresUBOStore.Save\<close> validates first, and \<open>ValidateUBOResult\<close> refuses whatever the handler's
  analysis yields (an owner by shares has no NIK token, an owner by direction a type outside the
  allow-list, and the empty result a status outside its allow-list).
\<close>

theorem postgres_ubo_analysis_fails:
  assumes "sorts_desc srt" and "us_Save U = PostgresUBO_Save tx"
    and "AnalyzeUBO srt now E U entityID s = (ans, s')"
  shows "is_error ans \<and> s' = s"
  using assms
  by (auto simp: AnalyzeUBO_def PostgresUBO_Save_def Let_def dest: Analyze_rejected_None
      split: if_splits sum.splits option.splits)

definition example_entity :: Entity where
  "example_entity = \<lparr>en_ID = ''e1'', en_AHUSKNumber = ''AHU-1'', en_Name = ''PT A'',
     en_EntityType = ''PT'', en_Status = ''ACTIVE'', en_NPWP = [], en_Address = [],
     en_CapitalAuth = 10, en_CapitalPaid = 5, en_AHUVerifiedAt = 0, en_OSSNIB = [],
     en_OSSVerifiedAt = None, en_Officers = [], en_Shareholders =
       [\<lparr>es_ID = ''s1'', es_EntityID = ''e1'', es_Name = ''Budi'', es_ShareType = ''INDIVIDUAL'',
         es_Shares = 60, es_Percentage = 60\<rparr>],
     en_CreatedAt = 0, en_UpdatedAt = 0\<rparr>"

theorem postgres_ubo_analysis_fails_witness:
  "let s = corp_init\<lparr>corp_entities := [''e1'' \<mapsto> example_entity]\<rparr>;
       U = (InMemoryUBOStore [])\<lparr>us_Save := PostgresUBO_Save (\<lambda>r s. Inr s)\<rparr>;
       (ans, s') = AnalyzeUBO (sort_key (\<lambda>b. - bo_Percentage b)) 0
                     (InMemoryEntityStore (\<lambda>n. ''x'') 0 [''e1'']) U ''e1'' s
   in is_error ans \<and> s' = s"
  using postgres_ubo_analysis_fails [OF sorts_desc_exists, where
      U = "(InMemoryUBOStore [])\<lparr>us_Save := PostgresUBO_Save (\<lambda>r s. Inr s)\<rparr>"
      and tx = "\<lambda>r s. Inr s"]
  by (auto simp: Let_def split: prod.splits)

end
