(* ===== verification/Corp_System.thy ===== *)
theory Corp_System
  imports Corp_UBO
begin

text \<open>
  The corporate service as a whole: the handlers that change state, run on the in-memory stores
  (the wiring of \<open>main.go\<close> in development mode), as the step relation \<open>corp_step\<close>.
  \<open>corp_inv\<close> is its invariant: every identifier in use was drawn from \<open>rand\<close>, and every role has a
  granter of a strictly higher role in the same entity or comes from a registration, which leaves a
  verified Direktur Utama among the officers of the entity.
  That the identifiers of \<open>uuid.New()\<close> do not repeat is the hypothesis \<open>inj rand\<close>.
\<close>

section \<open>Steps\<close>

inductive corp_step ::
  "(string \<Rightarrow> string \<Rightarrow> string) \<Rightarrow> string \<Rightarrow> (nat \<Rightarrow> ident) \<Rightarrow> corp \<Rightarrow> corp \<Rightarrow> bool"
  for mac :: "string \<Rightarrow> string \<Rightarrow> string" and key :: string and rand :: "nat \<Rightarrow> ident" where
  step_register:
    "Register mac key now A (InMemoryEntityStore rand now ks) (InMemoryRoleStore rand now ks') body s
       = (ans, s') \<Longrightarrow> corp_step mac key rand s s'"
| step_assign:
    "AssignRole (InMemoryRoleStore rand now ks) (InMemoryEntityStore rand now ks') eid body s
       = (ans, s') \<Longrightarrow> corp_step mac key rand s s'"
| step_revoke:
    "RevokeRole (InMemoryRoleStore rand now ks) eid rid s = (ans, s') \<Longrightarrow> corp_step mac key rand s s'"
| step_analyze:
    "AnalyzeUBO srt now (InMemoryEntityStore rand now ks) (InMemoryUBOStore ks') eid s = (ans, s')
       \<Longrightarrow> corp_step mac key rand s s'"

inductive corp_reach ::
  "(string \<Rightarrow> string \<Rightarrow> string) \<Rightarrow> string \<Rightarrow> (nat \<Rightarrow> ident) \<Rightarrow> corp \<Rightarrow> bool"
  for mac :: "string \<Rightarrow> string \<Rightarrow> string" and key :: string and rand :: "nat \<Rightarrow> ident" where
  reach_init: "corp_reach mac key rand corp_init"
| reach_step: "corp_reach mac key rand s \<Longrightarrow> corp_step mac key rand s s' \<Longrightarrow>
    corp_reach mac key rand s'"

inductive_cases corp_stepE: "corp_step mac key rand s s'"

section \<open>The invariant\<close>

definition verified_director :: "corp \<Rightarrow> ident \<Rightarrow> bool" where
  "verified_director s eid \<longleftrightarrow> (\<exists>e. corp_entities s eid = Some e \<and>
     (\<exists>o'\<in>set (en_Officers e). eo_Verified o' \<and> eo_Position o' = ''DIREKTUR_UTAMA''))"

definition role_origin :: "corp \<Rightarrow> EntityRole \<Rightarrow> bool" where
  "role_origin s r \<longleftrightarrow>
     er_Role r = RoleRegisteredOfficer \<and> verified_director s (er_EntityID r) \<or>
     (\<exists>g\<in>ran (corp_roles s). er_EntityID g = er_EntityID r \<and> er_UserID g = er_GrantedBy r \<and>
        roleLevel (er_Role r) < roleLevel (er_Role g))"

definition corp_ids :: "(nat \<Rightarrow> ident) \<Rightarrow> corp \<Rightarrow> bool" where
  "corp_ids rand s \<longleftrightarrow>
     (\<forall>i r. corp_roles s i = Some r \<longrightarrow> er_ID r = i \<and> drawn rand (corp_drawn s) i) \<and>
     (\<forall>i e. corp_entities s i = Some e \<longrightarrow> en_ID e = i \<and> drawn rand (corp_drawn s) i)"

definition corp_inv :: "(nat \<Rightarrow> ident) \<Rightarrow> corp \<Rightarrow> bool" where
  "corp_inv rand s \<longleftrightarrow> corp_ids rand s \<and> (\<forall>r\<in>ran (corp_roles s). role_origin s r)"

lemma corp_inv_init: "corp_inv rand corp_init"
  by (simp add: corp_inv_def corp_ids_def corp_init_def)

lemma corp_ids_fresh:
  assumes "inj rand" "corp_ids rand s" "corp_drawn s \<le> n"
  shows "corp_roles s (rand n) = None \<and> corp_entities s (rand n) = None"
  using assms drawn_fresh unfolding corp_ids_def by (meson not_None_eq)

text \<open>A role keeps its origin while roles are kept up to status and officers are only added.\<close>

definition same_grant :: "EntityRole \<Rightarrow> EntityRole \<Rightarrow> bool" where
  "same_grant r r' \<longleftrightarrow> er_ID r' = er_ID r \<and> er_EntityID r' = er_EntityID r \<and>
     er_UserID r' = er_UserID r \<and> er_Role r' = er_Role r \<and> er_GrantedBy r' = er_GrantedBy r"

lemma role_origin_mono:
  assumes "role_origin s r" "same_grant r r'"
    and "\<And>g. g \<in> ran (corp_roles s) \<Longrightarrow> \<exists>g'\<in>ran (corp_roles s'). same_grant g g'"
    and "verified_director s (er_EntityID r) \<Longrightarrow> verified_director s' (er_EntityID r)"
  shows "role_origin s' r'"
proof -
  from assms(1) consider (reg) "er_Role r = RoleRegisteredOfficer" "verified_director s (er_EntityID r)"
    | (granted) g where "g \<in> ran (corp_roles s)" "er_EntityID g = er_EntityID r"
        "er_UserID g = er_GrantedBy r" "roleLevel (er_Role r) < roleLevel (er_Role g)"
    unfolding role_origin_def by blast
  then show ?thesis
  proof cases
    case reg
    with assms(2,4) show ?thesis by (simp add: role_origin_def same_grant_def)
  next
    case granted
    from assms(3) [OF granted(1)] obtain g' where "g' \<in> ran (corp_roles s')" "same_grant g g'" by blast
    with granted assms(2) have "\<exists>g\<in>ran (corp_roles s'). er_EntityID g = er_EntityID r' \<and>
        er_UserID g = er_GrantedBy r' \<and> roleLevel (er_Role r') < roleLevel (er_Role g)"
      unfolding same_grant_def by (intro bexI [of _ g']) simp_all
    then show ?thesis by (simp add: role_origin_def)
  qed
qed


section \<open>Each operation preserves the invariant\<close>

text \<open>A registration on the in-memory stores, once the caller is accepted, cannot fail.\<close>

lemma register_entity_memory:
  "\<exists>e r ans. register_entity mac key now (InMemoryEntityStore rand now ks) (InMemoryRoleStore rand now ks')
       req c os ss s =
     (WriteJSON 201 ans,
      s\<lparr>corp_entities := (corp_entities s)(rand (corp_drawn s) \<mapsto> e),
        corp_roles := (corp_roles s)(er_ID r \<mapsto> r),
        corp_drawn := corp_drawn s + 2 + length os + length ss\<rparr>) \<and>
     en_ID e = rand (corp_drawn s) \<and>
     er_ID r = rand (corp_drawn s + 1 + length os + length ss) \<and>
     er_EntityID r = rand (corp_drawn s) \<and> er_Role r = RoleRegisteredOfficer \<and>
     er_Status r = StatusActive \<and> er_GrantedBy r = ''system'' \<and>
     en_Officers e = stamp_officers rand (Suc (corp_drawn s)) (rand (corp_drawn s))
        (map (to_officer mac key (tokenizeNIK mac (rq_CallerNIK req) key)) os)"
proof -
  let ?d = "corp_drawn s" and ?n = "corp_drawn s + 1 + length os + length ss"
  let ?e = "(to_entity now c)\<lparr>en_ID := rand ?d, en_CreatedAt := now, en_UpdatedAt := now,
     en_Officers := stamp_officers rand (Suc ?d) (rand ?d)
        (map (to_officer mac key (tokenizeNIK mac (rq_CallerNIK req) key)) os),
     en_Shareholders := stamp_shareholders rand (Suc ?d + length os) (rand ?d) (map to_shareholder ss)\<rparr>"
  let ?r = "\<lparr>er_ID = rand ?n, er_EntityID = rand ?d, er_UserID = rq_CallerUserID req,
     er_Role = RoleRegisteredOfficer, er_GrantedBy = ''system'',
     er_ServiceAccess = [''signing'', ''garudainfo''], er_Status = StatusActive,
     er_GrantedAt = now, er_RevokedAt = None\<rparr>"
  show ?thesis
    by (intro exI [of _ ?e] exI [of _ ?r] exI [of _ "RegisterResponse (rand ?d) RoleRegisteredOfficer"])
      (simp add: register_entity_def InMemoryEntityStore_def InMemoryRoleStore_def entity_Create_def
        entity_AddOfficers_def entity_AddShareholders_def role_Assign_def to_entity_def
        stamp_shareholders_def Let_def)
qed

lemma stamp_officers_verified:
  assumes "isDirector mac key tok os"
  shows "\<exists>o'\<in>set (stamp_officers rand d eid (map (to_officer mac key tok) os)).
           eo_Verified o' \<and> eo_Position o' = ''DIREKTUR_UTAMA''"
proof -
  from assms obtain a where a: "a \<in> set os" "tokenizeNIK mac (ao_NIK a) key = tok"
    "ao_Position a = ''DIREKTUR_UTAMA''" unfolding isDirector_def by blast
  from a(1) obtain i where "i < length os" "os ! i = a" by (auto simp: in_set_conv_nth)
  then have "(d + i, to_officer mac key tok a) \<in> set (enumerate d (map (to_officer mac key tok) os))"
    by (simp add: in_set_enumerate_eq nth_map)
  then have "(to_officer mac key tok a)\<lparr>eo_ID := rand (d + i), eo_EntityID := eid\<rparr>
      \<in> set (stamp_officers rand d eid (map (to_officer mac key tok) os))"
    unfolding stamp_officers_def by force
  with a(2,3) show ?thesis by (intro bexI) (auto simp: to_officer_def)
qed

lemma Register_cases:
  assumes "Register mac key now A E R body s = (ans, s')"
  shows "s' = s \<or> (\<exists>req c os ss. body = Some req \<and>
     isDirector mac key (tokenizeNIK mac (rq_CallerNIK req) key) os \<and>
     register_entity mac key now E R req c os ss s = (ans, s'))"
  using assms by (auto simp: Register_def Let_def split: option.splits sum.splits if_splits)

lemma verified_director_upd_new:
  "corp_entities s i = None \<Longrightarrow> verified_director s eid \<Longrightarrow>
     verified_director (s\<lparr>corp_entities := (corp_entities s)(i \<mapsto> e), corp_roles := m, corp_drawn := d\<rparr>) eid"
  by (auto simp: verified_director_def)

lemma same_grant_refl [simp]: "same_grant r r"
  by (simp add: same_grant_def)

lemma Register_inv:
  assumes inj: "inj rand" and inv: "corp_inv rand s"
    and reg: "Register mac key now A (InMemoryEntityStore rand now ks) (InMemoryRoleStore rand now ks')
                body s = (ans, s')"
  shows "corp_inv rand s'"
proof (cases "s' = s")
  case False
  with Register_cases [OF reg] obtain req c os ss where
    dir: "isDirector mac key (tokenizeNIK mac (rq_CallerNIK req) key) os" and
    re: "register_entity mac key now (InMemoryEntityStore rand now ks) (InMemoryRoleStore rand now ks')
            req c os ss s = (ans, s')" by blast
  let ?d = "corp_drawn s" and ?n = "corp_drawn s + 1 + length os + length ss"
  from register_entity_memory [of mac key now rand ks ks' req c os ss s] re obtain e r where
    s': "s' = s\<lparr>corp_entities := (corp_entities s)(rand ?d \<mapsto> e),
        corp_roles := (corp_roles s)(rand ?n \<mapsto> r), corp_drawn := ?n + 1\<rparr>"
    and e: "en_ID e = rand ?d" "en_Officers e = stamp_officers rand (Suc ?d) (rand ?d)
        (map (to_officer mac key (tokenizeNIK mac (rq_CallerNIK req) key)) os)"
    and r: "er_ID r = rand ?n" "er_EntityID r = rand ?d" "er_Role r = RoleRegisteredOfficer"
    by auto
  from inv have ids: "corp_ids rand s" and org: "\<And>r. r \<in> ran (corp_roles s) \<Longrightarrow> role_origin s r"
    by (auto simp: corp_inv_def)
  have f1: "corp_roles s (rand ?n) = None" and f2: "corp_entities s (rand ?d) = None"
    using corp_ids_fresh [OF inj ids] by simp_all
  have "corp_ids rand s'"
    using ids e(1) r(1) by (auto simp: s' corp_ids_def simp del: drawn_Suc split: if_splits
        intro: drawn_mono [of rand "corp_drawn s"])
  moreover have "verified_director s' (rand ?d)"
    using stamp_officers_verified [OF dir] by (simp add: verified_director_def s' e(2))
  then have "role_origin s' r" using r by (simp add: role_origin_def)
  moreover have "role_origin s' q" if q: "q \<in> ran (corp_roles s)" for q
  proof (rule role_origin_mono [OF org [OF q] same_grant_refl])
    show "\<exists>g'\<in>ran (corp_roles s'). same_grant g g'" if "g \<in> ran (corp_roles s)" for g
      using that f1 by (intro bexI [of _ g]) (simp_all add: s' ran_upd_fresh)
    show "verified_director s (er_EntityID q) \<Longrightarrow> verified_director s' (er_EntityID q)"
      using verified_director_upd_new [OF f2] by (simp add: s')
  qed
  ultimately show ?thesis using f1 by (auto simp: corp_inv_def s' ran_upd_fresh)
qed (use inv in simp)


text \<open>The other operations change the roles of the world only as a role store may.\<close>

lemma InMemoryRoleStore_frame:
  "rs_Assign (InMemoryRoleStore rand now ks) r s = Inr (r', s') \<Longrightarrow>
     corp_entities s' = corp_entities s \<and> corp_drawn s' = Suc (corp_drawn s) \<and>
     er_ID r' = rand (corp_drawn s)"
  "rs_Revoke (InMemoryRoleStore rand now ks) i s = Inr s'' \<Longrightarrow>
     corp_entities s'' = corp_entities s \<and> corp_drawn s'' = corp_drawn s"
  by (auto simp: InMemoryRoleStore_def role_Assign_def Let_def)

lemma AssignRole_memory:
  assumes "AssignRole (InMemoryRoleStore rand now ks) E eid body s = (ans, s')" "s' \<noteq> s"
  obtains r caller where
    "s' = s\<lparr>corp_roles := (corp_roles s)(rand (corp_drawn s) \<mapsto> r), corp_drawn := Suc (corp_drawn s)\<rparr>"
    "er_ID r = rand (corp_drawn s)" "caller \<in> ran (corp_roles s)" "er_EntityID caller = er_EntityID r"
    "er_UserID caller = er_GrantedBy r" "roleLevel (er_Role r) < roleLevel (er_Role caller)"
proof -
  from assms(2) have "\<not> is_error ans \<or> s' \<noteq> s" ..
  from AssignRole_path [OF assms(1) this] obtain req :: assignRoleRequest and caller r where
    c: "rs_GetUserRole (InMemoryRoleStore rand now ks) eid (aq_CallerUserID req) s = Inr caller"
    and v: "ValidateRoleAssignment (er_Role caller) (aq_Role req) = None"
    and r: "rs_Assign (InMemoryRoleStore rand now ks)
              \<lparr>er_ID = [], er_EntityID = eid, er_UserID = aq_UserID req,
              er_Role = aq_Role req, er_GrantedBy = aq_CallerUserID req,
              er_ServiceAccess = aq_ServiceAccess req, er_Status = [],
              er_GrantedAt = zero_time, er_RevokedAt = None\<rparr> s = Inr (r, s')" .
  from r have s': "s' = s\<lparr>corp_roles := (corp_roles s)(rand (corp_drawn s) \<mapsto> r),
      corp_drawn := Suc (corp_drawn s)\<rparr>"
    by (auto simp: InMemoryRoleStore_def role_Assign_def Let_def)
  from mem_roles.assign_ok [OF r] mem_roles.user_role_ok [OF c] InMemoryRoleStore_frame(1) [OF r] v
  show thesis by (intro that [OF s', of caller]) (simp_all add: ValidateRoleAssignment_None)
qed

lemma AssignRole_inv:
  assumes inj: "inj rand" and inv: "corp_inv rand s"
    and step: "AssignRole (InMemoryRoleStore rand now ks) E eid body s = (ans, s')"
  shows "corp_inv rand s'"
proof (cases "s' = s")
  case False
  from AssignRole_memory [OF step False] obtain r caller where
    s': "s' = s\<lparr>corp_roles := (corp_roles s)(rand (corp_drawn s) \<mapsto> r), corp_drawn := Suc (corp_drawn s)\<rparr>"
    and r: "er_ID r = rand (corp_drawn s)" "caller \<in> ran (corp_roles s)"
      "er_EntityID caller = er_EntityID r" "er_UserID caller = er_GrantedBy r"
      "roleLevel (er_Role r) < roleLevel (er_Role caller)" .
  from inv have ids: "corp_ids rand s" and org: "\<And>r. r \<in> ran (corp_roles s) \<Longrightarrow> role_origin s r"
    by (auto simp: corp_inv_def)
  have new: "corp_roles s (rand (corp_drawn s)) = None"
    using corp_ids_fresh [OF inj ids] by simp
  have "corp_ids rand s'"
    using ids r(1) by (auto simp: s' corp_ids_def split: if_splits
        intro: drawn_mono [of rand "corp_drawn s"])
  moreover have "role_origin s' r" using r new by (auto simp: role_origin_def s' ran_upd_fresh)
  moreover have "role_origin s' q" if q: "q \<in> ran (corp_roles s)" for q
  proof (rule role_origin_mono [OF org [OF q] same_grant_refl])
    show "\<exists>g'\<in>ran (corp_roles s'). same_grant g g'" if "g \<in> ran (corp_roles s)" for g
      using that new by (intro bexI [of _ g]) (simp_all add: s' ran_upd_fresh)
  qed (simp add: s' verified_director_def)
  ultimately show ?thesis using new by (auto simp: corp_inv_def s' ran_upd_fresh)
qed (use inv in simp)

lemma RevokeRole_memory:
  assumes "RevokeRole (InMemoryRoleStore rand now ks) eid rid s = (ans, s')" "s' \<noteq> s"
  obtains r t where "corp_roles s rid = Some r" "s' = s\<lparr>corp_roles :=
     (corp_roles s)(rid \<mapsto> r\<lparr>er_Status := StatusRevoked, er_RevokedAt := Some t\<rparr>)\<rparr>"
  using assms by (auto simp: RevokeRole_def InMemoryRoleStore_def role_Revoke_Inr
      split: if_splits sum.splits)

lemma ran_upd_same_grant:
  assumes "corp_roles s i = Some r" "same_grant r r'" "g \<in> ran (corp_roles s)"
  shows "\<exists>g'\<in>ran ((corp_roles s)(i \<mapsto> r')). same_grant g g'"
proof -
  from assms(3) obtain j where j: "corp_roles s j = Some g" by (auto simp: ran_def)
  show ?thesis
  proof (cases "j = i")
    case True
    with j assms show ?thesis by (intro bexI [of _ r']) (auto simp: ran_def)
  next
    case False
    with j show ?thesis by (intro bexI [of _ g]) (auto simp: ran_def)
  qed
qed

lemma RevokeRole_inv:
  assumes inv: "corp_inv rand s"
    and step: "RevokeRole (InMemoryRoleStore rand now ks) eid rid s = (ans, s')"
  shows "corp_inv rand s'"
proof (cases "s' = s")
  case False
  from RevokeRole_memory [OF step False] obtain r t where r: "corp_roles s rid = Some r"
    and s': "s' = s\<lparr>corp_roles := (corp_roles s)(rid \<mapsto>
               r\<lparr>er_Status := StatusRevoked, er_RevokedAt := Some t\<rparr>)\<rparr>" .
  let ?r' = "r\<lparr>er_Status := StatusRevoked, er_RevokedAt := Some t\<rparr>"
  have rr: "r \<in> ran (corp_roles s)" using r by (rule in_ranI)
  have same: "same_grant r ?r'" by (simp add: same_grant_def)
  from inv have ids: "corp_ids rand s" and org: "\<And>r. r \<in> ran (corp_roles s) \<Longrightarrow> role_origin s r"
    by (auto simp: corp_inv_def)
  have keep: "role_origin s' q'" if "q \<in> ran (corp_roles s)" "same_grant q q'" for q q'
    by (rule role_origin_mono [OF org [OF that(1)] that(2)])
      (use ran_upd_same_grant [OF r same] in \<open>auto simp: s' verified_director_def\<close>)
  have "role_origin s' q" if "q \<in> ran (corp_roles s')" for q
  proof -
    from that have "q = ?r' \<or> q \<in> ran (corp_roles s)" by (auto simp: s' ran_def split: if_splits)
    with keep [OF rr same] keep [of q q] show ?thesis by auto
  qed
  moreover have "corp_ids rand s'" using ids r by (simp add: s' corp_ids_def)
  ultimately show ?thesis by (simp add: corp_inv_def)
qed (use inv in simp)

lemma AnalyzeUBO_inv:
  assumes inv: "corp_inv rand s"
    and step: "AnalyzeUBO srt now E (InMemoryUBOStore ks) eid s = (ans, s')"
  shows "corp_inv rand s'"
proof -
  from step have "\<exists>u. s' = s\<lparr>corp_ubos := u\<rparr> \<or> s' = s"
    by (auto simp: AnalyzeUBO_def InMemoryUBOStore_def Let_def split: if_splits sum.splits)
  then obtain u where "s' = s\<lparr>corp_ubos := u\<rparr> \<or> s' = s" ..
  moreover have "corp_inv rand (s\<lparr>corp_ubos := u\<rparr>) = corp_inv rand s"
    by (simp add: corp_inv_def corp_ids_def role_origin_def verified_director_def)
  ultimately show ?thesis using inv by auto
qed

lemma corp_step_inv: "inj rand \<Longrightarrow> corp_inv rand s \<Longrightarrow> corp_step mac key rand s s' \<Longrightarrow> corp_inv rand s'"
  by (elim corp_stepE) (blast intro: Register_inv AssignRole_inv RevokeRole_inv AnalyzeUBO_inv)+

lemma corp_reach_inv: "corp_reach mac key rand s \<Longrightarrow> inj rand \<Longrightarrow> corp_inv rand s"
  by (induction rule: corp_reach.induct) (auto intro: corp_inv_init corp_step_inv)

section \<open>Properties\<close>

text \<open>Climbing the granters ends at a registered officer, since levels are bounded by 3.\<close>

lemma role_origin_director:
  assumes org: "\<forall>r\<in>ran (corp_roles s). role_origin s r"
  shows "r \<in> ran (corp_roles s) \<Longrightarrow> verified_director s (er_EntityID r)"
proof (induction "nat (3 - roleLevel (er_Role r))" arbitrary: r rule: less_induct)
  case less
  from org less.prems have "role_origin s r" by blast
  then consider "verified_director s (er_EntityID r)"
    | g where "g \<in> ran (corp_roles s)" "er_EntityID g = er_EntityID r"
        "roleLevel (er_Role r) < roleLevel (er_Role g)"
    unfolding role_origin_def by blast
  then show ?case
  proof cases
    case (2 g)
    have "nat (3 - roleLevel (er_Role g)) < nat (3 - roleLevel (er_Role r))"
      using 2(3) roleLevel_le_3 [of "er_Role g"] by simp
    from less.hyps [OF this 2(1)] 2(2) show ?thesis by simp
  qed
qed

text \<open>
  C1. Chain of delegation: in every state the corporate service can reach, whatever the sequence of
  registrations, assignments, revocations and analyses, each role descends from a verified director:
  a registered officer's entity has among its officers a Direktur Utama whose NIK token was the
  registering caller's, any other role was granted by a user who held a strictly higher role in the
  same entity, and so every entity with roles has such a director.
\<close>

theorem roles_descend_from_director:
  assumes "corp_reach mac key rand s" and "inj rand" and "corp_roles s i = Some r"
  shows "verified_director s (er_EntityID r) \<and>
    (er_Role r \<noteq> RoleRegisteredOfficer \<longrightarrow>
       (\<exists>j g. corp_roles s j = Some g \<and> er_EntityID g = er_EntityID r \<and>
          er_UserID g = er_GrantedBy r \<and> roleLevel (er_Role r) < roleLevel (er_Role g)))"
proof -
  from corp_reach_inv [OF assms(1,2)] have org: "\<forall>r\<in>ran (corp_roles s). role_origin s r"
    by (simp add: corp_inv_def)
  have r: "r \<in> ran (corp_roles s)" using assms(3) by (rule in_ranI)
  with org have "role_origin s r" by blast
  with role_origin_director [OF org r] show ?thesis by (auto simp: role_origin_def ran_def)
qed

definition example_rand :: "nat \<Rightarrow> ident" where
  "example_rand n = replicate (Suc n) CHR ''a''"

lemma inj_example_rand: "inj example_rand"
  by (rule injI) (simp add: example_rand_def replicate_eq_replicate)

definition example_ahu :: AHUVerifier where
  "example_ahu = \<lparr>ahu_SearchCompany = (\<lambda>sk. Inr \<lparr>cs_Found = True, cs_SKNumber = sk, cs_Name = ''PT A'',
       cs_EntityType = ''PT'', cs_Status = ''ACTIVE'', cs_NPWP = [], cs_Address = [],
       cs_CapitalAuth = 0, cs_CapitalPaid = 0\<rparr>),
     ahu_GetOfficers = (\<lambda>sk. Inr [\<lparr>ao_NIK = ''1'', ao_Name = ''Budi'', ao_Position = ''DIREKTUR_UTAMA'',
       ao_AppointmentDate = []\<rparr>]),
     ahu_GetShareholders = (\<lambda>sk. Inl ''timeout'')\<rparr>"

definition example_registered :: corp where
  "example_registered = snd (Register (\<lambda>k m. m) ''k'' 0 example_ahu
     (InMemoryEntityStore example_rand 0 []) (InMemoryRoleStore example_rand 0 [])
     (Some \<lparr>rq_SKNumber = ''S'', rq_CallerUserID = ''u'', rq_CallerNIK = ''1''\<rparr>) corp_init)"

lemma example_registered_reach: "corp_reach (\<lambda>k m. m) ''k'' example_rand example_registered"
  unfolding example_registered_def
  by (rule reach_step [OF reach_init], rule step_register, rule prod.collapse [symmetric])

lemma example_registered_role:
  "\<exists>r. corp_roles example_registered (example_rand 2) = Some r \<and> er_Role r = RoleRegisteredOfficer"
  by (simp add: example_registered_def example_ahu_def Register_def register_entity_def isDirector_def
      corp_init_def InMemoryEntityStore_def InMemoryRoleStore_def entity_Create_def to_entity_def
      entity_AddOfficers_def role_Assign_def Let_def numeral_2_eq_2)

theorem roles_descend_from_director_witness:
  "\<exists>r. corp_roles example_registered (example_rand 2) = Some r \<and>
       verified_director example_registered (er_EntityID r)"
  using example_registered_role
    roles_descend_from_director [OF example_registered_reach inj_example_rand] by blast

text \<open>
  C12. No privilege escalation: \<open>AssignRole\<close> answers with success only to a caller who has an active
  role in the entity that is strictly above the one granted, and it then adds exactly one active role;
  on every other path the stores are unchanged.
\<close>

theorem assign_role_no_escalation:
  assumes "AssignRole (InMemoryRoleStore rand now ks) E eid body s = (ans, s')"
  shows "if is_error ans then s' = s
    else \<exists>req i caller r. body = Some req \<and> corp_roles s i = Some caller \<and>
      er_EntityID caller = eid \<and> er_UserID caller = aq_CallerUserID req \<and>
      er_Status caller = StatusActive \<and>
      0 < roleLevel (aq_Role req) \<and> roleLevel (aq_Role req) < roleLevel (er_Role caller) \<and>
      corp_roles s' = (corp_roles s)(er_ID r \<mapsto> r) \<and> er_EntityID r = eid \<and>
      er_UserID r = aq_UserID req \<and> er_Role r = aq_Role req \<and> er_Status r = StatusActive \<and>
      er_GrantedBy r = aq_CallerUserID req"
proof (cases "is_error ans")
  case True
  with mem_roles.AssignRole_error [OF assms] show ?thesis by simp
next
  case False
  from mem_roles.AssignRole_created [OF assms False] obtain req caller r where
    "body = Some req" "caller \<in> ran (corp_roles s)" "er_EntityID caller = eid"
    "er_UserID caller = aq_CallerUserID req" "er_Status caller = StatusActive"
    "0 < roleLevel (aq_Role req)" "roleLevel (aq_Role req) < roleLevel (er_Role caller)"
    "corp_roles s' = (corp_roles s)(er_ID r \<mapsto> r)" "er_EntityID r = eid"
    "er_UserID r = aq_UserID req" "er_Role r = aq_Role req" "er_GrantedBy r = aq_CallerUserID req"
    "er_Status r = StatusActive" .
  with False show ?thesis unfolding ran_def by auto
qed

theorem assign_role_no_escalation_witness:
  "let (ans, s') = AssignRole (InMemoryRoleStore example_rand 0 [example_rand 2])
       (InMemoryEntityStore example_rand 0 []) (example_rand 0)
       (Some \<lparr>aq_UserID = ''v'', aq_Role = RoleAdmin, aq_ServiceAccess = [], aq_CallerUserID = ''u''\<rparr>)
       example_registered
   in \<not> is_error ans \<and> (\<exists>i caller. corp_roles example_registered i = Some caller \<and>
        er_UserID caller = ''u'' \<and> roleLevel RoleAdmin < roleLevel (er_Role caller))"
proof -
  obtain ans s' where a: "AssignRole (InMemoryRoleStore example_rand 0 [example_rand 2])
       (InMemoryEntityStore example_rand 0 []) (example_rand 0)
       (Some \<lparr>aq_UserID = ''v'', aq_Role = RoleAdmin, aq_ServiceAccess = [], aq_CallerUserID = ''u''\<rparr>)
       example_registered = (ans, s')" by fastforce
  have "\<not> is_error (fst (AssignRole (InMemoryRoleStore example_rand 0 [example_rand 2])
       (InMemoryEntityStore example_rand 0 []) (example_rand 0)
       (Some \<lparr>aq_UserID = ''v'', aq_Role = RoleAdmin, aq_ServiceAccess = [], aq_CallerUserID = ''u''\<rparr>)
       example_registered))"
    by code_simp
  with assign_role_no_escalation [OF a] a show ?thesis by auto
qed

end
