(* ===== verification/Circuit.thy ===== *)
theory Circuit
  imports GP_Prelude
begin

text \<open>
  The circuit breakers in front of the services' HTTP clients: the three-state breaker of the
  Dukcapil, AHU and OSS clients (the same code in the three files) and the flag-and-counter breaker of
  the signing client.
  The locale \<open>breaker\<close> is their common contract, interpreted on both.
  The network is a parameter: what \<open>httpClient.Do\<close> and \<open>io.ReadAll\<close> give for a request, and the JSON
  decoder of the response.
\<close>

section \<open>The contract\<close>

locale breaker =
  fixes allow :: "time \<Rightarrow> 'c \<Rightarrow> bool \<times> 'c"
    and fail :: "time \<Rightarrow> 'c \<Rightarrow> 'c"
    and success :: "'c \<Rightarrow> 'c"
    and closed :: "'c \<Rightarrow> bool"
    and opened :: "time \<Rightarrow> 'c \<Rightarrow> bool"
    and count :: "'c \<Rightarrow> int"
    and threshold :: "'c \<Rightarrow> int"
    and cooldown :: "'c \<Rightarrow> int"
  assumes closed_allows: "closed c \<Longrightarrow> allow t c = (True, c)"
    and success_closes: "closed (success c) \<and> count (success c) = 0"
    and fail_counts: "count (fail t c) = count c + 1 \<and> threshold (fail t c) = threshold c \<and>
          cooldown (fail t c) = cooldown c"
    and fail_opens: "threshold c \<le> count c + 1 \<Longrightarrow> opened t (fail t c)"
    and fail_below: "closed c \<Longrightarrow> count c + 1 < threshold c \<Longrightarrow> closed (fail t c)"
    and opened_rejects: "opened t0 c \<Longrightarrow> t \<le> t0 + cooldown c \<Longrightarrow> allow t c = (False, c)"
    and opened_probes: "opened t0 c \<Longrightarrow> t0 + cooldown c < t \<Longrightarrow> fst (allow t c)"
begin

lemma fails_count:
  "count (fold fail ts c) = count c + int (length ts) \<and> threshold (fold fail ts c) = threshold c \<and>
   cooldown (fold fail ts c) = cooldown c"
  by (induction ts arbitrary: c) (auto simp: fail_counts)

lemma fails_open:
  assumes "threshold c \<le> count c + int (length ts) + 1"
  shows "opened t (fold fail (ts @ [t]) c)"
  using assms fails_count [of ts c] by (simp add: fail_opens)

lemma fails_below:
  "closed c \<Longrightarrow> count c + int (length ts) < threshold c \<Longrightarrow> closed (fold fail ts c)"
  by (induction ts arbitrary: c) (auto simp: fail_counts fail_below)

lemma tripped:
  assumes "threshold c \<le> count c + int (length ts) + 1"
  shows "t' \<le> t + cooldown c \<Longrightarrow>
           allow t' (fold fail (ts @ [t]) c) = (False, fold fail (ts @ [t]) c)"
    and "t + cooldown c < t' \<Longrightarrow> fst (allow t' (fold fail (ts @ [t]) c))"
  using fails_open [OF assms, of t] fails_count [of "ts @ [t]" c]
  by (auto intro: opened_rejects opened_probes)

lemma not_tripped:
  "closed c \<Longrightarrow> count c + int (length ts) < threshold c \<Longrightarrow>
     allow t (fold fail ts c) = (True, fold fail ts c)"
  by (intro closed_allows fails_below)

lemma success_allows: "allow t (success c) = (True, success c)"
  by (simp add: closed_allows success_closes)

end

section \<open>The breaker of the registry clients\<close>

datatype cb_state = stateClosed | stateOpen | stateHalfOpen

text \<open>\<open>failureCount\<close> is a Go \<open>int\<close>; it is not wrapped here, \<open>2 ^ 63\<close> failures not being reached.\<close>

record circuitBreaker =
  cb_state :: cb_state
  cb_failureCount :: int
  cb_threshold :: int
  cb_openUntil :: time
  cb_cooldown :: int

definition newCircuitBreaker :: "int \<Rightarrow> int \<Rightarrow> circuitBreaker" where
  "newCircuitBreaker threshold cooldown =
     \<lparr>cb_state = stateClosed, cb_failureCount = 0, cb_threshold = threshold,
      cb_openUntil = zero_time, cb_cooldown = cooldown\<rparr>"

definition cb_allow :: "time \<Rightarrow> circuitBreaker \<Rightarrow> bool \<times> circuitBreaker" where
  "cb_allow now cb =
     (case cb_state cb of
        stateClosed \<Rightarrow> (True, cb)
      | stateOpen \<Rightarrow>
          if now > cb_openUntil cb then (True, cb\<lparr>cb_state := stateHalfOpen\<rparr>) else (False, cb)
      | stateHalfOpen \<Rightarrow> (True, cb))"

definition cb_recordSuccess :: "circuitBreaker \<Rightarrow> circuitBreaker" where
  "cb_recordSuccess cb = cb\<lparr>cb_failureCount := 0, cb_state := stateClosed\<rparr>"

definition cb_recordFailure :: "time \<Rightarrow> circuitBreaker \<Rightarrow> circuitBreaker" where
  "cb_recordFailure now cb =
     (let cb1 = cb\<lparr>cb_failureCount := cb_failureCount cb + 1\<rparr> in
      if cb_failureCount cb1 \<ge> cb_threshold cb1
      then cb1\<lparr>cb_state := stateOpen, cb_openUntil := now + cb_cooldown cb1\<rparr>
      else cb1)"

interpretation registry: breaker cb_allow cb_recordFailure cb_recordSuccess
  "\<lambda>c. cb_state c = stateClosed"
  "\<lambda>t c. cb_state c = stateOpen \<and> cb_openUntil c = t + cb_cooldown c"
  cb_failureCount cb_threshold cb_cooldown
  by unfold_locales (auto simp: cb_allow_def cb_recordFailure_def cb_recordSuccess_def Let_def)

text \<open>
  One exchange with the network: whether the request could be built, and what came back -- an error
  of \<open>Do\<close>, or a status with the body read (\<open>None\<close> when reading it fails).
\<close>

datatype http_result = DoFailed string | Response nat "string option"

datatype client_err =
    CircuitOpen
  | BuildFailed string
  | RequestFailed string
  | ReadFailed
  | BadStatus nat string
  | ClientError string
  | DecodeFailed

definition doPost ::
  "time \<Rightarrow> time \<Rightarrow> string option \<Rightarrow> http_result \<Rightarrow> (string \<Rightarrow> 'a option) \<Rightarrow> circuitBreaker \<Rightarrow>
     (client_err + 'a) \<times> circuitBreaker" where
  "doPost now later build http decode cb =
     (let (ok, cb1) = cb_allow now cb in
      if \<not> ok then (Inl CircuitOpen, cb1)
      else case build of
        Some e \<Rightarrow> (Inl (BuildFailed e), cb1)
      | None \<Rightarrow>
         (case http of
            DoFailed e \<Rightarrow> (Inl (RequestFailed e), cb_recordFailure later cb1)
          | Response st None \<Rightarrow> (Inl ReadFailed, cb_recordFailure later cb1)
          | Response st (Some body) \<Rightarrow>
              if st \<noteq> 200 then (Inl (BadStatus st body), cb_recordFailure later cb1)
              else (case decode body of
                      None \<Rightarrow> (Inl DecodeFailed, cb_recordSuccess cb1)
                    | Some v \<Rightarrow> (Inr v, cb_recordSuccess cb1))))"

definition NewClient_cb :: circuitBreaker where
  "NewClient_cb = newCircuitBreaker 5 (30 * second)"

section \<open>The breaker of the signing client\<close>

record SigningClient =
  sc_failureCount :: int
  sc_maxFailures :: int
  sc_cooldown :: int
  sc_lastFailedAt :: time
  sc_circuitOpen :: bool

definition NewSigningClient :: SigningClient where
  "NewSigningClient = \<lparr>sc_failureCount = 0, sc_maxFailures = 5, sc_cooldown = 30 * second,
     sc_lastFailedAt = zero_time, sc_circuitOpen = False\<rparr>"

definition checkCircuit :: "time \<Rightarrow> SigningClient \<Rightarrow> bool \<times> SigningClient" where
  "checkCircuit now c =
     (if \<not> sc_circuitOpen c then (True, c)
      else if now - sc_lastFailedAt c > sc_cooldown c
      then (True, c\<lparr>sc_circuitOpen := False, sc_failureCount := 0\<rparr>)
      else (False, c))"

definition sc_recordFailure :: "time \<Rightarrow> SigningClient \<Rightarrow> SigningClient" where
  "sc_recordFailure now c =
     (let c1 = c\<lparr>sc_failureCount := sc_failureCount c + 1, sc_lastFailedAt := now\<rparr> in
      if sc_failureCount c1 \<ge> sc_maxFailures c1 then c1\<lparr>sc_circuitOpen := True\<rparr> else c1)"

definition sc_recordSuccess :: "SigningClient \<Rightarrow> SigningClient" where
  "sc_recordSuccess c = c\<lparr>sc_failureCount := 0, sc_circuitOpen := False\<rparr>"

interpretation signing: breaker checkCircuit sc_recordFailure sc_recordSuccess
  "\<lambda>c. \<not> sc_circuitOpen c" "\<lambda>t c. sc_circuitOpen c \<and> sc_lastFailedAt c = t"
  sc_failureCount sc_maxFailures sc_cooldown
  by unfold_locales (auto simp: checkCircuit_def sc_recordFailure_def sc_recordSuccess_def Let_def)

text \<open>
  \<open>doPost\<close> of the signing client: a server error (5xx) is a failure of the backend, a client error
  (4xx) is not; the decoder reads the body itself, so a read error shows as a decode error.
\<close>

definition sign_doPost ::
  "time \<Rightarrow> time \<Rightarrow> string option \<Rightarrow> http_result \<Rightarrow> (string option \<Rightarrow> 'a option) \<Rightarrow>
     (string option \<Rightarrow> string) \<Rightarrow> SigningClient \<Rightarrow> (client_err + 'a) \<times> SigningClient" where
  "sign_doPost now later build http decode errText c =
     (let (ok, c1) = checkCircuit now c in
      if \<not> ok then (Inl CircuitOpen, c1)
      else case build of
        Some e \<Rightarrow> (Inl (BuildFailed e), c1)
      | None \<Rightarrow>
         (case http of
            DoFailed e \<Rightarrow> (Inl (RequestFailed e), sc_recordFailure later c1)
          | Response st body \<Rightarrow>
              if st \<ge> 500 then (Inl (BadStatus st []), sc_recordFailure later c1)
              else if st \<ge> 400 then (Inl (ClientError (errText body)), sc_recordSuccess c1)
              else (case decode body of
                      None \<Rightarrow> (Inl DecodeFailed, sc_recordSuccess c1)
                    | Some v \<Rightarrow> (Inr v, sc_recordSuccess c1))))"

section \<open>Properties\<close>

definition failed_exchange :: "http_result \<Rightarrow> bool" where
  "failed_exchange h = (case h of DoFailed e \<Rightarrow> True | Response st None \<Rightarrow> True
     | Response st (Some b) \<Rightarrow> st \<noteq> 200)"

text \<open>A run of posts, each with its instants and its exchange.\<close>

fun post_all ::
  "(string \<Rightarrow> 'a option) \<Rightarrow> (time \<times> time \<times> http_result) list \<Rightarrow> circuitBreaker \<Rightarrow> circuitBreaker" where
  "post_all decode [] cb = cb"
| "post_all decode ((now, later, http) # xs) cb =
     post_all decode xs (snd (doPost now later None http decode cb))"

lemma doPost_failed:
  "failed_exchange http \<Longrightarrow> cb_allow now cb = (True, cb) \<Longrightarrow>
     snd (doPost now later None http decode cb) = cb_recordFailure later cb"
  by (auto simp: doPost_def failed_exchange_def Let_def split: http_result.splits option.splits)

lemma post_all_failed:
  assumes "\<forall>(now, later, http)\<in>set xs. failed_exchange http"
    and "cb_state cb = stateClosed" "cb_failureCount cb + int (length xs) \<le> cb_threshold cb"
  shows "post_all decode xs cb = fold cb_recordFailure (map (fst \<circ> snd) xs) cb"
  using assms
proof (induction xs arbitrary: cb)
  case (Cons x xs)
  obtain now later http where x: "x = (now, later, http)" by (cases x)
  have 1: "snd (doPost now later None http decode cb) = cb_recordFailure later cb"
    using Cons.prems x by (intro doPost_failed) (auto simp: registry.closed_allows)
  show ?case
  proof (cases xs)
    case Nil
    with x 1 show ?thesis by simp
  next
    case (Cons y ys)
    with Cons.prems have "cb_state (cb_recordFailure later cb) = stateClosed"
      by (intro registry.fail_below) auto
    with Cons.IH [of "cb_recordFailure later cb"] Cons.prems registry.fail_counts [of later cb] x 1
    show ?thesis by simp
  qed
qed simp

text \<open>
  C11. The breaker of the Dukcapil, AHU and OSS clients: after five failed exchanges in a row (no
  answer, an unreadable body or a status other than 200) a fresh client refuses every call for the
  30 seconds after the last failure, whatever the network would answer and without changing state, and
  the first call after that is sent again; if it fails the client is shut for another 30 seconds at
  once, and if it is answered with 200 the breaker is as new.
\<close>

theorem registry_client_trips:
  assumes "length xs = 4" and "\<forall>(now, later, http)\<in>set (xs @ [(n0, t0, h0)]). failed_exchange http"
    and "cb = post_all decode (xs @ [(n0, t0, h0)]) NewClient_cb"
  shows "(t \<le> t0 + 30 * second \<longrightarrow> doPost t t' build http decode cb = (Inl CircuitOpen, cb)) \<and>
    (t0 + 30 * second < t \<longrightarrow>
       fst (doPost t t' None http decode cb) \<noteq> Inl CircuitOpen \<and>
       (if failed_exchange http
        then \<forall>t''\<le>t' + 30 * second. \<forall>h. fst (doPost t'' t' None h decode
               (snd (doPost t t' None http decode cb))) = Inl CircuitOpen
        else cb_state (snd (doPost t t' None http decode cb)) = stateClosed \<and>
             cb_failureCount (snd (doPost t t' None http decode cb)) = 0))"
proof -
  let ?ts = "map (fst \<circ> snd) xs"
  have cb: "cb = fold cb_recordFailure (?ts @ [t0]) NewClient_cb"
    unfolding assms(3) using assms(1,2)
    by (subst post_all_failed) (simp_all add: NewClient_cb_def newCircuitBreaker_def)
  have par: "cb_threshold cb = 5" "cb_cooldown cb = 30 * second" "cb_failureCount cb = 5"
    using registry.fails_count [of "?ts @ [t0]" NewClient_cb] assms(1)
    by (simp_all add: cb NewClient_cb_def newCircuitBreaker_def)
  have op: "cb_state cb = stateOpen" "cb_openUntil cb = t0 + 30 * second"
    using registry.fails_open [of NewClient_cb ?ts t0] assms(1) par
    by (simp_all add: cb NewClient_cb_def newCircuitBreaker_def)
  show ?thesis using op par
    by (auto simp: doPost_def cb_allow_def cb_recordFailure_def cb_recordSuccess_def failed_exchange_def
        split: http_result.splits option.splits)
qed

theorem registry_client_trips_witness:
  "let cb = post_all (\<lambda>b. Some b) (replicate 5 (0, 1, DoFailed ''timeout'')) NewClient_cb
   in fst (doPost 5 6 None (Response 200 (Some ''{}'')) (\<lambda>b. Some b) cb) = Inl CircuitOpen"
  using registry_client_trips [of "replicate 4 (0, 1, DoFailed ''timeout'')" 0 1 "DoFailed ''timeout''"
      "post_all (\<lambda>b. Some b) (replicate 5 (0, 1, DoFailed ''timeout'')) NewClient_cb"
      "\<lambda>b. Some b" 5 6 None "Response 200 (Some ''{}'')"]
  by (simp add: failed_exchange_def numeral_eq_Suc Let_def)

end
