(* ===== verification/Sign_Storage.thy ===== *)
theory Sign_Storage
  imports GP_Prelude "HOL-Library.Sublist"
begin

text \<open>
  The file storage of the signing service (\<open>services/garudasign/storage/file.go\<close>) and what it uses of
  \<open>path/filepath\<close> on Unix: \<open>Base\<close>, \<open>Clean\<close>, \<open>Join\<close> and \<open>Abs\<close>.
  The disk is a map from absolute cleaned paths to contents (no symbolic links); the random bytes are
  a parameter, and so is the outcome of the write (\<open>io\<close>).
\<close>

section \<open>Lexical path processing\<close>

fun split_path :: "string \<Rightarrow> string list" where
  "split_path [] = [[]]"
| "split_path (c # cs) =
     (if c = CHR ''/'' then [] # split_path cs
      else case split_path cs of [] \<Rightarrow> [[c]] | x # xs \<Rightarrow> (c # x) # xs)"

fun join_path :: "string list \<Rightarrow> string" where
  "join_path [] = []"
| "join_path [x] = x"
| "join_path (x # xs) = x @ ''/'' @ join_path xs"

definition rooted :: "string \<Rightarrow> bool" where
  "rooted p \<longleftrightarrow> (case p of [] \<Rightarrow> False | c # _ \<Rightarrow> c = CHR ''/'')"

text \<open>
  The loop of \<open>Clean\<close>: empty and \<open>.\<close> elements go, \<open>..\<close> removes the element before it, stays at the
  start of a relative path and is dropped at the root. \<open>out\<close> holds the output, last element first.
\<close>

fun clean_elems :: "bool \<Rightarrow> string list \<Rightarrow> string list \<Rightarrow> string list" where
  "clean_elems r out [] = rev out"
| "clean_elems r out (x # xs) =
     (if x = [] \<or> x = ''.'' then clean_elems r out xs
      else if x = ''..'' then
        (case out of
           o' # os \<Rightarrow> if o' = ''..'' then clean_elems r (x # out) xs else clean_elems r os xs
         | [] \<Rightarrow> if r then clean_elems r [] xs else clean_elems r [x] xs)
      else clean_elems r (x # out) xs)"

definition Clean :: "string \<Rightarrow> string" where
  "Clean p =
     (let es = clean_elems (rooted p) [] (split_path p) in
      if rooted p then CHR ''/'' # join_path es
      else if es = [] then ''.'' else join_path es)"

definition Join :: "string \<Rightarrow> string \<Rightarrow> string" where
  "Join a b = (if a \<noteq> [] then Clean (a @ ''/'' @ b) else if b \<noteq> [] then Clean b else [])"

text \<open>\<open>filepath.Abs\<close> asks for the working directory (\<open>None\<close>: the call fails).\<close>

definition Abs :: "string option \<Rightarrow> string \<Rightarrow> string option" where
  "Abs cwd p = (if rooted p then Some (Clean p) else map_option (\<lambda>d. Join d p) cwd)"

fun strip_slashes :: "string \<Rightarrow> string" where
  "strip_slashes s = rev (dropWhile (\<lambda>c. c = CHR ''/'') (rev s))"

definition Base :: "string \<Rightarrow> string" where
  "Base s = (if s = [] then ''.''
     else let t = strip_slashes s; u = last (split_path t) in if u = [] then ''/'' else u)"

section \<open>File storage\<close>

type_synonym disk = "string \<rightharpoonup> string"

datatype storage_err =
    PathTraversal
  | PrefixFailed
  | CreateFailed
  | WriteFailed
  | OutsideBase
  | ResolveFailed
  | NoSuchFile

text \<open>
  The outcome of creating and writing the file: done, not created, or an error of \<open>io.Copy\<close> after
  the first \<open>n\<close> bytes.
\<close>

datatype io_result = IoDone | IoNotCreated | IoShort nat

record FileStorage =
  fs_baseDir :: string
  fs_cwd :: "string option"

definition contains_dotdot :: "string \<Rightarrow> bool" where
  "contains_dotdot s \<longleftrightarrow> sublist ''..'' s"

definition randomPrefix :: "(nat \<Rightarrow> string option) \<Rightarrow> nat \<Rightarrow> string option" where
  "randomPrefix rnd d = map_option hex_encode (rnd d)"

definition Save ::
  "FileStorage \<Rightarrow> string option \<Rightarrow> io_result \<Rightarrow> string \<Rightarrow> string \<Rightarrow> disk \<Rightarrow>
     (storage_err + string) \<times> disk" where
  "Save fs pfx io filename content disk =
     (if contains_dotdot filename then (Inl PathTraversal, disk)
      else case pfx of
        None \<Rightarrow> (Inl PrefixFailed, disk)
      | Some p \<Rightarrow>
         (let safeName = p @ ''_'' @ Base filename;
              fullPath = Join (fs_baseDir fs) safeName
          in case Abs (fs_cwd fs) fullPath of
               None \<Rightarrow> (Inl CreateFailed, disk)
             | Some f \<Rightarrow>
                (case io of
                   IoNotCreated \<Rightarrow> (Inl CreateFailed, disk)
                 | IoShort n \<Rightarrow> (Inl WriteFailed, disk(f \<mapsto> take n content))
                 | IoDone \<Rightarrow> (Inr safeName, disk(f \<mapsto> content)))))"

definition validatePath :: "FileStorage \<Rightarrow> string \<Rightarrow> storage_err option" where
  "validatePath fs fullPath =
     (case Abs (fs_cwd fs) (fs_baseDir fs) of
        None \<Rightarrow> Some ResolveFailed
      | Some absBase \<Rightarrow>
         (case Abs (fs_cwd fs) fullPath of
            None \<Rightarrow> Some ResolveFailed
          | Some absPath \<Rightarrow>
              if \<not> prefix (absBase @ ''/'') absPath \<and> absPath \<noteq> absBase
              then Some OutsideBase else None))"

definition open_file :: "FileStorage \<Rightarrow> string \<Rightarrow> disk \<Rightarrow> storage_err + string" where
  "open_file fs p disk =
     (case Abs (fs_cwd fs) p of
        None \<Rightarrow> Inl NoSuchFile
      | Some f \<Rightarrow> (case disk f of None \<Rightarrow> Inl NoSuchFile | Some c \<Rightarrow> Inr c))"

definition Load :: "FileStorage \<Rightarrow> string \<Rightarrow> disk \<Rightarrow> storage_err + string" where
  "Load fs path disk =
     (let fullPath = Join (fs_baseDir fs) path in
      case validatePath fs fullPath of
        Some e \<Rightarrow> Inl e
      | None \<Rightarrow> open_file fs fullPath disk)"

definition Delete :: "FileStorage \<Rightarrow> string \<Rightarrow> disk \<Rightarrow> storage_err option \<times> disk" where
  "Delete fs path disk =
     (let fullPath = Join (fs_baseDir fs) path in
      case validatePath fs fullPath of
        Some e \<Rightarrow> (Some e, disk)
      | None \<Rightarrow>
         (case Abs (fs_cwd fs) fullPath of
            None \<Rightarrow> (Some NoSuchFile, disk)
          | Some f \<Rightarrow> if disk f = None then (Some NoSuchFile, disk) else (None, disk(f := None))))"

section \<open>Lemmas on paths\<close>

abbreviation slash_free :: "string \<Rightarrow> bool" where
  "slash_free x \<equiv> CHR ''/'' \<notin> set x"

definition plain :: "string \<Rightarrow> bool" where
  "plain x \<longleftrightarrow> x \<noteq> [] \<and> x \<noteq> ''.'' \<and> x \<noteq> ''..'' \<and> slash_free x"

lemma split_path_not_Nil [simp]: "split_path s \<noteq> []"
  by (cases s) (auto split: list.splits)

lemma split_path_slash_free: "x \<in> set (split_path s) \<Longrightarrow> slash_free x"
  by (induction s arbitrary: x rule: split_path.induct) (auto split: if_splits list.splits)

lemma split_path_id [simp]: "slash_free x \<Longrightarrow> split_path x = [x]"
  by (induction x) auto

lemma split_path_append: "split_path (a @ CHR ''/'' # b) = split_path a @ split_path b"
  by (induction a) (auto split: list.splits)

lemma split_join:
  assumes "xs \<noteq> []" "\<forall>x\<in>set xs. slash_free x"
  shows "split_path (join_path xs) = xs"
  using assms by (induction xs rule: join_path.induct) (auto simp: split_path_append)

lemma clean_elems_set:
  "x \<in> set (clean_elems r out xs) \<Longrightarrow> x \<in> set out \<or> x \<in> set xs"
  by (induction r out xs rule: clean_elems.induct) (auto split: if_splits list.splits)

lemma clean_elems_plain:
  assumes "\<forall>x\<in>set out. plain x" "\<forall>x\<in>set xs. slash_free x"
  shows "\<forall>x\<in>set (clean_elems True out xs). plain x"
  using assms
proof (induction xs arbitrary: out)
  case (Cons x xs)
  have xs: "\<forall>x\<in>set xs. slash_free x" and x: "slash_free x" using Cons.prems(2) by auto
  have tl: "\<forall>y\<in>set (tl out). plain y" using Cons.prems(1) by (cases out) auto
  consider (skip) "clean_elems True out (x # xs) = clean_elems True out xs"
    | (pop) "clean_elems True out (x # xs) = clean_elems True (tl out) xs"
    | (push) "clean_elems True out (x # xs) = clean_elems True (x # out) xs" "plain x"
  proof (cases "x = [] \<or> x = ''.''")
    case False
    note nb = this
    show thesis
    proof (cases "x = ''..''")
      case True
      show thesis
      proof (cases out)
        case (Cons a list)
        with Cons.prems(1) have "a \<noteq> ''..''" by (simp add: plain_def)
        with True Cons show thesis by (intro pop) simp
      qed (use True pop in simp)
    next
      case False
      with nb x show thesis by (intro push) (simp_all add: plain_def)
    qed
  qed (use skip in simp)
  then show ?case
  proof cases
    case skip
    show ?thesis unfolding skip by (rule Cons.IH [OF Cons.prems(1) xs])
  next
    case pop
    show ?thesis unfolding pop by (rule Cons.IH [OF tl xs])
  next
    case push
    have "\<forall>y\<in>set (x # out). plain y" using push(2) Cons.prems(1) by simp
    then show ?thesis unfolding push(1) by (rule Cons.IH [OF _ xs])
  qed
qed simp

lemma clean_elems_plain_id: "\<forall>y\<in>set ys. plain y \<Longrightarrow> clean_elems r out ys = rev out @ ys"
  by (induction ys arbitrary: out) (simp_all add: plain_def)

lemma clean_elems_append:
  assumes "\<forall>y\<in>set ys. plain y"
  shows "clean_elems r out (xs @ ys) = clean_elems r out xs @ ys"
proof (induction xs arbitrary: out)
  case Nil
  with assms show ?case by (simp add: clean_elems_plain_id)
next
  case (Cons x xs)
  then show ?case by (cases out; cases r) simp_all
qed

lemma rooted_append [simp]: "a \<noteq> [] \<Longrightarrow> rooted (a @ b) = rooted a"
  by (cases a) (simp_all add: rooted_def)

lemma rooted_Cons [simp]: "rooted (CHR ''/'' # s)"
  by (simp add: rooted_def)

text \<open>An absolute path is cleaned to \<open>/\<close> followed by plain elements.\<close>

definition elems :: "string \<Rightarrow> string list" where
  "elems p = clean_elems True [] (split_path p)"

lemma elems_plain: "x \<in> set (elems p) \<Longrightarrow> plain x"
  using clean_elems_plain [of "[]" "split_path p"] by (auto simp: elems_def dest: split_path_slash_free)

lemma Clean_rooted: "rooted p \<Longrightarrow> Clean p = CHR ''/'' # join_path (elems p)"
  by (simp add: Clean_def elems_def)

lemma Abs_elems:
  assumes "Abs cwd p = Some a" "\<forall>d. cwd = Some d \<longrightarrow> rooted d"
  obtains es where "a = CHR ''/'' # join_path es" "\<forall>x\<in>set es. plain x"
proof (cases "rooted p")
  case True
  with assms(1) show thesis
    by (intro that [of "elems p"]) (auto simp: Abs_def Clean_rooted intro: elems_plain)
next
  case False
  with assms obtain d where "rooted d" "a = Join d p" by (auto simp: Abs_def)
  moreover from this(1) have "d \<noteq> []" by (auto simp: rooted_def)
  ultimately have "a = CHR ''/'' # join_path (elems (d @ ''/'' @ p))"
    by (simp add: Join_def Clean_rooted)
  then show thesis by (rule that) (blast intro: elems_plain)
qed

lemma prefix_elems:
  assumes "\<forall>x\<in>set bs. plain x" "\<forall>x\<in>set es. plain x"
    and "prefix ((CHR ''/'' # join_path bs) @ ''/'') (CHR ''/'' # join_path es)"
  obtains rest where "es = bs @ rest"
proof -
  from assms(3) obtain z where z: "join_path es = join_path bs @ CHR ''/'' # z"
    by (auto simp: prefix_def)
  then have ne: "es \<noteq> []" by (cases es) auto
  have "es = split_path (join_path bs) @ split_path z"
    using split_join [OF ne] assms(2) z by (simp add: split_path_append plain_def)
  moreover have "bs \<noteq> []"
  proof
    assume "bs = []"
    with calculation have "[] \<in> set es" by simp
    with assms(2) show False by (auto simp: plain_def)
  qed
  then have "split_path (join_path bs) = bs" using assms(1) by (intro split_join) (auto simp: plain_def)
  ultimately show thesis by (intro that) simp
qed

lemma join_path_append:
  "xs \<noteq> [] \<Longrightarrow> ys \<noteq> [] \<Longrightarrow> join_path (xs @ ys) = join_path xs @ CHR ''/'' # join_path ys"
proof (induction xs rule: join_path.induct)
  case (2 x)
  then show ?case by (cases ys) auto
qed auto


lemma elems_join: "\<forall>x\<in>set es. plain x \<Longrightarrow> elems (CHR ''/'' # join_path es) = es"
proof (cases "es = []")
  case False
  moreover assume "\<forall>x\<in>set es. plain x"
  moreover from this have "split_path (join_path es) = es"
    using False by (intro split_join) (auto simp: plain_def)
  ultimately show ?thesis by (simp add: elems_def clean_elems_plain_id)
qed (simp add: elems_def)

lemma clean_elems_snoc_empty: "clean_elems r out (xs @ [[]]) = clean_elems r out xs"
proof (induction xs arbitrary: out)
  case (Cons x xs)
  then show ?case by (cases out; cases r) simp_all
qed simp

lemma hex_encode_digits: "c \<in> set (hex_encode s) \<Longrightarrow> c \<in> set hex_digits"
proof -
  have "hex_digits ! (byte x div 16) \<in> set hex_digits \<and> hex_digits ! (byte x mod 16) \<in> set hex_digits"
    for x using byte_less [of x] by (intro conjI nth_mem) (simp_all add: hex_digits_def)
  then show "c \<in> set (hex_encode s) \<Longrightarrow> c \<in> set hex_digits"
    by (auto simp: hex_encode_def)
qed

lemma hex_encode_slash_free: "slash_free (hex_encode s)"
  using hex_encode_digits [of "CHR ''/''" s] by (auto simp: hex_digits_def)

lemma Base_cases: "slash_free (Base s) \<or> Base s = ''/''"
proof (cases "s = []")
  case False
  let ?u = "last (split_path (strip_slashes s))"
  have "slash_free ?u" by (rule split_path_slash_free [OF last_in_set]) simp
  with False show ?thesis unfolding Base_def Let_def by (cases "?u = []") (simp_all del: strip_slashes.simps)
qed (simp add: Base_def)

lemma plainI: "CHR ''_'' \<in> set x \<Longrightarrow> slash_free x \<Longrightarrow> plain x"
  by (auto simp: plain_def)

text \<open>The name under which a file is saved adds one element to the base directory.\<close>

lemma elems_safeName:
  obtains n y where "plain n" "n = hex_encode b @ ''_'' @ y"
    "elems (base @ ''/'' @ hex_encode b @ ''_'' @ Base filename) = elems base @ [n]"
proof (cases "slash_free (Base filename)")
  case True
  let ?n = "hex_encode b @ ''_'' @ Base filename"
  have q: "plain ?n" using True hex_encode_slash_free [of b] by (intro plainI) auto
  then have "split_path ?n = [?n]" by (intro split_path_id) (simp add: plain_def)
  with q show thesis
    by (intro that [OF q refl]) (simp add: elems_def split_path_append clean_elems_append)
next
  case False
  then have b: "Base filename = ''/''" using Base_cases [of filename] by blast
  let ?n = "hex_encode b @ ''_''"
  have q: "plain ?n" using hex_encode_slash_free [of b] by (intro plainI) auto
  then have "split_path (hex_encode b @ ''_'' @ ''/'') = [?n] @ [[]]"
    using split_path_append [of ?n "[]"] by (simp add: plain_def)
  then have "elems (base @ ''/'' @ hex_encode b @ ''_'' @ Base filename) =
      clean_elems True [] ((split_path base @ [?n]) @ [[]])"
    by (simp add: elems_def split_path_append b)
  also have "\<dots> = elems base @ [?n]"
    unfolding clean_elems_snoc_empty using q by (simp add: elems_def clean_elems_append)
  finally show thesis by (intro that [OF q, of "[]"]) simp_all
qed

lemma Save_path:
  assumes base: "rooted (fs_baseDir fs)" and ne: "Abs (fs_cwd fs) (fs_baseDir fs) \<noteq> Some ''/''"
  obtains n y where "plain n" "n = hex_encode b @ ''_'' @ y"
    "Abs (fs_cwd fs) (Join (fs_baseDir fs) (hex_encode b @ ''_'' @ Base filename)) =
       Some (Clean (fs_baseDir fs) @ ''/'' @ n)"
    "validatePath fs (Join (fs_baseDir fs) (hex_encode b @ ''_'' @ Base filename)) = None"
proof -
  let ?base = "fs_baseDir fs" and ?safe = "hex_encode b @ ''_'' @ Base filename"
  obtain n y where n: "plain n" "elems (?base @ ''/'' @ ?safe) = elems ?base @ [n]"
    and y: "n = hex_encode b @ ''_'' @ y" by (rule elems_safeName)
  have abs: "Abs (fs_cwd fs) ?base = Some (CHR ''/'' # join_path (elems ?base))"
    using base by (simp add: Abs_def Clean_rooted)
  with ne have be: "elems ?base \<noteq> []" by auto
  have "?base \<noteq> []" using base by (auto simp: rooted_def)
  then have j: "Join ?base ?safe = CHR ''/'' # join_path (elems ?base @ [n])"
    using base n(2) by (simp add: Join_def Clean_rooted)
  have "\<forall>x\<in>set (elems ?base @ [n]). plain x" using n(1) by (auto intro: elems_plain)
  then have "Abs (fs_cwd fs) (Join ?base ?safe) = Some (CHR ''/'' # join_path (elems ?base @ [n]))"
    unfolding j by (simp add: Abs_def Clean_rooted elems_join del: append_Cons append_Nil set_append)
  moreover have "CHR ''/'' # join_path (elems ?base @ [n]) = Clean ?base @ ''/'' @ n"
    using be base by (simp add: join_path_append Clean_rooted)
  ultimately have a: "Abs (fs_cwd fs) (Join ?base ?safe) = Some (Clean ?base @ ''/'' @ n)" by simp
  with abs base have "validatePath fs (Join ?base ?safe) = None"
    by (simp add: validatePath_def Clean_rooted)
  with n(1) a y show thesis by (intro that)
qed

section \<open>The contract of a file store\<close>

text \<open>
  What the handlers rely on: a saved file is read back under the name returned, and a save leaves the
  files of every other draw of the random prefix alone.
  \<open>storage_ok\<close> collects the hypotheses: an absolute base directory other than the root, and hexadecimal
  prefixes that do not repeat.
\<close>

definition storage_ok :: "FileStorage \<Rightarrow> (nat \<Rightarrow> string option) \<Rightarrow> bool" where
  "storage_ok fs pfx \<longleftrightarrow> rooted (fs_baseDir fs) \<and> Abs (fs_cwd fs) (fs_baseDir fs) \<noteq> Some ''/'' \<and>
     (\<forall>n x. pfx n = Some x \<longrightarrow> (\<exists>b. x = hex_encode b)) \<and>
     (\<forall>m n x. pfx m = Some x \<longrightarrow> pfx n = Some x \<longrightarrow> m = n)"

definition saved_at :: "(nat \<Rightarrow> string option) \<Rightarrow> nat \<Rightarrow> string \<Rightarrow> bool" where
  "saved_at pfx n p \<longleftrightarrow> (\<exists>x f. pfx n = Some x \<and> p = x @ ''_'' @ Base f)"

locale file_store =
  fixes save :: "nat \<Rightarrow> string \<Rightarrow> string \<Rightarrow> 'd \<Rightarrow> ('e + string) \<times> 'd"
    and load :: "string \<Rightarrow> 'd \<Rightarrow> 'e + string"
    and lives :: "nat \<Rightarrow> string \<Rightarrow> bool"
    and ok :: bool
  assumes save_ok: "ok \<Longrightarrow> save n f c d = (Inr p, d') \<Longrightarrow> load p d' = Inr c \<and> lives n p"
    and save_frame: "ok \<Longrightarrow> save n f c d = (r, d') \<Longrightarrow> lives m p \<Longrightarrow> m \<noteq> n \<Longrightarrow> load p d' = load p d"
begin

definition holds :: "nat \<Rightarrow> string \<Rightarrow> string \<Rightarrow> 'd \<Rightarrow> bool" where
  "holds n p c d \<longleftrightarrow> (\<exists>m<n. lives m p) \<and> load p d = Inr c"

lemma holds_new: "ok \<Longrightarrow> save n f c d = (Inr p, d') \<Longrightarrow> holds (Suc n) p c d'"
  using save_ok by (auto simp: holds_def)

lemma holds_keep: "ok \<Longrightarrow> save n f c' d = (r, d') \<Longrightarrow> holds n p c d \<Longrightarrow> holds (Suc n) p c d'"
proof -
  assume a: "ok" "save n f c' d = (r, d')" "holds n p c d"
  then obtain m where m: "m < n" "lives m p" "load p d = Inr c" by (auto simp: holds_def)
  with save_frame [OF a(1,2) m(2)] show ?thesis by (auto simp: holds_def intro!: exI [of _ m])
qed

lemma holds_mono: "holds n p c d \<Longrightarrow> n \<le> n' \<Longrightarrow> holds n' p c d"
  unfolding holds_def using order_less_le_trans by blast

end

lemma hex_before_underscore:
  assumes "hex_encode b @ ''_'' @ y = hex_encode b' @ ''_'' @ y'"
  shows "hex_encode b = hex_encode b'"
proof -
  have "CHR ''_'' \<notin> set (hex_encode s)" for s
    using hex_encode_digits [of "CHR ''_''" s] by (auto simp: hex_digits_def)
  then have "takeWhile (\<lambda>c. c \<noteq> CHR ''_'') (hex_encode s @ ''_'' @ z) = hex_encode s" for s z
    by (subst takeWhile_append2) auto
  with assms show ?thesis by metis
qed

interpretation fs_store: file_store "\<lambda>n. Save fs (pfx n) (io n)" "Load fs" "saved_at pfx"
  "storage_ok fs pfx" for fs pfx io
proof unfold_locales
  show "Load fs p d' = Inr c \<and> saved_at pfx n p"
    if ok: "storage_ok fs pfx" and sv: "Save fs (pfx n) (io n) f c d = (Inr p, d')" for n f c d p d'
  proof -
    from sv obtain x where x: "pfx n = Some x" by (auto simp: Save_def split: if_splits option.splits)
    with ok obtain b where b: "x = hex_encode b" unfolding storage_ok_def by blast
    from ok have base: "rooted (fs_baseDir fs)" "Abs (fs_cwd fs) (fs_baseDir fs) \<noteq> Some ''/''"
      by (simp_all add: storage_ok_def)
    obtain n' y where "Abs (fs_cwd fs) (Join (fs_baseDir fs) (hex_encode b @ ''_'' @ Base f)) =
       Some (Clean (fs_baseDir fs) @ ''/'' @ n')"
      "validatePath fs (Join (fs_baseDir fs) (hex_encode b @ ''_'' @ Base f)) = None"
      using Save_path [OF base] by metis
    with sv x b show ?thesis
      by (auto simp: Save_def Load_def Let_def open_file_def saved_at_def
          split: if_splits io_result.splits)
  qed
  show "Load fs p d' = Load fs p d"
    if ok: "storage_ok fs pfx" and sv: "Save fs (pfx n) (io n) f c d = (r, d')"
      and p: "saved_at pfx m p" and ne: "m \<noteq> n" for n f c d r d' m p
  proof (cases "d' = d")
    case False
    with sv obtain x where x: "pfx n = Some x" by (auto simp: Save_def split: if_splits option.splits)
    from ok obtain b where b: "x = hex_encode b"
      using x unfolding storage_ok_def by blast
    from p obtain x' g where x': "pfx m = Some x'" "p = x' @ ''_'' @ Base g"
      by (auto simp: saved_at_def)
    from ok obtain b' where b': "x' = hex_encode b'"
      using x'(1) unfolding storage_ok_def by blast
    from ok have base: "rooted (fs_baseDir fs)" "Abs (fs_cwd fs) (fs_baseDir fs) \<noteq> Some ''/''"
      by (simp_all add: storage_ok_def)
    from Save_path [OF base, of b f] obtain n1 y1 where n1: "n1 = hex_encode b @ ''_'' @ y1"
      "Abs (fs_cwd fs) (Join (fs_baseDir fs) (hex_encode b @ ''_'' @ Base f)) =
         Some (Clean (fs_baseDir fs) @ ''/'' @ n1)" by metis
    from Save_path [OF base, of b' g] obtain n2 y2 where n2: "n2 = hex_encode b' @ ''_'' @ y2"
      "Abs (fs_cwd fs) (Join (fs_baseDir fs) (hex_encode b' @ ''_'' @ Base g)) =
         Some (Clean (fs_baseDir fs) @ ''/'' @ n2)" by metis
    have "x \<noteq> x'" using ok x x'(1) ne unfolding storage_ok_def by blast
    then have "n1 \<noteq> n2"
      using hex_before_underscore [of b y1 b' y2] b b' by (auto simp: n1(1) n2(1))
    moreover have "\<exists>c'. d' = d(Clean (fs_baseDir fs) @ ''/'' @ n1 \<mapsto> c')"
      using sv False x b n1(2) by (auto simp: Save_def Let_def split: if_splits io_result.splits)
    ultimately show ?thesis using n2(2) x'(2) b'
      by (auto simp: Load_def Let_def open_file_def split: option.split)
  qed simp
qed

section \<open>Properties\<close>

lemma validatePath_None:
  assumes "validatePath fs p = None" "\<forall>d. fs_cwd fs = Some d \<longrightarrow> rooted d"
  obtains absBase f where "Abs (fs_cwd fs) (fs_baseDir fs) = Some absBase" "Abs (fs_cwd fs) p = Some f"
    "f = absBase \<or> (\<exists>rest. rest \<noteq> [] \<and> f = absBase @ ''/'' @ join_path rest \<and> (\<forall>x\<in>set rest. plain x))"
proof -
  from assms(1) obtain a f where a: "Abs (fs_cwd fs) (fs_baseDir fs) = Some a"
    and f: "Abs (fs_cwd fs) p = Some f" and pre: "prefix (a @ ''/'') f \<or> f = a"
    by (auto simp: validatePath_def split: option.splits if_splits)
  from Abs_elems [OF a assms(2)] obtain bs where bs: "a = CHR ''/'' # join_path bs"
    "\<forall>x\<in>set bs. plain x" .
  from Abs_elems [OF f assms(2)] obtain es where es: "f = CHR ''/'' # join_path es"
    "\<forall>x\<in>set es. plain x" .
  show thesis
  proof (cases "f = a")
    case True
    with a f show thesis by (intro that) auto
  next
    case False
    with pre have p: "prefix (a @ ''/'') f" by simp
    from prefix_elems [OF bs(2) es(2)] p obtain rest where r: "es = bs @ rest"
      unfolding bs(1) es(1) by blast
    have ne: "rest \<noteq> []" using False r bs(1) es(1) by auto
    have "bs \<noteq> []"
    proof
      assume "bs = []"
      with p bs(1) es(1) obtain z where "join_path es = CHR ''/'' # z" by (auto simp: prefix_def)
      moreover have "split_path (join_path es) = es"
        using ne r es(2) by (intro split_join) (auto simp: plain_def)
      ultimately have "[] \<in> set es" by (metis list.set_intros(1) split_path.simps(2))
      with es(2) show False by (auto simp: plain_def)
    qed
    with ne have "f = a @ ''/'' @ join_path rest" by (simp add: bs(1) es(1) r join_path_append)
    with es(2) r ne show thesis by (intro that [OF a f]) auto
  qed
qed

text \<open>
  C9. Containment: whatever path is asked for -- \<open>..\<close> elements, absolute-looking names, repeated slashes
  -- \<open>Load\<close> returns and \<open>Delete\<close> removes only the base directory's own entry or a file strictly below
  it, and \<open>Delete\<close> leaves every other file alone.
\<close>

theorem storage_contained:
  assumes "\<forall>d. fs_cwd fs = Some d \<longrightarrow> rooted d" and "Abs (fs_cwd fs) (fs_baseDir fs) = Some absBase"
  shows "(Load fs path disk = Inr c \<longrightarrow> (\<exists>f. disk f = Some c \<and> (f = absBase \<or>
      (\<exists>rest. f = absBase @ ''/'' @ join_path rest \<and> (\<forall>x\<in>set rest. plain x))))) \<and>
    (Delete fs path disk = (None, disk') \<longrightarrow> (\<exists>f. disk' = disk(f := None) \<and> (f = absBase \<or>
      (\<exists>rest. f = absBase @ ''/'' @ join_path rest \<and> (\<forall>x\<in>set rest. plain x)))))"
proof (cases "validatePath fs (Join (fs_baseDir fs) path)")
  case None
  from validatePath_None [OF None assms(1)] assms(2) obtain f where
    "Abs (fs_cwd fs) (Join (fs_baseDir fs) path) = Some f" "f = absBase \<or>
      (\<exists>rest. f = absBase @ ''/'' @ join_path rest \<and> (\<forall>x\<in>set rest. plain x))" by (metis option.inject)
  with None show ?thesis
    by (auto simp: Load_def Delete_def Let_def open_file_def split: option.splits if_splits)
qed (auto simp: Load_def Delete_def Let_def)

text \<open>
  C14. Round trip: with an absolute base directory other than the root, a successful \<open>Save\<close> writes
  exactly one file, one level below the base directory, and the name it returns loads the saved bytes
  back, whatever the uploaded name was.
\<close>

theorem save_load:
  assumes "rooted (fs_baseDir fs)" and "Abs (fs_cwd fs) (fs_baseDir fs) \<noteq> Some ''/''"
    and "randomPrefix rnd d = Some p"
    and "Save fs (Some p) io filename content disk = (Inr name, disk')"
  shows "Load fs name disk' = Inr content \<and>
    (\<exists>n. plain n \<and> disk' = disk(Clean (fs_baseDir fs) @ ''/'' @ n \<mapsto> content))"
proof -
  from assms(3) obtain b where p: "p = hex_encode b" by (auto simp: randomPrefix_def)
  from Save_path [OF assms(1,2), of b filename] obtain n y where n: "plain n"
    "Abs (fs_cwd fs) (Join (fs_baseDir fs) (hex_encode b @ ''_'' @ Base filename)) =
       Some (Clean (fs_baseDir fs) @ ''/'' @ n)"
    "validatePath fs (Join (fs_baseDir fs) (hex_encode b @ ''_'' @ Base filename)) = None" by metis
  from assms(4) n(2) p have "name = hex_encode b @ ''_'' @ Base filename"
    "disk' = disk(Clean (fs_baseDir fs) @ ''/'' @ n \<mapsto> content)"
    by (auto simp: Save_def Let_def split: if_splits io_result.splits)
  with n show ?thesis by (auto simp: Load_def Let_def open_file_def)
qed


definition example_fs :: FileStorage where
  "example_fs = \<lparr>fs_baseDir = ''/data'', fs_cwd = None\<rparr>"

lemma example_fs_abs: "Abs (fs_cwd example_fs) (fs_baseDir example_fs) = Some ''/data''"
  by code_simp

theorem storage_contained_witness:
  "\<exists>f. [''/data/x'' \<mapsto> ''c''] f = Some ''c'' \<and> (f = ''/data'' \<or>
      (\<exists>rest. f = ''/data'' @ ''/'' @ join_path rest \<and> (\<forall>x\<in>set rest. plain x)))"
proof -
  have "Load example_fs ''a/../x'' [''/data/x'' \<mapsto> ''c''] = Inr ''c''" by code_simp
  with storage_contained [OF _ example_fs_abs, of "''a/../x''" "[''/data/x'' \<mapsto> ''c'']" "''c''"]
  show ?thesis by (simp add: example_fs_def)
qed

theorem save_load_witness:
  "Load example_fs ''00_a.pdf'' (snd (Save example_fs (Some ''00'') IoDone ''a.pdf'' ''PDF'' Map.empty)) = Inr ''PDF''"
proof -
  have "randomPrefix (\<lambda>d. Some [CHR 0x00]) 0 = Some ''00''" by code_simp
  moreover have "fst (Save example_fs (Some ''00'') IoDone ''a.pdf'' ''PDF'' Map.empty) = Inr ''00_a.pdf''"
    by code_simp
  moreover have "rooted (fs_baseDir example_fs)" by code_simp
  ultimately show ?thesis
    using save_load [of example_fs "\<lambda>d. Some [CHR 0x00]" 0 "''00''" IoDone "''a.pdf''" "''PDF''" Map.empty
      "''00_a.pdf''" "snd (Save example_fs (Some ''00'') IoDone ''a.pdf'' ''PDF'' Map.empty)"]
    by (simp add: example_fs_abs prod_eq_iff)
qed

end
