(* ===== verification/Sign_Model.thy ===== *)
theory Sign_Model
  imports Sign_Storage
begin

text \<open>
  The data of the signing service (\<open>services/garudasign\<close>): certificates, signing requests, signed
  documents and audit events; the in-memory stores (\<open>store/certificate.go\<close>, \<open>request.go\<close>,
  \<open>document.go\<close>), the validators of the production stores (\<open>store/validate.go\<close>) and the audit
  emitter (\<open>audit/emitter.go\<close>).
  The Go interfaces are records of operations on a state; the world of the in-memory stores is the
  record \<open>sign\<close>, which also holds the disk, the audit trail and the number of random draws.
\<close>

section \<open>Records\<close>

record Certificate =
  ce_ID :: ident
  ce_UserID :: ident
  ce_SerialNumber :: string
  ce_IssuerDN :: string
  ce_SubjectDN :: string
  ce_Status :: string
  ce_ValidFrom :: time
  ce_ValidTo :: time
  ce_CertificatePEM :: string
  ce_FingerprintSHA256 :: string
  ce_RevokedAt :: "time option"
  ce_RevocationReason :: string
  ce_CreatedAt :: time
  ce_UpdatedAt :: time

record SigningRequest =
  sr_ID :: ident
  sr_UserID :: ident
  sr_CertificateID :: ident
  sr_DocumentName :: string
  sr_DocumentSize :: int
  sr_DocumentHash :: string
  sr_DocumentPath :: string
  sr_Status :: string
  sr_ErrorMessage :: string
  sr_ExpiresAt :: time
  sr_CreatedAt :: time
  sr_UpdatedAt :: time

record SignedDocument =
  sd_ID :: ident
  sd_RequestID :: ident
  sd_CertificateID :: ident
  sd_SignedHash :: string
  sd_SignedPath :: string
  sd_SignedSize :: int
  sd_PAdESLevel :: string
  sd_SignatureTimestamp :: time
  sd_CreatedAt :: time

record CertificateIssueRequest =
  ci_SubjectCN :: string
  ci_SubjectUID :: string
  ci_ValidityDays :: int

record CertificateIssueResponse =
  cp_SerialNumber :: string
  cp_CertificatePEM :: string
  cp_IssuerDN :: string
  cp_SubjectDN :: string
  cp_ValidFrom :: string
  cp_ValidTo :: string
  cp_FingerprintSHA256 :: string

record SignRequest =
  sq_DocumentBase64 :: string
  sq_CertificatePEM :: string
  sq_SignatureLevel :: string

record SignResponse =
  sp_SignedDocumentBase64 :: string
  sp_SignatureTimestamp :: string
  sp_PAdESLevel :: string

record Event =
  ev_UserID :: ident
  ev_Action :: string
  ev_Metadata :: "(string \<times> string) list"

datatype sign_err =
    ErrActiveCertificateExists
  | CertificateNotFound ident
  | NoActiveCertificate ident
  | RequestNotFound ident
  | DocumentNotFound ident
  | DocumentExists ident
  | Invalid verr
  | StorageErr storage_err
  | Other string

section \<open>Interfaces\<close>

record 's CertificateStore =
  cs_Create :: "Certificate \<Rightarrow> 's \<Rightarrow> sign_err + Certificate \<times> 's"
  cs_GetByID :: "ident \<Rightarrow> 's \<Rightarrow> sign_err + Certificate"
  cs_GetActiveByUser :: "ident \<Rightarrow> 's \<Rightarrow> sign_err + Certificate"
  cs_ListByUser :: "ident \<Rightarrow> string \<Rightarrow> 's \<Rightarrow> sign_err + Certificate list"
  cs_UpdateStatus :: "ident \<Rightarrow> string \<Rightarrow> time option \<Rightarrow> string \<Rightarrow> 's \<Rightarrow> sign_err + 's"

record 's RequestStore =
  rt_Create :: "SigningRequest \<Rightarrow> 's \<Rightarrow> sign_err + SigningRequest \<times> 's"
  rt_GetByID :: "ident \<Rightarrow> 's \<Rightarrow> sign_err + SigningRequest"
  rt_ListByUser :: "ident \<Rightarrow> 's \<Rightarrow> sign_err + SigningRequest list"
  rt_UpdateStatus :: "ident \<Rightarrow> string \<Rightarrow> ident \<Rightarrow> string \<Rightarrow> 's \<Rightarrow> sign_err + 's"

record 's DocumentStore =
  dt_Create :: "SignedDocument \<Rightarrow> 's \<Rightarrow> sign_err + SignedDocument \<times> 's"
  dt_GetByRequestID :: "ident \<Rightarrow> 's \<Rightarrow> sign_err + SignedDocument"

record SigningBackend =
  sb_IssueCertificate :: "CertificateIssueRequest \<Rightarrow> string + CertificateIssueResponse"
  sb_SignDocument :: "SignRequest \<Rightarrow> string + SignResponse"

section \<open>The world of the in-memory stores\<close>

record sign =
  sg_certs :: "ident \<rightharpoonup> Certificate"
  sg_requests :: "ident \<rightharpoonup> SigningRequest"
  sg_docs :: "ident \<rightharpoonup> SignedDocument"
  sg_byID :: "ident \<rightharpoonup> SignedDocument"
  sg_disk :: disk
  sg_events :: "Event list"
  sg_drawn :: nat

definition sign_init :: sign where
  "sign_init = \<lparr>sg_certs = Map.empty, sg_requests = Map.empty, sg_docs = Map.empty,
     sg_byID = Map.empty, sg_disk = Map.empty, sg_events = [], sg_drawn = 0\<rparr>"

text \<open>The random bytes of the \<open>n\<close>-th draw, 16 of them for an identifier.\<close>

definition generateID :: "(nat \<Rightarrow> string) \<Rightarrow> nat \<Rightarrow> ident" where
  "generateID rnd d = hex_encode (rnd d)"

lemma inj_generateID: "inj rnd \<Longrightarrow> inj (generateID rnd)"
  by (auto simp: inj_def generateID_def dest: hex_encode_inj)

definition cert_Create ::
  "ident list \<Rightarrow> ident \<Rightarrow> time \<Rightarrow> Certificate \<Rightarrow> (ident \<rightharpoonup> Certificate) \<Rightarrow>
     sign_err + Certificate \<times> (ident \<rightharpoonup> Certificate)" where
  "cert_Create ks uid now cert m =
     (if ce_Status cert = ''ACTIVE'' \<and> ce_UserID cert \<noteq> [] \<and>
         list_ex (\<lambda>e. ce_UserID e = ce_UserID cert \<and> ce_Status e = ''ACTIVE'') (range_vals ks m)
      then Inl ErrActiveCertificateExists
      else let cert' = cert\<lparr>ce_ID := uid, ce_CreatedAt := now, ce_UpdatedAt := now\<rparr>
           in Inr (cert', m(uid \<mapsto> cert')))"

definition cert_GetByID :: "ident \<Rightarrow> (ident \<rightharpoonup> Certificate) \<Rightarrow> sign_err + Certificate" where
  "cert_GetByID i m = (case m i of None \<Rightarrow> Inl (CertificateNotFound i) | Some c \<Rightarrow> Inr c)"

definition cert_GetActiveByUser ::
  "ident list \<Rightarrow> ident \<Rightarrow> (ident \<rightharpoonup> Certificate) \<Rightarrow> sign_err + Certificate" where
  "cert_GetActiveByUser ks u m =
     (case find (\<lambda>c. ce_UserID c = u \<and> ce_Status c = ''ACTIVE'') (range_vals ks m) of
        Some c \<Rightarrow> Inr c | None \<Rightarrow> Inl (NoActiveCertificate u))"

definition cert_ListByUser ::
  "ident list \<Rightarrow> ident \<Rightarrow> string \<Rightarrow> (ident \<rightharpoonup> Certificate) \<Rightarrow> Certificate list" where
  "cert_ListByUser ks u statusFilter m =
     filter (\<lambda>c. ce_UserID c = u \<and> (statusFilter = [] \<or> ce_Status c = statusFilter)) (range_vals ks m)"

definition cert_UpdateStatus ::
  "ident \<Rightarrow> string \<Rightarrow> time option \<Rightarrow> string \<Rightarrow> time \<Rightarrow> (ident \<rightharpoonup> Certificate) \<Rightarrow>
     sign_err + (ident \<rightharpoonup> Certificate)" where
  "cert_UpdateStatus i status revokedAt reason now m =
     (case m i of
        None \<Rightarrow> Inl (CertificateNotFound i)
      | Some c \<Rightarrow> Inr (m(i \<mapsto> c\<lparr>ce_Status := status, ce_RevokedAt := revokedAt,
                              ce_RevocationReason := reason, ce_UpdatedAt := now\<rparr>)))"

definition InMemoryCertificateStore ::
  "(nat \<Rightarrow> string) \<Rightarrow> time \<Rightarrow> ident list \<Rightarrow> sign CertificateStore" where
  "InMemoryCertificateStore rnd now ks = \<lparr>
     cs_Create = (\<lambda>c s. map_sum id
       (\<lambda>(c', m). (c', s\<lparr>sg_certs := m, sg_drawn := Suc (sg_drawn s)\<rparr>))
       (cert_Create ks (generateID rnd (sg_drawn s)) now c (sg_certs s))),
     cs_GetByID = (\<lambda>i s. cert_GetByID i (sg_certs s)),
     cs_GetActiveByUser = (\<lambda>u s. cert_GetActiveByUser ks u (sg_certs s)),
     cs_ListByUser = (\<lambda>u f s. Inr (cert_ListByUser ks u f (sg_certs s))),
     cs_UpdateStatus = (\<lambda>i st r reason s. map_sum id (\<lambda>m. s\<lparr>sg_certs := m\<rparr>)
       (cert_UpdateStatus i st r reason now (sg_certs s)))\<rparr>"

definition req_Create ::
  "ident \<Rightarrow> time \<Rightarrow> SigningRequest \<Rightarrow> (ident \<rightharpoonup> SigningRequest) \<Rightarrow>
     SigningRequest \<times> (ident \<rightharpoonup> SigningRequest)" where
  "req_Create uid now r m =
     (let r' = r\<lparr>sr_ID := uid, sr_CreatedAt := now, sr_UpdatedAt := now\<rparr> in (r', m(uid \<mapsto> r')))"

definition req_GetByID :: "ident \<Rightarrow> (ident \<rightharpoonup> SigningRequest) \<Rightarrow> sign_err + SigningRequest" where
  "req_GetByID i m = (case m i of None \<Rightarrow> Inl (RequestNotFound i) | Some r \<Rightarrow> Inr r)"

definition req_ListByUser ::
  "ident list \<Rightarrow> ident \<Rightarrow> (ident \<rightharpoonup> SigningRequest) \<Rightarrow> SigningRequest list" where
  "req_ListByUser ks u m = filter (\<lambda>r. sr_UserID r = u) (range_vals ks m)"

definition req_UpdateStatus ::
  "ident \<Rightarrow> string \<Rightarrow> ident \<Rightarrow> string \<Rightarrow> time \<Rightarrow> (ident \<rightharpoonup> SigningRequest) \<Rightarrow>
     sign_err + (ident \<rightharpoonup> SigningRequest)" where
  "req_UpdateStatus i status certificateID errorMsg now m =
     (case m i of
        None \<Rightarrow> Inl (RequestNotFound i)
      | Some r \<Rightarrow>
         (let r1 = r\<lparr>sr_Status := status\<rparr>;
              r2 = (if certificateID \<noteq> [] then r1\<lparr>sr_CertificateID := certificateID\<rparr> else r1)
          in Inr (m(i \<mapsto> r2\<lparr>sr_ErrorMessage := errorMsg, sr_UpdatedAt := now\<rparr>))))"

definition InMemoryRequestStore ::
  "(nat \<Rightarrow> string) \<Rightarrow> time \<Rightarrow> ident list \<Rightarrow> sign RequestStore" where
  "InMemoryRequestStore rnd now ks = \<lparr>
     rt_Create = (\<lambda>r s.
       let (r', m) = req_Create (generateID rnd (sg_drawn s)) now r (sg_requests s)
       in Inr (r', s\<lparr>sg_requests := m, sg_drawn := Suc (sg_drawn s)\<rparr>)),
     rt_GetByID = (\<lambda>i s. req_GetByID i (sg_requests s)),
     rt_ListByUser = (\<lambda>u s. Inr (req_ListByUser ks u (sg_requests s))),
     rt_UpdateStatus = (\<lambda>i st c e s. map_sum id (\<lambda>m. s\<lparr>sg_requests := m\<rparr>)
       (req_UpdateStatus i st c e now (sg_requests s)))\<rparr>"

definition doc_Create ::
  "ident \<Rightarrow> time \<Rightarrow> SignedDocument \<Rightarrow> (ident \<rightharpoonup> SignedDocument) \<times> (ident \<rightharpoonup> SignedDocument) \<Rightarrow>
     sign_err + SignedDocument \<times> (ident \<rightharpoonup> SignedDocument) \<times> (ident \<rightharpoonup> SignedDocument)" where
  "doc_Create uid now doc maps =
     (let (docs, byID) = maps in
      if docs (sd_RequestID doc) \<noteq> None then Inl (DocumentExists (sd_RequestID doc))
      else let doc' = doc\<lparr>sd_ID := uid, sd_CreatedAt := now\<rparr>
           in Inr (doc', docs(sd_RequestID doc' \<mapsto> doc'), byID(sd_ID doc' \<mapsto> doc')))"

definition doc_GetByRequestID ::
  "ident \<Rightarrow> (ident \<rightharpoonup> SignedDocument) \<Rightarrow> sign_err + SignedDocument" where
  "doc_GetByRequestID i m = (case m i of None \<Rightarrow> Inl (DocumentNotFound i) | Some d \<Rightarrow> Inr d)"

definition InMemoryDocumentStore :: "(nat \<Rightarrow> string) \<Rightarrow> time \<Rightarrow> sign DocumentStore" where
  "InMemoryDocumentStore rnd now = \<lparr>
     dt_Create = (\<lambda>d s. map_sum id
       (\<lambda>(d', docs, byID). (d', s\<lparr>sg_docs := docs, sg_byID := byID, sg_drawn := Suc (sg_drawn s)\<rparr>))
       (doc_Create (generateID rnd (sg_drawn s)) now d (sg_docs s, sg_byID s))),
     dt_GetByRequestID = (\<lambda>i s. doc_GetByRequestID i (sg_docs s))\<rparr>"

text \<open>\<open>LogEmitter.Emit\<close>: an event without user or action is refused, any other is logged.\<close>

definition Emit :: "Event \<Rightarrow> Event list \<Rightarrow> string option \<times> Event list" where
  "Emit e trail =
     (if ev_UserID e = [] then (Some ''audit event requires user_id'', trail)
      else if ev_Action e = [] then (Some ''audit event requires action'', trail)
      else (None, trail @ [e]))"

definition log_emit :: "Event \<Rightarrow> sign \<Rightarrow> sign" where
  "log_emit e s = s\<lparr>sg_events := snd (Emit e (sg_events s))\<rparr>"

section \<open>The validators of the production stores\<close>

definition allowedCertStatuses :: "string list" where
  "allowedCertStatuses = [[], ''ACTIVE'', ''REVOKED'', ''EXPIRED'']"

definition allowedRequestStatuses :: "string list" where
  "allowedRequestStatuses = [[], ''PENDING'', ''PROCESSING'', ''COMPLETED'', ''FAILED'', ''EXPIRED'']"

definition allowedRevocationReasons :: "string list" where
  "allowedRevocationReasons = [[], ''unspecified'', ''key_compromise'', ''ca_compromise'',
     ''affiliation_changed'', ''superseded'', ''cessation_of_operation'', ''certificate_hold'',
     ''privilege_withdrawn'', ''aa_compromise'']"

definition allowedPAdESLevels :: "string list" where
  "allowedPAdESLevels = [[], ''PAdES-B'', ''PAdES-B-B'', ''PAdES-B-T'', ''PAdES-B-LT'', ''PAdES-B-LTA'']"

definition MaxDocSizeBytes :: int where
  "MaxDocSizeBytes = 100 * 1024 * 1024"

definition ValidateCertificate :: "Certificate option \<Rightarrow> verr option" where
  "ValidateCertificate c' = (case c' of None \<Rightarrow> Some (IsNil ''certificate'') | Some c \<Rightarrow> first_err
     [requireBounded ''user_id'' (ce_UserID c) 128,
      requireBounded ''serial_number'' (ce_SerialNumber c) 64,
      requireBounded ''issuer_dn'' (ce_IssuerDN c) 500,
      requireBounded ''subject_dn'' (ce_SubjectDN c) 500,
      requireBounded ''certificate_pem'' (ce_CertificatePEM c) 16384,
      reject (\<not> sublist ''-----BEGIN CERTIFICATE-----'' (ce_CertificatePEM c))
        (Required ''certificate_pem PEM header''),
      requireBounded ''fingerprint_sha256'' (ce_FingerprintSHA256 c) 128,
      reject (ce_Status c \<notin> set allowedCertStatuses) (NotAllowed ''status'' (ce_Status c)),
      reject (is_zero_time (ce_ValidFrom c) \<or> is_zero_time (ce_ValidTo c))
        (Required ''valid_from and valid_to''),
      reject (\<not> ce_ValidTo c > ce_ValidFrom c) (BadTime ''valid_to must be after valid_from''),
      reject (time_Sub (ce_ValidTo c) (ce_ValidFrom c) > 25 * 365 * 24 * hour)
        (BadTime ''certificate lifetime exceeds 25 years'')])"

definition ValidateUpdateCertStatus :: "string \<Rightarrow> string \<Rightarrow> verr option" where
  "ValidateUpdateCertStatus status reason = first_err
     [reject (status \<notin> set allowedCertStatuses) (NotAllowed ''status'' status),
      reject (rune_count reason > 50) (Exceeds ''revocation_reason'' 50),
      reject (reason \<notin> set allowedRevocationReasons) (NotAllowed ''revocation_reason'' reason)]"

definition ValidateSigningRequest :: "SigningRequest option \<Rightarrow> verr option" where
  "ValidateSigningRequest r' = (case r' of None \<Rightarrow> Some (IsNil ''signing request'') | Some r \<Rightarrow> first_err
     [requireBounded ''user_id'' (sr_UserID r) 128,
      requireBounded ''document_name'' (sr_DocumentName r) 255,
      requireBounded ''document_hash'' (sr_DocumentHash r) 128,
      requireBounded ''document_path'' (sr_DocumentPath r) 500,
      reject (sr_DocumentSize r < 1) (OutOfRange ''document_size''),
      reject (sr_DocumentSize r > MaxDocSizeBytes) (OutOfRange ''document_size''),
      reject (sr_Status r \<notin> set allowedRequestStatuses) (NotAllowed ''status'' (sr_Status r)),
      reject (is_zero_time (sr_ExpiresAt r)) (Required ''expires_at'')])"

definition ValidateUpdateRequestStatus :: "string \<Rightarrow> string \<Rightarrow> verr option" where
  "ValidateUpdateRequestStatus status errorMsg = first_err
     [reject (status \<notin> set allowedRequestStatuses) (NotAllowed ''status'' status),
      reject (rune_count errorMsg > 1024) (Exceeds ''error_message'' 1024)]"

definition ValidateSignedDocument :: "SignedDocument option \<Rightarrow> verr option" where
  "ValidateSignedDocument d' = (case d' of None \<Rightarrow> Some (IsNil ''signed document'') | Some d \<Rightarrow> first_err
     [requireBounded ''request_id'' (sd_RequestID d) 128,
      requireBounded ''certificate_id'' (sd_CertificateID d) 128,
      requireBounded ''signed_hash'' (sd_SignedHash d) 128,
      requireBounded ''signed_path'' (sd_SignedPath d) 500,
      reject (sd_SignedSize d < 1 \<or> sd_SignedSize d > MaxDocSizeBytes) (OutOfRange ''signed_size''),
      reject (sd_PAdESLevel d \<notin> set allowedPAdESLevels) (NotAllowed ''pades_level'' (sd_PAdESLevel d)),
      reject (is_zero_time (sd_SignatureTimestamp d)) (Required ''signature_timestamp'')])"

end
