(* ===== verification/Sign_Handlers.thy ===== *)
theory Sign_Handlers
  imports Sign_Model
begin

text \<open>
  The HTTP handlers of the signing service: certificate requests and listings
  (\<open>handler/certificate.go\<close>), revocation (\<open>handler/revocation.go\<close>), and the upload, signing, status and
  download of documents (\<open>handler/document.go\<close>).
  Each handler is one definition over the interfaces, with its checks in the code's order.
  The signing backend, SHA-256 (\<open>sha\<close>), base64 (\<open>b64\<close>) and the RFC 3339 parser are parameters; a
  handler reads the clock as one instant \<open>now\<close>.
\<close>

datatype sign_body =
    CertBody Certificate
  | CertList "Certificate list"
  | Revocation ident string string time
  | RequestBody SigningRequest
  | DocBody SignedDocument
  | RequestStatus SigningRequest "SignedDocument option"
  | FileBody string string

type_synonym sign_answer = "(sign_err, sign_body) answer"

section \<open>Certificates\<close>

record 's CertificateDeps =
  cd_CertStore :: "'s CertificateStore"
  cd_SignClient :: SigningBackend
  cd_Emit :: "Event \<Rightarrow> 's \<Rightarrow> 's"
  cd_ValidityDays :: int

text \<open>\<open>time.Parse\<close> with its error ignored: the zero time when the text is malformed.\<close>

definition parse_or_zero :: "(string \<Rightarrow> time option) \<Rightarrow> string \<Rightarrow> time" where
  "parse_or_zero parse s = (case parse s of Some t \<Rightarrow> t | None \<Rightarrow> zero_time)"

definition RequestCertificate ::
  "(string \<Rightarrow> time option) \<Rightarrow> 's CertificateDeps \<Rightarrow> ident \<Rightarrow> string option \<Rightarrow> 's \<Rightarrow> sign_answer \<times> 's" where
  "RequestCertificate parse deps userID body s =
     (if userID = []
      then (WriteError 400 ''missing_user_id'' ''X-User-ID header is required'', s)
      else case cs_GetActiveByUser (cd_CertStore deps) userID s of
        Inr _ \<Rightarrow> (WriteError 409 ''active_cert_exists'' ''User already has an active certificate'', s)
      | Inl _ \<Rightarrow>
       (case body of
          None \<Rightarrow> (WriteError 400 ''invalid_request'' ''Invalid JSON body'', s)
        | Some subjectCN \<Rightarrow>
         (case sb_IssueCertificate (cd_SignClient deps)
                 \<lparr>ci_SubjectCN = (if subjectCN = [] then userID else subjectCN),
                  ci_SubjectUID = userID, ci_ValidityDays = cd_ValidityDays deps\<rparr> of
            Inl _ \<Rightarrow> (WriteError 500 ''issue_failed'' ''Failed to issue certificate'', s)
          | Inr resp \<Rightarrow>
           (case cs_Create (cd_CertStore deps)
                   \<lparr>ce_ID = [], ce_UserID = userID, ce_SerialNumber = cp_SerialNumber resp,
                    ce_IssuerDN = cp_IssuerDN resp, ce_SubjectDN = cp_SubjectDN resp,
                    ce_Status = ''ACTIVE'', ce_ValidFrom = parse_or_zero parse (cp_ValidFrom resp),
                    ce_ValidTo = parse_or_zero parse (cp_ValidTo resp),
                    ce_CertificatePEM = cp_CertificatePEM resp,
                    ce_FingerprintSHA256 = cp_FingerprintSHA256 resp, ce_RevokedAt = None,
                    ce_RevocationReason = [], ce_CreatedAt = zero_time, ce_UpdatedAt = zero_time\<rparr> s of
              Inl err \<Rightarrow>
                if err = ErrActiveCertificateExists
                then (WriteError 409 ''active_cert_exists'' ''User already has an active certificate'', s)
                else (WriteError 500 ''store_failed'' ''Failed to store certificate'', s)
            | Inr (cert, s1) \<Rightarrow>
                (WriteJSON 201 (CertBody cert),
                 cd_Emit deps \<lparr>ev_UserID = userID, ev_Action = ''CERT_ISSUED'',
                   ev_Metadata = [(''certificate_id'', ce_ID cert),
                                  (''serial_number'', ce_SerialNumber cert)]\<rparr> s1)))))"

definition ListCertificates ::
  "'s CertificateDeps \<Rightarrow> ident \<Rightarrow> string \<Rightarrow> 's \<Rightarrow> sign_answer" where
  "ListCertificates deps userID statusFilter s =
     (if userID = [] then WriteError 400 ''missing_user_id'' ''X-User-ID header is required''
      else case cs_ListByUser (cd_CertStore deps) userID statusFilter s of
        Inl _ \<Rightarrow> WriteError 500 ''list_failed'' ''Failed to list certificates''
      | Inr certs \<Rightarrow> WriteJSON 200 (CertList certs))"

definition ValidRevocationReasons :: "string list" where
  "ValidRevocationReasons = [''key_compromise'', ''affiliation_changed'', ''superseded'',
     ''cessation_of_operation'', ''privilege_withdrawn'']"

definition RevokeCertificate ::
  "'s CertificateStore \<Rightarrow> (Event \<Rightarrow> 's \<Rightarrow> 's) \<Rightarrow> time \<Rightarrow> ident \<Rightarrow> ident \<Rightarrow> string option \<Rightarrow> 's \<Rightarrow>
     sign_answer \<times> 's" where
  "RevokeCertificate C emit now userID certID body s =
     (if userID = []
      then (WriteError 400 ''missing_user_id'' ''X-User-ID header is required'', s)
      else if certID = [] then (WriteError 400 ''invalid_request'' ''certificate id is required'', s)
      else case body of
        None \<Rightarrow> (WriteError 400 ''invalid_request'' ''Invalid JSON body'', s)
      | Some reason \<Rightarrow>
        if reason \<notin> set ValidRevocationReasons
        then (WriteError 400 ''invalid_reason'' ''Invalid revocation reason'', s)
        else case cs_GetByID C certID s of
          Inl _ \<Rightarrow> (WriteError 404 ''not_found'' ''Certificate not found'', s)
        | Inr cert \<Rightarrow>
          if ce_UserID cert \<noteq> userID
          then (WriteError 403 ''forbidden'' ''You do not own this certificate'', s)
          else if ce_Status cert = ''REVOKED''
          then (WriteError 409 ''already_revoked'' ''Certificate is already revoked'', s)
          else case cs_UpdateStatus C certID ''REVOKED'' (Some now) reason s of
            Inl _ \<Rightarrow> (WriteError 500 ''revoke_failed'' ''Failed to revoke certificate'', s)
          | Inr s1 \<Rightarrow>
              (WriteJSON 200 (Revocation certID ''REVOKED'' reason (rfc3339 now)),
               emit \<lparr>ev_UserID = userID, ev_Action = ''CERT_REVOKED'',
                     ev_Metadata = [(''certificate_id'', certID), (''revocation_reason'', reason)]\<rparr> s1))"

section \<open>Documents\<close>

record 's DocumentDeps =
  dd_CertStore :: "'s CertificateStore"
  dd_RequestStore :: "'s RequestStore"
  dd_DocStore :: "'s DocumentStore"
  dd_Save :: "string \<Rightarrow> string \<Rightarrow> 's \<Rightarrow> (storage_err + string) \<times> 's"
  dd_Load :: "string \<Rightarrow> 's \<Rightarrow> storage_err + string"
  dd_SignClient :: SigningBackend
  dd_Emit :: "Event \<Rightarrow> 's \<Rightarrow> 's"
  dd_MaxSizeMB :: int
  dd_RequestTTL :: int

text \<open>
  An upload request: the size of its body, and its multipart form (\<open>None\<close> when the body is not one)
  with the \<open>document\<close> part, if it has one, as file name and contents.
\<close>

record upload =
  up_bodySize :: int
  up_form :: "(string \<times> string) option option"

definition ascii_lower :: "char \<Rightarrow> char" where
  "ascii_lower c = (if 65 \<le> byte c \<and> byte c \<le> 90 then char_of (byte c + 32) else c)"

text \<open>
  \<open>strings.HasSuffix(strings.ToLower(name), ".pdf")\<close>: no letter outside ASCII has \<open>p\<close>, \<open>d\<close> or \<open>f\<close> as
  its lower case, so the last four bytes decide.
\<close>

definition has_pdf_suffix :: "string \<Rightarrow> bool" where
  "has_pdf_suffix name \<longleftrightarrow>
     4 \<le> length name \<and> map ascii_lower (drop (length name - 4) name) = ''.pdf''"

definition ComputeHash :: "(string \<Rightarrow> string) \<Rightarrow> string \<Rightarrow> string" where
  "ComputeHash sha content = hex_encode (sha content)"

definition VerifyHash :: "(string \<Rightarrow> string) \<Rightarrow> string \<Rightarrow> string \<Rightarrow> bool" where
  "VerifyHash sha content expectedHex \<longleftrightarrow> ComputeHash sha content = expectedHex"

definition Upload ::
  "(string \<Rightarrow> string) \<Rightarrow> 's DocumentDeps \<Rightarrow> time \<Rightarrow> ident \<Rightarrow> upload \<Rightarrow> 's \<Rightarrow> sign_answer \<times> 's" where
  "Upload sha deps now userID up s =
     (if userID = []
      then (WriteError 400 ''missing_user_id'' ''X-User-ID header is required'', s)
      else let maxBytes = i64 (dd_MaxSizeMB deps * 1024 * 1024) in
      case (if up_bodySize up > maxBytes then None else up_form up) of
        None \<Rightarrow> (WriteError 400 ''invalid_request'' ''Failed to parse multipart form or file too large'', s)
      | Some None \<Rightarrow> (WriteError 400 ''invalid_request'' ''document field is required'', s)
      | Some (Some (filename, content)) \<Rightarrow>
        if \<not> has_pdf_suffix filename
        then (WriteError 400 ''invalid_file'' ''Only PDF files are accepted'', s)
        else if take 5 content \<noteq> ''%PDF-''
        then (WriteError 400 ''invalid_file'' ''File is not a valid PDF'', s)
        else case dd_Save deps filename content s of
          (Inl _, s1) \<Rightarrow> (WriteError 500 ''storage_error'' ''Failed to save file'', s1)
        | (Inr path, s1) \<Rightarrow>
          (case rt_Create (dd_RequestStore deps)
                  \<lparr>sr_ID = [], sr_UserID = userID, sr_CertificateID = [], sr_DocumentName = filename,
                   sr_DocumentSize = int (length content), sr_DocumentHash = ComputeHash sha content,
                   sr_DocumentPath = path, sr_Status = ''PENDING'', sr_ErrorMessage = [],
                   sr_ExpiresAt = now + dd_RequestTTL deps, sr_CreatedAt = zero_time,
                   sr_UpdatedAt = zero_time\<rparr> s1 of
             Inl _ \<Rightarrow> (WriteError 500 ''internal_error'' ''Failed to create signing request'', s1)
           | Inr (sigReq, s2) \<Rightarrow>
               (WriteJSON 201 (RequestBody sigReq),
                dd_Emit deps \<lparr>ev_UserID = userID, ev_Action = ''DOC_UPLOADED'',
                  ev_Metadata = [(''request_id'', sr_ID sigReq), (''document_name'', filename)]\<rparr> s2)))"

record base64 =
  b64_encode :: "string \<Rightarrow> string"
  b64_decode :: "string \<Rightarrow> string option"

text \<open>The part of \<open>Sign\<close> after the backend has answered.\<close>

definition store_signed ::
  "(string \<Rightarrow> string) \<Rightarrow> base64 \<Rightarrow> (string \<Rightarrow> time option) \<Rightarrow> 's DocumentDeps \<Rightarrow> ident \<Rightarrow> ident \<Rightarrow>
     SigningRequest \<Rightarrow> Certificate \<Rightarrow> SignResponse \<Rightarrow> 's \<Rightarrow> sign_answer \<times> 's" where
  "store_signed sha b64 parse deps userID requestID sigReq cert resp s =
     (case b64_decode b64 (sp_SignedDocumentBase64 resp) of
        None \<Rightarrow> (WriteError 500 ''internal_error'' ''Failed to process signed document'', s)
      | Some signedBytes \<Rightarrow>
       (case dd_Save deps (''signed_'' @ sr_DocumentName sigReq) signedBytes s of
          (Inl _, s1) \<Rightarrow> (WriteError 500 ''storage_error'' ''Failed to save signed document'', s1)
        | (Inr signedPath, s1) \<Rightarrow>
         (case dt_Create (dd_DocStore deps)
                 \<lparr>sd_ID = [], sd_RequestID = requestID, sd_CertificateID = ce_ID cert,
                  sd_SignedHash = ComputeHash sha signedBytes, sd_SignedPath = signedPath,
                  sd_SignedSize = int (length signedBytes), sd_PAdESLevel = sp_PAdESLevel resp,
                  sd_SignatureTimestamp = parse_or_zero parse (sp_SignatureTimestamp resp),
                  sd_CreatedAt = zero_time\<rparr> s1 of
            Inl _ \<Rightarrow> (WriteError 500 ''internal_error'' ''Failed to store signed document'', s1)
          | Inr (doc, s2) \<Rightarrow>
             (let s3 = (case rt_UpdateStatus (dd_RequestStore deps) requestID ''COMPLETED''
                               (ce_ID cert) [] s2 of
                          Inl _ \<Rightarrow> s2 | Inr s' \<Rightarrow> s')
              in (WriteJSON 200 (DocBody doc),
                  dd_Emit deps \<lparr>ev_UserID = userID, ev_Action = ''DOC_SIGNED'',
                    ev_Metadata = [(''request_id'', requestID), (''document_id'', sd_ID doc),
                                   (''pades_level'', sp_PAdESLevel resp)]\<rparr> s3)))))"

definition Sign ::
  "(string \<Rightarrow> string) \<Rightarrow> base64 \<Rightarrow> (string \<Rightarrow> time option) \<Rightarrow> 's DocumentDeps \<Rightarrow> time \<Rightarrow> ident \<Rightarrow> ident \<Rightarrow>
     's \<Rightarrow> sign_answer \<times> 's" where
  "Sign sha b64 parse deps now userID requestID s =
     (if userID = []
      then (WriteError 400 ''missing_user_id'' ''X-User-ID header is required'', s)
      else if requestID = []
      then (WriteError 400 ''invalid_request'' ''Request ID is required'', s)
      else case rt_GetByID (dd_RequestStore deps) requestID s of
        Inl _ \<Rightarrow> (WriteError 404 ''not_found'' ''Signing request not found'', s)
      | Inr sigReq \<Rightarrow>
        if sr_UserID sigReq \<noteq> userID then (WriteError 403 ''forbidden'' ''Access denied'', s)
        else if now > sr_ExpiresAt sigReq
        then (WriteError 410 ''expired'' ''Signing request has expired'', s)
        else if sr_Status sigReq = ''COMPLETED''
        then (WriteError 409 ''already_signed'' ''Document has already been signed'', s)
        else case cs_GetActiveByUser (dd_CertStore deps) userID s of
          Inl _ \<Rightarrow> (WriteError 400 ''no_certificate'' ''No active certificate found'', s)
        | Inr cert \<Rightarrow>
         (case dd_Load deps (sr_DocumentPath sigReq) s of
            Inl _ \<Rightarrow> (WriteError 500 ''internal_error'' ''Failed to load document'', s)
          | Inr docBytes \<Rightarrow>
           (case sb_SignDocument (dd_SignClient deps)
                   \<lparr>sq_DocumentBase64 = b64_encode b64 docBytes,
                    sq_CertificatePEM = ce_CertificatePEM cert,
                    sq_SignatureLevel = ''PAdES-B-LTA''\<rparr> of
              Inl err \<Rightarrow>
               (let s1 = (case rt_UpdateStatus (dd_RequestStore deps) requestID ''FAILED'' [] err s of
                            Inl _ \<Rightarrow> s | Inr s' \<Rightarrow> s')
                in (WriteError 500 ''sign_failed'' ''Failed to sign document'',
                    dd_Emit deps \<lparr>ev_UserID = userID, ev_Action = ''SIGN_FAILED'',
                      ev_Metadata = [(''request_id'', requestID), (''error'', err)]\<rparr> s1))
            | Inr resp \<Rightarrow> store_signed sha b64 parse deps userID requestID sigReq cert resp s)))"

definition GetStatus :: "'s DocumentDeps \<Rightarrow> ident \<Rightarrow> ident \<Rightarrow> 's \<Rightarrow> sign_answer" where
  "GetStatus deps userID requestID s =
     (if userID = [] then WriteError 400 ''missing_user_id'' ''X-User-ID header is required''
      else if requestID = [] then WriteError 400 ''invalid_request'' ''Request ID is required''
      else case rt_GetByID (dd_RequestStore deps) requestID s of
        Inl _ \<Rightarrow> WriteError 404 ''not_found'' ''Signing request not found''
      | Inr sigReq \<Rightarrow>
        if sr_UserID sigReq \<noteq> userID then WriteError 403 ''forbidden'' ''Access denied''
        else WriteJSON 200 (RequestStatus sigReq
          (if sr_Status sigReq = ''COMPLETED''
           then case dt_GetByRequestID (dd_DocStore deps) requestID s of
                  Inr d \<Rightarrow> Some d | Inl _ \<Rightarrow> None
           else None)))"

definition Download :: "'s DocumentDeps \<Rightarrow> ident \<Rightarrow> ident \<Rightarrow> 's \<Rightarrow> sign_answer \<times> 's" where
  "Download deps userID requestID s =
     (if userID = []
      then (WriteError 400 ''missing_user_id'' ''X-User-ID header is required'', s)
      else if requestID = []
      then (WriteError 400 ''invalid_request'' ''Request ID is required'', s)
      else case rt_GetByID (dd_RequestStore deps) requestID s of
        Inl _ \<Rightarrow> (WriteError 404 ''not_found'' ''Signing request not found'', s)
      | Inr sigReq \<Rightarrow>
        if sr_UserID sigReq \<noteq> userID then (WriteError 403 ''forbidden'' ''Access denied'', s)
        else if sr_Status sigReq \<noteq> ''COMPLETED''
        then (WriteError 400 ''not_completed'' ''Document signing is not completed'', s)
        else case dt_GetByRequestID (dd_DocStore deps) requestID s of
          Inl _ \<Rightarrow> (WriteError 404 ''not_found'' ''Signed document not found'', s)
        | Inr doc \<Rightarrow>
         (case dd_Load deps (sd_SignedPath doc) s of
            Inl _ \<Rightarrow> (WriteError 500 ''internal_error'' ''Failed to load signed document'', s)
          | Inr content \<Rightarrow>
              (WriteJSON 200 (FileBody (''signed_'' @ sr_DocumentName sigReq) content),
               dd_Emit deps \<lparr>ev_UserID = userID, ev_Action = ''DOC_DOWNLOADED'',
                 ev_Metadata = [(''request_id'', requestID), (''document_id'', sd_ID doc)]\<rparr> s)))"

end
