(* ===== verification/Sign_System.thy ===== *)
theory Sign_System
  imports Sign_Handlers
begin

text \<open>
  The signing service as a whole: its state-changing handlers run on the in-memory stores and the file
  storage, as the step relation \<open>sign_step\<close>, and the invariant of the reachable states: a user has at
  most one active certificate; a request is COMPLETED exactly when it has a signed document; the
  uploaded and the signed file of a record can be loaded and have the recorded hash; and a document is
  signed with a certificate of the user who uploaded it.
\<close>

section \<open>The wiring of the in-memory service\<close>

definition mem_Save ::
  "FileStorage \<Rightarrow> (nat \<Rightarrow> string option) \<Rightarrow> (nat \<Rightarrow> io_result) \<Rightarrow> string \<Rightarrow> string \<Rightarrow> sign \<Rightarrow>
     (storage_err + string) \<times> sign" where
  "mem_Save fs pfx io filename content s =
     (let (r, d) = Save fs (pfx (sg_drawn s)) (io (sg_drawn s)) filename content (sg_disk s)
      in (r, s\<lparr>sg_disk := d, sg_drawn := Suc (sg_drawn s)\<rparr>))"

definition MemCertDeps ::
  "(nat \<Rightarrow> string) \<Rightarrow> time \<Rightarrow> ident list \<Rightarrow> SigningBackend \<Rightarrow> int \<Rightarrow> sign CertificateDeps" where
  "MemCertDeps rnd now ks backend days =
     \<lparr>cd_CertStore = InMemoryCertificateStore rnd now ks, cd_SignClient = backend,
      cd_Emit = log_emit, cd_ValidityDays = days\<rparr>"

definition MemDocDeps ::
  "(nat \<Rightarrow> string) \<Rightarrow> FileStorage \<Rightarrow> (nat \<Rightarrow> string option) \<Rightarrow> (nat \<Rightarrow> io_result) \<Rightarrow> time \<Rightarrow>
     ident list \<Rightarrow> ident list \<Rightarrow> SigningBackend \<Rightarrow> int \<Rightarrow> int \<Rightarrow> sign DocumentDeps" where
  "MemDocDeps rnd fs pfx io now ks ks' backend maxMB ttl =
     \<lparr>dd_CertStore = InMemoryCertificateStore rnd now ks,
      dd_RequestStore = InMemoryRequestStore rnd now ks',
      dd_DocStore = InMemoryDocumentStore rnd now,
      dd_Save = mem_Save fs pfx io, dd_Load = (\<lambda>p s. Load fs p (sg_disk s)),
      dd_SignClient = backend, dd_Emit = log_emit, dd_MaxSizeMB = maxMB, dd_RequestTTL = ttl\<rparr>"

lemmas mem_deps = MemCertDeps_def MemDocDeps_def InMemoryCertificateStore_def
  InMemoryRequestStore_def InMemoryDocumentStore_def mem_Save_def

text \<open>
  What the environment provides: the hash, base64, the date parser, the file storage with its random
  prefixes and its write outcomes, and the random bytes of the identifiers.
\<close>

record sign_env =
  se_sha :: "string \<Rightarrow> string"
  se_b64 :: base64
  se_parse :: "string \<Rightarrow> time option"
  se_fs :: FileStorage
  se_pfx :: "nat \<Rightarrow> string option"
  se_io :: "nat \<Rightarrow> io_result"
  se_rnd :: "nat \<Rightarrow> string"

definition env_ok :: "sign_env \<Rightarrow> bool" where
  "env_ok v \<longleftrightarrow> storage_ok (se_fs v) (se_pfx v) \<and> inj (se_rnd v) \<and> (\<forall>n. se_rnd v n \<noteq> [])"

inductive sign_step :: "sign_env \<Rightarrow> sign \<Rightarrow> sign \<Rightarrow> bool" for v :: sign_env where
  step_request_cert:
    "range_of ks (sg_certs s) \<Longrightarrow>
     RequestCertificate (se_parse v) (MemCertDeps (se_rnd v) now ks backend days) u body s = (ans, s') \<Longrightarrow>
     sign_step v s s'"
| step_revoke_cert:
    "RevokeCertificate (InMemoryCertificateStore (se_rnd v) now ks) log_emit now u c body s = (ans, s') \<Longrightarrow>
     sign_step v s s'"
| step_upload:
    "Upload (se_sha v) (MemDocDeps (se_rnd v) (se_fs v) (se_pfx v) (se_io v) now ks ks' backend mb ttl)
       now u up s = (ans, s') \<Longrightarrow> sign_step v s s'"
| step_sign:
    "Sign (se_sha v) (se_b64 v) (se_parse v)
       (MemDocDeps (se_rnd v) (se_fs v) (se_pfx v) (se_io v) now ks ks' backend mb ttl) now u i s = (ans, s') \<Longrightarrow>
     sign_step v s s'"
| step_download:
    "Download (MemDocDeps (se_rnd v) (se_fs v) (se_pfx v) (se_io v) now ks ks' backend mb ttl) u i s = (ans, s') \<Longrightarrow>
     sign_step v s s'"

inductive sign_reach :: "sign_env \<Rightarrow> sign \<Rightarrow> bool" for v :: sign_env where
  sign_reach_init: "sign_reach v sign_init"
| sign_reach_step: "sign_reach v s \<Longrightarrow> sign_step v s s' \<Longrightarrow> sign_reach v s'"

inductive_cases sign_stepE: "sign_step v s s'"

section \<open>The invariant\<close>

definition stored :: "sign_env \<Rightarrow> string \<Rightarrow> string \<Rightarrow> sign \<Rightarrow> bool" where
  "stored v p c s \<longleftrightarrow> file_store.holds (Load (se_fs v)) (saved_at (se_pfx v)) (sg_drawn s) p c (sg_disk s)"

definition one_active :: "(ident \<rightharpoonup> Certificate) \<Rightarrow> bool" where
  "one_active m \<longleftrightarrow> (\<forall>i j c d. m i = Some c \<longrightarrow> m j = Some d \<longrightarrow> ce_Status c = ''ACTIVE'' \<longrightarrow>
     ce_Status d = ''ACTIVE'' \<longrightarrow> ce_UserID c = ce_UserID d \<longrightarrow> i = j)"

definition request_ok :: "sign_env \<Rightarrow> sign \<Rightarrow> ident \<Rightarrow> SigningRequest \<Rightarrow> bool" where
  "request_ok v s i r \<longleftrightarrow> sr_ID r = i \<and> drawn (generateID (se_rnd v)) (sg_drawn s) i \<and>
     (sr_Status r = ''COMPLETED'' \<longleftrightarrow> sg_docs s i \<noteq> None) \<and>
     (\<exists>c. stored v (sr_DocumentPath r) c s \<and> ComputeHash (se_sha v) c = sr_DocumentHash r)"

definition document_ok :: "sign_env \<Rightarrow> sign \<Rightarrow> ident \<Rightarrow> SignedDocument \<Rightarrow> bool" where
  "document_ok v s i d \<longleftrightarrow> sd_RequestID d = i \<and>
     (\<exists>r ce. sg_requests s i = Some r \<and> sr_CertificateID r = sd_CertificateID d \<and>
        sg_certs s (sd_CertificateID d) = Some ce \<and> ce_UserID ce = sr_UserID r) \<and>
     (\<exists>c. stored v (sd_SignedPath d) c s \<and> ComputeHash (se_sha v) c = sd_SignedHash d)"

definition certs_ok :: "sign_env \<Rightarrow> sign \<Rightarrow> bool" where
  "certs_ok v s \<longleftrightarrow> one_active (sg_certs s) \<and>
     (\<forall>i c. sg_certs s i = Some c \<longrightarrow> ce_ID c = i \<and> drawn (generateID (se_rnd v)) (sg_drawn s) i)"

definition sign_inv :: "sign_env \<Rightarrow> sign \<Rightarrow> bool" where
  "sign_inv v s \<longleftrightarrow> certs_ok v s \<and>
     (\<forall>i r. sg_requests s i = Some r \<longrightarrow> request_ok v s i r) \<and>
     (\<forall>i d. sg_docs s i = Some d \<longrightarrow> document_ok v s i d)"

lemma sign_inv_init: "sign_inv v sign_init"
  by (simp add: sign_inv_def certs_ok_def one_active_def sign_init_def)

text \<open>
  The steps of the world, by what they change: the audit trail, a new certificate, a certificate
  revoked, a file saved, a new request, a request marked FAILED, a document signed.
  Each keeps the invariant.
\<close>

lemma log_emit_inv [simp]: "sign_inv v (log_emit e s) = sign_inv v s"
  by (simp add: sign_inv_def certs_ok_def request_ok_def document_ok_def stored_def log_emit_def)

lemma generateID_nonempty: "env_ok v \<Longrightarrow> generateID (se_rnd v) n \<noteq> []"
proof
  assume "env_ok v" "generateID (se_rnd v) n = []"
  then have "se_rnd v n \<noteq> []" "length (hex_encode (se_rnd v n)) = 0"
    by (simp_all add: env_ok_def generateID_def)
  then show False by (simp add: length_hex_encode)
qed

lemma fresh_id:
  assumes "env_ok v" "sign_inv v s" "sg_drawn s \<le> n"
  shows "sg_certs s (generateID (se_rnd v) n) = None"
    and "sg_requests s (generateID (se_rnd v) n) = None"
    and "sg_docs s (generateID (se_rnd v) n) = None"
proof -
  have "inj (generateID (se_rnd v))" using assms(1) by (simp add: env_ok_def inj_generateID)
  then have nd: "\<not> drawn (generateID (se_rnd v)) (sg_drawn s) (generateID (se_rnd v) n)"
    using assms(3) by (rule drawn_fresh)
  with assms(2) show "sg_certs s (generateID (se_rnd v) n) = None"
    unfolding sign_inv_def certs_ok_def by (meson not_None_eq)
  from nd assms(2) show r: "sg_requests s (generateID (se_rnd v) n) = None"
    unfolding sign_inv_def request_ok_def by (meson not_None_eq)
  from r assms(2) show "sg_docs s (generateID (se_rnd v) n) = None"
    unfolding sign_inv_def document_ok_def by (metis not_None_eq)
qed

definition keeps_files :: "sign_env \<Rightarrow> sign \<Rightarrow> sign \<Rightarrow> bool" where
  "keeps_files v s s' \<longleftrightarrow> sg_drawn s \<le> sg_drawn s' \<and> (\<forall>p b. stored v p b s \<longrightarrow> stored v p b s')"

lemma keeps_files_same_disk: "sg_disk s' = sg_disk s \<Longrightarrow> sg_drawn s \<le> sg_drawn s' \<Longrightarrow> keeps_files v s s'"
  by (auto simp: keeps_files_def stored_def intro: file_store.holds_mono [OF fs_store.file_store_axioms])

lemma request_ok_mono:
  assumes "request_ok v s i r" "keeps_files v s s'" "sg_docs s' i = None \<longleftrightarrow> sg_docs s i = None"
  shows "request_ok v s' i r"
  using assms unfolding request_ok_def keeps_files_def by (metis drawn_mono)

lemma document_ok_mono:
  assumes "document_ok v s i d" "keeps_files v s s'"
    and req: "\<And>r. sg_requests s i = Some r \<Longrightarrow> \<exists>r'. sg_requests s' i = Some r' \<and>
           sr_CertificateID r' = sr_CertificateID r \<and> sr_UserID r' = sr_UserID r"
    and cert: "\<And>j c. sg_certs s j = Some c \<Longrightarrow> \<exists>c'. sg_certs s' j = Some c' \<and> ce_UserID c' = ce_UserID c"
  shows "document_ok v s' i d"
proof -
  from assms(1) obtain r ce where r: "sd_RequestID d = i" "sg_requests s i = Some r"
    "sr_CertificateID r = sd_CertificateID d" and ce: "sg_certs s (sd_CertificateID d) = Some ce"
    "ce_UserID ce = sr_UserID r" unfolding document_ok_def by blast
  from assms(1,2) have "\<exists>c. stored v (sd_SignedPath d) c s' \<and> ComputeHash (se_sha v) c = sd_SignedHash d"
    unfolding document_ok_def keeps_files_def by blast
  with req [OF r(2)] cert [OF ce(1)] r ce show ?thesis unfolding document_ok_def by metis
qed

lemma new_cert_inv:
  assumes v: "env_ok v" and inv: "sign_inv v s"
    and c: "ce_ID c = generateID (se_rnd v) (sg_drawn s)"
    and only: "\<forall>d\<in>ran (sg_certs s). \<not> (ce_UserID d = ce_UserID c \<and> ce_Status d = ''ACTIVE'')"
  shows "sign_inv v (s\<lparr>sg_certs := (sg_certs s)(generateID (se_rnd v) (sg_drawn s) \<mapsto> c),
                       sg_drawn := Suc (sg_drawn s)\<rparr>)" (is "sign_inv v ?s")
proof -
  have new: "sg_certs s (generateID (se_rnd v) (sg_drawn s)) = None" using fresh_id [OF v inv] by simp
  have kf: "keeps_files v s ?s" by (rule keeps_files_same_disk) simp_all
  have "one_active (sg_certs ?s)"
    using inv only by (fastforce simp: sign_inv_def certs_ok_def one_active_def ran_def)
  then have "certs_ok v ?s"
    using inv c by (auto simp: sign_inv_def certs_ok_def intro: drawn_mono [of _ "sg_drawn s"])
  moreover have "request_ok v ?s i r" if "sg_requests s i = Some r" for i r
    using inv that by (intro request_ok_mono [OF _ kf]) (simp_all add: sign_inv_def)
  moreover have "document_ok v ?s i d" if "sg_docs s i = Some d" for i d
    using inv that new by (intro document_ok_mono [OF _ kf]) (auto simp: sign_inv_def)
  ultimately show ?thesis by (simp add: sign_inv_def)
qed

lemma revoke_cert_inv:
  assumes inv: "sign_inv v s" and c: "sg_certs s i = Some c"
    and c': "ce_ID c' = ce_ID c" "ce_UserID c' = ce_UserID c" "ce_Status c' \<noteq> ''ACTIVE''"
  shows "sign_inv v (s\<lparr>sg_certs := (sg_certs s)(i \<mapsto> c')\<rparr>)" (is "sign_inv v ?s")
proof -
  have kf: "keeps_files v s ?s" by (rule keeps_files_same_disk) simp_all
  have "one_active (sg_certs ?s)"
    using inv c' by (auto simp: sign_inv_def certs_ok_def one_active_def)
  then have "certs_ok v ?s" using inv c c' by (auto simp: sign_inv_def certs_ok_def)
  moreover have "request_ok v ?s j r" if "sg_requests s j = Some r" for j r
    using inv that by (intro request_ok_mono [OF _ kf]) (simp_all add: sign_inv_def)
  moreover have "document_ok v ?s j d" if "sg_docs s j = Some d" for j d
    using inv that c c' by (intro document_ok_mono [OF _ kf]) (auto simp: sign_inv_def)
  ultimately show ?thesis by (simp add: sign_inv_def)
qed

lemma save_keeps_files:
  assumes v: "env_ok v" and sv: "mem_Save (se_fs v) (se_pfx v) (se_io v) f c s = (res, s1)"
  shows "keeps_files v s s1" and "s1 = s\<lparr>sg_disk := sg_disk s1, sg_drawn := Suc (sg_drawn s)\<rparr>"
    and "res = Inr p \<Longrightarrow> stored v p c s1"
proof -
  from v have ok: "storage_ok (se_fs v) (se_pfx v)" by (simp add: env_ok_def)
  from sv have d: "Save (se_fs v) (se_pfx v (sg_drawn s)) (se_io v (sg_drawn s)) f c (sg_disk s) =
      (res, sg_disk s1)" and s1: "s1 = s\<lparr>sg_disk := sg_disk s1, sg_drawn := Suc (sg_drawn s)\<rparr>"
    by (auto simp: mem_Save_def split: prod.splits)
  then have n: "sg_drawn s1 = Suc (sg_drawn s)" by (metis sign.select_convs(7) sign.surjective sign.update_convs(7))
  show "s1 = s\<lparr>sg_disk := sg_disk s1, sg_drawn := Suc (sg_drawn s)\<rparr>" by (fact s1)
  show "keeps_files v s s1"
    using fs_store.holds_keep [where pfx = "se_pfx v" and io = "se_io v" and n = "sg_drawn s", OF ok d] n by (simp add: keeps_files_def stored_def)
  show "stored v p c s1" if "res = Inr p"
    using fs_store.holds_new [where pfx = "se_pfx v" and io = "se_io v" and n = "sg_drawn s",
      OF ok d [unfolded that]] n by (simp add: stored_def)
qed

lemma save_inv:
  assumes v: "env_ok v" and inv: "sign_inv v s"
    and sv: "mem_Save (se_fs v) (se_pfx v) (se_io v) f c s = (res, s1)"
  shows "sign_inv v s1"
proof -
  note kf = save_keeps_files(1) [OF v sv]
  obtain d where s1: "s1 = s\<lparr>sg_disk := d, sg_drawn := Suc (sg_drawn s)\<rparr>"
    using save_keeps_files(2) [OF v sv] by blast
  have "certs_ok v s1"
    using inv by (auto simp: s1 sign_inv_def certs_ok_def intro: drawn_mono [of _ "sg_drawn s"])
  moreover have "request_ok v s1 i r" if "sg_requests s1 i = Some r" for i r
    using inv that by (intro request_ok_mono [OF _ kf]) (simp_all add: s1 sign_inv_def)
  moreover have "document_ok v s1 i d'" if "sg_docs s1 i = Some d'" for i d'
    using inv that by (intro document_ok_mono [OF _ kf]) (auto simp: s1 sign_inv_def)
  ultimately show ?thesis by (simp add: sign_inv_def)
qed

lemma new_request_inv:
  assumes v: "env_ok v" and inv: "sign_inv v s" and i: "i = generateID (se_rnd v) (sg_drawn s)"
    and r: "sr_ID r = i" "sr_Status r = ''PENDING''" "stored v (sr_DocumentPath r) c s"
      "ComputeHash (se_sha v) c = sr_DocumentHash r"
  shows "sign_inv v (s\<lparr>sg_requests := (sg_requests s)(i \<mapsto> r), sg_drawn := Suc (sg_drawn s)\<rparr>)"
    (is "sign_inv v ?s")
proof -
  have kf: "keeps_files v s ?s" by (rule keeps_files_same_disk) simp_all
  have new: "sg_requests s i = None" "sg_docs s i = None" using fresh_id [OF v inv] i by simp_all
  have "certs_ok v ?s"
    using inv by (auto simp: sign_inv_def certs_ok_def intro: drawn_mono [of _ "sg_drawn s"])
  moreover have "request_ok v ?s j q" if "sg_requests ?s j = Some q" for j q
  proof (cases "j = i")
    case True
    have "stored v (sr_DocumentPath r) c ?s" using kf r(3) by (simp add: keeps_files_def)
    with True that r new i show ?thesis by (auto simp: request_ok_def)
  next
    case False
    with inv that show ?thesis by (intro request_ok_mono [OF _ kf]) (simp_all add: sign_inv_def)
  qed
  moreover have "document_ok v ?s j d" if "sg_docs s j = Some d" for j d
    using inv that new by (intro document_ok_mono [OF _ kf]) (auto simp: sign_inv_def)
  ultimately show ?thesis by (simp add: sign_inv_def)
qed

lemma request_failed_inv:
  assumes inv: "sign_inv v s" and r: "sg_requests s i = Some r" "sr_Status r \<noteq> ''COMPLETED''"
  shows "sign_inv v (s\<lparr>sg_requests := (sg_requests s)(i \<mapsto>
           r\<lparr>sr_Status := ''FAILED'', sr_ErrorMessage := e, sr_UpdatedAt := now\<rparr>)\<rparr>)" (is "sign_inv v ?s")
proof -
  have kf: "keeps_files v s ?s" by (rule keeps_files_same_disk) simp_all
  have "certs_ok v ?s" using inv by (simp add: sign_inv_def certs_ok_def)
  moreover have "request_ok v ?s j q" if q: "sg_requests ?s j = Some q" for j q
  proof (cases "j = i")
    case True
    have "request_ok v s i r" using inv r(1) by (simp add: sign_inv_def)
    then have "request_ok v ?s i r" by (intro request_ok_mono [OF _ kf]) simp_all
    with r(2) True q show ?thesis by (auto simp: request_ok_def)
  next
    case False
    with inv q show ?thesis by (intro request_ok_mono [OF _ kf]) (simp_all add: sign_inv_def)
  qed
  moreover have "document_ok v ?s j d" if "sg_docs s j = Some d" for j d
    using inv that r by (intro document_ok_mono [OF _ kf]) (auto simp: sign_inv_def)
  ultimately show ?thesis by (simp add: sign_inv_def)
qed

lemma document_signed_inv:
  assumes inv: "sign_inv v s"
    and r: "sg_requests s i = Some r" "sg_docs s i = None"
    and ce: "sg_certs s k = Some ce" "ce_UserID ce = sr_UserID r"
    and d: "sd_RequestID d = i" "sd_CertificateID d = k" "stored v (sd_SignedPath d) c s"
      "ComputeHash (se_sha v) c = sd_SignedHash d"
    and r': "sr_ID r' = sr_ID r" "sr_UserID r' = sr_UserID r" "sr_CertificateID r' = k"
      "sr_Status r' = ''COMPLETED''" "sr_DocumentPath r' = sr_DocumentPath r"
      "sr_DocumentHash r' = sr_DocumentHash r"
  shows "sign_inv v (s\<lparr>sg_docs := (sg_docs s)(i \<mapsto> d), sg_byID := m, sg_drawn := Suc (sg_drawn s),
           sg_requests := (sg_requests s)(i \<mapsto> r')\<rparr>)" (is "sign_inv v ?s")
proof -
  have kf: "keeps_files v s ?s" by (rule keeps_files_same_disk) simp_all
  have "certs_ok v ?s"
    using inv by (auto simp: sign_inv_def certs_ok_def intro: drawn_mono [of _ "sg_drawn s"])
  moreover have "request_ok v ?s j q" if q: "sg_requests ?s j = Some q" for j q
  proof (cases "j = i")
    case True
    from inv r(1) have "request_ok v s i r" by (simp add: sign_inv_def)
    with kf r' True q show ?thesis
      by (auto simp: request_ok_def keeps_files_def intro: drawn_mono [of _ "sg_drawn s"])
  next
    case False
    with inv q show ?thesis by (intro request_ok_mono [OF _ kf]) (simp_all add: sign_inv_def)
  qed
  moreover have "document_ok v ?s j d'" if d': "sg_docs ?s j = Some d'" for j d'
  proof (cases "j = i")
    case True
    with d' d r' ce kf show ?thesis by (auto simp: document_ok_def keeps_files_def)
  next
    case False
    with inv d' show ?thesis by (intro document_ok_mono [OF _ kf]) (auto simp: sign_inv_def)
  qed
  ultimately show ?thesis by (simp add: sign_inv_def)
qed


section \<open>Each handler preserves the invariant\<close>

lemma cert_Create_Inr:
  assumes "cert_Create ks i now c m = Inr (c', m')" "range_of ks m"
  shows "ce_ID c' = i \<and> ce_UserID c' = ce_UserID c \<and> ce_Status c' = ce_Status c \<and> m' = m(i \<mapsto> c') \<and>
    (ce_Status c = ''ACTIVE'' \<and> ce_UserID c \<noteq> [] \<longrightarrow>
       (\<forall>d\<in>ran m. \<not> (ce_UserID d = ce_UserID c \<and> ce_Status d = ''ACTIVE'')))"
  using assms by (auto simp: cert_Create_def Let_def list_ex_iff set_range_vals_ran split: if_splits)

lemma RequestCertificate_path:
  assumes "RequestCertificate parse deps u body s = (ans, s')" "s' \<noteq> s"
  obtains c c' s1 e where "cs_Create (cd_CertStore deps) c s = Inr (c', s1)" "s' = cd_Emit deps e s1"
    "u \<noteq> []" "ce_UserID c = u" "ce_Status c = ''ACTIVE''"
  using assms by (auto simp: RequestCertificate_def split: if_splits sum.splits option.splits intro: that)

lemma RequestCertificate_inv:
  assumes v: "env_ok v" and inv: "sign_inv v s" and ks: "range_of ks (sg_certs s)"
    and step: "RequestCertificate parse (MemCertDeps (se_rnd v) now ks backend days) u body s = (ans, s')"
  shows "sign_inv v s'"
proof (cases "s' = s")
  case False
  let ?i = "generateID (se_rnd v) (sg_drawn s)"
  from RequestCertificate_path [OF step False, unfolded MemCertDeps_def CertificateDeps.simps]
  obtain c c' s1 e where c: "u \<noteq> []" "ce_UserID c = u" "ce_Status c = ''ACTIVE''"
    and cr: "cs_Create (InMemoryCertificateStore (se_rnd v) now ks) c s = Inr (c', s1)"
    and s': "s' = log_emit e s1" by metis
  from cr obtain m where m: "cert_Create ks ?i now c (sg_certs s) = Inr (c', m)"
    and s1: "s1 = s\<lparr>sg_certs := m, sg_drawn := Suc (sg_drawn s)\<rparr>"
    by (auto simp: InMemoryCertificateStore_def)
  from cert_Create_Inr [OF m ks] c new_cert_inv [OF v inv, of c'] show ?thesis by (simp add: s' s1)
qed (use inv in simp)

lemma RevokeCertificate_path:
  assumes "RevokeCertificate C emit now u i body s = (ans, s')" "s' \<noteq> s"
  obtains c reason s1 e where "cs_GetByID C i s = Inr c" "ce_UserID c = u" "ce_Status c \<noteq> ''REVOKED''"
    "cs_UpdateStatus C i ''REVOKED'' (Some now) reason s = Inr s1" "s' = emit e s1"
  using assms by (auto simp: RevokeCertificate_def split: if_splits sum.splits option.splits intro: that)

lemma RevokeCertificate_inv:
  assumes inv: "sign_inv v s"
    and step: "RevokeCertificate (InMemoryCertificateStore rnd now ks) log_emit now u i body s = (ans, s')"
  shows "sign_inv v s'"
proof (cases "s' = s")
  case False
  from RevokeCertificate_path [OF step False] obtain c reason s1 e where
    "cs_UpdateStatus (InMemoryCertificateStore rnd now ks) i ''REVOKED'' (Some now) reason s = Inr s1"
    and s': "s' = log_emit e s1" by metis
  then obtain c where c: "sg_certs s i = Some c"
    and s1: "s1 = s\<lparr>sg_certs := (sg_certs s)(i \<mapsto> c\<lparr>ce_Status := ''REVOKED'',
      ce_RevokedAt := Some now, ce_RevocationReason := reason, ce_UpdatedAt := now\<rparr>)\<rparr>"
    by (auto simp: InMemoryCertificateStore_def cert_UpdateStatus_def split: option.splits)
  show ?thesis unfolding s' s1 log_emit_inv by (rule revoke_cert_inv [OF inv c]) simp_all
qed (use inv in simp)

lemma Upload_path:
  assumes "Upload sha deps now u up s = (ans, s')" "s' \<noteq> s"
  obtains f c res s1 where "dd_Save deps f c s = (res, s1)"
    "s' = s1 \<or> (\<exists>path r r' s2 e. res = Inr path \<and> rt_Create (dd_RequestStore deps) r s1 = Inr (r', s2) \<and>
       sr_UserID r = u \<and> sr_Status r = ''PENDING'' \<and> sr_DocumentPath r = path \<and>
       sr_DocumentHash r = ComputeHash sha c \<and> s' = dd_Emit deps e s2)"
proof -
  from assms obtain f c where fc: "(if up_bodySize up > i64 (dd_MaxSizeMB deps * 1024 * 1024) then None
      else up_form up) = Some (Some (f, c))"
    and g: "u \<noteq> []" "has_pdf_suffix f" "take 5 c = ''%PDF-''"
    unfolding Upload_def Let_def by (auto split: if_splits option.splits)
  obtain res s1 where sv: "dd_Save deps f c s = (res, s1)" by fastforce
  show thesis
  proof (cases res)
    case (Inl e)
    with assms fc g sv show thesis by (intro that [OF sv]) (auto simp: Upload_def Let_def)
  next
    case (Inr path)
    let ?r = "\<lparr>sr_ID = [], sr_UserID = u, sr_CertificateID = [], sr_DocumentName = f,
                   sr_DocumentSize = int (length c), sr_DocumentHash = ComputeHash sha c,
                   sr_DocumentPath = path, sr_Status = ''PENDING'', sr_ErrorMessage = [],
                   sr_ExpiresAt = now + dd_RequestTTL deps, sr_CreatedAt = zero_time,
                   sr_UpdatedAt = zero_time\<rparr>"
    show thesis
    proof (cases "rt_Create (dd_RequestStore deps) ?r s1")
      case (Inl e)
      with assms fc g sv Inr show thesis by (intro that [OF sv]) (auto simp: Upload_def Let_def)
    next
      case 2: (Inr p)
      obtain r' s2 where p: "p = (r', s2)" by (cases p)
      from assms(1) fc g sv Inr 2 p obtain e where "s' = dd_Emit deps e s2"
        by (auto simp: Upload_def Let_def)
      with Inr 2 p show thesis
        by (intro that [OF sv] disjI2 exI [of _ path] exI [of _ ?r] exI [of _ r'] exI [of _ s2] exI [of _ e]) simp
    qed
  qed
qed

lemma Upload_inv:
  assumes v: "env_ok v" and inv: "sign_inv v s"
    and step: "Upload (se_sha v) (MemDocDeps (se_rnd v) (se_fs v) (se_pfx v) (se_io v) now ks ks' backend mb ttl)
       now u up s = (ans, s')"
  shows "sign_inv v s'"
proof (cases "s' = s")
  case False
  from Upload_path [OF step False] obtain f c res s1 where
    sv: "mem_Save (se_fs v) (se_pfx v) (se_io v) f c s = (res, s1)"
    and rest: "s' = s1 \<or> (\<exists>path r r' s2 e. res = Inr path \<and>
       rt_Create (InMemoryRequestStore (se_rnd v) now ks') r s1 = Inr (r', s2) \<and>
       sr_UserID r = u \<and> sr_Status r = ''PENDING'' \<and> sr_DocumentPath r = path \<and>
       sr_DocumentHash r = ComputeHash (se_sha v) c \<and> s' = log_emit e s2)"
    by (simp add: MemDocDeps_def) metis
  note s1 = save_inv [OF v inv sv]
  from rest show ?thesis
  proof (elim disjE exE conjE)
    fix path r r' s2 e
    assume res: "res = Inr path" and cr: "rt_Create (InMemoryRequestStore (se_rnd v) now ks') r s1 = Inr (r', s2)"
      and r: "sr_Status r = ''PENDING''" "sr_DocumentPath r = path"
        "sr_DocumentHash r = ComputeHash (se_sha v) c" and s': "s' = log_emit e s2"
    from save_keeps_files(3) [OF v sv res] have st: "stored v path c s1" .
    from cr have s2: "s2 = s1\<lparr>sg_requests := (sg_requests s1)(generateID (se_rnd v) (sg_drawn s1) \<mapsto> r'),
           sg_drawn := Suc (sg_drawn s1)\<rparr>"
      and r': "r' = r\<lparr>sr_ID := generateID (se_rnd v) (sg_drawn s1), sr_CreatedAt := now, sr_UpdatedAt := now\<rparr>"
      by (auto simp: InMemoryRequestStore_def req_Create_def Let_def)
    from new_request_inv [OF v s1 refl, of r' c] st r show ?thesis by (simp add: s' s2 r')
  qed (use s1 in simp)
qed (use inv in simp)

lemma cert_GetActiveByUser_Inr:
  "cert_GetActiveByUser ks u m = Inr c \<Longrightarrow> c \<in> ran m \<and> ce_UserID c = u \<and> ce_Status c = ''ACTIVE''"
  by (auto simp: cert_GetActiveByUser_def set_range_vals ran_def dest!: find_SomeD split: option.splits)


lemma store_signed_path:
  assumes "store_signed sha b64 parse deps u i r ce resp s = (ans, s')"
  shows "(s' = s \<and> is_error ans) \<or> (\<exists>f c res s1. dd_Save deps f c s = (res, s1) \<and>
    (s' = s1 \<and> is_error ans \<or> (\<exists>path d d' s2 e. res = Inr path \<and>
       dt_Create (dd_DocStore deps) d s1 = Inr (d', s2) \<and> sd_RequestID d = i \<and>
       sd_CertificateID d = ce_ID ce \<and> sd_SignedPath d = path \<and> sd_SignedHash d = ComputeHash sha c \<and>
       b64_decode b64 (sp_SignedDocumentBase64 resp) = Some c \<and> ans = WriteJSON 200 (DocBody d') \<and>
       s' = dd_Emit deps e (case rt_UpdateStatus (dd_RequestStore deps) i ''COMPLETED'' (ce_ID ce) [] s2 of
                              Inl _ \<Rightarrow> s2 | Inr s3 \<Rightarrow> s3))))"
proof (cases "b64_decode b64 (sp_SignedDocumentBase64 resp)")
  case None
  with assms show ?thesis by (auto simp: store_signed_def)
next
  case (Some c)
  let ?f = "''signed_'' @ sr_DocumentName r"
  obtain res s1 where sv: "dd_Save deps ?f c s = (res, s1)" by fastforce
  show ?thesis
  proof (cases res)
    case (Inl e)
    with assms Some sv have "s' = s1 \<and> is_error ans" by (auto simp: store_signed_def)
    with sv show ?thesis by blast
  next
    case (Inr path)
    let ?d = "\<lparr>sd_ID = [], sd_RequestID = i, sd_CertificateID = ce_ID ce,
                  sd_SignedHash = ComputeHash sha c, sd_SignedPath = path,
                  sd_SignedSize = int (length c), sd_PAdESLevel = sp_PAdESLevel resp,
                  sd_SignatureTimestamp = parse_or_zero parse (sp_SignatureTimestamp resp),
                  sd_CreatedAt = zero_time\<rparr>"
    show ?thesis
    proof (cases "dt_Create (dd_DocStore deps) ?d s1")
      case (Inl e)
      with assms Some sv Inr have "s' = s1 \<and> is_error ans" by (auto simp: store_signed_def)
      with sv show ?thesis by blast
    next
      case 2: (Inr p)
      obtain d' s2 where p: "p = (d', s2)" by (cases p)
      let ?e = "\<lparr>ev_UserID = u, ev_Action = ''DOC_SIGNED'',
                    ev_Metadata = [(''request_id'', i), (''document_id'', sd_ID d'),
                                   (''pades_level'', sp_PAdESLevel resp)]\<rparr>"
      from assms Some sv Inr 2 p have "ans = WriteJSON 200 (DocBody d')"
        "s' = dd_Emit deps ?e (case rt_UpdateStatus (dd_RequestStore deps) i ''COMPLETED'' (ce_ID ce) [] s2 of
                              Inl _ \<Rightarrow> s2 | Inr s3 \<Rightarrow> s3)"
        by (simp_all add: store_signed_def Let_def)
      with Some Inr 2 p show ?thesis
        by (intro disjI2 exI [of _ ?f] exI [of _ c] exI [of _ res] exI [of _ s1] conjI sv
            exI [of _ path] exI [of _ ?d] exI [of _ d'] exI [of _ s2] exI [of _ ?e]) simp_all
    qed
  qed
qed

lemma Sign_path:
  assumes "Sign sha b64 parse deps now u i s = (ans, s')"
  shows "(s' = s \<and> is_error ans) \<or> (\<exists>r ce. rt_GetByID (dd_RequestStore deps) i s = Inr r \<and> sr_UserID r = u \<and>
    now \<le> sr_ExpiresAt r \<and> sr_Status r \<noteq> ''COMPLETED'' \<and>
    cs_GetActiveByUser (dd_CertStore deps) u s = Inr ce \<and>
    ((\<exists>err e. is_error ans \<and> s' = dd_Emit deps e
        (case rt_UpdateStatus (dd_RequestStore deps) i ''FAILED'' [] err s of Inl _ \<Rightarrow> s | Inr s1 \<Rightarrow> s1)) \<or>
     (\<exists>resp. store_signed sha b64 parse deps u i r ce resp s = (ans, s'))))"
proof (cases "s' = s \<and> is_error ans")
  case False
  from assms False obtain r where r: "rt_GetByID (dd_RequestStore deps) i s = Inr r"
    and c: "u \<noteq> []" "i \<noteq> []" "sr_UserID r = u" "\<not> now > sr_ExpiresAt r" "sr_Status r \<noteq> ''COMPLETED''"
    unfolding Sign_def by (auto split: if_splits sum.splits)
  from assms False r c obtain ce where ce: "cs_GetActiveByUser (dd_CertStore deps) u s = Inr ce"
    unfolding Sign_def by (auto split: sum.splits)
  from assms False r c ce obtain b where b: "dd_Load deps (sr_DocumentPath r) s = Inr b"
    unfolding Sign_def by (auto split: sum.splits)
  let ?q = "\<lparr>sq_DocumentBase64 = b64_encode b64 b, sq_CertificatePEM = ce_CertificatePEM ce,
             sq_SignatureLevel = ''PAdES-B-LTA''\<rparr>"
  show ?thesis
  proof (cases "sb_SignDocument (dd_SignClient deps) ?q")
    case (Inl err)
    with assms r c ce b have "is_error ans \<and> s' = dd_Emit deps
        \<lparr>ev_UserID = u, ev_Action = ''SIGN_FAILED'', ev_Metadata = [(''request_id'', i), (''error'', err)]\<rparr>
        (case rt_UpdateStatus (dd_RequestStore deps) i ''FAILED'' [] err s of Inl _ \<Rightarrow> s | Inr s1 \<Rightarrow> s1)"
      by (auto simp: Sign_def Let_def)
    with r c ce show ?thesis unfolding not_less by blast
  next
    case (Inr resp)
    with assms r c ce b have "store_signed sha b64 parse deps u i r ce resp s = (ans, s')"
      by (simp add: Sign_def)
    with r c ce show ?thesis unfolding not_less by blast
  qed
qed simp

lemma store_signed_inv:
  assumes v: "env_ok v" and inv: "sign_inv v s"
    and r: "sg_requests s i = Some r" "sr_Status r \<noteq> ''COMPLETED''"
    and ce: "sg_certs s (ce_ID ce) = Some ce" "ce_UserID ce = sr_UserID r"
    and step: "store_signed (se_sha v) (se_b64 v) (se_parse v)
       (MemDocDeps (se_rnd v) (se_fs v) (se_pfx v) (se_io v) now ks ks' backend mb ttl) u i r ce resp s = (ans, s')"
  shows "sign_inv v s'"
proof (cases "s' = s")
  case False
  let ?deps = "MemDocDeps (se_rnd v) (se_fs v) (se_pfx v) (se_io v) now ks ks' backend mb ttl"
  from store_signed_path [OF step] False obtain f c res s1 where
    sv: "mem_Save (se_fs v) (se_pfx v) (se_io v) f c s = (res, s1)"
    and rest: "s' = s1 \<or> (\<exists>path d d' s2 e. res = Inr path \<and>
       dt_Create (dd_DocStore ?deps) d s1 = Inr (d', s2) \<and> sd_RequestID d = i \<and>
       sd_CertificateID d = ce_ID ce \<and> sd_SignedPath d = path \<and> sd_SignedHash d = ComputeHash (se_sha v) c \<and>
       s' = dd_Emit ?deps e (case rt_UpdateStatus (dd_RequestStore ?deps) i ''COMPLETED'' (ce_ID ce) [] s2 of
                              Inl _ \<Rightarrow> s2 | Inr s3 \<Rightarrow> s3))"
    unfolding MemDocDeps_def DocumentDeps.simps by blast
  note s1 = save_inv [OF v inv sv]
  obtain dk where eq: "s1 = s\<lparr>sg_disk := dk, sg_drawn := Suc (sg_drawn s)\<rparr>"
    using save_keeps_files(2) [OF v sv] by blast
  from rest show ?thesis
  proof (elim disjE exE conjE)
    fix path d d' s2 e
    assume res: "res = Inr path" and cr: "dt_Create (dd_DocStore ?deps) d s1 = Inr (d', s2)"
      and d: "sd_RequestID d = i" "sd_CertificateID d = ce_ID ce" "sd_SignedPath d = path"
        "sd_SignedHash d = ComputeHash (se_sha v) c"
      and s': "s' = dd_Emit ?deps e (case rt_UpdateStatus (dd_RequestStore ?deps) i ''COMPLETED'' (ce_ID ce) [] s2 of
                              Inl _ \<Rightarrow> s2 | Inr s3 \<Rightarrow> s3)"
    from save_keeps_files(3) [OF v sv res] have st: "stored v path c s1" .
    from cr d(1) obtain m where none: "sg_docs s1 i = None"
      and d': "d' = d\<lparr>sd_ID := generateID (se_rnd v) (sg_drawn s1), sd_CreatedAt := now\<rparr>"
      and s2: "s2 = s1\<lparr>sg_docs := (sg_docs s1)(i \<mapsto> d'), sg_byID := m, sg_drawn := Suc (sg_drawn s1)\<rparr>"
      by (auto simp: MemDocDeps_def InMemoryDocumentStore_def doc_Create_def Let_def split: if_splits)
    have id: "ce_ID ce \<noteq> []"
    proof -
      from inv ce(1) have "drawn (generateID (se_rnd v)) (sg_drawn s) (ce_ID ce)"
        unfolding sign_inv_def certs_ok_def by blast
      with generateID_nonempty [OF v] show ?thesis unfolding drawn_def by metis
    qed
    let ?r = "r\<lparr>sr_Status := ''COMPLETED'', sr_CertificateID := ce_ID ce, sr_ErrorMessage := [],
                sr_UpdatedAt := now\<rparr>"
    have "s' = log_emit e (s1\<lparr>sg_docs := (sg_docs s1)(i \<mapsto> d'), sg_byID := m,
        sg_drawn := Suc (sg_drawn s1), sg_requests := (sg_requests s1)(i \<mapsto> ?r)\<rparr>)"
      using r(1) id by (simp add: s' s2 eq MemDocDeps_def InMemoryRequestStore_def req_UpdateStatus_def Let_def)
    moreover have "sign_inv v (s1\<lparr>sg_docs := (sg_docs s1)(i \<mapsto> d'), sg_byID := m,
        sg_drawn := Suc (sg_drawn s1), sg_requests := (sg_requests s1)(i \<mapsto> ?r)\<rparr>)"
      by (rule document_signed_inv [OF s1 _ none, of r "ce_ID ce" ce d' c]) (use r ce d st d' eq in simp_all)
    ultimately show ?thesis by simp
  qed (use s1 in simp)
qed (use inv in simp)

lemma Sign_inv:
  assumes v: "env_ok v" and inv: "sign_inv v s"
    and step: "Sign (se_sha v) (se_b64 v) (se_parse v)
       (MemDocDeps (se_rnd v) (se_fs v) (se_pfx v) (se_io v) now ks ks' backend mb ttl) now u i s = (ans, s')"
  shows "sign_inv v s'"
proof (cases "s' = s")
  case False
  let ?deps = "MemDocDeps (se_rnd v) (se_fs v) (se_pfx v) (se_io v) now ks ks' backend mb ttl"
  from Sign_path [OF step] False have "\<exists>r ce. rt_GetByID (dd_RequestStore ?deps) i s = Inr r \<and> sr_UserID r = u \<and>
    now \<le> sr_ExpiresAt r \<and> sr_Status r \<noteq> ''COMPLETED'' \<and>
    cs_GetActiveByUser (dd_CertStore ?deps) u s = Inr ce \<and>
    ((\<exists>err e. is_error ans \<and> s' = dd_Emit ?deps e
        (case rt_UpdateStatus (dd_RequestStore ?deps) i ''FAILED'' [] err s of Inl _ \<Rightarrow> s | Inr s1 \<Rightarrow> s1)) \<or>
     (\<exists>resp. store_signed (se_sha v) (se_b64 v) (se_parse v) ?deps u i r ce resp s = (ans, s')))"
    by (simp only: simp_thms)
  then obtain r ce where
    gr: "rt_GetByID (dd_RequestStore ?deps) i s = Inr r" and r: "sr_UserID r = u" "sr_Status r \<noteq> ''COMPLETED''"
    and gc: "cs_GetActiveByUser (dd_CertStore ?deps) u s = Inr ce"
    and rest: "(\<exists>err e. s' = dd_Emit ?deps e
        (case rt_UpdateStatus (dd_RequestStore ?deps) i ''FAILED'' [] err s of Inl _ \<Rightarrow> s | Inr s1 \<Rightarrow> s1)) \<or>
     (\<exists>resp. store_signed (se_sha v) (se_b64 v) (se_parse v) ?deps u i r ce resp s = (ans, s'))"
    by blast
  from gr have r1: "sg_requests s i = Some r"
    by (auto simp: MemDocDeps_def InMemoryRequestStore_def req_GetByID_def split: option.splits)
  from gc have "ce \<in> ran (sg_certs s) \<and> ce_UserID ce = u"
    using cert_GetActiveByUser_Inr [of ks u "sg_certs s" ce]
    by (simp add: MemDocDeps_def InMemoryCertificateStore_def)
  then have c1: "sg_certs s (ce_ID ce) = Some ce" "ce_UserID ce = sr_UserID r"
    using inv r by (auto simp: ran_def sign_inv_def certs_ok_def)
  from rest show ?thesis
  proof (elim disjE exE)
    fix err e
    assume s': "s' = dd_Emit ?deps e
        (case rt_UpdateStatus (dd_RequestStore ?deps) i ''FAILED'' [] err s of Inl _ \<Rightarrow> s | Inr s1 \<Rightarrow> s1)"
    have "s' = log_emit e (s\<lparr>sg_requests := (sg_requests s)(i \<mapsto>
        r\<lparr>sr_Status := ''FAILED'', sr_ErrorMessage := err, sr_UpdatedAt := now\<rparr>)\<rparr>)"
      using r1 by (simp add: s' MemDocDeps_def InMemoryRequestStore_def req_UpdateStatus_def Let_def)
    with request_failed_inv [OF inv r1 r(2)] show ?thesis by simp
  qed (rule store_signed_inv [OF v inv r1 r(2) c1])
qed (use inv in simp)

lemma Download_inv:
  assumes "sign_inv v s" "Download (MemDocDeps rnd fs pfx io now ks ks' backend mb ttl) u i s = (ans, s')"
  shows "sign_inv v s'"
proof -
  from assms(2) have "s' = s \<or> (\<exists>e. s' = log_emit e s)"
    by (auto simp: Download_def MemDocDeps_def split: if_splits sum.splits)
  with assms(1) show ?thesis by auto
qed

lemma sign_step_inv: "env_ok v \<Longrightarrow> sign_inv v s \<Longrightarrow> sign_step v s s' \<Longrightarrow> sign_inv v s'"
  by (elim sign_stepE)
    (blast intro: RequestCertificate_inv RevokeCertificate_inv Upload_inv Sign_inv Download_inv)+

lemma sign_reach_inv: "sign_reach v s \<Longrightarrow> env_ok v \<Longrightarrow> sign_inv v s"
  by (induction rule: sign_reach.induct) (auto intro: sign_inv_init sign_step_inv)


section \<open>Signed documents are never replaced\<close>

lemma log_emit_docs [simp]: "sg_docs (log_emit e s) = sg_docs s"
  by (simp add: log_emit_def)

lemma mem_Save_docs: "mem_Save fs pfx io f c s = (res, s1) \<Longrightarrow> sg_docs s1 = sg_docs s"
  by (auto simp: mem_Save_def split: prod.splits)

lemma cert_store_docs:
  "cs_Create (InMemoryCertificateStore rnd now ks) c s = Inr (c', s1) \<Longrightarrow> sg_docs s1 = sg_docs s"
  "cs_UpdateStatus (InMemoryCertificateStore rnd now ks) i st t reason s = Inr s2 \<Longrightarrow> sg_docs s2 = sg_docs s"
  by (auto simp: InMemoryCertificateStore_def)

lemma RequestCertificate_docs:
  assumes "RequestCertificate parse (MemCertDeps rnd now ks backend days) u body s = (ans, s')"
  shows "sg_docs s' = sg_docs s"
proof (cases "s' = s")
  case False
  obtain c c' s1 e where "cs_Create (InMemoryCertificateStore rnd now ks) c s = Inr (c', s1)"
    and "s' = log_emit e s1"
    by (rule RequestCertificate_path [OF assms False, unfolded MemCertDeps_def CertificateDeps.simps])
  with cert_store_docs(1) show ?thesis by simp
qed simp

lemma RevokeCertificate_docs:
  assumes "RevokeCertificate (InMemoryCertificateStore rnd now ks) log_emit now u i body s = (ans, s')"
  shows "sg_docs s' = sg_docs s"
proof (cases "s' = s")
  case False
  obtain reason s1 e where
    "cs_UpdateStatus (InMemoryCertificateStore rnd now ks) i ''REVOKED'' (Some now) reason s = Inr s1"
    and "s' = log_emit e s1" by (rule RevokeCertificate_path [OF assms False])
  with cert_store_docs(2) show ?thesis by simp
qed simp

lemma rt_Create_docs:
  "rt_Create (InMemoryRequestStore rnd now ks) r s = Inr (r', s2) \<Longrightarrow> sg_docs s2 = sg_docs s"
  by (auto simp: InMemoryRequestStore_def req_Create_def Let_def)

lemma Upload_docs:
  assumes "Upload sha (MemDocDeps rnd fs pfx io now ks ks' backend mb ttl) now u up s = (ans, s')"
  shows "sg_docs s' = sg_docs s"
proof (cases "s' = s")
  case False
  obtain f c res s1 where sv: "mem_Save fs pfx io f c s = (res, s1)"
    and "s' = s1 \<or> (\<exists>path r r' s2 e. res = Inr path \<and>
       rt_Create (InMemoryRequestStore rnd now ks') r s1 = Inr (r', s2) \<and>
       sr_UserID r = u \<and> sr_Status r = ''PENDING'' \<and> sr_DocumentPath r = path \<and>
       sr_DocumentHash r = ComputeHash sha c \<and> s' = log_emit e s2)"
    by (rule Upload_path [OF assms False, unfolded MemDocDeps_def DocumentDeps.simps])
  with rt_Create_docs mem_Save_docs [OF sv] show ?thesis by (metis log_emit_docs)
qed simp

lemma dt_Create_docs:
  assumes "dt_Create (InMemoryDocumentStore rnd now) d s = Inr (d', s2)" "sg_docs s j = Some x"
  shows "sg_docs s2 j = Some x"
  using assms by (auto simp: InMemoryDocumentStore_def doc_Create_def Let_def split: if_splits)

lemma rt_UpdateStatus_docs:
  "sg_docs (case rt_UpdateStatus (InMemoryRequestStore rnd now ks) i st c e s of Inl _ \<Rightarrow> s | Inr s3 \<Rightarrow> s3) =
     sg_docs s"
  by (auto simp: InMemoryRequestStore_def split: sum.split)

lemma store_signed_docs:
  assumes "store_signed sha b64 parse (MemDocDeps rnd fs pfx io now ks ks' backend mb ttl) u i r ce resp s = (ans, s')"
    and "sg_docs s j = Some d"
  shows "sg_docs s' j = Some d"
proof -
  let ?deps = "MemDocDeps rnd fs pfx io now ks ks' backend mb ttl"
  from store_signed_path [OF assms(1)] consider "s' = s"
    | f c res s1 where "dd_Save ?deps f c s = (res, s1)" "s' = s1"
    | f c res s1 dd d' s2 e where "dd_Save ?deps f c s = (res, s1)" "dt_Create (dd_DocStore ?deps) dd s1 = Inr (d', s2)"
       "s' = dd_Emit ?deps e (case rt_UpdateStatus (dd_RequestStore ?deps) i ''COMPLETED'' (ce_ID ce) [] s2 of
                              Inl _ \<Rightarrow> s2 | Inr s3 \<Rightarrow> s3)" by blast
  then show ?thesis
  proof cases
    case 2
    with assms(2) mem_Save_docs show ?thesis by (auto simp: MemDocDeps_def)
  next
    case (3 f c res s1 dd d' s2 e)
    have "sg_docs s1 j = Some d" using 3(1) assms(2) mem_Save_docs by (auto simp: MemDocDeps_def)
    with dt_Create_docs [of rnd now dd s1 d' s2 j d] 3(2,3) show ?thesis
      by (simp add: MemDocDeps_def rt_UpdateStatus_docs)
  qed (use assms(2) in simp)
qed

lemma Sign_docs:
  assumes "Sign sha b64 parse (MemDocDeps rnd fs pfx io now ks ks' backend mb ttl) now u i s = (ans, s')"
    and "sg_docs s j = Some d"
  shows "sg_docs s' j = Some d"
proof -
  let ?deps = "MemDocDeps rnd fs pfx io now ks ks' backend mb ttl"
  from Sign_path [OF assms(1)] consider (same) "s' = s" | (failed) err e where "s' = dd_Emit ?deps e
        (case rt_UpdateStatus (dd_RequestStore ?deps) i ''FAILED'' [] err s of Inl _ \<Rightarrow> s | Inr s1 \<Rightarrow> s1)"
    | (stored) r ce resp where "store_signed sha b64 parse ?deps u i r ce resp s = (ans, s')" by blast
  then show ?thesis
  proof cases
    case failed
    with assms(2) show ?thesis by (simp add: MemDocDeps_def rt_UpdateStatus_docs)
  next
    case stored
    from store_signed_docs [OF this assms(2)] show ?thesis .
  qed (use assms(2) in simp)
qed

lemma Download_docs:
  "Download (MemDocDeps rnd fs pfx io now ks ks' backend mb ttl) u i s = (ans, s') \<Longrightarrow> sg_docs s' = sg_docs s"
  by (auto simp: Download_def MemDocDeps_def split: if_splits sum.splits)

lemma sign_step_docs:
  assumes "sign_step v s s'" "sg_docs s i = Some d"
  shows "sg_docs s' i = Some d"
  using assms(1)
proof cases
  case step_request_cert
  with RequestCertificate_docs assms(2) show ?thesis by metis
next
  case step_revoke_cert
  with RevokeCertificate_docs assms(2) show ?thesis by metis
next
  case step_upload
  with Upload_docs assms(2) show ?thesis by metis
next
  case step_sign
  with Sign_docs assms(2) show ?thesis by blast
next
  case step_download
  with Download_docs assms(2) show ?thesis by metis
qed

section \<open>Properties\<close>

text \<open>
  C4. One active certificate: in every state the signing service can reach on the in-memory stores --
  requests, revocations, uploads and signatures in any order -- two ACTIVE certificates of the same
  user are the same certificate.
\<close>

theorem one_active_certificate:
  assumes "sign_reach v s" "env_ok v"
    and "sg_certs s i = Some c" "ce_Status c = ''ACTIVE''"
    and "sg_certs s j = Some d" "ce_Status d = ''ACTIVE''" "ce_UserID c = ce_UserID d"
  shows "i = j \<and> c = d"
proof -
  from sign_reach_inv [OF assms(1,2)] have "one_active (sg_certs s)"
    by (simp add: sign_inv_def certs_ok_def)
  with assms have "i = j" unfolding one_active_def by blast
  with assms show ?thesis by simp
qed

text \<open>
  C2. Integrity of what is downloaded: in every reachable state \<open>Download\<close> by the owner of a COMPLETED
  request always succeeds, and to no one else; the bytes it returns have the SHA-256 hash recorded in
  the signed document, and the document names a certificate issued to that owner.
\<close>

theorem download_integrity:
  assumes "sign_reach v s" "env_ok v"
    and "Download (MemDocDeps (se_rnd v) (se_fs v) (se_pfx v) (se_io v) now ks ks' backend mb ttl) u i s = (ans, s')"
    and "u \<noteq> []"
  shows "(\<not> is_error ans \<longleftrightarrow> i \<noteq> [] \<and> (\<exists>r. sg_requests s i = Some r \<and> sr_UserID r = u \<and> sr_Status r = ''COMPLETED'')) \<and>
    (\<not> is_error ans \<longrightarrow> (\<exists>name content d ce. ans = WriteJSON 200 (FileBody name content) \<and>
       sg_docs s i = Some d \<and> ComputeHash (se_sha v) content = sd_SignedHash d \<and>
       sg_certs s (sd_CertificateID d) = Some ce \<and> ce_UserID ce = u))"
proof (cases "i \<noteq> [] \<and> (\<exists>r. sg_requests s i = Some r \<and> sr_UserID r = u \<and> sr_Status r = ''COMPLETED'')")
  case False
  with assms(3,4) have "is_error ans"
    by (auto simp: Download_def MemDocDeps_def InMemoryRequestStore_def req_GetByID_def
        split: if_splits option.splits)
  with False show ?thesis by simp
next
  case True
  then obtain r where r: "sg_requests s i = Some r" "sr_UserID r = u" "sr_Status r = ''COMPLETED''"
    and i: "i \<noteq> []" by blast
  note inv = sign_reach_inv [OF assms(1,2)]
  with r have "sg_docs s i \<noteq> None" by (auto simp: sign_inv_def request_ok_def)
  then obtain d where d: "sg_docs s i = Some d" by blast
  with inv have "document_ok v s i d" by (simp add: sign_inv_def)
  with r(1) obtain c ce where ce: "sg_certs s (sd_CertificateID d) = Some ce" "ce_UserID ce = sr_UserID r"
    and c: "stored v (sd_SignedPath d) c s" "ComputeHash (se_sha v) c = sd_SignedHash d"
    unfolding document_ok_def by auto
  from c(1) have "Load (se_fs v) (sd_SignedPath d) (sg_disk s) = Inr c"
    by (simp add: stored_def file_store.holds_def [OF fs_store.file_store_axioms])
  with assms(3,4) r d i have "ans = WriteJSON 200 (FileBody (''signed_'' @ sr_DocumentName r) c)"
    by (simp add: Download_def MemDocDeps_def InMemoryRequestStore_def InMemoryDocumentStore_def
        req_GetByID_def doc_GetByRequestID_def)
  with True d c(2) ce r(2) show ?thesis by auto
qed


text \<open>
  What a signature needs: \<open>Sign\<close> answers 200 only to the owner of the request, before the request
  expires and while it is not completed, with an active certificate of that user, and then the stored
  document refers to that certificate.
\<close>

theorem sign_requires:
  assumes "Sign sha b64 parse (MemDocDeps rnd fs pfx io now ks ks' backend mb ttl) now u i s = (ans, s')"
    and "\<not> is_error ans"
  shows "\<exists>r ce d. sg_requests s i = Some r \<and> sr_UserID r = u \<and> now \<le> sr_ExpiresAt r \<and>
    sr_Status r \<noteq> ''COMPLETED'' \<and> ce \<in> ran (sg_certs s) \<and> ce_UserID ce = u \<and>
    ce_Status ce = ''ACTIVE'' \<and> ans = WriteJSON 200 (DocBody d) \<and> sd_RequestID d = i \<and>
    sd_CertificateID d = ce_ID ce"
proof -
  let ?deps = "MemDocDeps rnd fs pfx io now ks ks' backend mb ttl"
  from Sign_path [OF assms(1)] assms(2) obtain r ce resp where
    gr: "rt_GetByID (dd_RequestStore ?deps) i s = Inr r" and r: "sr_UserID r = u" "now \<le> sr_ExpiresAt r"
      "sr_Status r \<noteq> ''COMPLETED''"
    and gc: "cs_GetActiveByUser (dd_CertStore ?deps) u s = Inr ce"
    and ss: "store_signed sha b64 parse ?deps u i r ce resp s = (ans, s')" by blast
  from gr have r1: "sg_requests s i = Some r"
    by (auto simp: MemDocDeps_def InMemoryRequestStore_def req_GetByID_def split: option.splits)
  from gc have ce: "ce \<in> ran (sg_certs s) \<and> ce_UserID ce = u \<and> ce_Status ce = ''ACTIVE''"
    using cert_GetActiveByUser_Inr [of ks u "sg_certs s" ce]
    by (simp add: MemDocDeps_def InMemoryCertificateStore_def)
  from store_signed_path [OF ss] assms(2) obtain dd d s1 s2 where
    cr: "dt_Create (dd_DocStore ?deps) dd s1 = Inr (d, s2)" and dd: "sd_RequestID dd = i"
      "sd_CertificateID dd = ce_ID ce" and ans: "ans = WriteJSON 200 (DocBody d)" by blast
  from cr have "sd_RequestID d = sd_RequestID dd" "sd_CertificateID d = sd_CertificateID dd"
    by (auto simp: MemDocDeps_def InMemoryDocumentStore_def doc_Create_def Let_def split: if_splits)
  with r1 r ce dd ans show ?thesis by auto
qed


text \<open>A run of the service: a certificate is issued, a document uploaded and signed.\<close>

definition example_env :: sign_env where
  "example_env = \<lparr>se_sha = (\<lambda>x. x), se_b64 = \<lparr>b64_encode = (\<lambda>x. x), b64_decode = (\<lambda>x. Some x)\<rparr>,
     se_parse = (\<lambda>x. Some 0), se_fs = example_fs,
     se_pfx = (\<lambda>n. Some (hex_encode (replicate n CHR ''a''))), se_io = (\<lambda>n. IoDone),
     se_rnd = (\<lambda>n. replicate (Suc n) CHR ''a'')\<rparr>"

lemma example_env_ok: "env_ok example_env"
proof -
  have "hex_encode (replicate m CHR ''a'') = hex_encode (replicate n CHR ''a'') \<Longrightarrow> m = n" for m n
    by (auto dest!: hex_encode_inj simp: replicate_eq_replicate)
  moreover have "rooted (fs_baseDir example_fs)" by code_simp
  ultimately show ?thesis
    by (auto simp: env_ok_def example_env_def storage_ok_def example_fs_abs inj_def replicate_eq_replicate)
qed

definition example_backend :: SigningBackend where
  "example_backend = \<lparr>sb_IssueCertificate = (\<lambda>q. Inr \<lparr>cp_SerialNumber = ''1'', cp_CertificatePEM = ''P'',
       cp_IssuerDN = [], cp_SubjectDN = [], cp_ValidFrom = [], cp_ValidTo = [], cp_FingerprintSHA256 = []\<rparr>),
     sb_SignDocument = (\<lambda>q. Inr \<lparr>sp_SignedDocumentBase64 = ''S'' @ sq_DocumentBase64 q,
       sp_SignatureTimestamp = [], sp_PAdESLevel = ''PAdES-B-LTA''\<rparr>)\<rparr>"

abbreviation example_deps :: "sign DocumentDeps" where
  "example_deps \<equiv> MemDocDeps (se_rnd example_env) (se_fs example_env) (se_pfx example_env)
     (se_io example_env) 0 [generateID (se_rnd example_env) 0] [] example_backend 1 10"

definition example1 :: sign where
  "example1 = snd (RequestCertificate (se_parse example_env)
     (MemCertDeps (se_rnd example_env) 0 [] example_backend 1) ''u'' (Some ''n'') sign_init)"

definition example2 :: sign where
  "example2 = snd (Upload (se_sha example_env) example_deps 0 ''u''
     \<lparr>up_bodySize = 9, up_form = Some (Some (''a.PDF'', ''%PDF-1''))\<rparr> example1)"

abbreviation example_request :: ident where
  "example_request \<equiv> generateID (se_rnd example_env) 2"

definition example3 :: sign where
  "example3 = snd (Sign (se_sha example_env) (se_b64 example_env) (se_parse example_env) example_deps
     0 ''u'' example_request example2)"

lemma example_reach: "sign_reach example_env example3"
proof -
  have "sign_step example_env sign_init example1"
    unfolding example1_def by (rule step_request_cert [OF _ prod.collapse [symmetric]]) (simp add: sign_init_def)
  moreover have "sign_step example_env example1 example2"
    unfolding example2_def by (rule step_upload [OF prod.collapse [symmetric]])
  moreover have "sign_step example_env example2 example3"
    unfolding example3_def by (rule step_sign [OF prod.collapse [symmetric]])
  ultimately show ?thesis by (blast intro: sign_reach_init sign_reach_step)
qed

lemma example_active: "map_option ce_Status (sg_certs example3 (generateID (se_rnd example_env) 0)) = Some ''ACTIVE''"
  by code_simp

lemma example_signed: "map_option sd_SignedSize (sg_docs example3 example_request) = Some 7"
  by code_simp


lemma example_completed:
  "map_option (\<lambda>r. (sr_UserID r, sr_Status r)) (sg_requests example3 example_request) = Some (''u'', ''COMPLETED'')"
  by code_simp

lemma example_sign_ok:
  "\<not> is_error (fst (Sign (se_sha example_env) (se_b64 example_env) (se_parse example_env) example_deps
     0 ''u'' example_request example2))"
  by code_simp

theorem one_active_certificate_witness:
  "\<exists>c. sg_certs example3 (generateID (se_rnd example_env) 0) = Some c \<and> ce_Status c = ''ACTIVE'' \<and>
     (\<forall>j d. sg_certs example3 j = Some d \<and> ce_Status d = ''ACTIVE'' \<and> ce_UserID d = ce_UserID c \<longrightarrow> d = c)"
proof -
  from example_active obtain c where c: "sg_certs example3 (generateID (se_rnd example_env) 0) = Some c"
    "ce_Status c = ''ACTIVE''" by auto
  have "d = c" if "sg_certs example3 j = Some d" "ce_Status d = ''ACTIVE''" "ce_UserID d = ce_UserID c" for j d
    using one_active_certificate [OF example_reach example_env_ok c that(1,2)] that(3) by simp
  with c show ?thesis by blast
qed

theorem download_integrity_witness:
  "\<exists>name content d. fst (Download example_deps ''u'' example_request example3) = WriteJSON 200 (FileBody name content) \<and>
     sg_docs example3 example_request = Some d \<and> ComputeHash (se_sha example_env) content = sd_SignedHash d"
proof -
  have ne: "example_request \<noteq> []" using generateID_nonempty [OF example_env_ok] .
  obtain ans s' where st: "Download example_deps ''u'' example_request example3 = (ans, s')" by fastforce
  from example_completed obtain r where "sg_requests example3 example_request = Some r"
    "sr_UserID r = ''u''" "sr_Status r = ''COMPLETED''" by auto
  with ne download_integrity [OF example_reach example_env_ok st] st show ?thesis by auto
qed


theorem sign_requires_witness:
  "\<exists>ce\<in>ran (sg_certs example2). ce_UserID ce = ''u'' \<and> ce_Status ce = ''ACTIVE''"
proof -
  obtain ans s' where st: "Sign (se_sha example_env) (se_b64 example_env) (se_parse example_env) example_deps
     0 ''u'' example_request example2 = (ans, s')" by fastforce
  with example_sign_ok have "\<not> is_error ans" by simp
  from sign_requires [OF st this] show ?thesis by blast
qed

end
