(* ===== verification/GP_Text.thy ===== *)
theory GP_Text
  imports GP_Prelude "HOL-Library.Sublist"
begin

text \<open>
  Texts and numbers: positional notation in any base, the decimal conversions of \<open>strconv\<close> and of the
  verb \<open>%d\<close>, and the functions of \<open>strings\<close> the services use (\<open>Split\<close> at one byte, \<open>TrimSpace\<close>).
\<close>

section \<open>Positional notation\<close>

fun to_base :: "nat \<Rightarrow> nat \<Rightarrow> nat list" where
  "to_base b n = (if b < 2 \<or> n < b then [n] else to_base b (n div b) @ [n mod b])"

declare to_base.simps [simp del]

definition of_base :: "nat \<Rightarrow> nat list \<Rightarrow> nat" where
  "of_base b ds = foldl (\<lambda>n d. n * b + d) 0 ds"

lemma of_base_snoc [simp]: "of_base b (ds @ [d]) = of_base b ds * b + d"
  by (simp add: of_base_def)

lemma of_base_Nil [simp]: "of_base b [] = 0"
  by (simp add: of_base_def)

lemma foldl_base: "foldl (\<lambda>n d. n * b + d) a ds = a * b ^ length ds + of_base b ds"
proof (induction ds rule: rev_induct)
  case (snoc d ds)
  then show ?case by (simp add: algebra_simps)
qed simp

lemma of_base_Cons: "of_base b (d # ds) = d * b ^ length ds + of_base b ds"
  using foldl_base [of b d ds] by (simp add: of_base_def)

lemma of_base_append: "of_base b (xs @ ys) = of_base b xs * b ^ length ys + of_base b ys"
  using foldl_base [of b "of_base b xs" ys] by (simp add: of_base_def)

lemma of_to_base [simp]: "of_base b (to_base b n) = n"
proof (induction b n rule: to_base.induct)
  case (1 b n)
  then show ?case
    by (subst to_base.simps) (simp add: of_base_def mult.commute)
qed

lemma to_base_inj: "to_base b m = to_base b n \<Longrightarrow> m = n"
  by (metis of_to_base)

lemma to_base_less: "2 \<le> b \<Longrightarrow> d \<in> set (to_base b n) \<Longrightarrow> d < b"
proof (induction b n rule: to_base.induct)
  case (1 b n)
  then show ?case by (subst (asm) (2) to_base.simps) (auto split: if_splits)
qed

lemma to_base_nonempty [simp]: "to_base b n \<noteq> []"
  by (subst to_base.simps) simp

text \<open>A digit list of a given length determines the number and conversely.\<close>

lemma of_base_less: "\<forall>d\<in>set ds. d < b \<Longrightarrow> of_base b ds < b ^ length ds"
proof (induction ds rule: rev_induct)
  case (snoc d ds)
  then have "of_base b ds + 1 \<le> b ^ length ds" "d < b" by auto
  then have "(of_base b ds + 1) * b \<le> b ^ length ds * b" by (intro mult_right_mono) simp_all
  with \<open>d < b\<close> show ?case by (simp add: algebra_simps)
qed simp

lemma of_base_inj:
  assumes "length xs = length ys" "\<forall>d\<in>set xs. d < b" "\<forall>d\<in>set ys. d < b" "of_base b xs = of_base b ys"
  shows "xs = ys"
  using assms
proof (induction xs arbitrary: ys rule: rev_induct)
  case (snoc x xs)
  from snoc.prems(1) obtain zs z where ys: "ys = zs @ [z]" by (cases ys rule: rev_exhaust) auto
  have lt: "x < b" "z < b" using snoc.prems ys by auto
  have eq: "of_base b xs * b + x = of_base b zs * b + z" using snoc.prems(4) ys by simp
  from eq lt have "x = z" by (metis mod_less mod_mult_self3)
  with eq lt have "of_base b xs = of_base b zs" by simp
  with snoc ys \<open>x = z\<close> show ?case by simp
qed simp

lemma length_to_base: "2 \<le> b \<Longrightarrow> b ^ (length (to_base b n) - 1) \<le> max 1 n"
proof (induction b n rule: to_base.induct)
  case (1 b n)
  show ?case
  proof (cases "n < b")
    case False
    with 1 have IH: "b ^ (length (to_base b (n div b)) - 1) \<le> max 1 (n div b)" by simp
    have "n div b \<ge> 1" using False 1(2) by (metis div_greater_zero_iff not_less not_less_eq_eq numeral_2_eq_2
        One_nat_def le_trans linorder_not_less order.strict_trans1 zero_less_Suc)
    with IH have "b ^ (length (to_base b (n div b)) - 1) * b \<le> n div b * b" by (intro mult_right_mono) simp_all
    also have "\<dots> \<le> n" by simp
    finally have "b ^ length (to_base b (n div b)) \<le> n"
      by (metis One_nat_def Suc_pred length_greater_0_conv mult.commute power_Suc to_base_nonempty)
    then show ?thesis using False 1(2) by (subst to_base.simps) (simp add: le_max_iff_disj)
  qed (subst to_base.simps, simp)
qed

section \<open>Decimal numbers\<close>

definition digit_char :: "nat \<Rightarrow> char" where
  "digit_char d = char_of (48 + d)"

definition is_digit :: "char \<Rightarrow> bool" where
  "is_digit c \<longleftrightarrow> 48 \<le> byte c \<and> byte c \<le> 57"

definition digit_val :: "char \<Rightarrow> nat" where
  "digit_val c = byte c - 48"

lemma digit_char [simp]: "d < 10 \<Longrightarrow> is_digit (digit_char d) \<and> digit_val (digit_char d) = d"
  by (simp add: is_digit_def digit_val_def digit_char_def byte_def)

definition digits :: "nat \<Rightarrow> string" where
  "digits n = map digit_char (to_base 10 n)"

text \<open>The verb \<open>%d\<close>.\<close>

definition show_int :: "int \<Rightarrow> string" where
  "show_int n = (if n < 0 then CHR ''-'' # digits (nat (- n)) else digits (nat n))"

definition parse_digits :: "string \<Rightarrow> nat option" where
  "parse_digits s = (if s \<noteq> [] \<and> list_all is_digit s then Some (of_base 10 (map digit_val s)) else None)"

text \<open>\<open>strconv.ParseInt(s, 10, 64)\<close>, and \<open>strconv.Atoi\<close> on a 64-bit platform.\<close>

definition ParseInt :: "string \<Rightarrow> int option" where
  "ParseInt s =
     (case s of
        [] \<Rightarrow> None
      | c # cs \<Rightarrow>
          (let neg = (c = CHR ''-''); ds = (if c = CHR ''-'' \<or> c = CHR ''+'' then cs else s) in
           case parse_digits ds of
             None \<Rightarrow> None
           | Some n \<Rightarrow> (let v = (if neg then - int n else int n) in
               if - (2 ^ 63) \<le> v \<and> v < 2 ^ 63 then Some v else None)))"

lemma digits_all: "list_all is_digit (digits n)"
  using to_base_less [of 10 _ n] by (auto simp: digits_def list_all_iff)

lemma digits_nonempty [simp]: "digits n \<noteq> []"
  by (simp add: digits_def)

lemma parse_digits_digits [simp]: "parse_digits (digits n) = Some n"
proof -
  have "map digit_val (digits n) = map (\<lambda>d. d) (to_base 10 n)"
    unfolding digits_def map_map using to_base_less [of 10 _ n] by (intro map_cong) auto
  then show ?thesis using digits_all [of n] by (simp add: parse_digits_def)
qed

lemma digits_inj: "digits m = digits n \<Longrightarrow> m = n"
  by (metis option.inject parse_digits_digits)

lemma is_digit_neq: "is_digit c \<Longrightarrow> c \<noteq> CHR ''-'' \<and> c \<noteq> CHR ''+'' \<and> c \<noteq> CHR '','' \<and> c \<noteq> CHR ''.''"
  by (auto simp: is_digit_def byte_def)

lemma ParseInt_show_int [go_simps]:
  assumes "- (2 ^ 63) \<le> n" "n < 2 ^ 63"
  shows "ParseInt (show_int n) = Some n"
proof (cases "n < 0")
  case True
  with assms show ?thesis by (simp add: ParseInt_def show_int_def Let_def)
next
  case False
  obtain c cs where d: "digits (nat n) = c # cs" by (cases "digits (nat n)") auto
  with digits_all [of "nat n"] have "is_digit c" by simp
  from is_digit_neq [OF this] d False assms show ?thesis
    using parse_digits_digits [of "nat n"] by (simp add: ParseInt_def show_int_def Let_def)
qed

lemma show_int_no_comma: "CHR '','' \<notin> set (show_int n)"
  using digits_all [of "nat n"] digits_all [of "nat (- n)"] is_digit_neq
  by (auto simp: show_int_def list_all_iff)

lemma show_int_no_dot: "CHR ''.'' \<notin> set (show_int n)"
  using digits_all [of "nat n"] digits_all [of "nat (- n)"] is_digit_neq
  by (auto simp: show_int_def list_all_iff)

lemma show_int_inj: "show_int m = show_int n \<Longrightarrow> m = n"
proof -
  have "hd (digits k) \<noteq> CHR ''-''" for k
    using digits_all [of k] is_digit_neq by (metis digits_nonempty list.pred_set list.set_sel(1))
  then show "show_int m = show_int n \<Longrightarrow> m = n"
    by (auto simp: show_int_def dest!: digits_inj split: if_splits dest: sym) (metis list.sel(1))+
qed

section \<open>Splitting and trimming\<close>

fun split_on :: "char \<Rightarrow> string \<Rightarrow> string list" where
  "split_on d [] = [[]]"
| "split_on d (c # cs) =
     (if c = d then [] # split_on d cs
      else case split_on d cs of [] \<Rightarrow> [[c]] | x # xs \<Rightarrow> (c # x) # xs)"

lemma split_on_nonempty [simp]: "split_on d s \<noteq> []"
  by (cases s) (auto split: list.splits)

lemma split_on_none: "d \<notin> set s \<Longrightarrow> split_on d s = [s]"
  by (induction s) auto

lemma split_on_sep: "split_on d (s @ d # t) = split_on d s @ split_on d t"
  by (induction s) (auto split: list.splits)

lemma split_on_append: "d \<notin> set s \<Longrightarrow> split_on d (s @ d # t) = s # split_on d t"
  by (induction s) auto

text \<open>\<open>strings.TrimSpace\<close>: the runes with the Unicode property White Space, in UTF-8.\<close>

definition white_runes :: "string list" where
  "white_runes = map (map char_of) ([[9], [10], [11], [12], [13], [32], [194, 133], [194, 160],
     [225, 154, 128], [226, 128, 168], [226, 128, 169], [226, 128, 175], [226, 129, 159],
     [227, 128, 128]] @ map (\<lambda>k. [226, 128, k]) [128..<139] :: nat list list)"

function trim_left :: "string list \<Rightarrow> string \<Rightarrow> string" where
  "trim_left ws s = (case find (\<lambda>w. w \<noteq> [] \<and> prefix w s) ws of
     None \<Rightarrow> s | Some w \<Rightarrow> trim_left ws (drop (length w) s))"
  by pat_completeness auto
termination
  by (relation "measure (length \<circ> snd)") (auto dest!: find_SomeD simp: prefix_def)

declare trim_left.simps [simp del]

definition TrimSpace :: "string \<Rightarrow> string" where
  "TrimSpace s = rev (trim_left (map rev white_runes) (rev (trim_left white_runes s)))"

end
