(* ===== verification/Info_Masking.thy ===== *)
theory Info_Masking
  imports GP_Text
begin

text \<open>
  Masking of personal data (\<open>services/garudainfo/handler/masking.go\<close>) and the consent screen
  (\<open>handler/screen.go\<close>).
  A value is a byte string; where the code converts to \<open>[]rune\<close> the model uses \<open>runes\<close>, each rune as
  the bytes \<open>WriteRune\<close> writes.
  A panic (an index out of range) is \<open>None\<close>.
\<close>

section \<open>Masking\<close>

definition stars :: "nat \<Rightarrow> string" where
  "stars n = replicate n CHR ''*''"

definition maskFull :: "string \<Rightarrow> string \<Rightarrow> string" where
  "maskFull fieldName value =
     (if fieldName = ''email'' then ''***@***.***'' else stars (length value))"

text \<open>\<open>string(b)\<close> for a byte \<open>b\<close> is the UTF-8 encoding of the code point \<open>b\<close>.\<close>

definition string_of_byte :: "char \<Rightarrow> string" where
  "string_of_byte c = (if byte c < 128 then [c]
     else [char_of (192 + byte c div 64), char_of (128 + byte c mod 64)])"

definition maskNamePartial :: "string \<Rightarrow> string" where
  "maskNamePartial value =
     (let rs = runes value; n = length rs in
      if n \<le> 5 then stars n
      else concat (map (\<lambda>(i, r). if i < 2 \<or> i \<ge> n - 3 then r
                                   else if r = '' '' then '' '' else ''*'') (enumerate 0 rs)))"

definition maskNIKPartial :: "string \<Rightarrow> string" where
  "maskNIKPartial value =
     (if length value \<le> 4 then value else ''****-****-****-'' @ drop (length value - 4) value)"

definition maskPhonePartial :: "string \<Rightarrow> string" where
  "maskPhonePartial value =
     (if length value \<le> 7 then stars (length value)
      else ''+62****'' @ drop (length value - 4) value)"

definition maskDefaultPartial :: "string \<Rightarrow> string" where
  "maskDefaultPartial value =
     (let rs = runes value; n = length rs in
      if n \<le> 4 then stars n
      else concat (map (\<lambda>(i, r). if i < 2 \<or> i \<ge> n - 2 then r else ''*'') (enumerate 0 rs)))"

text \<open>\<open>strings.SplitN(value, "@", 2)\<close> and \<open>strings.LastIndex(domain, ".")\<close> (\<open>-1\<close> when absent).\<close>

definition split_at :: "string \<Rightarrow> (string \<times> string) option" where
  "split_at value = (case dropWhile (\<lambda>c. c \<noteq> CHR ''@'') value of
     [] \<Rightarrow> None | _ # d \<Rightarrow> Some (takeWhile (\<lambda>c. c \<noteq> CHR ''@'') value, d))"

definition last_dot :: "string \<Rightarrow> int" where
  "last_dot d = (let t = takeWhile (\<lambda>c. c \<noteq> CHR ''.'') (rev d) in
     if length t = length d then - 1 else int (length d) - int (length t) - 1)"

definition maskEmailPartial :: "string \<Rightarrow> string option" where
  "maskEmailPartial value =
     (case split_at value of
        None \<Rightarrow> Some (maskDefaultPartial value)
      | Some (local, domain) \<Rightarrow>
         (case local of
            [] \<Rightarrow> None
          | l # _ \<Rightarrow>
             (let maskedLocal = string_of_byte l @ ''***''; dotIdx = last_dot domain in
              if dotIdx \<le> 0 then Some (maskedLocal @ ''@'' @ ''***'')
              else let tld = drop (nat dotIdx) domain;
                       maskedDomain = string_of_byte (hd domain) @ ''***'' @ tld
                   in Some (maskedLocal @ ''@'' @ maskedDomain))))"

definition MaskField :: "string \<Rightarrow> string \<Rightarrow> string \<Rightarrow> string option" where
  "MaskField fieldName value level =
     (if value = [] then Some []
      else if level = ''full'' then Some (maskFull fieldName value)
      else if fieldName = ''name'' then Some (maskNamePartial value)
      else if fieldName = ''nik'' then Some (maskNIKPartial value)
      else if fieldName = ''phone'' then Some (maskPhonePartial value)
      else if fieldName = ''email'' then maskEmailPartial value
      else Some (maskDefaultPartial value))"

datatype mask_answer = MaskError nat string string | Masked "string \<rightharpoonup> string" | MaskPanic

record maskRequest =
  mr_Fields :: "string \<rightharpoonup> string"
  mr_MaskLevel :: string

text \<open>\<open>MaskData\<close> ranges over the fields (\<open>ks\<close>); a panic in one of them ends the request.\<close>

definition MaskData :: "string list \<Rightarrow> maskRequest option \<Rightarrow> mask_answer" where
  "MaskData ks body =
     (case body of
        None \<Rightarrow> MaskError 400 ''invalid_request'' ''invalid JSON body''
      | Some req \<Rightarrow>
        if mr_MaskLevel req \<noteq> ''partial'' \<and> mr_MaskLevel req \<noteq> ''full''
        then MaskError 400 ''invalid_mask_level'' (''mask_level must be '' @ [CHR 0x27] @ ''partial'' @ [CHR 0x27] @ '' or '' @
          [CHR 0x27] @ ''full'' @ [CHR 0x27])
        else if list_ex (\<lambda>k. MaskField k (the (mr_Fields req k)) (mr_MaskLevel req) = None) ks
        then MaskPanic
        else Masked (\<lambda>k. case mr_Fields req k of None \<Rightarrow> None
                            | Some v \<Rightarrow> MaskField k v (mr_MaskLevel req)))"

section \<open>The consent screen\<close>

record FieldInfo =
  fi_Label :: string
  fi_Description :: string
  fi_Category :: string

definition FieldMetadata :: "(string \<times> FieldInfo) list" where
  "FieldMetadata =
     [(''name'', \<lparr>fi_Label = ''Nama Lengkap'', fi_Description = ''Nama sesuai KTP'', fi_Category = ''identity''\<rparr>),
      (''dob'', \<lparr>fi_Label = ''Tanggal Lahir'', fi_Description = ''Tanggal lahir sesuai KTP'', fi_Category = ''identity''\<rparr>),
      (''gender'', \<lparr>fi_Label = ''Jenis Kelamin'', fi_Description = ''Jenis kelamin'', fi_Category = ''identity''\<rparr>),
      (''address'', \<lparr>fi_Label = ''Alamat'', fi_Description = ''Alamat sesuai KTP'', fi_Category = ''contact''\<rparr>),
      (''phone'', \<lparr>fi_Label = ''Nomor Telepon'', fi_Description = ''Nomor telepon terdaftar'', fi_Category = ''contact''\<rparr>),
      (''email'', \<lparr>fi_Label = ''Email'', fi_Description = ''Alamat email terdaftar'', fi_Category = ''contact''\<rparr>),
      (''nik'', \<lparr>fi_Label = ''NIK (Masked)'', fi_Description = ''NIK yang disamarkan'', fi_Category = ''identity''\<rparr>),
      (''marital'', \<lparr>fi_Label = ''Status Perkawinan'', fi_Description = ''Status perkawinan'', fi_Category = ''identity''\<rparr>)]"

definition PurposeLabels :: "(string \<times> string) list" where
  "PurposeLabels =
     [(''kyc_verification'', ''Verifikasi Identitas (KYC)''), (''account_opening'', ''Pembukaan Rekening''),
      (''loan_application'', ''Pengajuan Pinjaman''), (''insurance_claim'', ''Klaim Asuransi''),
      (''employment_check'', ''Verifikasi Ketenagakerjaan''),
      (''background_check'', ''Pemeriksaan Latar Belakang'')]"

record requestedField =
  rf_Field :: string
  rf_Label :: string
  rf_Description :: string
  rf_Required :: bool

record consentScreenResponse =
  cr_AppName :: string
  cr_RequestedFields :: "requestedField list"
  cr_Purpose :: string
  cr_PurposeLabel :: string
  cr_ExpiresIn :: string

definition requested_fields :: "string list \<Rightarrow> requestedField list" where
  "requested_fields scopes =
     concat (map (\<lambda>s0. let s = TrimSpace s0 in
       if s = [] then []
       else case map_of FieldMetadata s of
              None \<Rightarrow> []
            | Some meta \<Rightarrow> [\<lparr>rf_Field = s, rf_Label = fi_Label meta, rf_Description = fi_Description meta,
                             rf_Required = (fi_Category meta = ''identity'')\<rparr>]) scopes)"

definition GetConsentScreen ::
  "string \<Rightarrow> string \<Rightarrow> string \<Rightarrow> (verr, consentScreenResponse) answer" where
  "GetConsentScreen appID scopeParam purpose =
     (if appID = [] then WriteError 400 ''invalid_request'' ''app_id query parameter is required''
      else if scopeParam = []
      then WriteError 400 ''invalid_request'' ''scope query parameter is required''
      else WriteJSON 200
        \<lparr>cr_AppName = ''Application '' @ appID,
         cr_RequestedFields = requested_fields (split_on CHR '','' scopeParam),
         cr_Purpose = purpose,
         cr_PurposeLabel = (case map_of PurposeLabels purpose of Some l \<Rightarrow> l | None \<Rightarrow> purpose),
         cr_ExpiresIn = ''365d''\<rparr>)"

section \<open>Lemmas\<close>

lemma stars_eq [simp]: "stars m = stars n \<longleftrightarrow> m = n"
  by (simp add: stars_def replicate_eq_replicate)

lemma length_stars [simp]: "length (stars n) = n"
  by (simp add: stars_def)

text \<open>
  The runes a partial mask of \<open>n\<close> runes keeps in clear: the first two and the last \<open>k\<close>.
\<close>

lemma masked_concat_eq:
  assumes "length rs = length rs'" "\<And>i. i < length rs \<Longrightarrow> f i (rs ! i) = f i (rs' ! i)"
  shows "concat (map (\<lambda>(i, r). f i r) (enumerate 0 rs)) = concat (map (\<lambda>(i, r). f i r) (enumerate 0 rs'))"
proof -
  have "map (\<lambda>(i, r). f i r) (enumerate 0 rs) = map (\<lambda>(i, r). f i r) (enumerate 0 rs')"
    using assms by (intro nth_equalityI) (simp_all add: nth_enumerate_eq)
  then show ?thesis by simp
qed

section \<open>Properties\<close>

text \<open>
  Full masking reveals the length and nothing else: two non-empty values of a field give the same
  mask exactly when they have the same length -- or always, for an email.
\<close>

theorem mask_full_secure:
  assumes "v \<noteq> []" "w \<noteq> []"
  shows "MaskField f v ''full'' = MaskField f w ''full'' \<longleftrightarrow> f = ''email'' \<or> length v = length w"
  using assms by (auto simp: MaskField_def maskFull_def)

theorem mask_full_secure_witness:
  "MaskField ''nik'' ''3171'' ''full'' = MaskField ''nik'' ''9999'' ''full''"
  using mask_full_secure [of "''3171''" "''9999''" "''nik''"] by simp

text \<open>What a partial mask of \<open>v\<close> and of \<open>w\<close> shows of them is the same.\<close>

definition same_visible :: "string \<Rightarrow> string \<Rightarrow> string \<Rightarrow> bool" where
  "same_visible f v w \<longleftrightarrow>
     (if f = ''nik'' \<or> f = ''phone''
      then let k = (if f = ''nik'' then 4 else 7) in
           k < length v \<and> k < length w \<and> drop (length v - 4) v = drop (length w - 4) w
      else let n = rune_count v; k = (if f = ''name'' then 3 else 2) in
           rune_count w = n \<and>
           (\<forall>i<n. (i < 2 \<or> i \<ge> n - k \<longrightarrow> runes v ! i = runes w ! i) \<and>
                  (f = ''name'' \<longrightarrow> (runes v ! i = '' '' \<longleftrightarrow> runes w ! i = '' ''))))"



text \<open>
  The only request that makes the masking handler panic is the partial masking of an email address
  with nothing before its \<open>@\<close>.
\<close>

theorem mask_panics_iff:
  assumes "set ks = dom (mr_Fields req)"
  shows "MaskData ks (Some req) = MaskPanic \<longleftrightarrow>
    mr_MaskLevel req = ''partial'' \<and> (\<exists>d. mr_Fields req ''email'' = Some (CHR ''@'' # d))"
proof -
  have "maskEmailPartial v = None \<longleftrightarrow> (\<exists>d. v = CHR ''@'' # d)" for v
    by (cases v) (auto simp: maskEmailPartial_def split_at_def Let_def split: list.splits)
  then have "MaskField k v l = None \<longleftrightarrow> l \<noteq> ''full'' \<and> k = ''email'' \<and> (\<exists>d. v = CHR ''@'' # d)" for k v l
    by (auto simp: MaskField_def)
  then have "list_ex (\<lambda>k. MaskField k (the (mr_Fields req k)) (mr_MaskLevel req) = None) ks \<longleftrightarrow>
      mr_MaskLevel req \<noteq> ''full'' \<and> (\<exists>d. mr_Fields req ''email'' = Some (CHR ''@'' # d))"
    by (auto simp: list_ex_iff assms)
  then show ?thesis by (auto simp: MaskData_def)
qed

theorem mask_panics_iff_witness:
  "MaskData [''email''] (Some \<lparr>mr_Fields = [''email'' \<mapsto> ''@x.id''], mr_MaskLevel = ''partial''\<rparr>) = MaskPanic"
  using mask_panics_iff [of "[''email'']" "\<lparr>mr_Fields = [''email'' \<mapsto> ''@x.id''], mr_MaskLevel = ''partial''\<rparr>"]
  by simp

end
