(* ===== verification/Info_Consent.thy ===== *)
theory Info_Consent
  imports GP_Interfaces
begin

text \<open>
  Consents of the data-sharing service (\<open>services/garudainfo\<close>): the record and its validation
  (\<open>store/consent.go\<close>, \<open>store/validate.go\<close>), the in-memory and the Postgres store, and the handlers
  that grant, list and revoke consents and serve a person's data (\<open>handler/consent.go\<close>,
  \<open>handler/person.go\<close>).
  The consented fields are a Go map; \<open>fs\<close> is the order in which \<open>range\<close> visits its keys.
  The locale \<open>consent_store\<close> is what the handlers rely on, interpreted on both stores.
\<close>

section \<open>Consents and their validation\<close>

record Consent =
  co_ID :: ident
  co_UserID :: ident
  co_ClientID :: ident
  co_ClientName :: string
  co_Purpose :: string
  co_Fields :: "string \<rightharpoonup> bool"
  co_DurationSeconds :: int
  co_GrantedAt :: time
  co_ExpiresAt :: time
  co_RevokedAt :: "time option"
  co_Status :: string

datatype consent_err =
    ErrConsentNotFound
  | ErrConsentRevoked
  | InvalidConsent verr
  | StoreFailure string

definition MaxDuration :: int where
  "MaxDuration = 5 * 365 * 86400"

definition allowedFieldKeys :: "string list" where
  "allowedFieldKeys = [''name'', ''nik'', ''dob'', ''birth_place'', ''address'', ''phone'', ''email'',
     ''gender'', ''marital'', ''religion'', ''occupation'', ''nationality'', ''family'', ''photo'',
     ''signature'', ''biometric'', ''npwp'', ''education'', ''blood_type'']"

definition field_checks :: "string \<Rightarrow> verr option list" where
  "field_checks k =
     [reject (k = []) (EmptyEntry ''field key''),
      reject (rune_count k > 64) (Exceeds ''field key'' 64),
      reject (k \<notin> set allowedFieldKeys) (NotAllowed ''field key'' k)]"

definition ValidateConsent :: "string list \<Rightarrow> Consent option \<Rightarrow> verr option" where
  "ValidateConsent fs c' = (case c' of None \<Rightarrow> Some (IsNil ''consent'') | Some c \<Rightarrow> first_err
     ([requireBounded ''user_id'' (co_UserID c) 128,
       requireBounded ''client_id'' (co_ClientID c) 100,
       requireBounded ''client_name'' (co_ClientName c) 255,
       requireBounded ''purpose'' (co_Purpose c) 255,
       reject (co_DurationSeconds c < 1) (OutOfRange ''duration_seconds''),
       reject (co_DurationSeconds c > MaxDuration) (OutOfRange ''duration_seconds''),
       reject (length fs = 0) (Required ''fields''),
       reject (length fs > 50) (TooMany ''fields'' 50)] @
      concat (map field_checks fs) @
      [reject (\<not> list_ex (\<lambda>v. v) (range_vals fs (co_Fields c))) (Required ''at least one granted field'')]))"

text \<open>The order in which the fields are visited changes which error is reported, not whether one is.\<close>

lemma ValidateConsent_None:
  assumes "range_of fs (co_Fields c)"
  shows "ValidateConsent fs (Some c) = None \<longleftrightarrow>
    co_UserID c \<noteq> [] \<and> rune_count (co_UserID c) \<le> 128 \<and> CHR 0x00 \<notin> set (co_UserID c) \<and>
    co_ClientID c \<noteq> [] \<and> rune_count (co_ClientID c) \<le> 100 \<and> CHR 0x00 \<notin> set (co_ClientID c) \<and>
    co_ClientName c \<noteq> [] \<and> rune_count (co_ClientName c) \<le> 255 \<and> CHR 0x00 \<notin> set (co_ClientName c) \<and>
    co_Purpose c \<noteq> [] \<and> rune_count (co_Purpose c) \<le> 255 \<and> CHR 0x00 \<notin> set (co_Purpose c) \<and>
    1 \<le> co_DurationSeconds c \<and> co_DurationSeconds c \<le> MaxDuration \<and>
    card (dom (co_Fields c)) \<le> 50 \<and> dom (co_Fields c) \<subseteq> set allowedFieldKeys \<and>
    (\<exists>k. co_Fields c k = Some True)"
proof -
  have dom: "set fs = dom (co_Fields c)" "length fs = card (dom (co_Fields c))"
    using assms by (auto simp: range_of_def distinct_card [symmetric])
  have short: "k \<noteq> [] \<and> rune_count k \<le> 64" if "k \<in> set allowedFieldKeys" for k
  proof -
    from that have "k \<noteq> [] \<and> length k \<le> 64" by (auto simp: allowedFieldKeys_def)
    with rune_count_le_length [of k] show ?thesis by simp
  qed
  have "(\<forall>e\<in>set (field_checks k). e = None) \<longleftrightarrow> k \<in> set allowedFieldKeys" for k
    using short [of k] by (auto simp: field_checks_def)
  then have "(\<forall>k\<in>set fs. \<forall>e\<in>set (field_checks k). e = None) \<longleftrightarrow> dom (co_Fields c) \<subseteq> set allowedFieldKeys"
    by (simp add: dom(1) subset_eq)
  moreover have "list_ex (\<lambda>v. v) (range_vals fs (co_Fields c)) \<longleftrightarrow> (\<exists>k. co_Fields c k = Some True)"
    using assms by (auto simp: list_ex_iff set_range_vals_ran ran_def)
  moreover have "0 < card (dom (co_Fields c))" if "\<exists>k. co_Fields c k = Some True"
    using that dom by (cases fs) (auto simp: dom_def)
  ultimately show ?thesis
    by (auto simp: ValidateConsent_def dom(2) ball_Un)
qed

section \<open>The stores\<close>

record 's ConsentStore =
  cn_Create :: "Consent \<Rightarrow> 's \<Rightarrow> consent_err + Consent \<times> 's"
  cn_GetByID :: "ident \<Rightarrow> 's \<Rightarrow> consent_err + Consent"
  cn_ListByUser :: "ident \<Rightarrow> 's \<Rightarrow> consent_err + Consent list"
  cn_ListActiveByUserAndClient :: "ident \<Rightarrow> ident \<Rightarrow> 's \<Rightarrow> consent_err + Consent list"
  cn_Revoke :: "ident \<Rightarrow> 's \<Rightarrow> consent_err + 's"
  cn_ExpireStale :: "'s \<Rightarrow> consent_err + nat \<times> 's"

record info =
  in_consents :: "ident \<rightharpoonup> Consent"
  in_drawn :: nat

definition info_init :: info where
  "info_init = \<lparr>in_consents = Map.empty, in_drawn = 0\<rparr>"

text \<open>\<open>now.Add(time.Duration(c.DurationSeconds) * time.Second)\<close>, the product in \<open>int64\<close>.\<close>

definition stamp_consent :: "time \<Rightarrow> Consent \<Rightarrow> Consent" where
  "stamp_consent now c =
     c\<lparr>co_Status := ''ACTIVE'', co_GrantedAt := now,
       co_ExpiresAt := now + i64 (co_DurationSeconds c * second)\<rparr>"

definition consent_Create ::
  "ident \<Rightarrow> time \<Rightarrow> string list \<Rightarrow> Consent \<Rightarrow> (ident \<rightharpoonup> Consent) \<Rightarrow>
     consent_err + Consent \<times> (ident \<rightharpoonup> Consent)" where
  "consent_Create uid now fs c m =
     (case ValidateConsent fs (Some c) of
        Some err \<Rightarrow> Inl (InvalidConsent err)
      | None \<Rightarrow> (let c' = (stamp_consent now c)\<lparr>co_ID := uid\<rparr> in Inr (c', m(uid \<mapsto> c'))))"

definition consent_GetByID :: "ident \<Rightarrow> (ident \<rightharpoonup> Consent) \<Rightarrow> consent_err + Consent" where
  "consent_GetByID i m = (case m i of None \<Rightarrow> Inl ErrConsentNotFound | Some c \<Rightarrow> Inr c)"

definition consent_ListByUser :: "ident list \<Rightarrow> ident \<Rightarrow> (ident \<rightharpoonup> Consent) \<Rightarrow> Consent list" where
  "consent_ListByUser ks u m = filter (\<lambda>c. co_UserID c = u) (range_vals ks m)"

definition consent_ListActiveByUserAndClient ::
  "ident list \<Rightarrow> ident \<Rightarrow> ident \<Rightarrow> (ident \<rightharpoonup> Consent) \<Rightarrow> Consent list" where
  "consent_ListActiveByUserAndClient ks u cl m =
     filter (\<lambda>c. co_UserID c = u \<and> co_ClientID c = cl \<and> co_Status c = ''ACTIVE'') (range_vals ks m)"

definition consent_Revoke :: "ident \<Rightarrow> time \<Rightarrow> (ident \<rightharpoonup> Consent) \<Rightarrow> consent_err + (ident \<rightharpoonup> Consent)" where
  "consent_Revoke i now m =
     (case m i of
        None \<Rightarrow> Inl ErrConsentNotFound
      | Some c \<Rightarrow>
          if co_Status c = ''REVOKED'' then Inl ErrConsentRevoked
          else Inr (m(i \<mapsto> c\<lparr>co_Status := ''REVOKED'', co_RevokedAt := Some now\<rparr>)))"

definition stale :: "time \<Rightarrow> Consent \<Rightarrow> bool" where
  "stale now c \<longleftrightarrow> co_Status c = ''ACTIVE'' \<and> co_ExpiresAt c < now"

definition consent_ExpireStale ::
  "ident list \<Rightarrow> time \<Rightarrow> (ident \<rightharpoonup> Consent) \<Rightarrow> nat \<times> (ident \<rightharpoonup> Consent)" where
  "consent_ExpireStale ks now m =
     (length (filter (stale now) (range_vals ks m)),
      (\<lambda>i. map_option (\<lambda>c. if i \<in> set ks \<and> stale now c then c\<lparr>co_Status := ''EXPIRED''\<rparr> else c) (m i)))"

definition InMemoryConsentStore ::
  "(nat \<Rightarrow> ident) \<Rightarrow> time \<Rightarrow> (Consent \<Rightarrow> string list) \<Rightarrow> ident list \<Rightarrow> info ConsentStore" where
  "InMemoryConsentStore rand now order ks = \<lparr>
     cn_Create = (\<lambda>c s. map_sum id
       (\<lambda>(c', m). (c', s\<lparr>in_consents := m, in_drawn := Suc (in_drawn s)\<rparr>))
       (consent_Create (rand (in_drawn s)) now (order c) c (in_consents s))),
     cn_GetByID = (\<lambda>i s. consent_GetByID i (in_consents s)),
     cn_ListByUser = (\<lambda>u s. Inr (consent_ListByUser ks u (in_consents s))),
     cn_ListActiveByUserAndClient =
       (\<lambda>u cl s. Inr (consent_ListActiveByUserAndClient ks u cl (in_consents s))),
     cn_Revoke = (\<lambda>i s. map_sum id (\<lambda>m. s\<lparr>in_consents := m\<rparr>) (consent_Revoke i now (in_consents s))),
     cn_ExpireStale = (\<lambda>s. let (n, m) = consent_ExpireStale ks now (in_consents s)
                            in Inr (n, s\<lparr>in_consents := m\<rparr>))\<rparr>"

text \<open>
  The Postgres store works on the table \<open>consents\<close>, a map from the primary key to its row; the
  database draws the keys, and any statement may fail (\<open>fail\<close>, by the number of the statement in the
  call).
  \<open>Revoke\<close> updates where the status is not REVOKED and looks the row up only when no row changed.
\<close>

definition pg_Revoke ::
  "(nat \<Rightarrow> string option) \<Rightarrow> ident \<Rightarrow> time \<Rightarrow> (ident \<rightharpoonup> Consent) \<Rightarrow> consent_err + (ident \<rightharpoonup> Consent)" where
  "pg_Revoke fail i now m =
     (case fail 0 of
        Some e \<Rightarrow> Inl (StoreFailure e)
      | None \<Rightarrow>
         (let rows = (case m i of None \<Rightarrow> 0 | Some c \<Rightarrow> if co_Status c \<noteq> ''REVOKED'' then 1 else 0);
              m' = (if rows = (1::nat)
                    then m(i \<mapsto> (the (m i))\<lparr>co_Status := ''REVOKED'', co_RevokedAt := Some now\<rparr>)
                    else m)
          in if rows = 0
             then (case fail 1 of
                     Some e \<Rightarrow> Inl (StoreFailure e)
                   | None \<Rightarrow>
                      (case m' i of
                         None \<Rightarrow> Inl ErrConsentNotFound
                       | Some c \<Rightarrow> if co_Status c = ''REVOKED'' then Inl ErrConsentRevoked else Inr m'))
             else Inr m'))"

definition pg_Create ::
  "(nat \<Rightarrow> string option) \<Rightarrow> ident \<Rightarrow> time \<Rightarrow> string list \<Rightarrow> Consent \<Rightarrow> (ident \<rightharpoonup> Consent) \<Rightarrow>
     consent_err + Consent \<times> (ident \<rightharpoonup> Consent)" where
  "pg_Create fail key now fs c m =
     (case ValidateConsent fs (Some c) of
        Some err \<Rightarrow> Inl (InvalidConsent err)
      | None \<Rightarrow>
         (case fail 0 of
            Some e \<Rightarrow> Inl (StoreFailure e)
          | None \<Rightarrow> (let c' = (stamp_consent now c)\<lparr>co_ID := key\<rparr> in Inr (c', m(key \<mapsto> c')))))"

definition pg_GetByID ::
  "(nat \<Rightarrow> string option) \<Rightarrow> ident \<Rightarrow> (ident \<rightharpoonup> Consent) \<Rightarrow> consent_err + Consent" where
  "pg_GetByID fail i m =
     (case fail 0 of
        Some e \<Rightarrow> Inl (StoreFailure e)
      | None \<Rightarrow> (case m i of None \<Rightarrow> Inl ErrConsentNotFound | Some c \<Rightarrow> Inr c))"

text \<open>A query returns the rows that satisfy its \<open>WHERE\<close> in the order \<open>granted_at DESC\<close> (\<open>srt\<close>).\<close>

definition pg_query ::
  "(nat \<Rightarrow> string option) \<Rightarrow> (Consent list \<Rightarrow> Consent list) \<Rightarrow> ident list \<Rightarrow> (Consent \<Rightarrow> bool) \<Rightarrow>
     (ident \<rightharpoonup> Consent) \<Rightarrow> consent_err + Consent list" where
  "pg_query fail srt ks P m =
     (case fail 0 of Some e \<Rightarrow> Inl (StoreFailure e) | None \<Rightarrow> Inr (srt (filter P (range_vals ks m))))"

definition pg_ExpireStale ::
  "(nat \<Rightarrow> string option) \<Rightarrow> ident list \<Rightarrow> time \<Rightarrow> (ident \<rightharpoonup> Consent) \<Rightarrow>
     consent_err + nat \<times> (ident \<rightharpoonup> Consent)" where
  "pg_ExpireStale fail ks now m =
     (case fail 0 of
        Some e \<Rightarrow> Inl (StoreFailure e)
      | None \<Rightarrow> Inr (length (filter (stale now) (range_vals ks m)),
          (\<lambda>i. map_option (\<lambda>c. if stale now c then c\<lparr>co_Status := ''EXPIRED''\<rparr> else c) (m i))))"

definition PostgresConsentStore ::
  "(nat \<Rightarrow> string option) \<Rightarrow> (nat \<Rightarrow> ident) \<Rightarrow> time \<Rightarrow> (Consent \<Rightarrow> string list) \<Rightarrow>
     (Consent list \<Rightarrow> Consent list) \<Rightarrow> ident list \<Rightarrow> info ConsentStore" where
  "PostgresConsentStore fail rand now order srt ks = \<lparr>
     cn_Create = (\<lambda>c s. map_sum id
       (\<lambda>(c', m). (c', s\<lparr>in_consents := m, in_drawn := Suc (in_drawn s)\<rparr>))
       (pg_Create fail (rand (in_drawn s)) now (order c) c (in_consents s))),
     cn_GetByID = (\<lambda>i s. pg_GetByID fail i (in_consents s)),
     cn_ListByUser = (\<lambda>u s. pg_query fail srt ks (\<lambda>c. co_UserID c = u) (in_consents s)),
     cn_ListActiveByUserAndClient = (\<lambda>u cl s. pg_query fail srt ks
       (\<lambda>c. co_UserID c = u \<and> co_ClientID c = cl \<and> co_Status c = ''ACTIVE'') (in_consents s)),
     cn_Revoke = (\<lambda>i s. map_sum id (\<lambda>m. s\<lparr>in_consents := m\<rparr>) (pg_Revoke fail i now (in_consents s))),
     cn_ExpireStale = (\<lambda>s. map_sum id (\<lambda>(n, m). (n, s\<lparr>in_consents := m\<rparr>))
       (pg_ExpireStale fail ks now (in_consents s)))\<rparr>"

lemma consent_Revoke_Inr: "consent_Revoke i t m = Inr m' \<longleftrightarrow>
  (\<exists>c. m i = Some c \<and> co_Status c \<noteq> ''REVOKED'' \<and>
       m' = m(i \<mapsto> c\<lparr>co_Status := ''REVOKED'', co_RevokedAt := Some t\<rparr>))"
  by (auto simp: consent_Revoke_def split: option.splits)

text \<open>Where the database does not fail, the two stores revoke alike.\<close>

lemma pg_Revoke_refines:
  assumes "fail 0 = None" "fail 1 = None"
  shows "pg_Revoke fail i now m = consent_Revoke i now m"
  using assms by (cases "m i") (simp_all add: pg_Revoke_def consent_Revoke_def)

lemma pg_Revoke_Inr:
  assumes "pg_Revoke fail i t m = Inr m'"
  shows "consent_Revoke i t m = Inr m'"
proof (cases "m i")
  case None
  with assms show ?thesis by (simp add: pg_Revoke_def split: option.splits)
next
  case (Some c)
  with assms show ?thesis
    by (cases "co_Status c = ''REVOKED''") (auto simp: pg_Revoke_def consent_Revoke_def split: option.splits)
qed

interpretation consent_rev: once_revocable_store "\<lambda>m. m"
  "\<lambda>i t c m. m(i \<mapsto> (stamp_consent t c)\<lparr>co_ID := i\<rparr>)" consent_Revoke
  "\<lambda>i t c. (stamp_consent t c)\<lparr>co_ID := i\<rparr>"
  "\<lambda>t c. c\<lparr>co_Status := ''REVOKED'', co_RevokedAt := Some t\<rparr>" co_Status
  by unfold_locales (auto simp: consent_Revoke_def split: option.splits if_splits)

section \<open>The handlers\<close>

record grantRequest =
  gq_UserID :: ident
  gq_ClientID :: ident
  gq_ClientName :: string
  gq_Purpose :: string
  gq_Fields :: "string list"
  gq_DurationDays :: int

record FieldValue =
  fv_Value :: string
  fv_Source :: string
  fv_LastVerified :: string

datatype info_body =
    GrantResponse ident time
  | ConsentList "Consent list"
  | RevokedBody bool
  | PersonResponse "string \<rightharpoonup> FieldValue"

type_synonym info_answer = "(consent_err, info_body) answer"

definition grant_fields :: "string list \<Rightarrow> string \<rightharpoonup> bool" where
  "grant_fields fs = fold (\<lambda>f m. m(f \<mapsto> True)) fs Map.empty"

definition Grant :: "'s ConsentStore \<Rightarrow> grantRequest option \<Rightarrow> 's \<Rightarrow> info_answer \<times> 's" where
  "Grant C body s =
     (case body of
        None \<Rightarrow> (WriteError 400 ''invalid_request'' ''invalid JSON body'', s)
      | Some req \<Rightarrow>
        if gq_UserID req = [] \<or> gq_ClientID req = [] \<or> length (gq_Fields req) = 0 \<or> gq_DurationDays req \<le> 0
        then (WriteError 400 ''invalid_request''
                ''user_id, client_id, fields, and duration_days are required'', s)
        else (let consent = \<lparr>co_ID = [], co_UserID = gq_UserID req, co_ClientID = gq_ClientID req,
                    co_ClientName = gq_ClientName req, co_Purpose = gq_Purpose req,
                    co_Fields = grant_fields (gq_Fields req),
                    co_DurationSeconds = i64 (gq_DurationDays req * 86400),
                    co_GrantedAt = zero_time, co_ExpiresAt = zero_time, co_RevokedAt = None,
                    co_Status = []\<rparr>
              in case cn_Create C consent s of
                   Inl err \<Rightarrow> (WriteError 500 ''internal_error'' ''failed to create consent'', s)
                 | Inr (c, s') \<Rightarrow> (WriteJSON 201 (GrantResponse (co_ID c) (rfc3339 (co_ExpiresAt c))), s')))"

definition List :: "'s ConsentStore \<Rightarrow> ident \<Rightarrow> 's \<Rightarrow> info_answer" where
  "List C userID s =
     (if userID = [] then WriteError 400 ''invalid_request'' ''user_id query parameter is required''
      else case cn_ListByUser C userID s of
        Inl err \<Rightarrow> WriteError 500 ''internal_error'' ''failed to list consents''
      | Inr cs \<Rightarrow> WriteJSON 200 (ConsentList cs))"

definition Revoke :: "'s ConsentStore \<Rightarrow> ident \<Rightarrow> 's \<Rightarrow> info_answer \<times> 's" where
  "Revoke C i s =
     (if i = [] then (WriteError 400 ''invalid_request'' ''consent id is required'', s)
      else case cn_Revoke C i s of
        Inl err \<Rightarrow>
          if err = ErrConsentNotFound then (WriteError 404 ''not_found'' ''consent not found'', s)
          else if err = ErrConsentRevoked
          then (WriteError 409 ''already_revoked'' ''consent has already been revoked'', s)
          else (WriteError 500 ''internal_error'' ''failed to revoke consent'', s)
      | Inr s' \<Rightarrow> (WriteJSON 200 (RevokedBody True), s'))"

text \<open>The filter of \<open>GetPerson\<close>: a field is served when it is granted and the provider has it.\<close>

definition consented :: "(string \<rightharpoonup> bool) \<Rightarrow> (string \<rightharpoonup> FieldValue) \<Rightarrow> string \<rightharpoonup> FieldValue" where
  "consented granted all k = (if granted k = Some True then all k else None)"

definition GetPerson ::
  "'s ConsentStore \<Rightarrow> (ident \<Rightarrow> string \<rightharpoonup> FieldValue) \<Rightarrow> ident \<Rightarrow> 's \<Rightarrow> info_answer" where
  "GetPerson C userData consentID s =
     (if consentID = []
      then WriteError 400 ''invalid_request'' ''consent_id query parameter is required''
      else case cn_GetByID C consentID s of
        Inl err \<Rightarrow>
          if err = ErrConsentNotFound then WriteError 404 ''not_found'' ''consent not found''
          else WriteError 500 ''internal_error'' ''failed to look up consent''
      | Inr consent \<Rightarrow>
          if co_Status consent \<noteq> ''ACTIVE'' then WriteError 403 ''consent_inactive'' ''consent is not active''
          else WriteJSON 200 (PersonResponse (consented (co_Fields consent) (userData (co_UserID consent)))))"

section \<open>The contract of a consent store\<close>

locale consent_store =
  fixes C :: "'s ConsentStore" and consents :: "'s \<Rightarrow> ident \<rightharpoonup> Consent"
    and order :: "Consent \<Rightarrow> string list"
  assumes create_ok: "cn_Create C c s = Inr (c', s') \<Longrightarrow>
        ValidateConsent (order c) (Some c) = None \<and>
        (\<exists>i t. c' = (stamp_consent t c)\<lparr>co_ID := i\<rparr> \<and> consents s' = (consents s)(i \<mapsto> c'))"
    and get_ok: "cn_GetByID C i s = Inr c \<Longrightarrow> consents s i = Some c"
    and revoke_ok: "cn_Revoke C i s = Inr s' \<Longrightarrow> \<exists>c t. consents s i = Some c \<and> co_Status c \<noteq> ''REVOKED'' \<and>
        consents s' = (consents s)(i \<mapsto> c\<lparr>co_Status := ''REVOKED'', co_RevokedAt := Some t\<rparr>)"
begin

lemma GetPerson_ok:
  assumes "GetPerson C userData i s = ans" "\<not> is_error ans"
  obtains c where "consents s i = Some c" "co_Status c = ''ACTIVE''"
    "ans = WriteJSON 200 (PersonResponse (consented (co_Fields c) (userData (co_UserID c))))"
proof -
  from assms obtain c where "cn_GetByID C i s = Inr c" "co_Status c = ''ACTIVE''"
    "ans = WriteJSON 200 (PersonResponse (consented (co_Fields c) (userData (co_UserID c))))"
    by (auto simp: GetPerson_def split: if_splits sum.splits)
  with get_ok show thesis by (auto intro: that)
qed

lemma Revoke_stops_GetPerson:
  assumes "Revoke C i s = (ans, s')" "\<not> is_error ans"
  shows "is_error (GetPerson C userData i s')"
proof (rule ccontr)
  assume "\<not> is_error (GetPerson C userData i s')"
  then obtain c where c: "consents s' i = Some c" "co_Status c = ''ACTIVE''"
    using GetPerson_ok [OF refl] by metis
  from assms have "cn_Revoke C i s = Inr s'" by (auto simp: Revoke_def split: if_splits sum.splits)
  with revoke_ok c show False by fastforce
qed

lemma Grant_ok:
  assumes "Grant C body s = (ans, s')" "\<not> is_error ans"
  obtains req c where "body = Some req" "0 < gq_DurationDays req"
    "ValidateConsent (order c) (Some c) = None" "co_Fields c = grant_fields (gq_Fields req)"
    "co_DurationSeconds c = i64 (gq_DurationDays req * 86400)" "co_UserID c = gq_UserID req"
    "\<exists>i t. consents s' = (consents s)(i \<mapsto> (stamp_consent t c)\<lparr>co_ID := i\<rparr>) \<and>
       ans = WriteJSON 201 (GrantResponse i (rfc3339 (co_ExpiresAt (stamp_consent t c))))"
proof -
  from assms obtain req where req: "body = Some req" "0 < gq_DurationDays req"
    by (auto simp: Grant_def split: if_splits option.splits)
  let ?c = "\<lparr>co_ID = [], co_UserID = gq_UserID req, co_ClientID = gq_ClientID req,
                    co_ClientName = gq_ClientName req, co_Purpose = gq_Purpose req,
                    co_Fields = grant_fields (gq_Fields req),
                    co_DurationSeconds = i64 (gq_DurationDays req * 86400),
                    co_GrantedAt = zero_time, co_ExpiresAt = zero_time, co_RevokedAt = None,
                    co_Status = []\<rparr>"
  from assms req obtain c' where c': "cn_Create C ?c s = Inr (c', s')"
    and ans: "ans = WriteJSON 201 (GrantResponse (co_ID c') (rfc3339 (co_ExpiresAt c')))"
    by (auto simp: Grant_def Let_def split: if_splits sum.splits)
  from create_ok [OF c'] obtain i t where "ValidateConsent (order ?c) (Some ?c) = None"
    "c' = (stamp_consent t ?c)\<lparr>co_ID := i\<rparr>" "consents s' = (consents s)(i \<mapsto> c')" by blast
  with ans req show thesis by (intro that [of req ?c]) auto
qed

end

interpretation mem_consents: consent_store "InMemoryConsentStore rand now order ks" in_consents order
  for rand now order ks
proof unfold_locales
  show "\<exists>c t. in_consents s i = Some c \<and> co_Status c \<noteq> ''REVOKED'' \<and>
        in_consents s' = (in_consents s)(i \<mapsto> c\<lparr>co_Status := ''REVOKED'', co_RevokedAt := Some t\<rparr>)"
    if "cn_Revoke (InMemoryConsentStore rand now order ks) i s = Inr s'" for i s s'
  proof -
    from that obtain c where "in_consents s i = Some c" "co_Status c \<noteq> ''REVOKED''"
      "in_consents s' = (in_consents s)(i \<mapsto> c\<lparr>co_Status := ''REVOKED'', co_RevokedAt := Some now\<rparr>)"
      by (auto simp: InMemoryConsentStore_def consent_Revoke_Inr)
    then show ?thesis by blast
  qed
qed (auto simp: InMemoryConsentStore_def consent_Create_def consent_GetByID_def Let_def split: option.splits)

interpretation pg_consents: consent_store "PostgresConsentStore fail rand now order srt ks" in_consents order
  for fail rand now order srt ks
proof unfold_locales
  show "\<exists>c t. in_consents s i = Some c \<and> co_Status c \<noteq> ''REVOKED'' \<and>
        in_consents s' = (in_consents s)(i \<mapsto> c\<lparr>co_Status := ''REVOKED'', co_RevokedAt := Some t\<rparr>)"
    if "cn_Revoke (PostgresConsentStore fail rand now order srt ks) i s = Inr s'" for i s s'
  proof -
    from that obtain c where "in_consents s i = Some c" "co_Status c \<noteq> ''REVOKED''"
      "in_consents s' = (in_consents s)(i \<mapsto> c\<lparr>co_Status := ''REVOKED'', co_RevokedAt := Some now\<rparr>)"
      by (auto simp: PostgresConsentStore_def consent_Revoke_Inr dest!: pg_Revoke_Inr)
    then show ?thesis by blast
  qed
qed (auto simp: PostgresConsentStore_def pg_Create_def pg_GetByID_def Let_def split: option.splits)


section \<open>Runs of the service\<close>

text \<open>
  The state-changing calls on the in-memory store: grants, revocations and the expiry job.
\<close>

inductive info_step :: "(nat \<Rightarrow> ident) \<Rightarrow> info \<Rightarrow> info \<Rightarrow> bool" for rand :: "nat \<Rightarrow> ident" where
  step_grant: "Grant (InMemoryConsentStore rand now order ks) body s = (ans, s') \<Longrightarrow> info_step rand s s'"
| step_revoke: "Revoke (InMemoryConsentStore rand now order ks) i s = (ans, s') \<Longrightarrow> info_step rand s s'"
| step_expire: "cn_ExpireStale (InMemoryConsentStore rand now order ks) s = Inr (n, s') \<Longrightarrow> info_step rand s s'"

inductive info_run :: "(nat \<Rightarrow> ident) \<Rightarrow> info \<Rightarrow> info \<Rightarrow> bool" for rand :: "nat \<Rightarrow> ident" where
  info_refl: "info_run rand s s"
| info_next: "info_run rand s s' \<Longrightarrow> info_step rand s' s'' \<Longrightarrow> info_run rand s s''"

definition consent_ids :: "(nat \<Rightarrow> ident) \<Rightarrow> info \<Rightarrow> bool" where
  "consent_ids rand s \<longleftrightarrow> (\<forall>i\<in>dom (in_consents s). drawn rand (in_drawn s) i)"

lemma info_step_cases:
  assumes "info_step rand s s'"
  shows "s' = s \<or>
    (\<exists>c. s' = s\<lparr>in_consents := (in_consents s)(rand (in_drawn s) \<mapsto> c), in_drawn := Suc (in_drawn s)\<rparr>) \<or>
    (\<exists>i c t. in_consents s i = Some c \<and> s' = s\<lparr>in_consents :=
       (in_consents s)(i \<mapsto> c\<lparr>co_Status := ''REVOKED'', co_RevokedAt := Some t\<rparr>)\<rparr>) \<or>
    (\<exists>ks now. s' = s\<lparr>in_consents := snd (consent_ExpireStale ks now (in_consents s))\<rparr>)"
  using assms
proof cases
  case (step_grant now order ks body ans)
  then have "s' = s \<or>
    (\<exists>c. s' = s\<lparr>in_consents := (in_consents s)(rand (in_drawn s) \<mapsto> c), in_drawn := Suc (in_drawn s)\<rparr>)"
    by (auto simp: Grant_def InMemoryConsentStore_def consent_Create_def Let_def
        split: option.splits if_splits sum.splits)
  then show ?thesis by blast
next
  case (step_revoke now order ks i ans)
  then have "s' = s \<or> (\<exists>c. in_consents s i = Some c \<and> s' = s\<lparr>in_consents :=
       (in_consents s)(i \<mapsto> c\<lparr>co_Status := ''REVOKED'', co_RevokedAt := Some now\<rparr>)\<rparr>)"
    by (auto simp: Revoke_def InMemoryConsentStore_def consent_Revoke_Inr split: if_splits sum.splits)
  then show ?thesis by blast
next
  case (step_expire now order ks n)
  then have "s' = s\<lparr>in_consents := snd (consent_ExpireStale ks now (in_consents s))\<rparr>"
    by (auto simp: InMemoryConsentStore_def split: prod.splits)
  then show ?thesis by blast
qed

lemma ExpireStale_get:
  "snd (consent_ExpireStale ks now m) i = (case m i of None \<Rightarrow> None
     | Some c \<Rightarrow> Some (if i \<in> set ks \<and> stale now c then c\<lparr>co_Status := ''EXPIRED''\<rparr> else c))"
  by (simp add: consent_ExpireStale_def split: option.split)

lemma info_step_ids: "info_step rand s s' \<Longrightarrow> consent_ids rand s \<Longrightarrow> consent_ids rand s'"
  by (drule info_step_cases)
    (auto simp: consent_ids_def ExpireStale_get dom_def split: if_splits option.splits)

definition inactive :: "info \<Rightarrow> ident \<Rightarrow> bool" where
  "inactive s i \<longleftrightarrow> (\<exists>c. in_consents s i = Some c \<and> co_Status c = ''REVOKED'')"

lemma info_step_inactive:
  assumes inj: "inj rand" and ids: "consent_ids rand s" and st: "info_step rand s s'" and i: "inactive s i"
  shows "inactive s' i"
proof -
  from i obtain c where c: "in_consents s i = Some c" "co_Status c = ''REVOKED''"
    by (auto simp: inactive_def)
  have "i \<noteq> rand (in_drawn s)"
    using ids c(1) drawn_fresh [OF inj, of "in_drawn s" "in_drawn s"] by (auto simp: consent_ids_def)
  with info_step_cases [OF st] c show ?thesis
    by (auto simp: inactive_def ExpireStale_get stale_def split: option.splits)
qed

lemma info_run_inactive:
  assumes "info_run rand s s'" "inj rand" "consent_ids rand s" "inactive s i"
  shows "consent_ids rand s' \<and> inactive s' i"
  using assms by (induction rule: info_run.induct) (auto intro: info_step_ids info_step_inactive)

section \<open>Properties\<close>

text \<open>
  C3. Data minimisation: on the production store as on the in-memory one, \<open>GetPerson\<close> serves data only
  for a stored consent whose status is ACTIVE, and then exactly the provider's values of the fields
  that consent grants, for the user who gave it.
\<close>

theorem person_only_consented:
  assumes "S = PostgresConsentStore fail rand now order srt ks \<or> S = InMemoryConsentStore rand now order ks"
    and "\<not> is_error (GetPerson S userData i s)"
  shows "\<exists>c fields. in_consents s i = Some c \<and> co_Status c = ''ACTIVE'' \<and>
    GetPerson S userData i s = WriteJSON 200 (PersonResponse fields) \<and>
    (\<forall>k v. fields k = Some v \<longleftrightarrow> co_Fields c k = Some True \<and> userData (co_UserID c) k = Some v)"
proof -
  have "\<exists>c. in_consents s i = Some c \<and> co_Status c = ''ACTIVE'' \<and> GetPerson S userData i s =
      WriteJSON 200 (PersonResponse (consented (co_Fields c) (userData (co_UserID c))))"
    using assms(1)
  proof
    assume S: "S = PostgresConsentStore fail rand now order srt ks"
    show ?thesis by (rule pg_consents.GetPerson_ok [OF refl assms(2) [unfolded S]]) (auto simp: S)
  next
    assume S: "S = InMemoryConsentStore rand now order ks"
    show ?thesis by (rule mem_consents.GetPerson_ok [OF refl assms(2) [unfolded S]]) (auto simp: S)
  qed
  then show ?thesis by (fastforce simp: consented_def)
qed

text \<open>
  C6. Withdrawal is final: once \<open>Revoke\<close> has succeeded, \<open>GetPerson\<close> refuses that consent in every later
  state, whatever grants, revocations and expiry jobs follow, and a second \<open>Revoke\<close> is refused too.
\<close>

theorem revoked_consent_serves_nothing:
  assumes "inj rand" "consent_ids rand s"
    and "Revoke (InMemoryConsentStore rand now order ks) i s = (ans, s1)" "\<not> is_error ans"
    and "info_run rand s1 s2"
  shows "is_error (GetPerson (InMemoryConsentStore rand now' order' ks') userData i s2) \<and>
    is_error (fst (Revoke (InMemoryConsentStore rand now' order' ks') i s2))"
proof -
  from assms(3,4) have "inactive s1 i"
    by (auto simp: Revoke_def InMemoryConsentStore_def consent_Revoke_Inr inactive_def
        split: if_splits sum.splits)
  moreover have "consent_ids rand s1"
    using info_step_ids [OF step_revoke [OF assms(3)] assms(2)] .
  ultimately have "inactive s2 i" using info_run_inactive [OF assms(5,1)] by blast
  then show ?thesis
    by (auto simp: inactive_def GetPerson_def Revoke_def InMemoryConsentStore_def consent_GetByID_def
        consent_Revoke_def)
qed

text \<open>
  The expiry job: \<open>ExpireStale\<close> turns exactly the ACTIVE consents whose expiry has passed into
  EXPIRED, changes nothing else, returns their number, and leaves no stale consent behind; it is the
  only thing that makes \<open>GetPerson\<close> refuse an expired consent, whose answer does not depend on
  \<open>ExpiresAt\<close> at all.
\<close>

theorem expire_stale_exact:
  assumes "range_of ks (in_consents s)"
    and "cn_ExpireStale (InMemoryConsentStore rand now order ks) s = Inr (n, s')"
  shows "n = card {i. \<exists>c. in_consents s i = Some c \<and> stale now c} \<and>
    (\<forall>i. in_consents s' i = map_option (\<lambda>c. if stale now c then c\<lparr>co_Status := ''EXPIRED''\<rparr> else c)
                              (in_consents s i)) \<and>
    (\<forall>i c. in_consents s' i = Some c \<longrightarrow> \<not> stale now c) \<and>
    (\<forall>i c t. in_consents s i = Some c \<longrightarrow>
       GetPerson (InMemoryConsentStore rand now order ks) userData i
         (s\<lparr>in_consents := (in_consents s)(i \<mapsto> c\<lparr>co_ExpiresAt := t\<rparr>)\<rparr>) =
       GetPerson (InMemoryConsentStore rand now order ks) userData i s)"
proof -
  from assms(2) have n: "n = length (filter (stale now) (range_vals ks (in_consents s)))"
    and s': "in_consents s' = snd (consent_ExpireStale ks now (in_consents s))"
    by (auto simp: InMemoryConsentStore_def consent_ExpireStale_def)
  have "int n = sum_list (map (\<lambda>c. 1) (filter (stale now) (range_vals ks (in_consents s))))"
    by (simp add: n sum_list_triv)
  also have "\<dots> = int (card {i\<in>dom (in_consents s). stale now (the (in_consents s i))})"
    by (subst range_vals_filter_sum [OF assms(1)]) simp
  also have "{i\<in>dom (in_consents s). stale now (the (in_consents s i))} =
      {i. \<exists>c. in_consents s i = Some c \<and> stale now c}" by auto
  finally have c1: "n = card {i. \<exists>c. in_consents s i = Some c \<and> stale now c}" by simp
  have ks: "set ks = dom (in_consents s)" using assms(1) by (simp add: range_of_def)
  have c2: "in_consents s' i = map_option (\<lambda>c. if stale now c then c\<lparr>co_Status := ''EXPIRED''\<rparr> else c)
      (in_consents s i)" for i
    by (auto simp: s' ExpireStale_get ks split: option.splits)
  have c3: "\<not> stale now c" if "in_consents s' i = Some c" for i c
  proof -
    from that obtain c0 where "c = (if stale now c0 then c0\<lparr>co_Status := ''EXPIRED''\<rparr> else c0)"
      by (auto simp: c2)
    then show ?thesis by (cases "stale now c0") (simp_all add: stale_def)
  qed
  have "GetPerson (InMemoryConsentStore rand now order ks) userData i
         (s\<lparr>in_consents := (in_consents s)(i \<mapsto> c\<lparr>co_ExpiresAt := t\<rparr>)\<rparr>) =
       GetPerson (InMemoryConsentStore rand now order ks) userData i s"
    if "in_consents s i = Some c" for i c t
    using that by (simp add: GetPerson_def InMemoryConsentStore_def consent_GetByID_def)
  with c1 c2 c3 show ?thesis by blast
qed

text \<open>
  The duration of a grant: an accepted grant of at most 1825 days expires exactly that many days
  after it was stored; and a grant is accepted only when the product of days and 86400 lies between
  one second and five years as an \<open>int64\<close>, which lets huge numbers of days through (for instance
  144115188075855873 days, stored as one day).
\<close>

theorem grant_duration:
  assumes "Grant (InMemoryConsentStore rand now order ks) (Some req) s = (ans, s')" "\<not> is_error ans"
  shows "\<exists>c. in_consents s' (rand (in_drawn s)) = Some c \<and> co_Status c = ''ACTIVE'' \<and> co_GrantedAt c = now \<and>
    1 \<le> i64 (gq_DurationDays req * 86400) \<and> i64 (gq_DurationDays req * 86400) \<le> MaxDuration \<and>
    co_ExpiresAt c = now + i64 (gq_DurationDays req * 86400) * second \<and>
    (gq_DurationDays req \<le> 1825 \<longrightarrow> co_ExpiresAt c = now + gq_DurationDays req * 24 * hour) \<and>
    (gq_DurationDays req = 144115188075855873 \<longrightarrow> co_ExpiresAt c = now + 24 * hour)"
proof -
  let ?d = "i64 (gq_DurationDays req * 86400)"
  from assms have days: "0 < gq_DurationDays req" by (auto simp: Grant_def split: if_splits)
  from assms obtain c where c: "in_consents s' (rand (in_drawn s)) = Some c" "co_Status c = ''ACTIVE''"
    "co_GrantedAt c = now" "co_ExpiresAt c = now + i64 (?d * second)"
    and v: "1 \<le> ?d" "?d \<le> MaxDuration"
    by (auto simp: Grant_def InMemoryConsentStore_def consent_Create_def Let_def stamp_consent_def
        ValidateConsent_def split: if_splits sum.splits option.splits)
  have "i64 (?d * second) = ?d * second" using v by (intro i64_id) (simp_all add: MaxDuration_def)
  moreover have "gq_DurationDays req \<le> 1825 \<Longrightarrow> ?d = gq_DurationDays req * 86400"
    using days by (intro i64_id) simp_all
  moreover have "i64 (144115188075855873 * 86400) = 86400" by (simp add: i64_def)
  ultimately show ?thesis using c v by auto
qed


definition example_grant :: grantRequest where
  "example_grant = \<lparr>gq_UserID = ''u'', gq_ClientID = ''c'', gq_ClientName = ''Bank'', gq_Purpose = ''kyc'',
     gq_Fields = [''name''], gq_DurationDays = 30\<rparr>"

abbreviation example_consents :: "info ConsentStore" where
  "example_consents \<equiv> InMemoryConsentStore (\<lambda>n. replicate (Suc n) CHR ''a'') 0 (\<lambda>c. [''name'']) [''a'']"

definition example_granted :: info where
  "example_granted = snd (Grant example_consents (Some example_grant) info_init)"

lemma example_granted_ok:
  "\<not> is_error (fst (Grant example_consents (Some example_grant) info_init))"
  "\<not> is_error (GetPerson example_consents (\<lambda>u k. None) ''a'' example_granted)"
  "\<not> is_error (fst (Revoke example_consents ''a'' example_granted))"
  by code_simp+

lemma example_granted_ids: "consent_ids (\<lambda>n. replicate (Suc n) CHR ''a'') example_granted"
proof -
  have "info_step (\<lambda>n. replicate (Suc n) CHR ''a'') info_init example_granted"
    unfolding example_granted_def by (rule step_grant [OF prod.collapse [symmetric]])
  then show ?thesis by (rule info_step_ids) (simp add: consent_ids_def info_init_def)
qed

theorem person_only_consented_witness:
  "\<exists>c. in_consents example_granted ''a'' = Some c \<and> co_Status c = ''ACTIVE''"
  using person_only_consented [OF disjI2 [OF refl] example_granted_ok(2)] by blast

theorem revoked_consent_serves_nothing_witness:
  "is_error (GetPerson example_consents (\<lambda>u k. None) ''a'' (snd (Revoke example_consents ''a'' example_granted)))"
proof -
  have "inj (\<lambda>n. replicate (Suc n) CHR ''a'')" by (auto simp: inj_def replicate_eq_replicate)
  from revoked_consent_serves_nothing [OF this example_granted_ids prod.collapse [symmetric]
      example_granted_ok(3) info_refl] show ?thesis by blast
qed

theorem expire_stale_exact_witness:
  "fst (consent_ExpireStale [''a''] (31 * 24 * hour) (in_consents example_granted)) = 1 \<and>
   card {i. \<exists>c. in_consents example_granted i = Some c \<and> stale (31 * 24 * hour) c} = 1"
proof -
  have n: "fst (consent_ExpireStale [''a''] (31 * 24 * hour) (in_consents example_granted)) = 1" by code_simp
  have "dom (in_consents example_granted) = {''a''}"
    by (simp add: example_granted_def example_grant_def Grant_def InMemoryConsentStore_def info_init_def
        consent_Create_def ValidateConsent_def requireBounded_def bounded_def first_err.simps
        field_checks_def allowedFieldKeys_def grant_fields_def rune_count_ascii ascii_def byte_def
        reject_def i64_def MaxDuration_def Let_def)
  then have r: "range_of [''a''] (in_consents example_granted)" by (simp add: range_of_def)
  obtain m where "consent_ExpireStale [''a''] (31 * 24 * hour) (in_consents example_granted) = (1, m)"
    using n by (metis prod.collapse)
  then have "cn_ExpireStale (InMemoryConsentStore (\<lambda>n. ''x'') (31 * 24 * hour) (\<lambda>c. []) [''a'']) example_granted
      = Inr (1, example_granted\<lparr>in_consents := m\<rparr>)" by (simp add: InMemoryConsentStore_def)
  from expire_stale_exact [OF r this, THEN conjunct1] n show ?thesis by simp
qed

theorem grant_duration_witness:
  "\<exists>c. in_consents example_granted ''a'' = Some c \<and> co_ExpiresAt c = 30 * 24 * hour"
proof -
  have "Grant example_consents (Some example_grant) info_init =
      (fst (Grant example_consents (Some example_grant) info_init), example_granted)"
    by (simp add: example_granted_def)
  from grant_duration [OF this example_granted_ok(1)] show ?thesis
    by (auto simp: example_grant_def info_init_def)
qed

end
