(* ===== verification/Audit_Store.thy ===== *)
theory Audit_Store
  imports GP_Interfaces
begin

text \<open>
  The audit trail (\<open>services/garudaaudit/store\<close>): events and filters (\<open>event.go\<close>), their validation
  (\<open>validate.go\<close>), the in-memory store with its paging loop, and the Postgres store with the SQL
  conditions it builds (\<open>postgres.go\<close>).
  The locale \<open>audit_store\<close> is what the handlers rely on, interpreted on both stores.
\<close>

section \<open>Events, filters and validation\<close>

record AuditEvent =
  ae_ID :: ident
  ae_EventType :: string
  ae_ActorID :: ident
  ae_ActorType :: string
  ae_ResourceID :: ident
  ae_ResourceType :: string
  ae_Action :: string
  ae_Metadata :: "string \<rightharpoonup> string"
  ae_IPAddress :: string
  ae_UserAgent :: string
  ae_ServiceName :: string
  ae_RequestID :: string
  ae_Status :: string
  ae_CreatedAt :: time

record AuditFilter =
  af_ActorID :: ident
  af_ResourceID :: ident
  af_ResourceType :: string
  af_EventType :: string
  af_Action :: string
  af_ServiceName :: string
  af_Status :: string
  af_From :: time
  af_To :: time
  af_Limit :: int
  af_Offset :: int

definition no_filter :: AuditFilter where
  "no_filter = \<lparr>af_ActorID = [], af_ResourceID = [], af_ResourceType = [], af_EventType = [],
     af_Action = [], af_ServiceName = [], af_Status = [], af_From = zero_time, af_To = zero_time,
     af_Limit = 0, af_Offset = 0\<rparr>"

datatype audit_err = InvalidEvent verr | EventNotFound ident | DBError string

definition allowedActorTypes :: "string list" where
  "allowedActorTypes = [[], ''USER'', ''SERVICE'', ''SERVICE_ACCOUNT'', ''SYSTEM'', ''ADMIN'']"

definition allowedStatuses :: "string list" where
  "allowedStatuses = [[], ''SUCCESS'', ''FAILURE'', ''DENIED'', ''ERROR'']"

definition metadata_checks :: "string \<Rightarrow> string \<Rightarrow> verr option list" where
  "metadata_checks k v =
     [reject (k = []) (EmptyEntry ''metadata key''),
      reject (rune_count k > 64) (Exceeds ''metadata key'' 64),
      reject (rune_count v > 1024) (Exceeds ''metadata value'' 1024),
      reject (CHR 0x00 \<in> set k \<or> CHR 0x0A \<in> set k \<or> CHR 0x0D \<in> set k) (ControlChars ''metadata key'')]"

text \<open>\<open>ms\<close> is the order in which \<open>range\<close> visits the metadata.\<close>

definition ValidateEvent :: "string list \<Rightarrow> AuditEvent option \<Rightarrow> verr option" where
  "ValidateEvent ms e' = (case e' of None \<Rightarrow> Some (IsNil ''event'') | Some e \<Rightarrow> first_err
     ([requireBounded ''event_type'' (ae_EventType e) 64,
       requireBounded ''actor_id'' (ae_ActorID e) 128,
       requireBounded ''action'' (ae_Action e) 64,
       bounded ''actor_type'' (ae_ActorType e) 32,
       reject (ae_ActorType e \<notin> set allowedActorTypes) (NotAllowed ''actor_type'' (ae_ActorType e)),
       bounded ''resource_id'' (ae_ResourceID e) 128,
       bounded ''resource_type'' (ae_ResourceType e) 64,
       bounded ''ip_address'' (ae_IPAddress e) 45,
       bounded ''user_agent'' (ae_UserAgent e) 512,
       bounded ''service_name'' (ae_ServiceName e) 64,
       bounded ''request_id'' (ae_RequestID e) 128,
       bounded ''status'' (ae_Status e) 32,
       reject (ae_Status e \<notin> set allowedStatuses) (NotAllowed ''status'' (ae_Status e)),
       reject (length ms > 50) (TooMany ''metadata'' 50)] @
      concat (map (\<lambda>k. metadata_checks k (the (ae_Metadata e k))) ms)))"

definition matchesFilter :: "AuditEvent \<Rightarrow> AuditFilter \<Rightarrow> bool" where
  "matchesFilter e f =
     (if af_ActorID f \<noteq> [] \<and> ae_ActorID e \<noteq> af_ActorID f then False
      else if af_ResourceID f \<noteq> [] \<and> ae_ResourceID e \<noteq> af_ResourceID f then False
      else if af_ResourceType f \<noteq> [] \<and> ae_ResourceType e \<noteq> af_ResourceType f then False
      else if af_EventType f \<noteq> [] \<and> ae_EventType e \<noteq> af_EventType f then False
      else if af_Action f \<noteq> [] \<and> ae_Action e \<noteq> af_Action f then False
      else if af_ServiceName f \<noteq> [] \<and> ae_ServiceName e \<noteq> af_ServiceName f then False
      else if af_Status f \<noteq> [] \<and> ae_Status e \<noteq> af_Status f then False
      else if \<not> is_zero_time (af_From f) \<and> ae_CreatedAt e < af_From f then False
      else if \<not> is_zero_time (af_To f) \<and> ae_CreatedAt e > af_To f then False
      else True)"

section \<open>The in-memory store\<close>

record audit =
  au_events :: "AuditEvent list"
  au_byID :: "ident \<rightharpoonup> AuditEvent"
  au_drawn :: nat

definition audit_init :: audit where
  "audit_init = \<lparr>au_events = [], au_byID = Map.empty, au_drawn = 0\<rparr>"

text \<open>The defaults both stores fill in; a nil metadata map and an empty one are the same here.\<close>

definition with_defaults :: "AuditEvent \<Rightarrow> AuditEvent" where
  "with_defaults e =
     (let e1 = (if ae_ActorType e = [] then e\<lparr>ae_ActorType := ''USER''\<rparr> else e)
      in if ae_Status e1 = [] then e1\<lparr>ae_Status := ''SUCCESS''\<rparr> else e1)"

definition audit_Append ::
  "(nat \<Rightarrow> ident) \<Rightarrow> string list \<Rightarrow> time \<Rightarrow> AuditEvent \<Rightarrow> audit \<Rightarrow> audit_err + AuditEvent \<times> audit" where
  "audit_Append rand ms now event s =
     (case ValidateEvent ms (Some event) of
        Some err \<Rightarrow> Inl (InvalidEvent err)
      | None \<Rightarrow>
         (let e = with_defaults (event\<lparr>ae_ID := rand (au_drawn s), ae_CreatedAt := now\<rparr>)
          in Inr (e, s\<lparr>au_events := au_events s @ [e], au_byID := (au_byID s)(ae_ID e \<mapsto> e),
                       au_drawn := Suc (au_drawn s)\<rparr>)))"

definition audit_GetByID :: "ident \<Rightarrow> audit \<Rightarrow> audit_err + AuditEvent" where
  "audit_GetByID i s = (case au_byID s i of None \<Rightarrow> Inl (EventNotFound i) | Some e \<Rightarrow> Inr e)"

definition effective_limit :: "int \<Rightarrow> int" where
  "effective_limit l = (let limit = (if l \<le> 0 then 100 else l) in if limit > 1000 then 1000 else limit)"

fun query_loop ::
  "AuditFilter \<Rightarrow> int \<Rightarrow> int \<Rightarrow> AuditEvent list \<Rightarrow> AuditEvent list \<Rightarrow> AuditEvent list" where
  "query_loop f limit skipped matched [] = matched"
| "query_loop f limit skipped matched (e # es) =
     (if \<not> matchesFilter e f then query_loop f limit skipped matched es
      else if skipped < af_Offset f then query_loop f limit (skipped + 1) matched es
      else if int (length matched) \<ge> limit then matched
      else query_loop f limit skipped (matched @ [e]) es)"

definition audit_Query :: "AuditFilter \<Rightarrow> audit \<Rightarrow> AuditEvent list" where
  "audit_Query f s = query_loop f (effective_limit (af_Limit f)) 0 [] (au_events s)"

fun count_loop :: "AuditFilter \<Rightarrow> int \<Rightarrow> AuditEvent list \<Rightarrow> int" where
  "count_loop f n [] = n"
| "count_loop f n (e # es) = count_loop f (if matchesFilter e f then n + 1 else n) es"

definition audit_Count :: "AuditFilter \<Rightarrow> audit \<Rightarrow> int" where
  "audit_Count f s = count_loop f 0 (au_events s)"

text \<open>The interface, and the in-memory implementation of it.\<close>

record 's AuditStore =
  as_Append :: "AuditEvent \<Rightarrow> 's \<Rightarrow> audit_err + AuditEvent \<times> 's"
  as_GetByID :: "ident \<Rightarrow> 's \<Rightarrow> audit_err + AuditEvent"
  as_Query :: "AuditFilter \<Rightarrow> 's \<Rightarrow> audit_err + AuditEvent list"
  as_Count :: "AuditFilter \<Rightarrow> 's \<Rightarrow> audit_err + int"

definition InMemoryAuditStore ::
  "(nat \<Rightarrow> ident) \<Rightarrow> (AuditEvent \<Rightarrow> string list) \<Rightarrow> time \<Rightarrow> audit AuditStore" where
  "InMemoryAuditStore rand order now = \<lparr>
     as_Append = (\<lambda>e s. audit_Append rand (order e) now e s),
     as_GetByID = audit_GetByID,
     as_Query = (\<lambda>f s. Inr (audit_Query f s)),
     as_Count = (\<lambda>f s. Inr (audit_Count f s))\<rparr>"

text \<open>What the two loops compute.\<close>

lemma query_loop_spec:
  assumes "int (length matched) \<le> limit" "0 \<le> limit"
  shows "query_loop f limit skipped matched es = matched @
    take (nat limit - length matched) (drop (nat (af_Offset f - skipped)) (filter (\<lambda>e. matchesFilter e f) es))"
  using assms
proof (induction es arbitrary: skipped matched)
  case (Cons e es)
  show ?case
  proof (cases "matchesFilter e f")
    case True
    show ?thesis
    proof (cases "skipped < af_Offset f")
      case True
      then have "nat (af_Offset f - skipped) = Suc (nat (af_Offset f - (skipped + 1)))" by simp
      with Cons True \<open>matchesFilter e f\<close> show ?thesis by simp
    next
      case False
      show ?thesis
      proof (cases "int (length matched) \<ge> limit")
        case full: True
        then have "nat limit - length matched = 0" by simp
        with False full \<open>matchesFilter e f\<close> show ?thesis by simp
      next
        case room: False
        then have "nat limit - length matched = Suc (nat limit - Suc (length matched))" by simp
        with Cons.IH [of "matched @ [e]" skipped] Cons.prems False room \<open>matchesFilter e f\<close>
        show ?thesis by simp
      qed
    qed
  next
    case False
    with Cons show ?thesis by simp
  qed
qed simp

lemma effective_limit_range: "1 \<le> effective_limit l \<and> effective_limit l \<le> 1000"
  by (simp add: effective_limit_def Let_def)

lemma effective_limit_id [simp]: "1 \<le> l \<Longrightarrow> l \<le> 1000 \<Longrightarrow> effective_limit l = l"
  by (simp add: effective_limit_def Let_def)

definition page :: "AuditFilter \<Rightarrow> AuditEvent list \<Rightarrow> AuditEvent list" where
  "page f es = take (nat (effective_limit (af_Limit f))) (drop (nat (af_Offset f))
     (filter (\<lambda>e. matchesFilter e f) es))"

lemma audit_Query_page: "audit_Query f s = page f (au_events s)"
  using effective_limit_range [of "af_Limit f"]
  by (simp add: audit_Query_def page_def query_loop_spec)

lemma count_loop_spec: "count_loop f c es = c + int (length (filter (\<lambda>e. matchesFilter e f) es))"
  by (induction es arbitrary: c) auto

lemma audit_Count_length: "audit_Count f s = int (length (filter (\<lambda>e. matchesFilter e f) (au_events s)))"
  by (simp add: audit_Count_def count_loop_spec)

section \<open>The Postgres store\<close>

text \<open>
  A condition \<open>column op $n\<close> of the \<open>WHERE\<close> clause refers to the \<open>n\<close>-th argument; the builder keeps
  the number of the next placeholder.
\<close>

datatype sql_op = Eq | Geq | Leq
datatype sql_arg = Text string | Timestamp time
datatype condition = Cond (cond_column: string) (cond_op: sql_op) (cond_arg: nat)

type_synonym builder = "condition list \<times> sql_arg list \<times> nat"

definition addEq :: "string \<Rightarrow> string \<Rightarrow> builder \<Rightarrow> builder" where
  "addEq column v b =
     (let (conditions, args, idx) = b in
      if v \<noteq> [] then (conditions @ [Cond column Eq idx], args @ [Text v], idx + 1)
      else b)"

definition addTime :: "sql_op \<Rightarrow> time \<Rightarrow> builder \<Rightarrow> builder" where
  "addTime op' t b =
     (let (conditions, args, idx) = b in
      if \<not> is_zero_time t
      then (conditions @ [Cond ''created_at'' op' idx], args @ [Timestamp t], idx + 1)
      else b)"

definition buildFilterConditions :: "AuditFilter \<Rightarrow> condition list \<times> sql_arg list" where
  "buildFilterConditions f =
     (let b0 = ([], [], 1);
          b1 = addEq ''actor_id'' (af_ActorID f) b0;
          b2 = addEq ''resource_id'' (af_ResourceID f) b1;
          b3 = addEq ''resource_type'' (af_ResourceType f) b2;
          b4 = addEq ''event_type'' (af_EventType f) b3;
          b5 = addEq ''action'' (af_Action f) b4;
          b6 = addEq ''service_name'' (af_ServiceName f) b5;
          b7 = addEq ''status'' (af_Status f) b6;
          b8 = addTime Geq (af_From f) b7;
          b9 = addTime Leq (af_To f) b8
      in (fst b9, fst (snd b9)))"

text \<open>
  How the database evaluates a condition on a row: \<open>nullString\<close> stores an empty optional text as
  NULL, and a comparison with NULL is not true.
\<close>

definition nullString :: "string \<Rightarrow> string option" where
  "nullString s = (if s = [] then None else Some s)"

definition column :: "string \<Rightarrow> AuditEvent \<Rightarrow> string option" where
  "column c e =
     (if c = ''actor_id'' then Some (ae_ActorID e)
      else if c = ''resource_id'' then nullString (ae_ResourceID e)
      else if c = ''resource_type'' then nullString (ae_ResourceType e)
      else if c = ''event_type'' then Some (ae_EventType e)
      else if c = ''action'' then Some (ae_Action e)
      else if c = ''service_name'' then Some (ae_ServiceName e)
      else if c = ''status'' then Some (ae_Status e)
      else None)"

definition eval_arg :: "string \<Rightarrow> sql_op \<Rightarrow> sql_arg option \<Rightarrow> AuditEvent \<Rightarrow> bool" where
  "eval_arg c op' a e =
     (case a of
        Some (Text v) \<Rightarrow> op' = Eq \<and> column c e = Some v
      | Some (Timestamp t) \<Rightarrow> c = ''created_at'' \<and>
          (case op' of Eq \<Rightarrow> ae_CreatedAt e = t | Geq \<Rightarrow> ae_CreatedAt e \<ge> t | Leq \<Rightarrow> ae_CreatedAt e \<le> t)
      | None \<Rightarrow> False)"

definition nth_arg :: "sql_arg list \<Rightarrow> nat \<Rightarrow> sql_arg option" where
  "nth_arg args n = (if 1 \<le> n \<and> n \<le> length args then Some (args ! (n - 1)) else None)"

definition where_clause :: "condition list \<times> sql_arg list \<Rightarrow> AuditEvent \<Rightarrow> bool" where
  "where_clause w e \<longleftrightarrow> list_all (\<lambda>c. eval_arg (cond_column c) (cond_op c) (nth_arg (snd w) (cond_arg c)) e) (fst w)"

text \<open>The placeholders stay aligned with the arguments while conditions are added.\<close>

definition aligned :: "builder \<Rightarrow> bool" where
  "aligned b \<longleftrightarrow> snd (snd b) = Suc (length (fst (snd b))) \<and>
     (\<forall>c\<in>set (fst b). 1 \<le> cond_arg c \<and> cond_arg c \<le> length (fst (snd b)))"

definition bwhere :: "builder \<Rightarrow> AuditEvent \<Rightarrow> bool" where
  "bwhere b = where_clause (fst b, fst (snd b))"

lemma eval_old_args:
  assumes "\<forall>c\<in>set cs. 1 \<le> cond_arg c \<and> cond_arg c \<le> length args"
  shows "where_clause (cs, args @ as) e = where_clause (cs, args) e"
  unfolding where_clause_def list_all_iff fst_conv snd_conv
proof (rule ball_cong [OF refl])
  fix c assume "c \<in> set cs"
  with assms have "1 \<le> cond_arg c" "cond_arg c \<le> length args" by auto
  then show "eval_arg (cond_column c) (cond_op c) (nth_arg (args @ as) (cond_arg c)) e =
      eval_arg (cond_column c) (cond_op c) (nth_arg args (cond_arg c)) e"
    by (auto simp: nth_arg_def nth_append)
qed

lemma builder_add:
  assumes "aligned (cs, args, idx)"
  shows "aligned (cs @ [Cond col op' idx], args @ [a], idx + 1)"
    and "bwhere (cs @ [Cond col op' idx], args @ [a], idx + 1) e \<longleftrightarrow>
         bwhere (cs, args, idx) e \<and> eval_arg col op' (Some a) e"
proof -
  from assms have idx: "idx = Suc (length args)"
    and old: "\<forall>c\<in>set cs. 1 \<le> cond_arg c \<and> cond_arg c \<le> length args"
    unfolding aligned_def fst_conv snd_conv by blast+
  from old show "aligned (cs @ [Cond col op' idx], args @ [a], idx + 1)"
    by (auto simp: aligned_def idx)
  have "where_clause (cs @ [Cond col op' idx], args @ [a]) e \<longleftrightarrow>
      where_clause (cs, args @ [a]) e \<and> eval_arg col op' (nth_arg (args @ [a]) idx) e"
    by (simp add: where_clause_def)
  also have "nth_arg (args @ [a]) idx = Some a" by (simp add: nth_arg_def idx)
  finally show "bwhere (cs @ [Cond col op' idx], args @ [a], idx + 1) e \<longleftrightarrow>
         bwhere (cs, args, idx) e \<and> eval_arg col op' (Some a) e"
    by (simp add: bwhere_def eval_old_args [OF old])
qed

lemma addEq_where:
  assumes "aligned b"
  shows "aligned (addEq col v b) \<and> (bwhere (addEq col v b) e \<longleftrightarrow>
    bwhere b e \<and> (v = [] \<or> column col e = Some v))"
proof -
  obtain cs args idx where b: "b = (cs, args, idx)" by (cases b)
  show ?thesis
  proof (cases "v = []")
    case False
    with builder_add [OF assms [unfolded b], of col Eq "Text v"] b show ?thesis
      by (simp add: addEq_def eval_arg_def)
  qed (use assms b in \<open>simp add: addEq_def\<close>)
qed

lemma addTime_where:
  assumes "aligned b"
  shows "aligned (addTime op' t b) \<and> (bwhere (addTime op' t b) e \<longleftrightarrow>
    bwhere b e \<and> (is_zero_time t \<or> eval_arg ''created_at'' op' (Some (Timestamp t)) e))"
proof -
  obtain cs args idx where b: "b = (cs, args, idx)" by (cases b)
  show ?thesis
  proof (cases "is_zero_time t")
    case False
    with builder_add [OF assms [unfolded b], of "''created_at''" op' "Timestamp t"] b show ?thesis
      by (simp add: addTime_def)
  qed (use assms b in \<open>simp add: addTime_def\<close>)
qed

lemma where_matches: "where_clause (buildFilterConditions f) e \<longleftrightarrow> matchesFilter e f"
proof -
  let ?b0 = "([], [], 1) :: builder"
  let ?b1 = "addEq ''actor_id'' (af_ActorID f) ?b0"
  let ?b2 = "addEq ''resource_id'' (af_ResourceID f) ?b1"
  let ?b3 = "addEq ''resource_type'' (af_ResourceType f) ?b2"
  let ?b4 = "addEq ''event_type'' (af_EventType f) ?b3"
  let ?b5 = "addEq ''action'' (af_Action f) ?b4"
  let ?b6 = "addEq ''service_name'' (af_ServiceName f) ?b5"
  let ?b7 = "addEq ''status'' (af_Status f) ?b6"
  let ?b8 = "addTime Geq (af_From f) ?b7"
  have 0: "aligned ?b0" "bwhere ?b0 e" by (simp_all add: aligned_def bwhere_def where_clause_def)
  note 1 = addEq_where [OF 0(1), of "''actor_id''" "af_ActorID f" e]
  note 2 = addEq_where [OF conjunct1 [OF 1], of "''resource_id''" "af_ResourceID f" e]
  note 3 = addEq_where [OF conjunct1 [OF 2], of "''resource_type''" "af_ResourceType f" e]
  note 4 = addEq_where [OF conjunct1 [OF 3], of "''event_type''" "af_EventType f" e]
  note 5 = addEq_where [OF conjunct1 [OF 4], of "''action''" "af_Action f" e]
  note 6 = addEq_where [OF conjunct1 [OF 5], of "''service_name''" "af_ServiceName f" e]
  note 7 = addEq_where [OF conjunct1 [OF 6], of "''status''" "af_Status f" e]
  note 8 = addTime_where [OF conjunct1 [OF 7], of Geq "af_From f" e]
  note 9 = addTime_where [OF conjunct1 [OF 8], of Leq "af_To f" e]
  have "where_clause (buildFilterConditions f) e \<longleftrightarrow> bwhere (addTime Leq (af_To f) ?b8) e"
    unfolding buildFilterConditions_def Let_def bwhere_def by simp
  also have "\<dots> \<longleftrightarrow> matchesFilter e f"
    unfolding conjunct2 [OF 9] conjunct2 [OF 8] conjunct2 [OF 7] conjunct2 [OF 6] conjunct2 [OF 5]
      conjunct2 [OF 4] conjunct2 [OF 3] conjunct2 [OF 2] conjunct2 [OF 1]
    using 0(2)
    by (auto simp: matchesFilter_def column_def nullString_def eval_arg_def not_less)
  finally show ?thesis .
qed

lemma where_clause_filter: "where_clause (buildFilterConditions f) = (\<lambda>e. matchesFilter e f)"
  by (rule ext) (simp add: where_matches)

text \<open>
  The table \<open>audit_events\<close>, kept in the order \<open>created_at DESC\<close> in which it is queried; \<open>fail\<close> is the
  error of the statement, if it has one, and a negative \<open>OFFSET\<close> is an error of the database.
\<close>

fun insert_desc :: "AuditEvent \<Rightarrow> AuditEvent list \<Rightarrow> AuditEvent list" where
  "insert_desc e [] = [e]"
| "insert_desc e (x # xs) =
     (if ae_CreatedAt x \<le> ae_CreatedAt e then e # x # xs else x # insert_desc e xs)"

record audit_db =
  db_rows :: "AuditEvent list"
  db_drawn :: nat

definition pg_Append ::
  "string option \<Rightarrow> (nat \<Rightarrow> ident) \<Rightarrow> string list \<Rightarrow> time \<Rightarrow> AuditEvent \<Rightarrow> audit_db \<Rightarrow>
     audit_err + AuditEvent \<times> audit_db" where
  "pg_Append fail rand ms now event s =
     (case ValidateEvent ms (Some event) of
        Some err \<Rightarrow> Inl (InvalidEvent err)
      | None \<Rightarrow>
         (case fail of
            Some e \<Rightarrow> Inl (DBError e)
          | None \<Rightarrow>
             (let e = (with_defaults event)\<lparr>ae_ID := rand (db_drawn s), ae_CreatedAt := now\<rparr>
              in Inr (e, s\<lparr>db_rows := insert_desc e (db_rows s), db_drawn := Suc (db_drawn s)\<rparr>))))"

definition pg_audit_GetByID :: "string option \<Rightarrow> ident \<Rightarrow> audit_db \<Rightarrow> audit_err + AuditEvent" where
  "pg_audit_GetByID fail i s =
     (case fail of
        Some e \<Rightarrow> Inl (DBError e)
      | None \<Rightarrow> (case find (\<lambda>e. ae_ID e = i) (db_rows s) of
                   None \<Rightarrow> Inl (EventNotFound i) | Some e \<Rightarrow> Inr e))"

definition pg_Query :: "string option \<Rightarrow> AuditFilter \<Rightarrow> audit_db \<Rightarrow> audit_err + AuditEvent list" where
  "pg_Query fail f s =
     (let limit = effective_limit (af_Limit f); w = buildFilterConditions f in
      case fail of
        Some e \<Rightarrow> Inl (DBError e)
      | None \<Rightarrow>
          if af_Offset f < 0 then Inl (DBError ''OFFSET must not be negative'')
          else Inr (take (nat limit) (drop (nat (af_Offset f)) (filter (where_clause w) (db_rows s)))))"

definition pg_Count :: "string option \<Rightarrow> AuditFilter \<Rightarrow> audit_db \<Rightarrow> audit_err + int" where
  "pg_Count fail f s =
     (let w = buildFilterConditions f in
      case fail of
        Some e \<Rightarrow> Inl (DBError e)
      | None \<Rightarrow> Inr (int (length (filter (where_clause w) (db_rows s)))))"

definition PostgresAuditStore ::
  "string option \<Rightarrow> (nat \<Rightarrow> ident) \<Rightarrow> (AuditEvent \<Rightarrow> string list) \<Rightarrow> time \<Rightarrow> audit_db AuditStore" where
  "PostgresAuditStore fail rand order now = \<lparr>
     as_Append = (\<lambda>e s. pg_Append fail rand (order e) now e s),
     as_GetByID = pg_audit_GetByID fail,
     as_Query = pg_Query fail,
     as_Count = pg_Count fail\<rparr>"

section \<open>The contract of an audit store\<close>

locale audit_store =
  fixes A :: "'s AuditStore" and trail :: "'s \<Rightarrow> AuditEvent list" and order :: "AuditEvent \<Rightarrow> string list"
  assumes append_ok: "as_Append A e s = Inr (e', s') \<Longrightarrow>
        ValidateEvent (order e) (Some e) = None \<and> mset (trail s') = add_mset e' (mset (trail s)) \<and>
        ae_ActorType e' \<noteq> [] \<and> ae_Status e' \<noteq> [] \<and> ae_Action e' = ae_Action e \<and> ae_ActorID e' = ae_ActorID e"
    and query_ok: "as_Query A f s = Inr es \<Longrightarrow> es = page f (trail s)"
    and count_ok: "as_Count A f s = Inr n \<Longrightarrow> n = int (length (filter (\<lambda>e. matchesFilter e f) (trail s)))"
begin

lemma append_only: "as_Append A e s = Inr (e', s') \<Longrightarrow> mset (trail s) \<subseteq># mset (trail s')"
  using append_ok by fastforce

lemma query_count: "as_Query A f s = Inr es \<Longrightarrow> as_Count A f s = Inr n \<Longrightarrow> int (length es) \<le> n"
  using query_ok [of f s es] count_ok [of f s n] by (simp add: page_def)

end

lemma mset_insert_desc: "mset (insert_desc e xs) = add_mset e (mset xs)"
  by (induction xs) auto

lemma with_defaults_fields:
  "ae_ActorType (with_defaults e) \<noteq> [] \<and> ae_Status (with_defaults e) \<noteq> [] \<and>
   ae_Action (with_defaults e) = ae_Action e \<and> ae_ActorID (with_defaults e) = ae_ActorID e \<and>
   ae_ID (with_defaults e) = ae_ID e \<and> ae_CreatedAt (with_defaults e) = ae_CreatedAt e"
  by (simp add: with_defaults_def Let_def)

interpretation mem_audit: audit_store "InMemoryAuditStore rand order now" au_events order
  for rand order now
  by unfold_locales
    (auto simp: InMemoryAuditStore_def audit_Append_def audit_Query_page audit_Count_length
      with_defaults_fields Let_def split: option.splits)

interpretation pg_audit: audit_store "PostgresAuditStore fail rand order now" db_rows order
  for fail rand order now
  by unfold_locales
    (auto simp: PostgresAuditStore_def pg_Append_def pg_Query_def pg_Count_def page_def where_clause_filter
      with_defaults_fields mset_insert_desc Let_def split: option.splits if_splits)

end
