(* ===== verification/Audit_Handlers.thy ===== *)
theory Audit_Handlers
  imports Audit_Store GP_Text
begin

text \<open>
  The handlers of the audit service: ingestion, queries and single events (\<open>handler/audit.go\<close>),
  statistics (\<open>handler/stats.go\<close>), compliance reports (\<open>handler/compliance.go\<close>) and the health of the
  service mesh (\<open>handler/mesh.go\<close>).
  Query parameters are a function from names to strings (the empty string when absent); \<open>time.Parse\<close>
  and \<open>strconv.Atoi\<close> are parameters.
\<close>

section \<open>Events\<close>

record queryResponse =
  qr_Events :: "AuditEvent list"
  qr_Total :: int
  qr_Limit :: int
  qr_Offset :: int

record statsResponse =
  ss_TotalEvents :: int
  ss_ByAction :: "string \<rightharpoonup> int"
  ss_ByService :: "string \<rightharpoonup> int"
  ss_ByStatus :: "string \<rightharpoonup> int"

record complianceSummary =
  sm_TotalEvents :: int
  sm_ConsentGrants :: int
  sm_ConsentRevocations :: int
  sm_DataDeletions :: int
  sm_DataExports :: int
  sm_VerificationCount :: int

record complianceFinding =
  cf_Severity :: string
  cf_Finding :: string
  cf_Recommendation :: string

record complianceReport =
  rp_ReportID :: ident
  rp_ReportType :: string
  rp_GeneratedAt :: time
  rp_From :: string
  rp_To :: string
  rp_Summary :: complianceSummary
  rp_ComplianceStatus :: string
  rp_Findings :: "complianceFinding list"

datatype audit_body =
    EventBody AuditEvent
  | QueryBody queryResponse
  | StatsBody statsResponse
  | ReportBody complianceReport

type_synonym audit_answer = "(audit_err, audit_body) answer"

text \<open>The decoded request body has the fields of an event other than its ID and time.\<close>

definition IngestEvent :: "'s AuditStore \<Rightarrow> AuditEvent option \<Rightarrow> 's \<Rightarrow> audit_answer \<times> 's" where
  "IngestEvent A body s =
     (case body of
        None \<Rightarrow> (WriteError 400 ''invalid_request'' ''invalid JSON body'', s)
      | Some req \<Rightarrow>
         (let event = req\<lparr>ae_ID := [], ae_CreatedAt := zero_time\<rparr>
          in case as_Append A event s of
               Inl err \<Rightarrow> (WriteErrText 400 ''validation_error'' err, s)
             | Inr (e, s') \<Rightarrow> (WriteJSON 201 (EventBody e), s')))"

definition param_time :: "(string \<Rightarrow> time option) \<Rightarrow> string \<Rightarrow> time" where
  "param_time parse v = (if v \<noteq> [] then (case parse v of Some t \<Rightarrow> t | None \<Rightarrow> zero_time) else zero_time)"

definition param_int :: "(string \<Rightarrow> int option) \<Rightarrow> string \<Rightarrow> int" where
  "param_int atoi v = (if v \<noteq> [] then (case atoi v of Some n \<Rightarrow> n | None \<Rightarrow> 0) else 0)"

definition QueryEvents ::
  "(string \<Rightarrow> time option) \<Rightarrow> (string \<Rightarrow> int option) \<Rightarrow> 's AuditStore \<Rightarrow> (string \<Rightarrow> string) \<Rightarrow> 's \<Rightarrow>
     audit_answer" where
  "QueryEvents parse atoi A q s =
     (let f = \<lparr>af_ActorID = q ''actor_id'', af_ResourceID = q ''resource_id'',
               af_ResourceType = q ''resource_type'', af_EventType = q ''event_type'',
               af_Action = q ''action'', af_ServiceName = q ''service'', af_Status = q ''status'',
               af_From = param_time parse (q ''from''), af_To = param_time parse (q ''to''),
               af_Limit = param_int atoi (q ''limit''), af_Offset = param_int atoi (q ''offset'')\<rparr>
      in case as_Query A f s of
           Inl err \<Rightarrow> WriteErrText 500 ''query_error'' err
         | Inr events \<Rightarrow>
            (case as_Count A f s of
               Inl err \<Rightarrow> WriteErrText 500 ''count_error'' err
             | Inr tot \<Rightarrow> WriteJSON 200 (QueryBody
                 \<lparr>qr_Events = events, qr_Total = tot, qr_Limit = effective_limit (af_Limit f),
                  qr_Offset = af_Offset f\<rparr>)))"

definition GetEvent :: "'s AuditStore \<Rightarrow> ident \<Rightarrow> 's \<Rightarrow> audit_answer" where
  "GetEvent A i s =
     (if i = [] then WriteError 400 ''invalid_request'' ''event ID is required''
      else case as_GetByID A i s of
        Inl err \<Rightarrow> WriteError 404 ''not_found'' ''audit event not found''
      | Inr e \<Rightarrow> WriteJSON 200 (EventBody e))"

section \<open>Statistics\<close>

text \<open>\<open>m[k]++\<close> on a map whose missing entries count as zero.\<close>

definition bump :: "string \<Rightarrow> (string \<rightharpoonup> int) \<Rightarrow> string \<rightharpoonup> int" where
  "bump k m = m(k \<mapsto> (case m k of None \<Rightarrow> 0 | Some n \<Rightarrow> n) + 1)"

definition count_by :: "(AuditEvent \<Rightarrow> string) \<Rightarrow> AuditEvent list \<Rightarrow> string \<rightharpoonup> int" where
  "count_by g es = fold (\<lambda>e. bump (g e)) es Map.empty"

definition GetStats ::
  "(string \<Rightarrow> time option) \<Rightarrow> 's AuditStore \<Rightarrow> (string \<Rightarrow> string) \<Rightarrow> 's \<Rightarrow> audit_answer" where
  "GetStats parse A q s =
     (let f = no_filter\<lparr>af_ServiceName := q ''service'', af_From := param_time parse (q ''from''),
                        af_To := param_time parse (q ''to'')\<rparr>
      in case as_Query A (f\<lparr>af_Limit := 1000000\<rparr>) s of
           Inl err \<Rightarrow> WriteErrText 500 ''stats_error'' err
         | Inr events \<Rightarrow>
            (case as_Count A f s of
               Inl err \<Rightarrow> WriteErrText 500 ''stats_error'' err
             | Inr tot \<Rightarrow> WriteJSON 200 (StatsBody
                 \<lparr>ss_TotalEvents = tot, ss_ByAction = count_by ae_Action events,
                  ss_ByService = count_by ae_ServiceName events, ss_ByStatus = count_by ae_Status events\<rparr>)))"

section \<open>Compliance reports\<close>

record complianceRequest =
  cq_ReportType :: string
  cq_From :: string
  cq_To :: string
  cq_EntityID :: ident

definition validReportTypes :: "string list" where
  "validReportTypes = [''uu_pdp'', ''pp_71_2019'', ''data_access'', ''signing_activity'']"

text \<open>The count of an action; its error is ignored, the count then being zero.\<close>

definition countByAction :: "'s AuditStore \<Rightarrow> AuditFilter \<Rightarrow> string \<Rightarrow> 's \<Rightarrow> int" where
  "countByAction A f action s =
     (case as_Count A (f\<lparr>af_Action := action\<rparr>) s of Inl _ \<Rightarrow> 0 | Inr n \<Rightarrow> n)"

definition buildSummary :: "'s AuditStore \<Rightarrow> AuditFilter \<Rightarrow> int \<Rightarrow> 's \<Rightarrow> complianceSummary" where
  "buildSummary A f tot s =
     \<lparr>sm_TotalEvents = tot,
      sm_ConsentGrants = countByAction A f ''CONSENT_GRANT'' s,
      sm_ConsentRevocations = countByAction A f ''CONSENT_REVOKE'' s,
      sm_DataDeletions = countByAction A f ''DATA_DELETE'' s,
      sm_DataExports = countByAction A f ''DATA_EXPORT'' s,
      sm_VerificationCount = countByAction A f ''VERIFY'' s\<rparr>"

definition finding :: "bool \<Rightarrow> string \<Rightarrow> string \<Rightarrow> string \<Rightarrow> complianceFinding list" where
  "finding c sev text rec =
     (if c then [\<lparr>cf_Severity = sev, cf_Finding = text, cf_Recommendation = rec\<rparr>] else [])"

definition evaluateUUPDP :: "complianceSummary \<Rightarrow> complianceFinding list" where
  "evaluateUUPDP m =
     finding (sm_ConsentGrants m > 0) ''INFO''
       (show_int (sm_ConsentGrants m) @ '' consent grants recorded in period'')
       ''Continue recording all consent activities'' @
     finding (sm_ConsentRevocations m > 0 \<and> sm_DataDeletions m = 0) ''WARNING''
       ''Consent revocations exist but no data deletions recorded''
       ''Verify that data deletion follows consent revocation per UU PDP Article 8'' @
     finding (sm_DataExports m = 0 \<and> sm_TotalEvents m > 0) ''WARNING''
       ''No data export requests recorded in period''
       ''Ensure data portability mechanism is available per UU PDP Article 13'' @
     finding (sm_TotalEvents m = 0) ''INFO''
       ''No events recorded in the specified period''
       ''No compliance issues for empty period''"

text \<open>\<open>to.Sub(from)\<close> saturates at the range of a duration.\<close>

definition evaluatePP71 :: "complianceSummary \<Rightarrow> time \<Rightarrow> time \<Rightarrow> complianceFinding list" where
  "evaluatePP71 m from to =
     (let periodDuration = max (- (2 ^ 63)) (min (2 ^ 63 - 1) (to - from));
          fiveYears = 5 * 365 * 24 * hour
      in finding (periodDuration < fiveYears \<and> sm_TotalEvents m > 0) ''INFO''
           ''Audit period is less than 5 years''
           ''Ensure audit logs are retained for at least 5 years per PP 71/2019'' @
         (if sm_TotalEvents m = 0
          then finding True ''WARNING''
                 (''No audit events found in period '' @ [CHR 0xE2, CHR 0x80, CHR 0x94] @
                  '' potential gap in audit trail'')
                 ''Investigate whether audit logging was active during this period''
          else finding True ''INFO''
                 (''Audit trail contains '' @ show_int (sm_TotalEvents m) @ '' events in period'')
                 ''Continue maintaining comprehensive audit logging''))"

definition evaluateDataAccess :: "complianceSummary \<Rightarrow> complianceFinding list" where
  "evaluateDataAccess m =
     finding (sm_VerificationCount m > 0 \<and> sm_ConsentGrants m = 0) ''CRITICAL''
       ''Data access events exist without any consent grants''
       ''All data access must have a valid consent basis per UU PDP'' @
     finding (sm_VerificationCount m > 0 \<and> sm_ConsentGrants m > 0) ''INFO''
       (show_int (sm_VerificationCount m) @ '' verifications with '' @ show_int (sm_ConsentGrants m) @
        '' consent grants recorded'')
       ''Verify each data access event is linked to a valid consent record'' @
     finding (sm_TotalEvents m = 0) ''INFO''
       ''No data access events in period''
       ''No compliance issues for empty period''"

definition evaluateSigningActivity :: "'s AuditStore \<Rightarrow> complianceSummary \<Rightarrow> 's \<Rightarrow> complianceFinding list" where
  "evaluateSigningActivity A m s =
     (let signCount = countByAction A no_filter ''SIGN'' s
      in finding (signCount > 0) ''INFO''
           (show_int signCount @ '' signing activities recorded'')
           ''Ensure all signatures use valid, non-revoked certificates'' @
         finding (sm_TotalEvents m = 0) ''INFO''
           ''No signing activity in period''
           ''No compliance issues for empty period'')"

definition evaluateCompliance ::
  "'s AuditStore \<Rightarrow> string \<Rightarrow> complianceSummary \<Rightarrow> time \<Rightarrow> time \<Rightarrow> 's \<Rightarrow> complianceFinding list" where
  "evaluateCompliance A reportType m from to s =
     (if reportType = ''uu_pdp'' then evaluateUUPDP m
      else if reportType = ''pp_71_2019'' then evaluatePP71 m from to
      else if reportType = ''data_access'' then evaluateDataAccess m
      else if reportType = ''signing_activity'' then evaluateSigningActivity A m s
      else [])"

fun severity_flags :: "complianceFinding list \<Rightarrow> bool \<Rightarrow> bool \<Rightarrow> bool \<times> bool" where
  "severity_flags [] critical warning = (critical, warning)"
| "severity_flags (f # fs) critical warning =
     severity_flags fs (critical \<or> cf_Severity f = ''CRITICAL'') (warning \<or> cf_Severity f = ''WARNING'')"

definition determineStatus :: "complianceFinding list \<Rightarrow> string" where
  "determineStatus fs =
     (let (hasCritical, hasWarning) = severity_flags fs False False in
      if hasCritical then ''NON_COMPLIANT'' else if hasWarning then ''REVIEW_REQUIRED'' else ''COMPLIANT'')"

definition GenerateReport ::
  "(string \<Rightarrow> time option) \<Rightarrow> ident \<Rightarrow> time \<Rightarrow> 's AuditStore \<Rightarrow> complianceRequest option \<Rightarrow> 's \<Rightarrow>
     audit_answer" where
  "GenerateReport parse reportID now A body s =
     (case body of
        None \<Rightarrow> WriteError 400 ''invalid_request'' ''invalid JSON body''
      | Some req \<Rightarrow>
        if cq_ReportType req \<notin> set validReportTypes
        then WriteError 400 ''invalid_report_type''
          ''invalid report_type: must be one of uu_pdp, pp_71_2019, data_access, signing_activity''
        else if cq_From req = [] \<or> cq_To req = []
        then WriteError 400 ''missing_date_range'' ''from and to date fields are required''
        else case parse (cq_From req) of
          None \<Rightarrow> WriteError 400 ''invalid_date'' ''from must be a valid RFC3339 timestamp''
        | Some fromTime \<Rightarrow>
         (case parse (cq_To req) of
            None \<Rightarrow> WriteError 400 ''invalid_date'' ''to must be a valid RFC3339 timestamp''
          | Some toTime \<Rightarrow>
             (let f0 = no_filter\<lparr>af_From := fromTime, af_To := toTime, af_Limit := 10000\<rparr>;
                  f = (if cq_EntityID req \<noteq> [] then f0\<lparr>af_ActorID := cq_EntityID req\<rparr> else f0)
              in case as_Count A f s of
                   Inl err \<Rightarrow> WriteErrText 500 ''query_error'' err
                 | Inr tot \<Rightarrow>
                    (let summary = buildSummary A f tot s;
                         findings = evaluateCompliance A (cq_ReportType req) summary fromTime toTime s
                     in WriteJSON 200 (ReportBody
                          \<lparr>rp_ReportID = reportID, rp_ReportType = cq_ReportType req,
                           rp_GeneratedAt = rfc3339 now, rp_From = cq_From req, rp_To = cq_To req,
                           rp_Summary = summary, rp_ComplianceStatus = determineStatus findings,
                           rp_Findings = findings\<rparr>)))))"

section \<open>The health of the mesh\<close>

datatype health_reply =
    BadURL string
  | NoReply string
  | Reply nat "(string option) option"

record serviceHealth =
  sh_Name :: string
  sh_URL :: string
  sh_Status :: string
  sh_LatencyMs :: int
  sh_Error :: string

text \<open>
  A reply carries the status code and the JSON body: \<open>None\<close> when it does not decode to an object, else
  the value of its field \<open>status\<close> (\<open>None\<close> when it is not a string).
\<close>

definition checkService :: "(string \<Rightarrow> health_reply \<times> int) \<Rightarrow> string \<Rightarrow> string \<Rightarrow> serviceHealth" where
  "checkService net name url =
     (let (reply, latency) = net url;
          unhealthy = (\<lambda>err. \<lparr>sh_Name = name, sh_URL = url, sh_Status = ''unhealthy'',
                              sh_LatencyMs = latency, sh_Error = err\<rparr>)
      in case reply of
           BadURL e \<Rightarrow> unhealthy e
         | NoReply e \<Rightarrow> unhealthy e
         | Reply code body \<Rightarrow>
             if code \<noteq> 200 then unhealthy ''unexpected status code''
             else (case body of
                     None \<Rightarrow> unhealthy ''invalid response body''
                   | Some st \<Rightarrow>
                       if st \<noteq> Some ''ok'' then unhealthy ''status not ok''
                       else \<lparr>sh_Name = name, sh_URL = url, sh_Status = ''healthy'',
                             sh_LatencyMs = latency, sh_Error = []\<rparr>))"

record meshHealthResponse =
  mh_Status :: string
  mh_Services :: "serviceHealth list"
  mh_HealthyCount :: nat
  mh_UnhealthyCount :: nat
  mh_TotalCount :: nat
  mh_CheckedAt :: time

text \<open>The checks run concurrently; \<open>ks\<close> is the order in which they append their results.\<close>

definition GetMeshHealth ::
  "(string \<Rightarrow> health_reply \<times> int) \<Rightarrow> string list \<Rightarrow> time \<Rightarrow> (string \<rightharpoonup> string) \<Rightarrow> meshHealthResponse" where
  "GetMeshHealth net ks now services =
     (let results = map (\<lambda>k. checkService net k (the (services k))) ks;
          healthy = length (filter (\<lambda>r. sh_Status r = ''healthy'') results);
          unhealthy = length (filter (\<lambda>r. sh_Status r \<noteq> ''healthy'') results)
      in \<lparr>mh_Status = (if unhealthy = 0 then ''healthy'' else if healthy = 0 then ''critical'' else ''degraded''),
          mh_Services = results, mh_HealthyCount = healthy, mh_UnhealthyCount = unhealthy,
          mh_TotalCount = length results, mh_CheckedAt = rfc3339 now\<rparr>)"

section \<open>Lemmas\<close>

lemma severity_flags_spec:
  "severity_flags fs c w =
     (c \<or> (\<exists>f\<in>set fs. cf_Severity f = ''CRITICAL''), w \<or> (\<exists>f\<in>set fs. cf_Severity f = ''WARNING''))"
  by (induction fs c w rule: severity_flags.induct) auto

lemma bex_finding [simp]:
  "(\<exists>f\<in>set (finding c sev t r). P f) \<longleftrightarrow>
     c \<and> P \<lparr>cf_Severity = sev, cf_Finding = t, cf_Recommendation = r\<rparr>"
  by (simp add: finding_def)

lemma set_finding [simp]:
  "f \<in> set (finding c sev t r) \<longleftrightarrow> c \<and> f = \<lparr>cf_Severity = sev, cf_Finding = t, cf_Recommendation = r\<rparr>"
  by (auto simp: finding_def)

lemma count_by_fold:
  "fold (\<lambda>e. bump (g e)) es m k = (let c = int (length (filter (\<lambda>e. g e = k) es)) in
     if c = 0 then m k else Some ((case m k of None \<Rightarrow> 0 | Some n \<Rightarrow> n) + c))"
proof (induction es arbitrary: m)
  case (Cons e es)
  show ?case
    by (simp add: Cons.IH Let_def) (auto simp: bump_def split: option.splits)
qed simp

lemma count_by_spec:
  "count_by g es k = (let c = int (length (filter (\<lambda>e. g e = k) es)) in if c = 0 then None else Some c)"
  by (simp add: count_by_def count_by_fold Let_def)

lemma sum_count_by: "(\<Sum>k\<in>dom (count_by g es). the (count_by g es k)) = int (length es)"
proof -
  have d: "dom (count_by g es) = g ` set es"
    by (force simp: dom_def count_by_spec Let_def filter_empty_conv split: if_splits)
  have "the (count_by g es k) = int (length (filter (\<lambda>e. g e = k) es))" if "k \<in> g ` set es" for k
    using that by (auto simp: count_by_spec Let_def filter_empty_conv)
  then have "(\<Sum>k\<in>g ` set es. the (count_by g es k)) = (\<Sum>k\<in>g ` set es. int (length (filter (\<lambda>e. g e = k) es)))"
    by (intro sum.cong) simp_all
  also have "\<dots> = int (length es)" using sum_length_filter [of "g ` set es" g es] by (simp flip: of_nat_sum)
  finally show ?thesis by (simp add: d)
qed

lemma matches_limit [simp]: "matchesFilter e (f\<lparr>af_Limit := l\<rparr>) = matchesFilter e f"
  by (simp add: matchesFilter_def)


section \<open>Runs of the in-memory service\<close>

inductive audit_run :: "(nat \<Rightarrow> ident) \<Rightarrow> audit \<Rightarrow> audit \<Rightarrow> bool" for rand :: "nat \<Rightarrow> ident" where
  audit_refl: "audit_run rand s s"
| audit_next: "audit_run rand s s' \<Longrightarrow>
    IngestEvent (InMemoryAuditStore rand order now) body s' = (ans, s'') \<Longrightarrow> audit_run rand s s''"

definition audit_inv :: "(nat \<Rightarrow> ident) \<Rightarrow> audit \<Rightarrow> bool" where
  "audit_inv rand s \<longleftrightarrow>
     (\<forall>i e. au_byID s i = Some e \<longleftrightarrow> e \<in> set (au_events s) \<and> ae_ID e = i) \<and>
     (\<forall>e\<in>set (au_events s). drawn rand (au_drawn s) (ae_ID e))"

lemma audit_inv_init: "audit_inv rand audit_init"
  by (simp add: audit_inv_def audit_init_def)

lemma IngestEvent_memory:
  assumes "IngestEvent (InMemoryAuditStore rand order now) body s = (ans, s')"
  shows "is_error ans \<and> s' = s \<or> (\<exists>e. ans = WriteJSON 201 (EventBody e) \<and> ae_ID e = rand (au_drawn s) \<and>
    ae_CreatedAt e = now \<and> s' = s\<lparr>au_events := au_events s @ [e], au_byID := (au_byID s)(ae_ID e \<mapsto> e),
                       au_drawn := Suc (au_drawn s)\<rparr>)"
  using assms
  by (auto simp: IngestEvent_def InMemoryAuditStore_def audit_Append_def with_defaults_fields Let_def
      split: option.splits sum.splits)

lemma IngestEvent_inv:
  assumes inj: "inj rand" and inv: "audit_inv rand s"
    and st: "IngestEvent (InMemoryAuditStore rand order now) body s = (ans, s')"
  shows "audit_inv rand s'"
  using IngestEvent_memory [OF st]
proof
  assume "\<exists>e. ans = WriteJSON 201 (EventBody e) \<and> ae_ID e = rand (au_drawn s) \<and>
    ae_CreatedAt e = now \<and> s' = s\<lparr>au_events := au_events s @ [e], au_byID := (au_byID s)(ae_ID e \<mapsto> e),
                       au_drawn := Suc (au_drawn s)\<rparr>"
  then obtain e where e: "ae_ID e = rand (au_drawn s)"
    and s': "s' = s\<lparr>au_events := au_events s @ [e], au_byID := (au_byID s)(ae_ID e \<mapsto> e),
                       au_drawn := Suc (au_drawn s)\<rparr>" by blast
  have new: "ae_ID x \<noteq> ae_ID e" if "x \<in> set (au_events s)" for x
    using inv that e drawn_fresh [OF inj, of "au_drawn s" "au_drawn s"] by (auto simp: audit_inv_def)
  have "au_byID s' i = Some x \<longleftrightarrow> x \<in> set (au_events s') \<and> ae_ID x = i" for i x
    using inv new by (auto simp: s' audit_inv_def)
  moreover have "\<forall>x\<in>set (au_events s'). drawn rand (au_drawn s') (ae_ID x)"
    using inv e by (auto simp: s' audit_inv_def)
  ultimately show ?thesis by (simp add: audit_inv_def)
qed (use inv in simp)

lemma audit_run_inv:
  "audit_run rand s s' \<Longrightarrow> inj rand \<Longrightarrow> audit_inv rand s \<Longrightarrow>
     audit_inv rand s' \<and> (\<exists>es. au_events s' = au_events s @ es)"
proof (induction rule: audit_run.induct)
  case (audit_next s s' order now body ans s'')
  then have "audit_inv rand s''" using IngestEvent_inv by blast
  moreover have "\<exists>es. au_events s'' = au_events s' @ es"
    using IngestEvent_memory [OF audit_next.hyps(2)] by auto
  ultimately show ?case using audit_next by (metis append_assoc)
qed auto

section \<open>Properties\<close>

text \<open>
  C5. The trail is append-only: whatever is ingested afterwards, an event that was accepted keeps its
  place in the trail and is returned unchanged under its ID; a refused event changes nothing.
\<close>

theorem audit_append_only:
  assumes "inj rand" "audit_inv rand s0" "audit_run rand s0 s"
    and "IngestEvent (InMemoryAuditStore rand order now) body s = (ans, s1)" "audit_run rand s1 s2"
  shows "if is_error ans then s1 = s else \<exists>e es. ans = WriteJSON 201 (EventBody e) \<and>
      au_events s2 = au_events s @ e # es \<and>
      (ae_ID e \<noteq> [] \<longrightarrow> GetEvent (InMemoryAuditStore rand order' now') (ae_ID e) s2 = WriteJSON 200 (EventBody e))"
proof (cases "is_error ans")
  case True
  with IngestEvent_memory [OF assms(4)] show ?thesis by auto
next
  case False
  with IngestEvent_memory [OF assms(4)] obtain e where e: "ans = WriteJSON 201 (EventBody e)"
    and s1: "au_events s1 = au_events s @ [e]" by auto
  have "audit_inv rand s1"
    using IngestEvent_inv [OF assms(1) _ assms(4)] audit_run_inv [OF assms(3,1,2)] by blast
  from audit_run_inv [OF assms(5,1) this] obtain es where inv2: "audit_inv rand s2"
    and es: "au_events s2 = au_events s1 @ es" by blast
  have "e \<in> set (au_events s2)" by (simp add: es s1)
  with inv2 have "au_byID s2 (ae_ID e) = Some e" unfolding audit_inv_def by blast
  then have "ae_ID e \<noteq> [] \<longrightarrow> GetEvent (InMemoryAuditStore rand order' now') (ae_ID e) s2 = WriteJSON 200 (EventBody e)"
    by (simp add: GetEvent_def InMemoryAuditStore_def audit_GetByID_def)
  moreover have "au_events s2 = au_events s @ e # es" by (simp add: es s1)
  ultimately show ?thesis using False e by auto
qed

text \<open>
  C10. The SQL conditions mean what the in-memory filter means: for every filter and event, the
  \<open>WHERE\<close> clause built with numbered placeholders, evaluated with its argument list and with NULL for
  empty optional columns, accepts the event exactly when \<open>matchesFilter\<close> does.
\<close>

theorem sql_filter_equivalence:
  "where_clause (buildFilterConditions f) e \<longleftrightarrow> matchesFilter e f"
  by (rule where_matches)

lemma concat_pages:
  "concat (map (\<lambda>k. take L (drop (k * L) xs)) [0..<n]) = take (n * L) xs"
proof (induction n)
  case (Suc n)
  then have "concat (map (\<lambda>k. take L (drop (k * L) xs)) [0..<Suc n]) = take (n * L) xs @ take L (drop (n * L) xs)"
    by simp
  also have "\<dots> = take (n * L + L) xs" by (simp add: take_add)
  finally show ?case by (simp add: algebra_simps)
qed simp

lemma page_limit:
  assumes "1 \<le> L" "L \<le> 1000"
  shows "page (f\<lparr>af_Limit := int L, af_Offset := int (k * L)\<rparr>) es =
    take L (drop (k * L) (filter (\<lambda>e. matchesFilter e f) es))"
proof -
  have "matchesFilter e (f\<lparr>af_Limit := int L, af_Offset := int (k * L)\<rparr>) = matchesFilter e f" for e
    by (simp add: matchesFilter_def)
  moreover have "nat (int k * int L) = k * L" by (simp add: nat_mult_distrib)
  ultimately show ?thesis using assms by (simp add: page_def)
qed


text \<open>
  Statistics: each of the three breakdowns adds up to the total number of matching events as long
  as there are at most 1000 of them; beyond that they add up to 1000 only, because \<open>Query\<close> caps the
  limit of 1000000 that the handler passes to "get all".
\<close>

theorem stats_breakdown:
  assumes "GetStats parse (InMemoryAuditStore rand order now) q s = WriteJSON 200 (StatsBody r)"
  shows "(\<Sum>k\<in>dom (ss_ByAction r). the (ss_ByAction r k)) = min 1000 (ss_TotalEvents r) \<and>
    (\<Sum>k\<in>dom (ss_ByService r). the (ss_ByService r k)) = min 1000 (ss_TotalEvents r) \<and>
    (\<Sum>k\<in>dom (ss_ByStatus r). the (ss_ByStatus r k)) = min 1000 (ss_TotalEvents r)"
proof -
  let ?f = "no_filter\<lparr>af_ServiceName := q ''service'', af_From := param_time parse (q ''from''),
                        af_To := param_time parse (q ''to'')\<rparr>"
  let ?es = "page (?f\<lparr>af_Limit := 1000000\<rparr>) (au_events s)"
  from assms have r: "ss_TotalEvents r = int (length (filter (\<lambda>e. matchesFilter e ?f) (au_events s)))"
    "ss_ByAction r = count_by ae_Action ?es" "ss_ByService r = count_by ae_ServiceName ?es"
    "ss_ByStatus r = count_by ae_Status ?es"
    by (auto simp: GetStats_def InMemoryAuditStore_def audit_Query_page audit_Count_length Let_def)
  have "?es = take 1000 (filter (\<lambda>e. matchesFilter e ?f) (au_events s))"
    by (simp add: page_def effective_limit_def no_filter_def matchesFilter_def)
  then have "int (length ?es) = min 1000 (ss_TotalEvents r)" by (simp add: r(1))
  then show ?thesis unfolding r(2,3,4) sum_count_by by simp
qed

text \<open>
  The verdict of a compliance report depends on the counts alone: NON_COMPLIANT exactly for a
  data-access report with verifications but no consent grant in the period, REVIEW_REQUIRED exactly
  for a UU PDP report with revocations but no deletions, or with events but no data export, or for a
  PP 71 report of an empty period, and COMPLIANT otherwise -- so a signing report is always COMPLIANT.
\<close>

theorem compliance_verdict:
  assumes "GenerateReport parse rid now A (Some req) s = WriteJSON 200 (ReportBody r)"
  shows "let m = rp_Summary r; t = cq_ReportType req in
    rp_ReportType r = t \<and>
    (rp_ComplianceStatus r = ''NON_COMPLIANT'' \<longleftrightarrow>
       t = ''data_access'' \<and> sm_VerificationCount m > 0 \<and> sm_ConsentGrants m = 0) \<and>
    (rp_ComplianceStatus r = ''REVIEW_REQUIRED'' \<longleftrightarrow>
       t = ''uu_pdp'' \<and> (sm_ConsentRevocations m > 0 \<and> sm_DataDeletions m = 0 \<or>
                           sm_DataExports m = 0 \<and> sm_TotalEvents m > 0) \<or>
       t = ''pp_71_2019'' \<and> sm_TotalEvents m = 0) \<and>
    (t = ''signing_activity'' \<longrightarrow> rp_ComplianceStatus r = ''COMPLIANT'')"
proof -
  let ?m = "rp_Summary r"
  from assms obtain fromT toT where t: "cq_ReportType req \<in> set validReportTypes"
    and rt: "rp_ReportType r = cq_ReportType req"
    and st: "rp_ComplianceStatus r = determineStatus (evaluateCompliance A (cq_ReportType req) ?m fromT toT s)"
    by (auto simp: GenerateReport_def Let_def split: if_splits option.splits sum.splits)
  let ?fs = "evaluateCompliance A (cq_ReportType req) ?m fromT toT s"
  have c: "(\<exists>f\<in>set ?fs. cf_Severity f = ''CRITICAL'') \<longleftrightarrow>
      cq_ReportType req = ''data_access'' \<and> sm_VerificationCount ?m > 0 \<and> sm_ConsentGrants ?m = 0"
    using t by (auto simp: validReportTypes_def evaluateCompliance_def evaluateUUPDP_def evaluatePP71_def
        evaluateDataAccess_def evaluateSigningActivity_def Let_def bex_Un)
  have w: "(\<exists>f\<in>set ?fs. cf_Severity f = ''WARNING'') \<longleftrightarrow>
      cq_ReportType req = ''uu_pdp'' \<and> (sm_ConsentRevocations ?m > 0 \<and> sm_DataDeletions ?m = 0 \<or>
                           sm_DataExports ?m = 0 \<and> sm_TotalEvents ?m > 0) \<or>
       cq_ReportType req = ''pp_71_2019'' \<and> sm_TotalEvents ?m = 0"
    using t by (auto simp: validReportTypes_def evaluateCompliance_def evaluateUUPDP_def evaluatePP71_def
        evaluateDataAccess_def evaluateSigningActivity_def Let_def bex_Un)
  have "determineStatus ?fs = (if \<exists>f\<in>set ?fs. cf_Severity f = ''CRITICAL'' then ''NON_COMPLIANT''
      else if \<exists>f\<in>set ?fs. cf_Severity f = ''WARNING'' then ''REVIEW_REQUIRED'' else ''COMPLIANT'')"
    by (simp add: determineStatus_def severity_flags_spec)
  then have d: "rp_ComplianceStatus r = (if cq_ReportType req = ''data_access'' \<and> sm_VerificationCount ?m > 0 \<and>
        sm_ConsentGrants ?m = 0 then ''NON_COMPLIANT''
      else if cq_ReportType req = ''uu_pdp'' \<and> (sm_ConsentRevocations ?m > 0 \<and> sm_DataDeletions ?m = 0 \<or>
                           sm_DataExports ?m = 0 \<and> sm_TotalEvents ?m > 0) \<or>
       cq_ReportType req = ''pp_71_2019'' \<and> sm_TotalEvents ?m = 0 then ''REVIEW_REQUIRED'' else ''COMPLIANT'')"
    unfolding st c w .
  show ?thesis unfolding Let_def d rt by auto
qed

definition example_event :: AuditEvent where
  "example_event = \<lparr>ae_ID = [], ae_EventType = ''AUTH'', ae_ActorID = ''u'', ae_ActorType = [],
     ae_ResourceID = [], ae_ResourceType = [], ae_Action = ''LOGIN'', ae_Metadata = Map.empty,
     ae_IPAddress = [], ae_UserAgent = [], ae_ServiceName = [], ae_RequestID = [], ae_Status = [],
     ae_CreatedAt = 0\<rparr>"

abbreviation example_audit :: "audit AuditStore" where
  "example_audit \<equiv> InMemoryAuditStore (\<lambda>n. replicate (Suc n) CHR ''a'') (\<lambda>e. []) 5"

definition example_trail :: audit where
  "example_trail = snd (IngestEvent example_audit (Some example_event) audit_init)"

lemma example_ingested: "\<not> is_error (fst (IngestEvent example_audit (Some example_event) audit_init))"
  by code_simp


theorem audit_append_only_witness:
  "\<exists>e. au_events example_trail = [e] \<and> GetEvent example_audit (ae_ID e) example_trail = WriteJSON 200 (EventBody e)"
proof -
  obtain ans where st: "IngestEvent example_audit (Some example_event) audit_init = (ans, example_trail)"
    and ok: "\<not> is_error ans" using example_ingested by (metis example_trail_def prod.collapse)
  have inj: "inj (\<lambda>n. replicate (Suc n) CHR ''a'')" by (auto simp: inj_def replicate_eq_replicate)
  from IngestEvent_memory [OF st] ok obtain e0 where i0: "ae_ID e0 = replicate (Suc (au_drawn audit_init)) CHR ''a''"
    and t0: "example_trail = audit_init\<lparr>au_events := au_events audit_init @ [e0],
      au_byID := (au_byID audit_init)(ae_ID e0 \<mapsto> e0), au_drawn := Suc (au_drawn audit_init)\<rparr>" by blast
  have e0: "au_events example_trail = [e0]" "ae_ID e0 \<noteq> []"
    unfolding t0 i0 by (simp_all add: audit_init_def)
  from audit_append_only [OF inj audit_inv_init audit_refl st audit_refl, of "\<lambda>e. []" 5] ok e0
  show ?thesis by (auto simp: audit_init_def)
qed

theorem stats_breakdown_witness:
  "\<exists>r. GetStats (\<lambda>t. None) example_audit (\<lambda>n. []) example_trail = WriteJSON 200 (StatsBody r) \<and>
     (\<Sum>k\<in>dom (ss_ByAction r). the (ss_ByAction r k)) = min 1000 (ss_TotalEvents r)"
proof -
  obtain r where "GetStats (\<lambda>t. None) example_audit (\<lambda>n. []) example_trail = WriteJSON 200 (StatsBody r)"
    by (simp add: GetStats_def InMemoryAuditStore_def Let_def)
  with stats_breakdown [OF this] show ?thesis by blast
qed

theorem compliance_verdict_witness:
  "\<exists>r. GenerateReport (\<lambda>t. Some 0) ''r'' 0 example_audit
     (Some \<lparr>cq_ReportType = ''signing_activity'', cq_From = ''a'', cq_To = ''b'', cq_EntityID = []\<rparr>) example_trail
     = WriteJSON 200 (ReportBody r) \<and> rp_ComplianceStatus r = ''COMPLIANT''"
proof -
  let ?req = "\<lparr>cq_ReportType = ''signing_activity'', cq_From = ''a'', cq_To = ''b'', cq_EntityID = []\<rparr>"
  obtain r where r: "GenerateReport (\<lambda>t. Some 0) ''r'' 0 example_audit (Some ?req) example_trail
      = WriteJSON 200 (ReportBody r)"
    by (simp add: GenerateReport_def validReportTypes_def InMemoryAuditStore_def Let_def)
  from compliance_verdict [OF r] r show ?thesis by (simp add: Let_def)
qed

end
