(* ===== verification/Portal_Store.thy ===== *)
theory Portal_Store
  imports GP_Interfaces GP_Text
begin

text \<open>
  The stores of the developer portal (\<open>services/garudaportal/store\<close>): apps, API keys, usage counters,
  webhook subscriptions and deliveries, their interfaces, and the in-memory stores \<open>main.go\<close> wires.
  The interpretation \<open>key_rev\<close> makes the key store a \<open>revocable_store\<close>.
  \<open>uuid.New()\<close> is \<open>rand\<close> with a count of the draws; \<open>ks\<close> arguments are iteration orders of Go maps.
\<close>

section \<open>Apps\<close>

datatype portal_err =
    ErrAppNotFound
  | ErrAppNameEmpty
  | ErrKeyNotFound
  | ErrWebhookNotFound
  | ErrWebhookURLScheme
  | ErrDeliveryNotFound
  | PortalError string

record App =
  ap_ID :: ident
  ap_OwnerUserID :: ident
  ap_Name :: string
  ap_Description :: string
  ap_Environment :: string
  ap_Tier :: string
  ap_DailyLimit :: int
  ap_CallbackURLs :: "string list"
  ap_OAuthClientID :: string
  ap_Status :: string
  ap_CreatedAt :: time
  ap_UpdatedAt :: time

record AppUpdate =
  up_Name :: "string option"
  up_Description :: "string option"
  up_CallbackURLs :: "string list option"

definition app_Create ::
  "ident \<Rightarrow> time \<Rightarrow> App \<Rightarrow> (ident \<rightharpoonup> App) \<Rightarrow> portal_err + App \<times> (ident \<rightharpoonup> App)" where
  "app_Create uid now app m =
     (if ap_Name app = [] then Inl ErrAppNameEmpty
      else let app' = app\<lparr>ap_ID := uid, ap_CreatedAt := now, ap_UpdatedAt := now,
                          ap_Status := (if ap_Status app = [] then ''ACTIVE'' else ap_Status app)\<rparr>
           in Inr (app', m(uid \<mapsto> app')))"

definition app_GetByID :: "ident \<Rightarrow> (ident \<rightharpoonup> App) \<Rightarrow> portal_err + App" where
  "app_GetByID i m = (case m i of None \<Rightarrow> Inl ErrAppNotFound | Some a \<Rightarrow> Inr a)"

definition app_ListByOwner :: "ident list \<Rightarrow> ident \<Rightarrow> (ident \<rightharpoonup> App) \<Rightarrow> App list" where
  "app_ListByOwner ks u m = filter (\<lambda>a. ap_OwnerUserID a = u) (range_vals ks m)"

definition app_Update ::
  "ident \<Rightarrow> AppUpdate \<Rightarrow> time \<Rightarrow> (ident \<rightharpoonup> App) \<Rightarrow> portal_err + App \<times> (ident \<rightharpoonup> App)" where
  "app_Update i u now m =
     (case m i of
        None \<Rightarrow> Inl ErrAppNotFound
      | Some a \<Rightarrow>
         (let a1 = (case up_Name u of None \<Rightarrow> a | Some v \<Rightarrow> a\<lparr>ap_Name := v\<rparr>);
              a2 = (case up_Description u of None \<Rightarrow> a1 | Some v \<Rightarrow> a1\<lparr>ap_Description := v\<rparr>);
              a3 = (case up_CallbackURLs u of None \<Rightarrow> a2 | Some v \<Rightarrow> a2\<lparr>ap_CallbackURLs := v\<rparr>);
              a4 = a3\<lparr>ap_UpdatedAt := now\<rparr>
          in Inr (a4, m(i \<mapsto> a4))))"

section \<open>API keys\<close>

record APIKey =
  ky_ID :: ident
  ky_AppID :: ident
  ky_KeyHash :: string
  ky_KeyPrefix :: string
  ky_Name :: string
  ky_Environment :: string
  ky_Status :: string
  ky_LastUsedAt :: "time option"
  ky_RevokedAt :: "time option"
  ky_ExpiresAt :: "time option"
  ky_CreatedAt :: time

definition stamp_key :: "ident \<Rightarrow> time \<Rightarrow> APIKey \<Rightarrow> APIKey" where
  "stamp_key uid now k = k\<lparr>ky_ID := uid, ky_CreatedAt := now,
     ky_Status := (if ky_Status k = [] then ''ACTIVE'' else ky_Status k)\<rparr>"

definition key_Create ::
  "ident \<Rightarrow> time \<Rightarrow> APIKey \<Rightarrow> (ident \<rightharpoonup> APIKey) \<Rightarrow> APIKey \<times> (ident \<rightharpoonup> APIKey)" where
  "key_Create uid now k m = (let k' = stamp_key uid now k in (k', m(uid \<mapsto> k')))"

definition key_GetByID :: "ident \<Rightarrow> (ident \<rightharpoonup> APIKey) \<Rightarrow> portal_err + APIKey" where
  "key_GetByID i m = (case m i of None \<Rightarrow> Inl ErrKeyNotFound | Some k \<Rightarrow> Inr k)"

definition key_GetByHash :: "ident list \<Rightarrow> string \<Rightarrow> (ident \<rightharpoonup> APIKey) \<Rightarrow> portal_err + APIKey" where
  "key_GetByHash ks h m =
     (case find (\<lambda>k. ky_KeyHash k = h) (range_vals ks m) of
        None \<Rightarrow> Inl ErrKeyNotFound | Some k \<Rightarrow> Inr k)"

definition key_ListByApp :: "ident list \<Rightarrow> ident \<Rightarrow> (ident \<rightharpoonup> APIKey) \<Rightarrow> APIKey list" where
  "key_ListByApp ks a m = filter (\<lambda>k. ky_AppID k = a) (range_vals ks m)"

definition key_Revoke :: "ident \<Rightarrow> time \<Rightarrow> (ident \<rightharpoonup> APIKey) \<Rightarrow> portal_err + (ident \<rightharpoonup> APIKey)" where
  "key_Revoke i now m =
     (case m i of
        None \<Rightarrow> Inl ErrKeyNotFound
      | Some k \<Rightarrow> Inr (m(i \<mapsto> k\<lparr>ky_Status := ''REVOKED'', ky_RevokedAt := Some now\<rparr>)))"

definition key_UpdateLastUsed ::
  "ident \<Rightarrow> time \<Rightarrow> (ident \<rightharpoonup> APIKey) \<Rightarrow> portal_err + (ident \<rightharpoonup> APIKey)" where
  "key_UpdateLastUsed i now m =
     (case m i of
        None \<Rightarrow> Inl ErrKeyNotFound
      | Some k \<Rightarrow> Inr (m(i \<mapsto> k\<lparr>ky_LastUsedAt := Some now\<rparr>)))"

interpretation key_rev: revocable_store
  "\<lambda>m. m" "\<lambda>i t k m. snd (key_Create i t k m)" key_Revoke stamp_key
  "\<lambda>t k. k\<lparr>ky_Status := ''REVOKED'', ky_RevokedAt := Some t\<rparr>" ky_Status
  by unfold_locales (auto simp: key_Create_def key_Revoke_def Let_def split: option.splits)

section \<open>Usage counters\<close>

text \<open>
  A record is kept per app, day and endpoint.
  The key's date string \<open>YYYY-MM-DD\<close> is represented by the number of the day since 1970-01-01; for
  years 0 to 9999 the order of the strings, which the range queries use, is the order of the days.
  Counters are \<open>int64\<close>.
\<close>

abbreviation day :: int where "day \<equiv> 24 * hour"

definition dateKey :: "time \<Rightarrow> int" where
  "dateKey t = t div day"

type_synonym usageKey = "ident \<times> int \<times> string"

record usageRecord =
  ur_Calls :: int
  ur_Errors :: int

record DailyUsage =
  du_Date :: time
  du_Calls :: int
  du_Errors :: int

record EndpointUsage =
  eu_Endpoint :: string
  eu_Calls :: int
  eu_Errors :: int

definition usage_Increment ::
  "time \<Rightarrow> ident \<Rightarrow> string \<Rightarrow> bool \<Rightarrow> (usageKey \<rightharpoonup> usageRecord) \<Rightarrow> usageKey \<rightharpoonup> usageRecord" where
  "usage_Increment now appID endpoint isError m =
     (let key = (appID, dateKey now, endpoint);
          rec = (case m key of None \<Rightarrow> \<lparr>ur_Calls = 0, ur_Errors = 0\<rparr> | Some r \<Rightarrow> r);
          rec1 = rec\<lparr>ur_Calls := i64 (ur_Calls rec + 1)\<rparr>;
          rec2 = (if isError then rec1\<lparr>ur_Errors := i64 (ur_Errors rec1 + 1)\<rparr> else rec1)
      in m(key \<mapsto> rec2))"

definition usage_GetDailyUsage ::
  "usageKey list \<Rightarrow> ident \<Rightarrow> time \<Rightarrow> (usageKey \<rightharpoonup> usageRecord) \<Rightarrow> int" where
  "usage_GetDailyUsage ks appID date m =
     fold (\<lambda>k total. case m k of
             None \<Rightarrow> total
           | Some r \<Rightarrow> if fst k = appID \<and> fst (snd k) = dateKey date then i64 (total + ur_Calls r) else total)
       ks 0"

text \<open>The records of an app between two days, in the order \<open>ks\<close>.\<close>

definition in_period :: "ident \<Rightarrow> time \<Rightarrow> time \<Rightarrow> usageKey \<Rightarrow> bool" where
  "in_period appID fr to k \<longleftrightarrow>
     fst k = appID \<and> \<not> (fst (snd k) < dateKey fr \<or> fst (snd k) > dateKey to)"

definition add_daily :: "int \<Rightarrow> usageRecord \<Rightarrow> (int \<rightharpoonup> DailyUsage) \<Rightarrow> int \<rightharpoonup> DailyUsage" where
  "add_daily d r byDate =
     (let du = (case byDate d of None \<Rightarrow> \<lparr>du_Date = d * day, du_Calls = 0, du_Errors = 0\<rparr> | Some u \<Rightarrow> u)
      in byDate(d \<mapsto> du\<lparr>du_Calls := i64 (du_Calls du + ur_Calls r),
                       du_Errors := i64 (du_Errors du + ur_Errors r)\<rparr>))"

definition daily_totals ::
  "usageKey list \<Rightarrow> ident \<Rightarrow> time \<Rightarrow> time \<Rightarrow> (usageKey \<rightharpoonup> usageRecord) \<Rightarrow> int \<rightharpoonup> DailyUsage" where
  "daily_totals ks appID fr to m =
     fold (\<lambda>k byDate. case m k of
             None \<Rightarrow> byDate
           | Some r \<Rightarrow> if in_period appID fr to k then add_daily (fst (snd k)) r byDate else byDate)
       ks Map.empty"

function usage_days :: "(int \<rightharpoonup> DailyUsage) \<Rightarrow> time \<Rightarrow> time \<Rightarrow> DailyUsage list" where
  "usage_days byDate current until =
     (if current > until then []
      else (case byDate (dateKey current) of None \<Rightarrow> [] | Some du \<Rightarrow> [du]) @
           usage_days byDate (current + day) until)"
  by pat_completeness auto
termination
  by (relation "measure (\<lambda>(byDate, current, until). nat (until + 1 - current))") auto

declare usage_days.simps [simp del]

definition usage_GetUsageRange ::
  "usageKey list \<Rightarrow> ident \<Rightarrow> time \<Rightarrow> time \<Rightarrow> (usageKey \<rightharpoonup> usageRecord) \<Rightarrow> DailyUsage list" where
  "usage_GetUsageRange ks appID fr to m =
     usage_days (daily_totals ks appID fr to m) (fr div day * day) (to div day * day)"

definition add_endpoint ::
  "string \<Rightarrow> usageRecord \<Rightarrow> (string \<rightharpoonup> EndpointUsage) \<Rightarrow> string \<rightharpoonup> EndpointUsage" where
  "add_endpoint e r byEndpoint =
     (let eu = (case byEndpoint e of None \<Rightarrow> \<lparr>eu_Endpoint = e, eu_Calls = 0, eu_Errors = 0\<rparr> | Some u \<Rightarrow> u)
      in byEndpoint(e \<mapsto> eu\<lparr>eu_Calls := i64 (eu_Calls eu + ur_Calls r),
                           eu_Errors := i64 (eu_Errors eu + ur_Errors r)\<rparr>))"

definition usage_GetUsageByEndpoint ::
  "usageKey list \<Rightarrow> string list \<Rightarrow> ident \<Rightarrow> time \<Rightarrow> time \<Rightarrow> (usageKey \<rightharpoonup> usageRecord) \<Rightarrow>
     EndpointUsage list" where
  "usage_GetUsageByEndpoint ks es appID fr to m =
     range_vals es
       (fold (\<lambda>k byEndpoint. case m k of
                None \<Rightarrow> byEndpoint
              | Some r \<Rightarrow> if in_period appID fr to k then add_endpoint (snd (snd k)) r byEndpoint
                          else byEndpoint)
          ks Map.empty)"

section \<open>Webhook subscriptions\<close>

record WebhookSubscription =
  ws_ID :: ident
  ws_AppID :: ident
  ws_URL :: string
  ws_Events :: "string list"
  ws_Secret :: string
  ws_Status :: string
  ws_CreatedAt :: time
  ws_UpdatedAt :: time

definition isValidWebhookURL :: "string \<Rightarrow> bool" where
  "isValidWebhookURL u =
     (if prefix ''https://'' u then True
      else if prefix ''http://localhost'' u \<or> prefix ''http://127.0.0.1'' u then True
      else False)"

definition hook_Create ::
  "ident \<Rightarrow> time \<Rightarrow> WebhookSubscription \<Rightarrow> (ident \<rightharpoonup> WebhookSubscription) \<Rightarrow>
     portal_err + WebhookSubscription \<times> (ident \<rightharpoonup> WebhookSubscription)" where
  "hook_Create uid now w m =
     (if \<not> isValidWebhookURL (ws_URL w) then Inl ErrWebhookURLScheme
      else let w' = w\<lparr>ws_ID := uid, ws_CreatedAt := now, ws_UpdatedAt := now,
                      ws_Status := (if ws_Status w = [] then ''ACTIVE'' else ws_Status w)\<rparr>
           in Inr (w', m(uid \<mapsto> w')))"

definition hook_GetByID ::
  "ident \<Rightarrow> (ident \<rightharpoonup> WebhookSubscription) \<Rightarrow> portal_err + WebhookSubscription" where
  "hook_GetByID i m = (case m i of None \<Rightarrow> Inl ErrWebhookNotFound | Some w \<Rightarrow> Inr w)"

definition hook_ListByApp ::
  "ident list \<Rightarrow> ident \<Rightarrow> (ident \<rightharpoonup> WebhookSubscription) \<Rightarrow> WebhookSubscription list" where
  "hook_ListByApp ks a m = filter (\<lambda>w. ws_AppID w = a) (range_vals ks m)"

definition hook_ListByEvent ::
  "ident list \<Rightarrow> string \<Rightarrow> (ident \<rightharpoonup> WebhookSubscription) \<Rightarrow> WebhookSubscription list" where
  "hook_ListByEvent ks ev m =
     filter (\<lambda>w. ws_Status w = ''ACTIVE'' \<and> ev \<in> set (ws_Events w)) (range_vals ks m)"

definition hook_Disable ::
  "ident \<Rightarrow> time \<Rightarrow> (ident \<rightharpoonup> WebhookSubscription) \<Rightarrow> portal_err + (ident \<rightharpoonup> WebhookSubscription)" where
  "hook_Disable i now m =
     (case m i of
        None \<Rightarrow> Inl ErrWebhookNotFound
      | Some w \<Rightarrow> Inr (m(i \<mapsto> w\<lparr>ws_Status := ''DISABLED'', ws_UpdatedAt := now\<rparr>)))"

section \<open>Deliveries\<close>

record WebhookDelivery =
  wd_ID :: ident
  wd_SubscriptionID :: ident
  wd_EventType :: string
  wd_Payload :: string
  wd_Status :: string
  wd_Attempts :: int
  wd_LastResponseCode :: int
  wd_LastResponseBody :: string
  wd_NextRetryAt :: "time option"
  wd_DeliveredAt :: "time option"
  wd_CreatedAt :: time

definition dlv_Create ::
  "ident \<Rightarrow> time \<Rightarrow> WebhookDelivery \<Rightarrow> (ident \<rightharpoonup> WebhookDelivery) \<Rightarrow>
     WebhookDelivery \<times> (ident \<rightharpoonup> WebhookDelivery)" where
  "dlv_Create uid now d m =
     (let d' = d\<lparr>wd_ID := uid, wd_CreatedAt := now,
                 wd_Status := (if wd_Status d = [] then ''PENDING'' else wd_Status d)\<rparr>
      in (d', m(uid \<mapsto> d')))"

definition dlv_GetByID :: "ident \<Rightarrow> (ident \<rightharpoonup> WebhookDelivery) \<Rightarrow> portal_err + WebhookDelivery" where
  "dlv_GetByID i m = (case m i of None \<Rightarrow> Inl ErrDeliveryNotFound | Some d \<Rightarrow> Inr d)"

definition dlv_UpdateStatus ::
  "ident \<Rightarrow> string \<Rightarrow> int \<Rightarrow> string \<Rightarrow> time option \<Rightarrow> time \<Rightarrow> (ident \<rightharpoonup> WebhookDelivery) \<Rightarrow>
     portal_err + (ident \<rightharpoonup> WebhookDelivery)" where
  "dlv_UpdateStatus i status code body nextRetry now m =
     (case m i of
        None \<Rightarrow> Inl ErrDeliveryNotFound
      | Some d \<Rightarrow>
         (let d1 = d\<lparr>wd_Status := status, wd_LastResponseCode := code, wd_LastResponseBody := body,
                     wd_Attempts := i64 (wd_Attempts d + 1), wd_NextRetryAt := nextRetry\<rparr>;
              d2 = (if status = ''DELIVERED'' then d1\<lparr>wd_DeliveredAt := Some now\<rparr> else d1)
          in Inr (m(i \<mapsto> d2))))"

definition due :: "time \<Rightarrow> WebhookDelivery \<Rightarrow> bool" where
  "due now d \<longleftrightarrow> wd_Status d = ''PENDING'' \<and>
     (case wd_NextRetryAt d of None \<Rightarrow> True | Some t \<Rightarrow> \<not> t > now)"

definition dlv_ListPending :: "ident list \<Rightarrow> time \<Rightarrow> (ident \<rightharpoonup> WebhookDelivery) \<Rightarrow> WebhookDelivery list" where
  "dlv_ListPending ks now m = filter (due now) (range_vals ks m)"

definition dlv_ListBySubscription ::
  "ident list \<Rightarrow> ident \<Rightarrow> string \<Rightarrow> int \<Rightarrow> (ident \<rightharpoonup> WebhookDelivery) \<Rightarrow> WebhookDelivery list" where
  "dlv_ListBySubscription ks sub status limit m =
     (let limit' = (if limit \<le> 0 then 20 else limit) in
      take (nat limit') (filter (\<lambda>d. wd_SubscriptionID d = sub \<and> (status = [] \<or> wd_Status d = status))
                           (range_vals ks m)))"

definition dlv_ResetForReplay ::
  "ident \<Rightarrow> (ident \<rightharpoonup> WebhookDelivery) \<Rightarrow> portal_err + (ident \<rightharpoonup> WebhookDelivery)" where
  "dlv_ResetForReplay i m =
     (case m i of
        None \<Rightarrow> Inl ErrDeliveryNotFound
      | Some d \<Rightarrow> Inr (m(i \<mapsto> d\<lparr>wd_Status := ''PENDING'', wd_Attempts := 0, wd_NextRetryAt := None,
                              wd_DeliveredAt := None\<rparr>)))"

section \<open>The world and the interfaces\<close>

record portal =
  po_apps :: "ident \<rightharpoonup> App"
  po_keys :: "ident \<rightharpoonup> APIKey"
  po_usage :: "usageKey \<rightharpoonup> usageRecord"
  po_hooks :: "ident \<rightharpoonup> WebhookSubscription"
  po_deliveries :: "ident \<rightharpoonup> WebhookDelivery"
  po_drawn :: nat

definition portal_init :: portal where
  "portal_init = \<lparr>po_apps = Map.empty, po_keys = Map.empty, po_usage = Map.empty,
     po_hooks = Map.empty, po_deliveries = Map.empty, po_drawn = 0\<rparr>"

record 's AppStore =
  ax_Create :: "App \<Rightarrow> 's \<Rightarrow> portal_err + App \<times> 's"
  ax_GetByID :: "ident \<Rightarrow> 's \<Rightarrow> portal_err + App"
  ax_ListByOwner :: "ident \<Rightarrow> 's \<Rightarrow> portal_err + App list"
  ax_Update :: "ident \<Rightarrow> AppUpdate \<Rightarrow> 's \<Rightarrow> portal_err + App \<times> 's"

record 's KeyStore =
  kx_Create :: "APIKey \<Rightarrow> 's \<Rightarrow> portal_err + APIKey \<times> 's"
  kx_GetByID :: "ident \<Rightarrow> 's \<Rightarrow> portal_err + APIKey"
  kx_GetByHash :: "string \<Rightarrow> 's \<Rightarrow> portal_err + APIKey"
  kx_ListByApp :: "ident \<Rightarrow> 's \<Rightarrow> portal_err + APIKey list"
  kx_Revoke :: "ident \<Rightarrow> 's \<Rightarrow> portal_err + 's"
  kx_UpdateLastUsed :: "ident \<Rightarrow> 's \<Rightarrow> portal_err + 's"

record 's UsageStore =
  ux_Increment :: "ident \<Rightarrow> string \<Rightarrow> bool \<Rightarrow> 's \<Rightarrow> portal_err + 's"
  ux_GetDailyUsage :: "ident \<Rightarrow> time \<Rightarrow> 's \<Rightarrow> portal_err + int"
  ux_GetUsageRange :: "ident \<Rightarrow> time \<Rightarrow> time \<Rightarrow> 's \<Rightarrow> portal_err + DailyUsage list"
  ux_GetUsageByEndpoint :: "ident \<Rightarrow> time \<Rightarrow> time \<Rightarrow> 's \<Rightarrow> portal_err + EndpointUsage list"

record 's WebhookStore =
  wx_Create :: "WebhookSubscription \<Rightarrow> 's \<Rightarrow> portal_err + WebhookSubscription \<times> 's"
  wx_GetByID :: "ident \<Rightarrow> 's \<Rightarrow> portal_err + WebhookSubscription"
  wx_ListByApp :: "ident \<Rightarrow> 's \<Rightarrow> portal_err + WebhookSubscription list"
  wx_ListByEvent :: "string \<Rightarrow> 's \<Rightarrow> portal_err + WebhookSubscription list"
  wx_Disable :: "ident \<Rightarrow> 's \<Rightarrow> portal_err + 's"

record 's DeliveryStore =
  dx_Create :: "WebhookDelivery \<Rightarrow> 's \<Rightarrow> portal_err + WebhookDelivery \<times> 's"
  dx_GetByID :: "ident \<Rightarrow> 's \<Rightarrow> portal_err + WebhookDelivery"
  dx_UpdateStatus :: "ident \<Rightarrow> string \<Rightarrow> int \<Rightarrow> string \<Rightarrow> time option \<Rightarrow> 's \<Rightarrow> portal_err + 's"
  dx_ListPending :: "'s \<Rightarrow> portal_err + WebhookDelivery list"
  dx_ListBySubscription :: "ident \<Rightarrow> string \<Rightarrow> int \<Rightarrow> 's \<Rightarrow> portal_err + WebhookDelivery list"
  dx_ResetForReplay :: "ident \<Rightarrow> 's \<Rightarrow> portal_err + 's"

definition InMemoryAppStore :: "(nat \<Rightarrow> ident) \<Rightarrow> time \<Rightarrow> ident list \<Rightarrow> portal AppStore" where
  "InMemoryAppStore rand now ks = \<lparr>
     ax_Create = (\<lambda>a s. map_sum id (\<lambda>(a', m). (a', s\<lparr>po_apps := m, po_drawn := Suc (po_drawn s)\<rparr>))
       (app_Create (rand (po_drawn s)) now a (po_apps s))),
     ax_GetByID = (\<lambda>i s. app_GetByID i (po_apps s)),
     ax_ListByOwner = (\<lambda>u s. Inr (app_ListByOwner ks u (po_apps s))),
     ax_Update = (\<lambda>i u s. map_sum id (\<lambda>(a, m). (a, s\<lparr>po_apps := m\<rparr>)) (app_Update i u now (po_apps s)))\<rparr>"

definition InMemoryKeyStore :: "(nat \<Rightarrow> ident) \<Rightarrow> time \<Rightarrow> ident list \<Rightarrow> portal KeyStore" where
  "InMemoryKeyStore rand now ks = \<lparr>
     kx_Create = (\<lambda>k s. let (k', m) = key_Create (rand (po_drawn s)) now k (po_keys s)
       in Inr (k', s\<lparr>po_keys := m, po_drawn := Suc (po_drawn s)\<rparr>)),
     kx_GetByID = (\<lambda>i s. key_GetByID i (po_keys s)),
     kx_GetByHash = (\<lambda>h s. key_GetByHash ks h (po_keys s)),
     kx_ListByApp = (\<lambda>a s. Inr (key_ListByApp ks a (po_keys s))),
     kx_Revoke = (\<lambda>i s. map_sum id (\<lambda>m. s\<lparr>po_keys := m\<rparr>) (key_Revoke i now (po_keys s))),
     kx_UpdateLastUsed = (\<lambda>i s. map_sum id (\<lambda>m. s\<lparr>po_keys := m\<rparr>)
       (key_UpdateLastUsed i now (po_keys s)))\<rparr>"

definition InMemoryUsageStore :: "time \<Rightarrow> usageKey list \<Rightarrow> string list \<Rightarrow> portal UsageStore" where
  "InMemoryUsageStore now ks es = \<lparr>
     ux_Increment = (\<lambda>a e b s. Inr (s\<lparr>po_usage := usage_Increment now a e b (po_usage s)\<rparr>)),
     ux_GetDailyUsage = (\<lambda>a t s. Inr (usage_GetDailyUsage ks a t (po_usage s))),
     ux_GetUsageRange = (\<lambda>a fr to s. Inr (usage_GetUsageRange ks a fr to (po_usage s))),
     ux_GetUsageByEndpoint = (\<lambda>a fr to s. Inr (usage_GetUsageByEndpoint ks es a fr to (po_usage s)))\<rparr>"

definition InMemoryWebhookStore :: "(nat \<Rightarrow> ident) \<Rightarrow> time \<Rightarrow> ident list \<Rightarrow> portal WebhookStore" where
  "InMemoryWebhookStore rand now ks = \<lparr>
     wx_Create = (\<lambda>w s. map_sum id (\<lambda>(w', m). (w', s\<lparr>po_hooks := m, po_drawn := Suc (po_drawn s)\<rparr>))
       (hook_Create (rand (po_drawn s)) now w (po_hooks s))),
     wx_GetByID = (\<lambda>i s. hook_GetByID i (po_hooks s)),
     wx_ListByApp = (\<lambda>a s. Inr (hook_ListByApp ks a (po_hooks s))),
     wx_ListByEvent = (\<lambda>ev s. Inr (hook_ListByEvent ks ev (po_hooks s))),
     wx_Disable = (\<lambda>i s. map_sum id (\<lambda>m. s\<lparr>po_hooks := m\<rparr>) (hook_Disable i now (po_hooks s)))\<rparr>"

definition InMemoryDeliveryStore :: "(nat \<Rightarrow> ident) \<Rightarrow> time \<Rightarrow> ident list \<Rightarrow> portal DeliveryStore" where
  "InMemoryDeliveryStore rand now ks = \<lparr>
     dx_Create = (\<lambda>d s. let (d', m) = dlv_Create (rand (po_drawn s)) now d (po_deliveries s)
       in Inr (d', s\<lparr>po_deliveries := m, po_drawn := Suc (po_drawn s)\<rparr>)),
     dx_GetByID = (\<lambda>i s. dlv_GetByID i (po_deliveries s)),
     dx_UpdateStatus = (\<lambda>i st c b nr s. map_sum id (\<lambda>m. s\<lparr>po_deliveries := m\<rparr>)
       (dlv_UpdateStatus i st c b nr now (po_deliveries s))),
     dx_ListPending = (\<lambda>s. Inr (dlv_ListPending ks now (po_deliveries s))),
     dx_ListBySubscription = (\<lambda>sub st l s. Inr (dlv_ListBySubscription ks sub st l (po_deliveries s))),
     dx_ResetForReplay = (\<lambda>i s. map_sum id (\<lambda>m. s\<lparr>po_deliveries := m\<rparr>)
       (dlv_ResetForReplay i (po_deliveries s)))\<rparr>"

end
