(* ===== verification/Portal_Keys.thy ===== *)
theory Portal_Keys
  imports Portal_Store
begin

text \<open>
  API keys of the developer portal: their generation and hashing (\<open>apikey/generator.go\<close>), their
  validation (\<open>apikey/validator.go\<close>, \<open>handler/validate.go\<close>), and the handlers that manage apps and keys
  (\<open>handler/app.go\<close>, \<open>handler/key.go\<close>, \<open>handler/rotation.go\<close>).
  SHA-256 is the parameter \<open>sha\<close>, the result of \<open>rand.Read\<close> an option of the bytes read.
  A panic (a slice out of range) is \<open>None\<close>.
\<close>

section \<open>Base 62\<close>

definition base62Alphabet :: string where
  "base62Alphabet = ''0123456789abcdefghijklmnopqrstuvwxyzABCDEFGHIJKLMNOPQRSTUVWXYZ''"

text \<open>The loop appends the digits, least significant first.\<close>

function base62_loop :: "nat \<Rightarrow> string \<Rightarrow> string" where
  "base62_loop num result =
     (if num > 0 then base62_loop (num div 62) (result @ [base62Alphabet ! (num mod 62)]) else result)"
  by pat_completeness auto
termination
  by (relation "measure fst") auto

declare base62_loop.simps [simp del]

definition encodeBase62 :: "string \<Rightarrow> string" where
  "encodeBase62 data =
     (let num = of_base 256 (map byte data) in
      if num = 0 then [base62Alphabet ! 0] else rev (base62_loop num []))"

lemma base62_loop_acc: "base62_loop num result = result @ base62_loop num []"
proof (induction num arbitrary: result rule: less_induct)
  case (less num)
  show ?case
  proof (cases "num > 0")
    case True
    then have IH: "base62_loop (num div 62) r = r @ base62_loop (num div 62) []" for r
      by (intro less.IH) simp
    show ?thesis
      using True IH [of "result @ [base62Alphabet ! (num mod 62)]"] IH [of "[base62Alphabet ! (num mod 62)]"]
      by (simp add: base62_loop.simps [of num result] base62_loop.simps [of num "[]"])
  next
    case False
    then show ?thesis by (simp add: base62_loop.simps [of 0])
  qed
qed

lemma base62_loop_digits:
  "0 < num \<Longrightarrow> rev (base62_loop num []) = map ((!) base62Alphabet) (to_base 62 num)"
proof (induction num rule: less_induct)
  case (less num)
  have step: "rev (base62_loop num []) = rev (base62_loop (num div 62) []) @ [base62Alphabet ! (num mod 62)]"
    using less.prems base62_loop_acc [of "num div 62" "[base62Alphabet ! (num mod 62)]"]
    by (subst base62_loop.simps) simp
  show ?case
  proof (cases "num < 62")
    case True
    with to_base.simps [of 62 num] show ?thesis unfolding step by (simp add: base62_loop.simps)
  next
    case False
    then have "0 < num div 62" "num div 62 < num" using less.prems by (auto simp: div_greater_zero_iff)
    with less.IH False to_base.simps [of 62 num] show ?thesis unfolding step by simp
  qed
qed

lemma encodeBase62_digits:
  "encodeBase62 data = map ((!) base62Alphabet) (to_base 62 (of_base 256 (map byte data)))"
proof (cases "of_base 256 (map byte data) = 0")
  case True
  then show ?thesis by (simp add: encodeBase62_def Let_def) (subst to_base.simps, simp)
qed (simp add: encodeBase62_def Let_def base62_loop_digits)

lemma base62_digit_inj: "i < 62 \<Longrightarrow> j < 62 \<Longrightarrow> base62Alphabet ! i = base62Alphabet ! j \<Longrightarrow> i = j"
proof -
  have "distinct base62Alphabet" "length base62Alphabet = 62" by (simp_all add: base62Alphabet_def)
  then show "i < 62 \<Longrightarrow> j < 62 \<Longrightarrow> base62Alphabet ! i = base62Alphabet ! j \<Longrightarrow> i = j"
    by (simp add: nth_eq_iff_index_eq)
qed

lemma map_inj_on_eq: "inj_on f A \<Longrightarrow> set xs \<subseteq> A \<Longrightarrow> set ys \<subseteq> A \<Longrightarrow> map f xs = map f ys \<Longrightarrow> xs = ys"
  by (rule map_inj_on [of f]) (auto intro: inj_on_subset)

lemma encodeBase62_num:
  "encodeBase62 d = encodeBase62 e \<longleftrightarrow> of_base 256 (map byte d) = of_base 256 (map byte e)"
proof
  assume eq: "encodeBase62 d = encodeBase62 e"
  have inj: "inj_on ((!) base62Alphabet) {..<62}"
    by (rule inj_onI) (auto intro: base62_digit_inj)
  have "to_base 62 (of_base 256 (map byte d)) = to_base 62 (of_base 256 (map byte e))"
    by (rule map_inj_on_eq [OF inj]) (use eq to_base_less [of 62] in \<open>auto simp: encodeBase62_digits\<close>)
  then show "of_base 256 (map byte d) = of_base 256 (map byte e)" by (rule to_base_inj)
qed (simp add: encodeBase62_digits)

lemma encodeBase62_inj: "length d = length e \<Longrightarrow> encodeBase62 d = encodeBase62 e \<Longrightarrow> d = e"
proof -
  assume len: "length d = length e" and eq: "encodeBase62 d = encodeBase62 e"
  have "map byte d = map byte e"
    by (rule of_base_inj [of _ _ 256]) (use len eq byte_less in \<open>auto simp: encodeBase62_num\<close>)
  then show "d = e" by (rule map_injective) (auto simp: byte_def inj_def)
qed

lemma encodeBase62_chars: "set (encodeBase62 d) \<subseteq> set base62Alphabet"
proof -
  have "length base62Alphabet = 62" by (simp add: base62Alphabet_def)
  then show ?thesis using to_base_less [of 62] by (auto simp: encodeBase62_digits)
qed

section \<open>Generation\<close>

definition envPrefix :: "string \<Rightarrow> portal_err + string" where
  "envPrefix env =
     (if env = ''sandbox'' then Inr ''gp_test_''
      else if env = ''production'' then Inr ''gp_live_''
      else Inl (PortalError ''invalid environment''))"

definition HashKey :: "(string \<Rightarrow> string) \<Rightarrow> string \<Rightarrow> string" where
  "HashKey sha key = hex_encode (sha key)"

definition GenerateKey ::
  "(string \<Rightarrow> string) \<Rightarrow> string option \<Rightarrow> string \<Rightarrow> (portal_err + string \<times> string \<times> string) option" where
  "GenerateKey sha rnd environment =
     (case envPrefix environment of
        Inl err \<Rightarrow> Some (Inl err)
      | Inr keyPrefix \<Rightarrow>
         (case rnd of
            None \<Rightarrow> Some (Inl (PortalError ''crypto/rand''))
          | Some buf \<Rightarrow>
             (let plaintext = keyPrefix @ encodeBase62 buf; hash = hex_encode (sha plaintext) in
              if length plaintext < 16 then None
              else Some (Inr (plaintext, hash, take 16 plaintext)))))"

section \<open>Validation\<close>

record KeyInfo =
  ki_ID :: ident
  ki_AppID :: ident
  ki_Status :: string
  ki_Environment :: string
  ki_ExpiresAt :: "time option"

record AppInfo =
  ai_ID :: ident
  ai_Status :: string
  ai_Tier :: string
  ai_DailyLimit :: int

record KeyValidationResult =
  kv_Valid :: bool
  kv_AppID :: ident
  kv_Environment :: string
  kv_Tier :: string
  kv_DailyLimit :: int
  kv_Error :: string

definition invalid :: "string \<Rightarrow> KeyValidationResult" where
  "invalid err = \<lparr>kv_Valid = False, kv_AppID = [], kv_Environment = [], kv_Tier = [],
     kv_DailyLimit = 0, kv_Error = err\<rparr>"

definition Validate ::
  "(string \<Rightarrow> string) \<Rightarrow> (string \<Rightarrow> portal_err + KeyInfo) \<Rightarrow> (ident \<Rightarrow> portal_err + AppInfo) \<Rightarrow>
     (ident \<Rightarrow> portal_err + int) \<Rightarrow> time \<Rightarrow> string \<Rightarrow> portal_err + KeyValidationResult" where
  "Validate sha keys apps usage now apiKey =
     (if apiKey = [] then Inr (invalid ''invalid_key'')
      else case keys (HashKey sha apiKey) of
        Inl _ \<Rightarrow> Inr (invalid ''invalid_key'')
      | Inr keyInfo \<Rightarrow>
        if ki_Status keyInfo \<noteq> ''ACTIVE'' then Inr (invalid ''key_revoked'')
        else if (case ki_ExpiresAt keyInfo of None \<Rightarrow> False | Some e \<Rightarrow> e < now)
        then Inr (invalid ''key_expired'')
        else case apps (ki_AppID keyInfo) of
          Inl _ \<Rightarrow> Inr (invalid ''invalid_key'')
        | Inr appInfo \<Rightarrow>
          if ai_Status appInfo \<noteq> ''ACTIVE'' then Inr (invalid ''app_suspended'')
          else case usage (ki_AppID keyInfo) of
            Inl err \<Rightarrow> Inl err
          | Inr dailyCount \<Rightarrow>
            if dailyCount \<ge> ai_DailyLimit appInfo then Inr (invalid ''rate_limit_exceeded'')
            else Inr \<lparr>kv_Valid = True, kv_AppID = ki_AppID keyInfo,
                      kv_Environment = ki_Environment keyInfo, kv_Tier = ai_Tier appInfo,
                      kv_DailyLimit = ai_DailyLimit appInfo, kv_Error = []\<rparr>)"

text \<open>The adapters from the stores to the interfaces of the validator.\<close>

definition LookupByHash :: "'s KeyStore \<Rightarrow> 's \<Rightarrow> string \<Rightarrow> portal_err + KeyInfo" where
  "LookupByHash K s h = map_sum id (\<lambda>k. \<lparr>ki_ID = ky_ID k, ki_AppID = ky_AppID k,
     ki_Status = ky_Status k, ki_Environment = ky_Environment k, ki_ExpiresAt = ky_ExpiresAt k\<rparr>)
     (kx_GetByHash K h s)"

definition LookupApp :: "'s AppStore \<Rightarrow> 's \<Rightarrow> ident \<Rightarrow> portal_err + AppInfo" where
  "LookupApp A s i = map_sum id (\<lambda>a. \<lparr>ai_ID = ap_ID a, ai_Status = ap_Status a, ai_Tier = ap_Tier a,
     ai_DailyLimit = ap_DailyLimit a\<rparr>) (ax_GetByID A i s)"

definition GetDailyCount :: "'s UsageStore \<Rightarrow> time \<Rightarrow> 's \<Rightarrow> ident \<Rightarrow> portal_err + int" where
  "GetDailyCount U now s appID = ux_GetDailyUsage U appID now s"

datatype portal_body =
    AppBody App
  | AppList "App list"
  | KeyBody APIKey "string option"
  | KeyList "APIKey list"
  | KeyRevoked ident time
  | Rotated APIKey string APIKey
  | Validation KeyValidationResult

type_synonym portal_answer = "(portal_err, portal_body) answer"

text \<open>The time of the last use is updated after a positive answer, an error of that update ignored.\<close>

definition ValidateKey ::
  "(string \<Rightarrow> string) \<Rightarrow> 's AppStore \<Rightarrow> 's KeyStore \<Rightarrow> 's UsageStore \<Rightarrow> time \<Rightarrow> string option \<Rightarrow> 's \<Rightarrow>
     portal_answer \<times> 's" where
  "ValidateKey sha A K U now body s =
     (case body of
        None \<Rightarrow> (WriteError 400 ''invalid_request'' ''Invalid JSON body'', s)
      | Some apiKey \<Rightarrow>
        if apiKey = [] then (WriteJSON 401 (Validation (invalid ''invalid_key'')), s)
        else case Validate sha (LookupByHash K s) (LookupApp A s) (GetDailyCount U now s) now apiKey of
          Inl _ \<Rightarrow> (WriteError 500 ''internal_error'' ''Validation failed'', s)
        | Inr result \<Rightarrow>
          if \<not> kv_Valid result
          then (WriteJSON (if kv_Error result = ''rate_limit_exceeded'' then 429 else 401)
                  (Validation result), s)
          else (WriteJSON 200 (Validation result),
                case kx_GetByHash K (HashKey sha apiKey) s of
                  Inl _ \<Rightarrow> s
                | Inr key \<Rightarrow> (case kx_UpdateLastUsed K (ky_ID key) s of Inl _ \<Rightarrow> s | Inr s' \<Rightarrow> s')))"

section \<open>Apps\<close>

record createAppRequest =
  ca_Name :: string
  ca_Description :: string
  ca_CallbackURLs :: "string list"

definition toAppResponse :: "App \<Rightarrow> App" where
  "toAppResponse a = a\<lparr>ap_CreatedAt := rfc3339 (ap_CreatedAt a), ap_UpdatedAt := rfc3339 (ap_UpdatedAt a)\<rparr>"

definition CreateApp ::
  "'s AppStore \<Rightarrow> ident \<Rightarrow> createAppRequest option \<Rightarrow> 's \<Rightarrow> portal_answer \<times> 's" where
  "CreateApp A userID body s =
     (if userID = [] then (WriteError 401 ''unauthorized'' ''X-User-ID header is required'', s)
      else case body of
        None \<Rightarrow> (WriteError 400 ''invalid_request'' ''Invalid JSON body'', s)
      | Some req \<Rightarrow>
        if ca_Name req = [] then (WriteError 400 ''invalid_request'' ''name is required'', s)
        else case ax_Create A \<lparr>ap_ID = [], ap_OwnerUserID = userID, ap_Name = ca_Name req,
               ap_Description = ca_Description req, ap_Environment = ''sandbox'', ap_Tier = ''free'',
               ap_DailyLimit = 100, ap_CallbackURLs = ca_CallbackURLs req, ap_OAuthClientID = [],
               ap_Status = [], ap_CreatedAt = zero_time, ap_UpdatedAt = zero_time\<rparr> s of
          Inl _ \<Rightarrow> (WriteError 500 ''internal_error'' ''Failed to create app'', s)
        | Inr (app, s') \<Rightarrow> (WriteJSON 201 (AppBody (toAppResponse app)), s'))"

definition ListApps :: "'s AppStore \<Rightarrow> ident \<Rightarrow> 's \<Rightarrow> portal_answer" where
  "ListApps A userID s =
     (if userID = [] then WriteError 401 ''unauthorized'' ''X-User-ID header is required''
      else case ax_ListByOwner A userID s of
        Inl _ \<Rightarrow> WriteError 500 ''internal_error'' ''Failed to list apps''
      | Inr apps \<Rightarrow> WriteJSON 200 (AppList (map toAppResponse apps)))"

text \<open>The check of ownership that every handler of an app begins with.\<close>

definition owned_app :: "'s AppStore \<Rightarrow> ident \<Rightarrow> ident \<Rightarrow> 's \<Rightarrow> (portal_err, 'b) answer + App" where
  "owned_app A userID appID s =
     (case ax_GetByID A appID s of
        Inl err \<Rightarrow>
          Inl (if err = ErrAppNotFound then WriteError 404 ''not_found'' ''App not found''
               else WriteError 500 ''internal_error'' ''Failed to get app'')
      | Inr app \<Rightarrow>
          if ap_OwnerUserID app \<noteq> userID then Inl (WriteError 403 ''forbidden'' ''You do not own this app'')
          else Inr app)"

lemma owned_app_Inl [simp]: "owned_app A u i s \<noteq> Inl (WriteJSON c b)"
  by (auto simp: owned_app_def split: sum.splits)

lemma owned_app_Inr: "owned_app A u i s = Inr a \<longleftrightarrow> ax_GetByID A i s = Inr a \<and> ap_OwnerUserID a = u"
  by (auto simp: owned_app_def split: sum.splits)

lemma owned_app_error: "owned_app A u i s = Inl ans \<Longrightarrow> is_error ans"
  by (cases ans) auto

definition GetApp :: "'s AppStore \<Rightarrow> ident \<Rightarrow> ident \<Rightarrow> 's \<Rightarrow> portal_answer" where
  "GetApp A userID i s =
     (if userID = [] then WriteError 401 ''unauthorized'' ''X-User-ID header is required''
      else if i = [] then WriteError 400 ''invalid_request'' ''app id is required''
      else case owned_app A userID i s of
        Inl ans \<Rightarrow> ans
      | Inr app \<Rightarrow> WriteJSON 200 (AppBody (toAppResponse app)))"

definition UpdateApp ::
  "'s AppStore \<Rightarrow> ident \<Rightarrow> ident \<Rightarrow> AppUpdate option \<Rightarrow> 's \<Rightarrow> portal_answer \<times> 's" where
  "UpdateApp A userID i body s =
     (if userID = [] then (WriteError 401 ''unauthorized'' ''X-User-ID header is required'', s)
      else if i = [] then (WriteError 400 ''invalid_request'' ''app id is required'', s)
      else case owned_app A userID i s of
        Inl ans \<Rightarrow> (ans, s)
      | Inr _ \<Rightarrow>
         (case body of
            None \<Rightarrow> (WriteError 400 ''invalid_request'' ''Invalid JSON body'', s)
          | Some u \<Rightarrow>
             (case ax_Update A i u s of
                Inl _ \<Rightarrow> (WriteError 500 ''internal_error'' ''Failed to update app'', s)
              | Inr (app, s') \<Rightarrow> (WriteJSON 200 (AppBody (toAppResponse app)), s'))))"

section \<open>Keys\<close>

record createKeyRequest =
  ck_Name :: string
  ck_ExpiresInDays :: "int option"

text \<open>The response shows a key without its hash, with whole seconds.\<close>

definition toKeyResponse :: "APIKey \<Rightarrow> APIKey" where
  "toKeyResponse k = k\<lparr>ky_AppID := [], ky_KeyHash := [], ky_RevokedAt := None,
     ky_CreatedAt := rfc3339 (ky_CreatedAt k), ky_LastUsedAt := map_option rfc3339 (ky_LastUsedAt k),
     ky_ExpiresAt := map_option rfc3339 (ky_ExpiresAt k)\<rparr>"

definition key_record ::
  "ident \<Rightarrow> string \<Rightarrow> string \<Rightarrow> string \<Rightarrow> string \<Rightarrow> time option \<Rightarrow> APIKey" where
  "key_record appID hash pfx name env expiry =
     \<lparr>ky_ID = [], ky_AppID = appID, ky_KeyHash = hash, ky_KeyPrefix = pfx, ky_Name = name,
      ky_Environment = env, ky_Status = [], ky_LastUsedAt = None, ky_RevokedAt = None,
      ky_ExpiresAt = expiry, ky_CreatedAt = zero_time\<rparr>"

definition key_expiry :: "time \<Rightarrow> int option \<Rightarrow> time option" where
  "key_expiry now days =
     (case days of
        None \<Rightarrow> None
      | Some d \<Rightarrow> if d > 0 then Some (now + i64 (i64 (d * 24) * hour)) else None)"

definition CreateKey ::
  "(string \<Rightarrow> string) \<Rightarrow> string option \<Rightarrow> time \<Rightarrow> 's AppStore \<Rightarrow> 's KeyStore \<Rightarrow> ident \<Rightarrow> ident \<Rightarrow>
     createKeyRequest option \<Rightarrow> 's \<Rightarrow> (portal_answer \<times> 's) option" where
  "CreateKey sha rnd now A K userID appID body s =
     (if userID = [] then Some (WriteError 401 ''unauthorized'' ''X-User-ID header is required'', s)
      else if appID = [] then Some (WriteError 400 ''invalid_request'' ''app_id is required'', s)
      else case owned_app A userID appID s of
        Inl ans \<Rightarrow> Some (ans, s)
      | Inr app \<Rightarrow>
         (case body of
            None \<Rightarrow> Some (WriteError 400 ''invalid_request'' ''Invalid JSON body'', s)
          | Some req \<Rightarrow>
             (let name = (if ck_Name req = [] then ''Default'' else ck_Name req) in
              case GenerateKey sha rnd (ap_Environment app) of
                None \<Rightarrow> None
              | Some (Inl _) \<Rightarrow> Some (WriteError 500 ''internal_error'' ''Failed to generate key'', s)
              | Some (Inr (plaintext, hash, pfx)) \<Rightarrow>
                 (case kx_Create K (key_record appID hash pfx name (ap_Environment app)
                                      (key_expiry now (ck_ExpiresInDays req))) s of
                    Inl _ \<Rightarrow> Some (WriteError 500 ''internal_error'' ''Failed to create key'', s)
                  | Inr (created, s') \<Rightarrow>
                      Some (WriteJSON 201 (KeyBody (toKeyResponse created) (Some plaintext)), s')))))"

definition ListKeys :: "'s AppStore \<Rightarrow> 's KeyStore \<Rightarrow> ident \<Rightarrow> ident \<Rightarrow> 's \<Rightarrow> portal_answer" where
  "ListKeys A K userID appID s =
     (if userID = [] then WriteError 401 ''unauthorized'' ''X-User-ID header is required''
      else if appID = [] then WriteError 400 ''invalid_request'' ''app_id is required''
      else case owned_app A userID appID s of
        Inl ans \<Rightarrow> ans
      | Inr _ \<Rightarrow>
         (case kx_ListByApp K appID s of
            Inl _ \<Rightarrow> WriteError 500 ''internal_error'' ''Failed to list keys''
          | Inr keys \<Rightarrow> WriteJSON 200 (KeyList (map toKeyResponse keys))))"

definition RevokeKey ::
  "time \<Rightarrow> 's AppStore \<Rightarrow> 's KeyStore \<Rightarrow> ident \<Rightarrow> ident \<Rightarrow> ident \<Rightarrow> 's \<Rightarrow> portal_answer \<times> 's" where
  "RevokeKey now A K userID appID keyID s =
     (if userID = [] then (WriteError 401 ''unauthorized'' ''X-User-ID header is required'', s)
      else case owned_app A userID appID s of
        Inl ans \<Rightarrow> (ans, s)
      | Inr _ \<Rightarrow>
         (case kx_Revoke K keyID s of
            Inl err \<Rightarrow>
              (if err = ErrKeyNotFound then WriteError 404 ''not_found'' ''Key not found''
               else WriteError 500 ''internal_error'' ''Failed to revoke key'', s)
          | Inr s' \<Rightarrow> (WriteJSON 200 (KeyRevoked keyID (rfc3339 now)), s')))"

definition RotateKey ::
  "(string \<Rightarrow> string) \<Rightarrow> string option \<Rightarrow> 's AppStore \<Rightarrow> 's KeyStore \<Rightarrow> ident \<Rightarrow> ident \<Rightarrow> ident \<Rightarrow> 's \<Rightarrow>
     (portal_answer \<times> 's) option" where
  "RotateKey sha rnd A K userID appID keyID s =
     (if userID = [] then Some (WriteError 401 ''unauthorized'' ''X-User-ID header is required'', s)
      else case owned_app A userID appID s of
        Inl ans \<Rightarrow> Some (ans, s)
      | Inr _ \<Rightarrow>
         (case kx_GetByID K keyID s of
            Inl err \<Rightarrow>
              Some (if err = ErrKeyNotFound then WriteError 404 ''not_found'' ''Key not found''
                    else WriteError 500 ''internal_error'' ''Failed to get key'', s)
          | Inr oldKey \<Rightarrow>
              if ky_Status oldKey = ''REVOKED''
              then Some (WriteError 409 ''already_revoked'' ''Cannot rotate a revoked key'', s)
              else case GenerateKey sha rnd (ky_Environment oldKey) of
                None \<Rightarrow> None
              | Some (Inl _) \<Rightarrow> Some (WriteError 500 ''internal_error'' ''Failed to generate key'', s)
              | Some (Inr (plaintext, hash, pfx)) \<Rightarrow>
                 (case kx_Create K (key_record appID hash pfx (ky_Name oldKey @ '' (rotated)'')
                                      (ky_Environment oldKey) None) s of
                    Inl _ \<Rightarrow> Some (WriteError 500 ''internal_error'' ''Failed to create rotated key'', s)
                  | Inr (created, s') \<Rightarrow> Some (WriteJSON 201 (Rotated created plaintext oldKey), s'))))"

end
