(* ===== verification/Portal_Webhooks.thy ===== *)
theory Portal_Webhooks
  imports Portal_Keys
begin

text \<open>
  Webhooks of the developer portal: the signature scheme (\<open>webhook/signer.go\<close>,
  \<open>handler/verify_webhook.go\<close>), immediate delivery (\<open>webhook/dispatcher.go\<close>), the retry worker
  (\<open>worker/webhook.go\<close>), and the handlers of subscriptions and deliveries (\<open>handler/webhook.go\<close>,
  \<open>handler/replay.go\<close>).
  HMAC-SHA256 is the parameter \<open>mac\<close> (key, then message); the subscriber's endpoint is the parameter
  \<open>net\<close> from URL, signature, event and payload to what comes back.
\<close>

section \<open>Signatures\<close>

definition hook_message :: "int \<Rightarrow> string \<Rightarrow> string" where
  "hook_message ts payload = show_int ts @ ''.'' @ payload"

definition hook_Sign :: "(string \<Rightarrow> string \<Rightarrow> string) \<Rightarrow> string \<Rightarrow> string \<Rightarrow> int \<Rightarrow> string" where
  "hook_Sign mac payload secret ts =
     (let sig = hex_encode (mac secret (hook_message ts payload)) in
      ''t='' @ show_int ts @ '',v1='' @ sig)"

definition parseSignature :: "string \<Rightarrow> string + int \<times> string" where
  "parseSignature signature =
     (case split_on CHR '','' signature of
        [tsPart, sigPart] \<Rightarrow>
          if \<not> prefix ''t='' tsPart then Inl ''missing timestamp''
          else if \<not> prefix ''v1='' sigPart then Inl ''missing v1 signature''
          else (case ParseInt (drop 2 tsPart) of
                  None \<Rightarrow> Inl ''invalid timestamp''
                | Some ts \<Rightarrow> Inr (ts, drop 3 sigPart))
      | _ \<Rightarrow> Inl ''invalid signature format'')"

definition hook_Verify ::
  "(string \<Rightarrow> string \<Rightarrow> string) \<Rightarrow> time \<Rightarrow> string \<Rightarrow> string \<Rightarrow> string \<Rightarrow> int \<Rightarrow> bool" where
  "hook_Verify mac now payload secret signature tolerance =
     (case parseSignature signature of
        Inl _ \<Rightarrow> False
      | Inr (ts, sig) \<Rightarrow>
          if time_Sub now (unix_time ts) > tolerance then False
          else sig = hex_encode (mac secret (hook_message ts payload)))"

record verifyWebhookRequest =
  vw_Payload :: string
  vw_Signature :: string
  vw_Secret :: string

datatype verifyWebhookResponse = VerifyWebhookResponse bool string

definition VerifySignature ::
  "(string \<Rightarrow> string \<Rightarrow> string) \<Rightarrow> time \<Rightarrow> verifyWebhookRequest option \<Rightarrow>
     (portal_err, verifyWebhookResponse) answer" where
  "VerifySignature mac now body =
     (case body of
        None \<Rightarrow> WriteError 400 ''invalid_request'' ''Invalid JSON body''
      | Some req \<Rightarrow>
        if vw_Payload req = [] \<or> vw_Signature req = [] \<or> vw_Secret req = []
        then WriteError 400 ''invalid_request'' ''payload, signature, and secret are all required''
        else case parseSignature (vw_Signature req) of
          Inl err \<Rightarrow> WriteJSON 200 (VerifyWebhookResponse False (''Invalid signature format: '' @ err))
        | Inr (ts, sig) \<Rightarrow>
          if time_Sub now (unix_time ts) > 5 * minute
          then WriteJSON 200 (VerifyWebhookResponse False ''Signature timestamp has expired'')
          else if sig \<noteq> hex_encode (mac (vw_Secret req) (hook_message ts (vw_Payload req)))
          then WriteJSON 200 (VerifyWebhookResponse False ''Signature does not match the expected HMAC'')
          else WriteJSON 200 (VerifyWebhookResponse True ''Signature is valid''))"

lemma hex_no_comma: "CHR '','' \<notin> set (hex_encode s)"
proof -
  have "hex_digits ! i \<in> set hex_digits" if "i < 16" for i
    using that by (intro nth_mem) (simp add: hex_digits_def)
  moreover have "byte c div 16 < 16" for c using byte_less [of c] by simp
  ultimately have "set (hex_encode s) \<subseteq> set hex_digits" by (auto simp: hex_encode_def)
  then show ?thesis by (auto simp: hex_digits_def)
qed

lemma parse_Sign:
  assumes "- (2 ^ 63) \<le> ts" "ts < 2 ^ 63"
  shows "parseSignature (hook_Sign mac payload secret ts) =
    Inr (ts, hex_encode (mac secret (hook_message ts payload)))"
proof -
  have "split_on CHR '','' (hook_Sign mac payload secret ts) =
      [''t='' @ show_int ts, ''v1='' @ hex_encode (mac secret (hook_message ts payload))]"
    using split_on_append [of "CHR '',''" "''t='' @ show_int ts" "''v1='' @ hex_encode (mac secret (hook_message ts payload))"]
      split_on_none [of "CHR '',''" "''v1='' @ hex_encode (mac secret (hook_message ts payload))"]
      hex_no_comma show_int_no_comma
    by (simp add: hook_Sign_def Let_def)
  with ParseInt_show_int [OF assms] show ?thesis by (simp add: parseSignature_def)
qed

lemma hook_message_inj: "hook_message ts p = hook_message ts' p' \<Longrightarrow> ts = ts' \<and> p = p'"
proof -
  assume eq: "hook_message ts p = hook_message ts' p'"
  have "split_on CHR ''.'' (hook_message t q) = show_int t # split_on CHR ''.'' q" for t q
    using split_on_append [of "CHR ''.''" "show_int t" q] show_int_no_dot
    by (simp add: hook_message_def)
  with eq have "show_int ts = show_int ts'" by (metis list.inject)
  with eq show ?thesis by (auto simp: hook_message_def dest: show_int_inj)
qed

section \<open>Delivery\<close>

definition retryDelays :: "int list" where
  "retryDelays = [minute, 5 * minute, 30 * minute, 2 * hour, 24 * hour]"

definition NextRetryDelay :: "int \<Rightarrow> int" where
  "NextRetryDelay attempt =
     (let a = (if attempt < 0 then 0 else attempt) in
      if a \<ge> int (length retryDelays) then retryDelays ! (length retryDelays - 1)
      else retryDelays ! nat a)"

lemma NextRetryDelay_bounds: "minute \<le> NextRetryDelay a \<and> NextRetryDelay a \<le> 24 * hour"
proof -
  have "\<forall>d\<in>set retryDelays. minute \<le> d \<and> d \<le> 24 * hour" by (simp add: retryDelays_def)
  moreover have "NextRetryDelay a \<in> set retryDelays"
    unfolding NextRetryDelay_def Let_def
    by (auto intro!: nth_mem simp: retryDelays_def [THEN arg_cong, of length])
  ultimately show ?thesis by blast
qed

datatype hook_reply =
    BuildError string
  | SendError string
  | HookReply int string

definition success_code :: "int \<Rightarrow> bool" where
  "success_code code \<longleftrightarrow> 200 \<le> code \<and> code < 300"

definition Deliver ::
  "(string \<Rightarrow> string \<Rightarrow> string) \<Rightarrow> (string \<Rightarrow> string \<Rightarrow> string \<Rightarrow> string \<Rightarrow> hook_reply) \<Rightarrow> time \<Rightarrow>
     's DeliveryStore \<Rightarrow> WebhookSubscription \<Rightarrow> string \<Rightarrow> string \<Rightarrow> 's \<Rightarrow> portal_err option \<times> 's" where
  "Deliver mac net now D sub eventType payload s =
     (case dx_Create D \<lparr>wd_ID = [], wd_SubscriptionID = ws_ID sub, wd_EventType = eventType,
             wd_Payload = payload, wd_Status = ''PENDING'', wd_Attempts = 0, wd_LastResponseCode = 0,
             wd_LastResponseBody = [], wd_NextRetryAt = None, wd_DeliveredAt = None,
             wd_CreatedAt = zero_time\<rparr> s of
        Inl err \<Rightarrow> (Some err, s)
      | Inr (delivery, s1) \<Rightarrow>
         (let signature = hook_Sign mac payload (ws_Secret sub) (now div second);
              update = (\<lambda>status code body retry.
                case dx_UpdateStatus D (wd_ID delivery) status code body retry s1 of
                  Inl err \<Rightarrow> (Some err, s1) | Inr s2 \<Rightarrow> (None, s2))
          in case net (ws_URL sub) signature eventType payload of
               BuildError e \<Rightarrow> (Some (PortalError e), s1)
             | SendError e \<Rightarrow> update ''PENDING'' 0 e (Some (now + NextRetryDelay 0))
             | HookReply code body \<Rightarrow>
                 if success_code code then update ''DELIVERED'' code (take 1024 body) None
                 else update ''PENDING'' code (take 1024 body) (Some (now + NextRetryDelay 0))))"

section \<open>The worker\<close>

record Delivery =
  wq_ID :: ident
  wq_SubscriptionID :: ident
  wq_EventType :: string
  wq_Payload :: string
  wq_Attempts :: int
  wq_NextRetryAt :: "time option"

record Subscription =
  wb_ID :: ident
  wb_URL :: string
  wb_Secret :: string
  wb_Status :: string

text \<open>The three interfaces of the worker: deliveries, subscriptions and the dispatcher.\<close>

record 's WebhookWorker =
  wk_ListPending :: "'s \<Rightarrow> portal_err + Delivery list"
  wk_UpdateStatus :: "ident \<Rightarrow> string \<Rightarrow> int \<Rightarrow> string \<Rightarrow> time option \<Rightarrow> 's \<Rightarrow> portal_err + 's"
  wk_GetByID :: "ident \<Rightarrow> 's \<Rightarrow> portal_err + Subscription"
  wk_Deliver :: "string \<Rightarrow> string \<Rightarrow> string \<Rightarrow> string \<Rightarrow> string + int \<times> string"

record cycle =
  cy_processed :: nat
  cy_succeeded :: nat
  cy_failed :: nat

text \<open>One iteration of the loop over the pending deliveries; errors of \<open>UpdateStatus\<close> are dropped.\<close>

definition process_delivery ::
  "'s WebhookWorker \<Rightarrow> time \<Rightarrow> Delivery \<Rightarrow> cycle \<times> 's \<Rightarrow> cycle \<times> 's" where
  "process_delivery W now delivery cs =
     (let (c0, s) = cs;
          c = c0\<lparr>cy_processed := Suc (cy_processed c0)\<rparr>;
          failed = c\<lparr>cy_failed := Suc (cy_failed c)\<rparr>;
          update = (\<lambda>status code body retry.
            case wk_UpdateStatus W (wq_ID delivery) status code body retry s of Inl _ \<Rightarrow> s | Inr s' \<Rightarrow> s');
          nextRetry = Some (now + NextRetryDelay (wq_Attempts delivery))
      in case wk_GetByID W (wq_SubscriptionID delivery) s of
           Inl _ \<Rightarrow> (failed, s)
         | Inr sub \<Rightarrow>
             if wb_Status sub \<noteq> ''ACTIVE'' then (c, s)
             else case wk_Deliver W (wb_URL sub) (wq_Payload delivery) (wb_Secret sub)
                         (wq_EventType delivery) of
               Inl err \<Rightarrow> (failed, update ''PENDING'' 0 err nextRetry)
             | Inr (code, body) \<Rightarrow>
                 if success_code code
                 then (c\<lparr>cy_succeeded := Suc (cy_succeeded c)\<rparr>, update ''DELIVERED'' code body None)
                 else (failed, update ''PENDING'' code body nextRetry))"

definition ProcessPending :: "'s WebhookWorker \<Rightarrow> time \<Rightarrow> 's \<Rightarrow> cycle \<times> 's" where
  "ProcessPending W now s =
     (let zero = \<lparr>cy_processed = 0, cy_succeeded = 0, cy_failed = 0\<rparr> in
      case wk_ListPending W s of
        Inl _ \<Rightarrow> (zero, s)
      | Inr pending \<Rightarrow> fold (process_delivery W now) pending (zero, s))"

section \<open>The handlers of subscriptions\<close>

record subscribeRequest =
  sq_URL :: string
  sq_Events :: "string list"

datatype hook_body =
    HookBody WebhookSubscription
  | HookList "WebhookSubscription list"
  | HookDisabled ident
  | DeliveryBody WebhookDelivery
  | DeliveryList "WebhookDelivery list"

type_synonym hook_answer = "(portal_err, hook_body) answer"

definition toWebhookResponse :: "WebhookSubscription \<Rightarrow> bool \<Rightarrow> WebhookSubscription" where
  "toWebhookResponse w includeSecret =
     w\<lparr>ws_AppID := [], ws_UpdatedAt := zero_time, ws_CreatedAt := rfc3339 (ws_CreatedAt w),
       ws_Secret := (if includeSecret then ws_Secret w else [])\<rparr>"

definition Subscribe ::
  "string option \<Rightarrow> 's AppStore \<Rightarrow> 's WebhookStore \<Rightarrow> ident \<Rightarrow> ident \<Rightarrow> subscribeRequest option \<Rightarrow> 's \<Rightarrow>
     hook_answer \<times> 's" where
  "Subscribe rnd A W userID appID body s =
     (if userID = [] then (WriteError 401 ''unauthorized'' ''X-User-ID header is required'', s)
      else if appID = [] then (WriteError 400 ''invalid_request'' ''app_id is required'', s)
      else case owned_app A userID appID s of
        Inl ans \<Rightarrow> (ans, s)
      | Inr _ \<Rightarrow>
         (case body of
            None \<Rightarrow> (WriteError 400 ''invalid_request'' ''Invalid JSON body'', s)
          | Some req \<Rightarrow>
            if sq_URL req = [] then (WriteError 400 ''invalid_request'' ''url is required'', s)
            else if sq_Events req = []
            then (WriteError 400 ''invalid_request'' ''events must not be empty'', s)
            else case rnd of
              None \<Rightarrow> (WriteError 500 ''internal_error'' ''Failed to generate secret'', s)
            | Some secretBytes \<Rightarrow>
               (case wx_Create W \<lparr>ws_ID = [], ws_AppID = appID, ws_URL = sq_URL req,
                       ws_Events = sq_Events req, ws_Secret = ''whsec_'' @ hex_encode secretBytes,
                       ws_Status = [], ws_CreatedAt = zero_time, ws_UpdatedAt = zero_time\<rparr> s of
                  Inl err \<Rightarrow>
                    (if err = ErrWebhookURLScheme
                     then WriteError 400 ''invalid_request''
                            ''Webhook URL must use https (except localhost for development)''
                     else WriteError 500 ''internal_error'' ''Failed to create webhook'', s)
                | Inr (sub, s') \<Rightarrow> (WriteJSON 201 (HookBody (toWebhookResponse sub True)), s'))))"

definition ListWebhooks :: "'s AppStore \<Rightarrow> 's WebhookStore \<Rightarrow> ident \<Rightarrow> ident \<Rightarrow> 's \<Rightarrow> hook_answer" where
  "ListWebhooks A W userID appID s =
     (if userID = [] then WriteError 401 ''unauthorized'' ''X-User-ID header is required''
      else if appID = [] then WriteError 400 ''invalid_request'' ''app_id is required''
      else case owned_app A userID appID s of
        Inl ans \<Rightarrow> ans
      | Inr _ \<Rightarrow>
         (case wx_ListByApp W appID s of
            Inl _ \<Rightarrow> WriteError 500 ''internal_error'' ''Failed to list webhooks''
          | Inr subs \<Rightarrow> WriteJSON 200 (HookList (map (\<lambda>w. toWebhookResponse w False) subs))))"

definition DeleteWebhook ::
  "'s AppStore \<Rightarrow> 's WebhookStore \<Rightarrow> ident \<Rightarrow> ident \<Rightarrow> ident \<Rightarrow> 's \<Rightarrow> hook_answer \<times> 's" where
  "DeleteWebhook A W userID appID webhookID s =
     (if userID = [] then (WriteError 401 ''unauthorized'' ''X-User-ID header is required'', s)
      else case owned_app A userID appID s of
        Inl ans \<Rightarrow> (ans, s)
      | Inr _ \<Rightarrow>
         (case wx_Disable W webhookID s of
            Inl err \<Rightarrow>
              (if err = ErrWebhookNotFound then WriteError 404 ''not_found'' ''Webhook not found''
               else WriteError 500 ''internal_error'' ''Failed to delete webhook'', s)
          | Inr s' \<Rightarrow> (WriteJSON 200 (HookDisabled webhookID), s')))"

section \<open>The handlers of deliveries\<close>

definition toDeliveryResponse :: "WebhookDelivery \<Rightarrow> WebhookDelivery" where
  "toDeliveryResponse d = d\<lparr>wd_Payload := [], wd_NextRetryAt := None,
     wd_DeliveredAt := map_option rfc3339 (wd_DeliveredAt d), wd_CreatedAt := rfc3339 (wd_CreatedAt d)\<rparr>"

definition ReplayDelivery ::
  "'s DeliveryStore \<Rightarrow> 's WebhookStore \<Rightarrow> 's AppStore \<Rightarrow>
     (WebhookSubscription \<Rightarrow> string \<Rightarrow> string \<Rightarrow> 's \<Rightarrow> portal_err option \<times> 's) \<Rightarrow>
     ident \<Rightarrow> ident \<Rightarrow> ident \<Rightarrow> 's \<Rightarrow> hook_answer \<times> 's" where
  "ReplayDelivery D W A dispatch userID appID deliveryID s =
     (if userID = [] then (WriteError 401 ''unauthorized'' ''X-User-ID header is required'', s)
      else case owned_app A userID appID s of
        Inl ans \<Rightarrow> (ans, s)
      | Inr _ \<Rightarrow>
         (case dx_GetByID D deliveryID s of
            Inl err \<Rightarrow>
              (if err = ErrDeliveryNotFound then WriteError 404 ''not_found'' ''Delivery not found''
               else WriteError 500 ''internal_error'' ''Failed to get delivery'', s)
          | Inr delivery \<Rightarrow>
             (case wx_GetByID W (wd_SubscriptionID delivery) s of
                Inl _ \<Rightarrow> (WriteError 404 ''not_found'' ''Webhook subscription not found'', s)
              | Inr sub \<Rightarrow>
                 if ws_AppID sub \<noteq> appID
                 then (WriteError 403 ''forbidden'' ''Delivery does not belong to this app'', s)
                 else case dx_ResetForReplay D deliveryID s of
                   Inl _ \<Rightarrow> (WriteError 500 ''internal_error'' ''Failed to reset delivery'', s)
                 | Inr s1 \<Rightarrow>
                    (let s2 = snd (dispatch sub (wd_EventType delivery) (wd_Payload delivery) s1) in
                     case dx_GetByID D deliveryID s2 of
                       Inl _ \<Rightarrow> (WriteError 500 ''internal_error'' ''Failed to get delivery result'', s2)
                     | Inr updated \<Rightarrow> (WriteJSON 200 (DeliveryBody (toDeliveryResponse updated)), s2)))))"

definition param_limit :: "string \<Rightarrow> int" where
  "param_limit l =
     (if l = [] then 20
      else case ParseInt l of None \<Rightarrow> 20 | Some n \<Rightarrow> if n > 0 then n else 20)"

fun collect_deliveries ::
  "(ident \<Rightarrow> portal_err + WebhookDelivery list) \<Rightarrow> WebhookSubscription list \<Rightarrow>
     portal_err + WebhookDelivery list" where
  "collect_deliveries list [] = Inr []"
| "collect_deliveries list (w # ws) =
     (case list (ws_ID w) of
        Inl e \<Rightarrow> Inl e
      | Inr ds \<Rightarrow> map_sum id ((@) ds) (collect_deliveries list ws))"

definition ListDeliveries ::
  "'s DeliveryStore \<Rightarrow> 's WebhookStore \<Rightarrow> 's AppStore \<Rightarrow> ident \<Rightarrow> ident \<Rightarrow> (string \<Rightarrow> string) \<Rightarrow> 's \<Rightarrow>
     hook_answer" where
  "ListDeliveries D W A userID appID query s =
     (if userID = [] then WriteError 401 ''unauthorized'' ''X-User-ID header is required''
      else case owned_app A userID appID s of
        Inl ans \<Rightarrow> ans
      | Inr _ \<Rightarrow>
         (case wx_ListByApp W appID s of
            Inl _ \<Rightarrow> WriteError 500 ''internal_error'' ''Failed to list webhooks''
          | Inr subs \<Rightarrow>
             (case collect_deliveries
                     (\<lambda>i. dx_ListBySubscription D i (query ''status'') (param_limit (query ''limit'')) s) subs of
                Inl _ \<Rightarrow> WriteError 500 ''internal_error'' ''Failed to list deliveries''
              | Inr ds \<Rightarrow> WriteJSON 200 (DeliveryList (map toDeliveryResponse ds)))))"

end
