(* ===== verification/Portal_Usage.thy ===== *)
theory Portal_Usage
  imports Portal_Keys
begin

text \<open>
  Usage metering of the developer portal: the report handler (\<open>handler/usage.go\<close>), and the refinement of
  the in-memory usage store (\<open>store/usage.go\<close>) to the log of the calls that were counted.
\<close>

section \<open>The report\<close>

record usageResponse =
  us_TotalCalls :: int
  us_TotalErrors :: int
  us_Daily :: "DailyUsage list"
  us_ByEndpoint :: "EndpointUsage list"

text \<open>
  \<open>parse\<close> is \<open>time.Parse\<close> of a date; the dates of the response, formatted as \<open>YYYY-MM-DD\<close>, are those of
  the store.
\<close>

definition GetUsage ::
  "(string \<Rightarrow> time option) \<Rightarrow> time \<Rightarrow> 's AppStore \<Rightarrow> 's UsageStore \<Rightarrow> ident \<Rightarrow> ident \<Rightarrow> (string \<Rightarrow> string) \<Rightarrow>
     's \<Rightarrow> (portal_err, usageResponse) answer" where
  "GetUsage parse now A U userID appID query s =
     (if userID = [] then WriteError 401 ''unauthorized'' ''X-User-ID header is required''
      else if appID = [] then WriteError 400 ''invalid_request'' ''app_id is required''
      else case owned_app A userID appID s of
        Inl ans \<Rightarrow> ans
      | Inr _ \<Rightarrow>
         (case (if query ''from'' \<noteq> [] then parse (query ''from'') else Some (now - 30 * 24 * hour)) of
            None \<Rightarrow> WriteError 400 ''invalid_request'' ''Invalid from date format (use YYYY-MM-DD)''
          | Some fr \<Rightarrow>
             (case (if query ''to'' \<noteq> [] then parse (query ''to'') else Some now) of
                None \<Rightarrow> WriteError 400 ''invalid_request'' ''Invalid to date format (use YYYY-MM-DD)''
              | Some to \<Rightarrow>
                 (case ux_GetUsageRange U appID fr to s of
                    Inl _ \<Rightarrow> WriteError 500 ''internal_error'' ''Failed to get usage''
                  | Inr daily \<Rightarrow>
                     (case ux_GetUsageByEndpoint U appID fr to s of
                        Inl _ \<Rightarrow> WriteError 500 ''internal_error'' ''Failed to get usage''
                      | Inr byEndpoint \<Rightarrow>
                          WriteJSON 200
                            \<lparr>us_TotalCalls = fold (\<lambda>d n. i64 (n + du_Calls d)) daily 0,
                             us_TotalErrors = fold (\<lambda>d n. i64 (n + du_Errors d)) daily 0,
                             us_Daily = daily, us_ByEndpoint = byEndpoint\<rparr>)))))"

section \<open>The log of calls\<close>

type_synonym call = "time \<times> ident \<times> string \<times> bool"

definition call_key :: "call \<Rightarrow> usageKey" where
  "call_key c = (case c of (t, a, e, b) \<Rightarrow> (a, dateKey t, e))"

definition call_error :: "call \<Rightarrow> bool" where
  "call_error c = snd (snd (snd c))"

definition count_calls :: "(usageKey \<Rightarrow> bool) \<Rightarrow> call list \<Rightarrow> int" where
  "count_calls P cs = int (length (filter (P \<circ> call_key) cs))"

definition count_errors :: "(usageKey \<Rightarrow> bool) \<Rightarrow> call list \<Rightarrow> int" where
  "count_errors P cs = count_calls P (filter call_error cs)"

text \<open>The store after a sequence of calls.\<close>

definition usage_of :: "call list \<Rightarrow> usageKey \<rightharpoonup> usageRecord" where
  "usage_of cs = fold (\<lambda>(t, a, e, b). usage_Increment t a e b) cs Map.empty"

lemma usage_of_snoc:
  "usage_of (cs @ [(t, a, e, b)]) = usage_Increment t a e b (usage_of cs)"
  by (simp add: usage_of_def)

lemma count_calls_snoc [simp]:
  "count_calls P (cs @ [c]) = count_calls P cs + (if P (call_key c) then 1 else 0)"
  by (simp add: count_calls_def)

lemma count_errors_snoc [simp]:
  "count_errors P (cs @ [c]) = count_errors P cs + (if call_error c \<and> P (call_key c) then 1 else 0)"
  by (simp add: count_errors_def)

lemma count_calls_0: "\<forall>c\<in>set cs. \<not> P (call_key c) \<Longrightarrow> count_calls P cs = 0"
  by (simp add: count_calls_def filter_empty_conv)

lemma Increment_apply:
  "usage_Increment t a e b m k = (if k = call_key (t, a, e, b)
     then (let r = (case m k of None \<Rightarrow> \<lparr>ur_Calls = 0, ur_Errors = 0\<rparr> | Some r \<Rightarrow> r) in
           Some \<lparr>ur_Calls = i64 (ur_Calls r + 1), ur_Errors = (if b then i64 (ur_Errors r + 1) else ur_Errors r)\<rparr>)
     else m k)"
  by (cases "case m k of None \<Rightarrow> \<lparr>ur_Calls = 0, ur_Errors = 0\<rparr> | Some r \<Rightarrow> r")
    (auto simp: usage_Increment_def Let_def call_key_def)

lemma usage_of_spec:
  "usage_of cs k = (if k \<in> call_key ` set cs
     then Some \<lparr>ur_Calls = i64 (count_calls ((=) k) cs), ur_Errors = i64 (count_errors ((=) k) cs)\<rparr> else None)"
proof (induction cs rule: rev_induct)
  case (snoc c cs)
  obtain t a e b where c: "c = (t, a, e, b)" by (metis prod.exhaust)
  have none: "count_calls ((=) k) cs = 0" "count_errors ((=) k) cs = 0" if "k \<notin> call_key ` set cs"
    using that by (auto simp: count_errors_def intro!: count_calls_0)
  have "usage_of (cs @ [c]) k = usage_Increment t a e b (usage_of cs) k"
    unfolding c usage_of_snoc ..
  then show ?case
    using snoc none by (cases "k \<in> call_key ` set cs")
      (auto simp: Increment_apply Let_def c call_error_def)
qed (simp add: usage_of_def)

lemma dom_usage_of: "dom (usage_of cs) = call_key ` set cs"
  by (auto simp: usage_of_spec split: if_splits)

lemma count_by_keys:
  assumes "distinct ks" "call_key ` set cs \<subseteq> set ks"
  shows "(\<Sum>k\<leftarrow>filter P ks. count_calls ((=) k) cs) = count_calls P cs"
proof -
  let ?es = "filter (P \<circ> call_key) cs"
  have "(\<Sum>k\<leftarrow>filter P ks. count_calls ((=) k) cs) = (\<Sum>k\<in>set (filter P ks). count_calls ((=) k) cs)"
    using assms(1) by (simp add: sum_list_distinct_conv_sum_set)
  also have "\<dots> = int (\<Sum>k\<in>set (filter P ks). length (filter (\<lambda>c. call_key c = k) ?es))"
    unfolding of_nat_sum count_calls_def
    by (intro sum.cong refl arg_cong [of _ _ int] arg_cong [of _ _ length]) (auto simp: filter_filter intro!: filter_cong)
  also have "\<dots> = int (length ?es)"
    using assms(2) by (subst sum_length_filter) auto
  finally show ?thesis by (simp add: count_calls_def)
qed

lemma sum_records:
  assumes "range_of ks (usage_of cs)"
  shows "i64 (\<Sum>k\<leftarrow>filter P ks. ur_Calls (the (usage_of cs k))) = i64 (count_calls P cs)"
    and "i64 (\<Sum>k\<leftarrow>filter P ks. ur_Errors (the (usage_of cs k))) = i64 (count_errors P cs)"
proof -
  from assms have ks: "distinct ks" "set ks = call_key ` set cs" by (simp_all add: range_of_def dom_usage_of)
  have "map (\<lambda>k. ur_Calls (the (usage_of cs k))) (filter P ks) = map (\<lambda>k. i64 (count_calls ((=) k) cs)) (filter P ks)"
    using ks by (intro map_cong refl) (auto simp: usage_of_spec)
  then show "i64 (\<Sum>k\<leftarrow>filter P ks. ur_Calls (the (usage_of cs k))) = i64 (count_calls P cs)"
    using i64_sum_list [of 0 "\<lambda>k. count_calls ((=) k) cs" "filter P ks"] count_by_keys [of ks cs P] ks by (simp only: add_0)
  have "map (\<lambda>k. ur_Errors (the (usage_of cs k))) (filter P ks) = map (\<lambda>k. i64 (count_errors ((=) k) cs)) (filter P ks)"
    using ks by (intro map_cong refl) (auto simp: usage_of_spec)
  moreover have "(\<Sum>k\<leftarrow>filter P ks. count_errors ((=) k) cs) = count_errors P cs"
    unfolding count_errors_def using ks by (intro count_by_keys) auto
  ultimately show "i64 (\<Sum>k\<leftarrow>filter P ks. ur_Errors (the (usage_of cs k))) = i64 (count_errors P cs)"
    using i64_sum_list [of 0 "\<lambda>k. count_errors ((=) k) cs" "filter P ks"] by (simp only: add_0)
qed

section \<open>The queries\<close>

lemma daily_usage_sum:
  "set ks \<subseteq> dom m \<Longrightarrow> usage_GetDailyUsage ks a t m =
     i64 (\<Sum>k\<leftarrow>filter (\<lambda>k. fst k = a \<and> fst (snd k) = dateKey t) ks. ur_Calls (the (m k)))"
proof (induction ks rule: rev_induct)
  case (snoc k ks)
  then obtain r where "m k = Some r" by auto
  with snoc show ?case by (simp add: usage_GetDailyUsage_def)
qed (simp add: usage_GetDailyUsage_def i64_def)

lemma daily_totals_sum:
  assumes "set ks \<subseteq> dom m"
  shows "daily_totals ks a fr to m d =
    (let sel = filter (\<lambda>k. in_period a fr to k \<and> fst (snd k) = d) ks in
     if sel = [] then None
     else Some \<lparr>du_Date = d * day, du_Calls = i64 (\<Sum>k\<leftarrow>sel. ur_Calls (the (m k))),
                du_Errors = i64 (\<Sum>k\<leftarrow>sel. ur_Errors (the (m k)))\<rparr>)"
  using assms
proof (induction ks arbitrary: d rule: rev_induct)
  case (snoc k ks)
  then obtain r where r: "m k = Some r" by auto
  have "daily_totals (ks @ [k]) a fr to m =
      (if in_period a fr to k then add_daily (fst (snd k)) r (daily_totals ks a fr to m)
       else daily_totals ks a fr to m)"
    by (simp add: daily_totals_def r)
  with snoc show ?case by (auto simp: add_daily_def r Let_def split: option.splits)
qed (simp add: daily_totals_def)

lemma concat_map_if: "concat (map (\<lambda>x. if P x then [f x] else []) xs) = map f (filter P xs)"
  by (induction xs) auto

lemma usage_days_upto:
  "usage_days byDate (c * day) (u * day) =
     concat (map (\<lambda>d. case byDate d of None \<Rightarrow> [] | Some du \<Rightarrow> [du]) [c..u])"
proof (induction "nat (u + 1 - c)" arbitrary: c rule: less_induct)
  case less
  show ?case
  proof (cases "c > u")
    case False
    have "dateKey (c * day) = c" by (simp add: dateKey_def)
    moreover have "c * day + day = (c + 1) * day" by (simp add: algebra_simps)
    moreover have "usage_days byDate ((c + 1) * day) (u * day) =
        concat (map (\<lambda>d. case byDate d of None \<Rightarrow> [] | Some du \<Rightarrow> [du]) [c + 1..u])"
      using False by (intro less.hyps) simp
    ultimately show ?thesis
      using False by (subst usage_days.simps) (simp add: upto_rec1 split: option.splits)
  qed (simp add: usage_days.simps)
qed

lemma usage_range_spec:
  assumes "range_of ks (usage_of cs)"
  shows "usage_GetUsageRange ks a fr to (usage_of cs) =
    map (\<lambda>d. \<lparr>du_Date = d * day, du_Calls = i64 (count_calls (\<lambda>k. fst k = a \<and> fst (snd k) = d) cs),
               du_Errors = i64 (count_errors (\<lambda>k. fst k = a \<and> fst (snd k) = d) cs)\<rparr>)
      (filter (\<lambda>d. \<exists>c\<in>set cs. fst (call_key c) = a \<and> fst (snd (call_key c)) = d) [dateKey fr..dateKey to])"
proof -
  have dom: "set ks \<subseteq> dom (usage_of cs)" and ks: "set ks = call_key ` set cs"
    using assms by (simp_all add: range_of_def dom_usage_of)
  let ?P = "\<lambda>d k. fst k = a \<and> fst (snd k) = d"
  let ?du = "\<lambda>d. \<lparr>du_Date = d * day, du_Calls = i64 (count_calls (?P d) cs), du_Errors = i64 (count_errors (?P d) cs)\<rparr>"
  let ?Q = "\<lambda>d. \<exists>c\<in>set cs. fst (call_key c) = a \<and> fst (snd (call_key c)) = d"
  have day: "daily_totals ks a fr to (usage_of cs) d = (if ?Q d then Some (?du d) else None)"
    if "d \<in> set [dateKey fr..dateKey to]" for d
  proof -
    have sel: "filter (\<lambda>k. in_period a fr to k \<and> fst (snd k) = d) ks = filter (?P d) ks"
      using that by (intro filter_cong) (auto simp: in_period_def)
    have "filter (?P d) ks = [] \<longleftrightarrow> \<not> ?Q d" using ks by (auto simp: filter_empty_conv)
    with sum_records [OF assms, of "?P d"] show ?thesis
      unfolding daily_totals_sum [OF dom] sel Let_def by simp
  qed
  have "usage_GetUsageRange ks a fr to (usage_of cs) =
      concat (map (\<lambda>d. if ?Q d then [?du d] else []) [dateKey fr..dateKey to])"
    unfolding usage_GetUsageRange_def dateKey_def [symmetric] usage_days_upto
    by (intro arg_cong [of _ _ concat] map_cong refl) (simp add: day)
  also have "\<dots> = map ?du (filter ?Q [dateKey fr..dateKey to])"
    by (rule concat_map_if)
  finally show ?thesis .
qed

lemma daily_usage_spec:
  assumes "range_of ks (usage_of cs)"
  shows "usage_GetDailyUsage ks a t (usage_of cs) = i64 (count_calls (\<lambda>k. fst k = a \<and> fst (snd k) = dateKey t) cs)"
  using daily_usage_sum [of ks "usage_of cs"] sum_records(1) [OF assms] assms by (simp add: range_of_def)

lemma fold_i64: "fold (\<lambda>d n. i64 (n + f d)) ds (i64 t) = i64 (t + (\<Sum>d\<leftarrow>ds. f d))"
  by (induction ds arbitrary: t) (simp_all add: algebra_simps)

lemma sum_list_filter_0: "(\<Sum>d\<leftarrow>filter Q ds. f d) = (\<Sum>d\<leftarrow>ds. if Q d then f d else (0::int))"
  by (induction ds) auto

lemma count_period_days:
  "(\<Sum>d\<leftarrow>[dateKey fr..dateKey to]. count_calls (\<lambda>k. fst k = a \<and> fst (snd k) = d) cs) = count_calls (in_period a fr to) cs"
proof -
  let ?es = "filter (in_period a fr to \<circ> call_key) cs" and ?g = "\<lambda>c. fst (snd (call_key c))"
  have "(\<Sum>d\<leftarrow>[dateKey fr..dateKey to]. count_calls (\<lambda>k. fst k = a \<and> fst (snd k) = d) cs) =
      (\<Sum>d\<in>{dateKey fr..dateKey to}. count_calls (\<lambda>k. fst k = a \<and> fst (snd k) = d) cs)"
    by (simp add: sum_list_distinct_conv_sum_set)
  also have "\<dots> = int (\<Sum>d\<in>{dateKey fr..dateKey to}. length (filter (\<lambda>c. ?g c = d) ?es))"
    unfolding of_nat_sum count_calls_def
    by (intro sum.cong refl arg_cong [of _ _ int] arg_cong [of _ _ length])
      (auto simp: filter_filter in_period_def intro!: filter_cong)
  also have "\<dots> = int (length ?es)" by (subst sum_length_filter) (auto simp: in_period_def)
  finally show ?thesis by (simp add: count_calls_def)
qed

lemma range_total:
  assumes "range_of ks (usage_of cs)"
  shows "fold (\<lambda>d n. i64 (n + du_Calls d)) (usage_GetUsageRange ks a fr to (usage_of cs)) 0 =
      i64 (count_calls (in_period a fr to) cs)"
    and "fold (\<lambda>d n. i64 (n + du_Errors d)) (usage_GetUsageRange ks a fr to (usage_of cs)) 0 =
      i64 (count_errors (in_period a fr to) cs)"
proof -
  let ?P = "\<lambda>d k. fst k = a \<and> fst (snd k) = d" and ?days = "[dateKey fr..dateKey to]"
  let ?Q = "\<lambda>d. \<exists>c\<in>set cs. ?P d (call_key c)"
  have z: "(if ?Q d then count_calls (?P d) cs else 0) = count_calls (?P d) cs"
      "(if ?Q d then count_errors (?P d) cs else 0) = count_errors (?P d) cs" for d
    by (auto simp: count_errors_def count_calls_0)
  have "fold (\<lambda>d n. i64 (n + du_Calls d)) (usage_GetUsageRange ks a fr to (usage_of cs)) (i64 0) =
      i64 (\<Sum>d\<leftarrow>filter ?Q ?days. count_calls (?P d) cs)"
    unfolding fold_i64 usage_range_spec [OF assms] using i64_sum_list [of 0 "\<lambda>d. count_calls (?P d) cs" "filter ?Q ?days"]
    by (simp add: o_def)
  then show "fold (\<lambda>d n. i64 (n + du_Calls d)) (usage_GetUsageRange ks a fr to (usage_of cs)) 0 =
      i64 (count_calls (in_period a fr to) cs)"
    unfolding sum_list_filter_0 z count_period_days by simp
  have "fold (\<lambda>d n. i64 (n + du_Errors d)) (usage_GetUsageRange ks a fr to (usage_of cs)) (i64 0) =
      i64 (\<Sum>d\<leftarrow>filter ?Q ?days. count_errors (?P d) cs)"
    unfolding fold_i64 usage_range_spec [OF assms] using i64_sum_list [of 0 "\<lambda>d. count_errors (?P d) cs" "filter ?Q ?days"]
    by (simp add: o_def)
  then show "fold (\<lambda>d n. i64 (n + du_Errors d)) (usage_GetUsageRange ks a fr to (usage_of cs)) 0 =
      i64 (count_errors (in_period a fr to) cs)"
    unfolding sum_list_filter_0 z unfolding count_errors_def count_period_days by simp
qed



end
