(* ===== verification/Portal_System.thy ===== *)
theory Portal_System
  imports Portal_Webhooks Portal_Usage
begin

text \<open>
  The developer portal as a whole: the steps its handlers take on the in-memory stores that \<open>main.go\<close>
  wires, what they keep of keys and counters, and the run of the webhook worker.
\<close>

section \<open>The worker on the in-memory stores\<close>

text \<open>
  The interfaces of the worker, served by the in-memory stores; \<open>send\<close> is its dispatcher.
\<close>

definition to_job :: "WebhookDelivery \<Rightarrow> Delivery" where
  "to_job d = \<lparr>wq_ID = wd_ID d, wq_SubscriptionID = wd_SubscriptionID d, wq_EventType = wd_EventType d,
     wq_Payload = wd_Payload d, wq_Attempts = wd_Attempts d, wq_NextRetryAt = wd_NextRetryAt d\<rparr>"

definition to_sub :: "WebhookSubscription \<Rightarrow> Subscription" where
  "to_sub w = \<lparr>wb_ID = ws_ID w, wb_URL = ws_URL w, wb_Secret = ws_Secret w, wb_Status = ws_Status w\<rparr>"

definition memory_worker ::
  "(string \<Rightarrow> string \<Rightarrow> string \<Rightarrow> string \<Rightarrow> string + int \<times> string) \<Rightarrow> (nat \<Rightarrow> ident) \<Rightarrow> time \<Rightarrow> ident list \<Rightarrow>
     portal WebhookWorker" where
  "memory_worker send rand now ks =
     (let D = InMemoryDeliveryStore rand now ks in
      \<lparr>wk_ListPending = (\<lambda>s. map_sum id (map to_job) (dx_ListPending D s)),
       wk_UpdateStatus = dx_UpdateStatus D,
       wk_GetByID = (\<lambda>i s. map_sum id to_sub (wx_GetByID (InMemoryWebhookStore rand now ks) i s)),
       wk_Deliver = send\<rparr>)"

section \<open>Steps\<close>

inductive portal_step ::
  "(string \<Rightarrow> string) \<Rightarrow> (string \<Rightarrow> string \<Rightarrow> string) \<Rightarrow> (nat \<Rightarrow> ident) \<Rightarrow> portal \<Rightarrow> portal \<Rightarrow> bool"
  for sha mac rand where
  step_create_app: "CreateApp (InMemoryAppStore rand now ks) u req s = (ans, s') \<Longrightarrow> portal_step sha mac rand s s'"
| step_update_app: "UpdateApp (InMemoryAppStore rand now ks) u i upd s = (ans, s') \<Longrightarrow> portal_step sha mac rand s s'"
| step_create_key: "CreateKey sha rnd now (InMemoryAppStore rand now ks) (InMemoryKeyStore rand now ks') u a ck s
      = Some (ans, s') \<Longrightarrow> portal_step sha mac rand s s'"
| step_rotate_key: "RotateKey sha rnd (InMemoryAppStore rand now ks) (InMemoryKeyStore rand now ks') u a i s
      = Some (ans, s') \<Longrightarrow> portal_step sha mac rand s s'"
| step_revoke_key: "RevokeKey now (InMemoryAppStore rand now ks) (InMemoryKeyStore rand now ks') u a i s
      = (ans, s') \<Longrightarrow> portal_step sha mac rand s s'"
| step_validate: "ValidateKey sha (InMemoryAppStore rand now ks) (InMemoryKeyStore rand now ks')
      (InMemoryUsageStore now us es) now key s = (ans, s') \<Longrightarrow> portal_step sha mac rand s s'"
| step_subscribe: "Subscribe rnd (InMemoryAppStore rand now ks) (InMemoryWebhookStore rand now ks') u a sq s
      = (hans, s') \<Longrightarrow> portal_step sha mac rand s s'"
| step_unsubscribe: "DeleteWebhook (InMemoryAppStore rand now ks) (InMemoryWebhookStore rand now ks') u a i s
      = (hans, s') \<Longrightarrow> portal_step sha mac rand s s'"
| step_replay: "ReplayDelivery (InMemoryDeliveryStore rand now ks) (InMemoryWebhookStore rand now ks')
      (InMemoryAppStore rand now ks'') (Deliver mac net now (InMemoryDeliveryStore rand now ks)) u a i s
      = (hans, s') \<Longrightarrow> portal_step sha mac rand s s'"
| step_deliver: "Deliver mac net now (InMemoryDeliveryStore rand now ks) sub ev payload s = (err, s') \<Longrightarrow>
      portal_step sha mac rand s s'"
| step_worker: "ProcessPending (memory_worker send rand now ks) now s = (c, s') \<Longrightarrow> portal_step sha mac rand s s'"

inductive portal_run ::
  "(string \<Rightarrow> string) \<Rightarrow> (string \<Rightarrow> string \<Rightarrow> string) \<Rightarrow> (nat \<Rightarrow> ident) \<Rightarrow> portal \<Rightarrow> portal \<Rightarrow> bool"
  for sha mac rand s0 where
  run_start: "portal_run sha mac rand s0 s0"
| run_step: "portal_run sha mac rand s0 s \<Longrightarrow> portal_step sha mac rand s s' \<Longrightarrow> portal_run sha mac rand s0 s'"

section \<open>What the steps do to keys and counters\<close>

text \<open>A step leaves the keys alone, adds a fresh one, revokes one or notes its use.\<close>

inductive key_effect :: "(nat \<Rightarrow> ident) \<Rightarrow> portal \<Rightarrow> portal \<Rightarrow> bool" for rand where
  key_effect_same: "po_usage s' = po_usage s \<Longrightarrow> po_keys s' = po_keys s \<Longrightarrow> po_drawn s \<le> po_drawn s' \<Longrightarrow>
     key_effect rand s s'"
| key_effect_new: "ky_ID k = rand (po_drawn s) \<Longrightarrow>
     key_effect rand s (s\<lparr>po_keys := (po_keys s)(rand (po_drawn s) \<mapsto> k), po_drawn := Suc (po_drawn s)\<rparr>)"
| key_effect_revoked: "po_keys s i = Some k \<Longrightarrow>
     key_effect rand s (s\<lparr>po_keys := (po_keys s)(i \<mapsto> k\<lparr>ky_Status := ''REVOKED'', ky_RevokedAt := Some t\<rparr>)\<rparr>)"
| key_effect_used: "po_keys s i = Some k \<Longrightarrow>
     key_effect rand s (s\<lparr>po_keys := (po_keys s)(i \<mapsto> k\<lparr>ky_LastUsedAt := Some t\<rparr>)\<rparr>)"

lemma key_effect_refl [simp]: "key_effect rand s s"
  by (simp add: key_effect_same)

lemma key_effect_create:
  "kx_Create (InMemoryKeyStore rand now ks) k s = Inr (k', s') \<Longrightarrow> key_effect rand s s'"
  by (auto simp: InMemoryKeyStore_def key_Create_def Let_def stamp_key_def intro: key_effect_new)

lemma InMemory_Revoke:
  "kx_Revoke (InMemoryKeyStore rand now ks) i s = Inr s' \<longleftrightarrow> (\<exists>k. po_keys s i = Some k \<and>
     s' = s\<lparr>po_keys := (po_keys s)(i \<mapsto> k\<lparr>ky_Status := ''REVOKED'', ky_RevokedAt := Some now\<rparr>)\<rparr>)"
  by (auto simp: InMemoryKeyStore_def key_Revoke_def split: option.splits)

lemma key_effect_revoke:
  "kx_Revoke (InMemoryKeyStore rand now ks) i s = Inr s' \<Longrightarrow> key_effect rand s s'"
  unfolding InMemory_Revoke by (auto intro: key_effect_revoked)

lemma key_effect_use:
  "kx_UpdateLastUsed (InMemoryKeyStore rand now ks) i s = Inr s' \<Longrightarrow> key_effect rand s s'"
  by (auto simp: InMemoryKeyStore_def key_UpdateLastUsed_def split: option.splits intro: key_effect_used)

text \<open>The delivery operations touch deliveries only.\<close>

definition frames_deliveries :: "portal \<Rightarrow> portal \<Rightarrow> bool" where
  "frames_deliveries s s' \<longleftrightarrow> po_usage s' = po_usage s \<and> po_keys s' = po_keys s \<and> po_apps s' = po_apps s \<and>
     po_hooks s' = po_hooks s \<and> po_drawn s \<le> po_drawn s'"

lemma frames_refl [simp]: "frames_deliveries s s"
  by (simp add: frames_deliveries_def)

lemma frames_trans: "frames_deliveries s s' \<Longrightarrow> frames_deliveries s' s'' \<Longrightarrow> frames_deliveries s s''"
  by (auto simp: frames_deliveries_def)

lemma frames_update:
  "dx_UpdateStatus (InMemoryDeliveryStore rand now ks) i st c b nr s = Inr s' \<Longrightarrow> frames_deliveries s s'"
  by (auto simp: InMemoryDeliveryStore_def frames_deliveries_def)

lemma frames_create:
  "dx_Create (InMemoryDeliveryStore rand now ks) d s = Inr (d', s') \<Longrightarrow> frames_deliveries s s'"
  by (auto simp: InMemoryDeliveryStore_def frames_deliveries_def dlv_Create_def Let_def)

lemma frames_Deliver:
  assumes "Deliver mac net now (InMemoryDeliveryStore rand now ks) sub ev payload s = (err, s')"
  shows "frames_deliveries s s'"
  using assms
  by (auto simp: Deliver_def Let_def split: sum.splits hook_reply.splits if_splits
      dest!: frames_create frames_update intro: frames_trans)

lemma frames_process:
  assumes "process_delivery (memory_worker send rand now ks) t d (c, s) = (c', s')"
  shows "frames_deliveries s s'"
  using assms
  by (auto simp: process_delivery_def memory_worker_def Let_def split: sum.splits if_splits prod.splits
      dest!: frames_update)

lemma frames_fold:
  "fold (process_delivery (memory_worker send rand now ks) t) ds (c, s) = (c', s') \<Longrightarrow> frames_deliveries s s'"
proof (induction ds arbitrary: c s)
  case (Cons d ds)
  obtain c1 s1 where "process_delivery (memory_worker send rand now ks) t d (c, s) = (c1, s1)" by fastforce
  with Cons.IH [of c1 s1] Cons.prems frames_process [OF this] show ?case by (auto intro: frames_trans)
qed simp

lemma frames_worker:
  "ProcessPending (memory_worker send rand now ks) now s = (c, s') \<Longrightarrow> frames_deliveries s s'"
  by (auto simp: ProcessPending_def Let_def split: sum.splits dest: frames_fold)

lemma frames_replay:
  assumes "ReplayDelivery (InMemoryDeliveryStore rand now ks) W A
      (Deliver mac net now (InMemoryDeliveryStore rand now ks)) u a i s = (ans, s')"
  shows "frames_deliveries s s'"
proof -
  have reset: "frames_deliveries s s1" if "dx_ResetForReplay (InMemoryDeliveryStore rand now ks) i s = Inr s1" for s1
    using that by (auto simp: InMemoryDeliveryStore_def frames_deliveries_def)
  show ?thesis using assms
    by (auto simp: ReplayDelivery_def Let_def split: if_splits sum.splits
        dest!: reset intro: frames_trans frames_Deliver [OF prod.collapse [symmetric]])
qed

lemma key_effect_frames: "frames_deliveries s s' \<Longrightarrow> key_effect rand s s'"
  by (auto simp: frames_deliveries_def intro: key_effect_same)

lemma portal_step_effect: "portal_step sha mac rand s s' \<Longrightarrow> key_effect rand s s'"
proof (induction rule: portal_step.cases)
  case (step_create_app now ks u req s ans s')
  then show ?case by (auto simp: CreateApp_def InMemoryAppStore_def app_Create_def Let_def
      split: if_splits option.splits sum.splits intro: key_effect_same)
next
  case (step_update_app now ks u i upd s ans s')
  then show ?case by (auto simp: UpdateApp_def InMemoryAppStore_def
      split: if_splits option.splits sum.splits intro: key_effect_same)
next
  case (step_create_key rnd now ks ks' u a ck s ans s')
  then show ?case by (auto simp: CreateKey_def Let_def
      split: if_splits option.splits sum.splits dest: key_effect_create)
next
  case (step_rotate_key rnd now ks ks' u a i s ans s')
  then show ?case by (auto simp: RotateKey_def
      split: if_splits option.splits sum.splits dest: key_effect_create)
next
  case (step_revoke_key now ks ks' u a i s ans s')
  then show ?case by (auto simp: RevokeKey_def split: if_splits sum.splits dest: key_effect_revoke)
next
  case (step_validate now ks ks' us es key s ans s')
  then show ?case by (auto simp: ValidateKey_def split: if_splits option.splits sum.splits dest: key_effect_use)
next
  case (step_subscribe rnd now ks ks' u a sq s hans s')
  then show ?case by (auto simp: Subscribe_def InMemoryWebhookStore_def
      split: if_splits option.splits sum.splits intro: key_effect_same)
next
  case (step_unsubscribe now ks ks' u a i s hans s')
  then show ?case by (auto simp: DeleteWebhook_def InMemoryWebhookStore_def
      split: if_splits option.splits sum.splits intro: key_effect_same)
qed (auto intro: key_effect_frames dest: frames_replay frames_Deliver frames_worker)

section \<open>Keys over a run\<close>

definition key_ids :: "(nat \<Rightarrow> ident) \<Rightarrow> portal \<Rightarrow> bool" where
  "key_ids rand s \<longleftrightarrow> (\<forall>i k. po_keys s i = Some k \<longrightarrow> ky_ID k = i \<and> drawn rand (po_drawn s) i)"

definition key_evolves :: "portal \<Rightarrow> portal \<Rightarrow> bool" where
  "key_evolves s s' \<longleftrightarrow> (\<forall>i k. po_keys s i = Some k \<longrightarrow>
     (\<exists>k'. po_keys s' i = Some k' \<and> ky_KeyHash k' = ky_KeyHash k \<and> ky_AppID k' = ky_AppID k \<and>
           (ky_Status k = ''REVOKED'' \<longrightarrow> ky_Status k' = ''REVOKED'')))"

lemma key_evolves_refl [simp]: "key_evolves s s"
  by (simp add: key_evolves_def)

lemma key_evolves_trans: "key_evolves s s' \<Longrightarrow> key_evolves s' s'' \<Longrightarrow> key_evolves s s''"
  unfolding key_evolves_def by metis

lemma key_ids_init: "key_ids rand portal_init"
  by (simp add: key_ids_def portal_init_def)

lemma key_effect_evolves:
  assumes "inj rand" "key_effect rand s s'" "key_ids rand s"
  shows "key_ids rand s' \<and> key_evolves s s'"
  using assms(2,3)
proof (cases rule: key_effect.cases)
  case key_effect_same
  with assms(3) show ?thesis unfolding key_ids_def key_evolves_def by (metis drawn_mono)
next
  case (key_effect_new k)
  have "po_keys s (rand (po_drawn s)) = None"
    using assms(1,3) drawn_fresh [of rand "po_drawn s" "po_drawn s"] unfolding key_ids_def by (metis not_None_eq order_refl)
  with key_effect_new assms(3) show ?thesis unfolding key_ids_def key_evolves_def by auto
qed (auto simp: key_ids_def key_evolves_def)

lemma portal_run_evolves:
  "portal_run sha mac rand s0 s \<Longrightarrow> inj rand \<Longrightarrow> key_ids rand s0 \<Longrightarrow> key_ids rand s \<and> key_evolves s0 s"
proof (induction rule: portal_run.induct)
  case (run_step s s')
  then show ?case
    using key_effect_evolves [OF _ portal_step_effect] key_evolves_trans by blast
qed simp

lemma RevokeKey_ok:
  assumes "RevokeKey now A (InMemoryKeyStore rand t ks) u a i s = (ans, s')" "\<not> is_error ans"
  obtains k where "po_keys s i = Some k"
    "s' = s\<lparr>po_keys := (po_keys s)(i \<mapsto> k\<lparr>ky_Status := ''REVOKED'', ky_RevokedAt := Some t\<rparr>)\<rparr>"
proof -
  have "kx_Revoke (InMemoryKeyStore rand t ks) i s = Inr s'"
    using assms owned_app_error by (fastforce simp: RevokeKey_def split: if_splits sum.splits)
  with that show thesis unfolding InMemory_Revoke by blast
qed

lemma find_unique:
  assumes "range_of ks m" "m i = Some v" "P v" "\<And>j w. m j = Some w \<Longrightarrow> P w \<Longrightarrow> j = i"
  shows "find P (range_vals ks m) = Some v"
proof -
  have "v \<in> set (range_vals ks m)" using assms(1,2) by (auto simp: set_range_vals_ran ran_def)
  moreover have "w = v" if "w \<in> set (range_vals ks m)" "P w" for w
    using that assms by (auto simp: set_range_vals_ran ran_def)
  ultimately show ?thesis using assms(3)
    by (metis (mono_tags, lifting) find_None_iff find_SomeD not_Some_eq)
qed

text \<open>
  C7. A revoked key stays rejected: once \<open>RevokeKey\<close> has succeeded, then in every later state, whatever
  keys are created, rotated, used or revoked and whatever webhooks run, validating that key answers 401
  with \<open>key_revoked\<close> and changes nothing -- as long as no other key was drawn with the same hash.
\<close>

theorem revoked_key_rejected:
  assumes "inj rand" and "key_ids rand s" and "po_keys s i = Some k"
    and "RevokeKey now A' (InMemoryKeyStore rand t ks) u a i s = (ans, s1)" and "\<not> is_error ans"
    and "portal_run sha mac rand s1 s2"
    and "range_of ks2 (po_keys s2)" and "key \<noteq> []" and "HashKey sha key = ky_KeyHash k"
    and "\<forall>j k'. po_keys s2 j = Some k' \<and> ky_KeyHash k' = ky_KeyHash k \<longrightarrow> j = i"
  shows "ValidateKey sha A (InMemoryKeyStore rand t2 ks2) U t2 (Some key) s2 =
    (WriteJSON 401 (Validation (invalid ''key_revoked'')), s2)"
proof -
  from RevokeKey_ok [OF assms(4,5)] assms(3) have
    s1: "s1 = s\<lparr>po_keys := (po_keys s)(i \<mapsto> k\<lparr>ky_Status := ''REVOKED'', ky_RevokedAt := Some t\<rparr>)\<rparr>"
    by (metis option.inject)
  have "key_ids rand s1"
    using key_effect_evolves [OF assms(1) key_effect_revoked [of s i k rand t] assms(2)] assms(3) by (simp add: s1)
  from portal_run_evolves [OF assms(6,1) this] have "key_evolves s1 s2" by simp
  then obtain k2 where k2: "po_keys s2 i = Some k2" "ky_KeyHash k2 = ky_KeyHash k" "ky_Status k2 = ''REVOKED''"
    unfolding key_evolves_def s1 by (elim allE [of _ i] allE) auto
  have "find (\<lambda>k'. ky_KeyHash k' = ky_KeyHash k) (range_vals ks2 (po_keys s2)) = Some k2"
    using assms(7,10) k2 by (intro find_unique [of _ _ i]) auto
  then have "kx_GetByHash (InMemoryKeyStore rand t2 ks2) (HashKey sha key) s2 = Inr k2"
    by (simp add: InMemoryKeyStore_def key_GetByHash_def assms(9))
  then show ?thesis
    using k2(3) assms(8) by (simp add: ValidateKey_def Validate_def LookupByHash_def invalid_def)
qed

text \<open>
  What a valid answer means: \<open>ValidateKey\<close> answers 200 only for a key whose hash is stored ACTIVE and
  unexpired, of an ACTIVE app, on a day on which fewer calls than the app's limit were counted; the
  result carries the key's app and environment and the app's tier and limit, and nothing but the
  key's time of last use changes.
\<close>

theorem key_accepted_only:
  assumes "ValidateKey sha (InMemoryAppStore rand t ks) (InMemoryKeyStore rand t ks')
      (InMemoryUsageStore t us es) now (Some key) s = (WriteJSON 200 (Validation v), s')"
    and "po_usage s = usage_of cs" and "range_of us (usage_of cs)"
  shows "\<exists>i k a. po_keys s i = Some k \<and> ky_KeyHash k = HashKey sha key \<and> ky_Status k = ''ACTIVE'' \<and>
    (\<forall>e. ky_ExpiresAt k = Some e \<longrightarrow> now \<le> e) \<and>
    po_apps s (ky_AppID k) = Some a \<and> ap_Status a = ''ACTIVE'' \<and>
    i64 (count_calls (\<lambda>c. fst c = ky_AppID k \<and> fst (snd c) = dateKey now) cs) < ap_DailyLimit a \<and>
    v = \<lparr>kv_Valid = True, kv_AppID = ky_AppID k, kv_Environment = ky_Environment k, kv_Tier = ap_Tier a,
         kv_DailyLimit = ap_DailyLimit a, kv_Error = []\<rparr> \<and>
    (s' = s \<or> (\<exists>j kj. po_keys s j = Some kj \<and> s' = s\<lparr>po_keys := (po_keys s)(j \<mapsto> kj\<lparr>ky_LastUsedAt := Some t\<rparr>)\<rparr>))"
proof -
  let ?K = "InMemoryKeyStore rand t ks'"
  from assms(1) have val: "Validate sha (LookupByHash ?K s) (LookupApp (InMemoryAppStore rand t ks) s)
      (GetDailyCount (InMemoryUsageStore t us es) now s) now key = Inr v" and valid: "kv_Valid v"
    and s': "s' = (case kx_GetByHash ?K (HashKey sha key) s of Inl _ \<Rightarrow> s
                | Inr k \<Rightarrow> (case kx_UpdateLastUsed ?K (ky_ID k) s of Inl _ \<Rightarrow> s | Inr s' \<Rightarrow> s'))"
    by (auto simp: ValidateKey_def split: if_splits sum.splits)
  from val valid obtain k a where k: "kx_GetByHash ?K (HashKey sha key) s = Inr k"
    and a: "app_GetByID (ky_AppID k) (po_apps s) = Inr a"
    and rest: "ky_Status k = ''ACTIVE''" "\<forall>e. ky_ExpiresAt k = Some e \<longrightarrow> now \<le> e" "ap_Status a = ''ACTIVE''"
      "usage_GetDailyUsage us (ky_AppID k) now (po_usage s) < ap_DailyLimit a"
      "v = \<lparr>kv_Valid = True, kv_AppID = ky_AppID k, kv_Environment = ky_Environment k, kv_Tier = ap_Tier a,
         kv_DailyLimit = ap_DailyLimit a, kv_Error = []\<rparr>"
    by (auto simp: Validate_def LookupByHash_def LookupApp_def GetDailyCount_def InMemoryAppStore_def
        InMemoryUsageStore_def invalid_def split: if_splits sum.splits option.splits)
  from k obtain i where "po_keys s i = Some k" "ky_KeyHash k = HashKey sha key"
    by (auto simp: InMemoryKeyStore_def key_GetByHash_def set_range_vals split: option.splits dest!: find_SomeD)
  moreover have "s' = s \<or> (\<exists>j kj. po_keys s j = Some kj \<and>
      s' = s\<lparr>po_keys := (po_keys s)(j \<mapsto> kj\<lparr>ky_LastUsedAt := Some t\<rparr>)\<rparr>)"
    by (auto simp: s' InMemoryKeyStore_def key_UpdateLastUsed_def split: sum.splits option.splits)
  ultimately show ?thesis
    using a rest daily_usage_spec [OF assms(3), of "ky_AppID k" now] assms(2)
    by (auto simp: app_GetByID_def split: option.splits)
qed

section \<open>The daily limit\<close>

text \<open>Apps keep the limit they are created with, and nothing counts calls.\<close>

definition limits :: "portal \<Rightarrow> bool" where
  "limits s \<longleftrightarrow> (\<forall>a\<in>ran (po_apps s). ap_DailyLimit a = 100) \<and> po_usage s = Map.empty"

lemma limits_same_apps: "limits s \<Longrightarrow> po_apps s' = po_apps s \<Longrightarrow> po_usage s' = po_usage s \<Longrightarrow> limits s'"
  by (simp add: limits_def)

lemma app_Update_limit: "app_Update i u now m = Inr (a, m') \<Longrightarrow>
  \<exists>b. m i = Some b \<and> ap_DailyLimit a = ap_DailyLimit b \<and> m' = m(i \<mapsto> a)"
  by (auto simp: app_Update_def Let_def split: option.splits)

lemma limits_apps: "limits s \<Longrightarrow> po_apps s i = Some a \<Longrightarrow> ap_DailyLimit a = 100"
  by (auto simp: limits_def ran_def)

lemma limits_upd: "limits s \<Longrightarrow> ap_DailyLimit a = 100 \<Longrightarrow> limits (s\<lparr>po_apps := (po_apps s)(i \<mapsto> a), po_drawn := n\<rparr>)"
  "limits s \<Longrightarrow> ap_DailyLimit a = 100 \<Longrightarrow> limits (s\<lparr>po_apps := (po_apps s)(i \<mapsto> a)\<rparr>)"
  by (auto simp: limits_def ran_def)

lemma portal_step_limits: "portal_step sha mac rand s s' \<Longrightarrow> limits s \<Longrightarrow> limits s'"
proof (induction rule: portal_step.cases)
  case (step_create_app now ks u req s ans s')
  then show ?case by (auto simp: CreateApp_def InMemoryAppStore_def app_Create_def Let_def
      split: if_splits option.splits sum.splits intro!: limits_upd)
next
  case (step_update_app now ks u i upd s ans s')
  then show ?case
    by (auto simp: UpdateApp_def InMemoryAppStore_def split: if_splits option.splits sum.splits
        intro!: limits_upd dest!: app_Update_limit dest: limits_apps)
next
  case (step_create_key rnd now ks ks' u a ck s ans s')
  then show ?case by (auto simp: CreateKey_def Let_def InMemoryKeyStore_def key_Create_def
      split: if_splits option.splits sum.splits intro: limits_same_apps)
next
  case (step_rotate_key rnd now ks ks' u a i s ans s')
  then show ?case by (auto simp: RotateKey_def InMemoryKeyStore_def key_Create_def Let_def
      split: if_splits option.splits sum.splits intro: limits_same_apps)
next
  case (step_revoke_key now ks ks' u a i s ans s')
  then show ?case by (auto simp: RevokeKey_def InMemoryKeyStore_def split: if_splits sum.splits
      intro: limits_same_apps)
next
  case (step_validate now ks ks' us es key s ans s')
  then show ?case by (auto simp: ValidateKey_def InMemoryKeyStore_def split: if_splits option.splits sum.splits
      intro: limits_same_apps)
next
  case (step_subscribe rnd now ks ks' u a sq s hans s')
  then show ?case by (auto simp: Subscribe_def InMemoryWebhookStore_def
      split: if_splits option.splits sum.splits intro: limits_same_apps)
next
  case (step_unsubscribe now ks ks' u a i s hans s')
  then show ?case by (auto simp: DeleteWebhook_def InMemoryWebhookStore_def
      split: if_splits option.splits sum.splits intro: limits_same_apps)
qed (auto simp: frames_deliveries_def intro: limits_same_apps
    dest!: frames_replay frames_Deliver frames_worker)

lemma portal_run_limits: "portal_run sha mac rand s0 s \<Longrightarrow> limits s0 \<Longrightarrow> limits s"
  by (induction rule: portal_run.induct) (auto dest: portal_step_limits)

lemma usage_empty: "usage_GetDailyUsage us a t Map.empty = 0"
  by (induction us) (simp_all add: usage_GetDailyUsage_def)

text \<open>
  The daily limit is never enforced: no handler of the portal calls \<open>Increment\<close>, so in every state
  the portal can reach the daily count is 0, below every app's limit of 100, and \<open>ValidateKey\<close> never
  answers 429.
\<close>

theorem rate_limit_unenforced:
  assumes "portal_run sha mac rand portal_init s"
  shows "fst (ValidateKey sha (InMemoryAppStore rand t ks) (InMemoryKeyStore rand t ks')
      (InMemoryUsageStore t us es) now body s) \<noteq> WriteJSON 429 b"
proof -
  have "limits s" using assms by (rule portal_run_limits) (simp add: limits_def portal_init_def)
  then have lim: "po_apps s i = Some a \<Longrightarrow> ap_DailyLimit a = 100" and "po_usage s = Map.empty" for i a
    by (simp_all add: limits_apps) (simp add: limits_def)
  then show ?thesis
    by (auto simp: ValidateKey_def Validate_def LookupByHash_def LookupApp_def GetDailyCount_def
        InMemoryAppStore_def InMemoryUsageStore_def app_GetByID_def invalid_def usage_empty
        dest!: lim split: if_splits sum.splits option.splits)
qed

section \<open>Generated keys\<close>

lemma GenerateKey_None:
  assumes "envPrefix env = Inr q" "GenerateKey sha (Some d) env = None"
  shows "of_base 256 (map byte d) < 62 ^ 7"
proof -
  let ?ds = "to_base 62 (of_base 256 (map byte d))"
  have "length q = 8" using assms(1) by (auto simp: envPrefix_def split: if_splits)
  with assms have "length ?ds < 8" by (simp add: GenerateKey_def Let_def encodeBase62_digits split: if_splits)
  moreover have "of_base 62 ?ds < 62 ^ length ?ds" using to_base_less [of 62] by (intro of_base_less) auto
  moreover have "(62::nat) ^ length ?ds \<le> 62 ^ 7" if "length ?ds \<le> 7" using that by (intro power_increasing) simp_all
  ultimately show ?thesis by simp
qed

text \<open>
  Generated keys are as distinct as the random bytes they are made of: for 48 random bytes two keys
  agree exactly when bytes and environment do; a key carries its environment's prefix and only
  characters of the base-62 alphabet after it; the stored hash is the hash the validator looks up, the
  display prefix the first 16 characters; and the only panic, slicing a key shorter than that, needs a
  number below 62 to the power 7.
\<close>

theorem generated_keys:
  assumes "length b = 48" "length c = 48"
    and "GenerateKey sha (Some b) env = Some (Inr (p, h, x))"
    and "GenerateKey sha (Some c) env' = Some (Inr (p', h', x'))"
  shows "(p = p' \<longleftrightarrow> b = c \<and> env = env') \<and> h = HashKey sha p \<and> x = take 16 p \<and> length x = 16 \<and>
    (\<exists>r. p = (if env = ''sandbox'' then ''gp_test_'' else ''gp_live_'') @ r \<and> set r \<subseteq> set base62Alphabet) \<and>
    (GenerateKey sha (Some d) env = None \<longrightarrow> of_base 256 (map byte d) < 62 ^ 7)"
proof -
  have pre: "envPrefix e = Inr q \<longleftrightarrow> e = ''sandbox'' \<and> q = ''gp_test_'' \<or> e = ''production'' \<and> q = ''gp_live_''" for e q
    by (auto simp: envPrefix_def)
  from assms(3,4) obtain q q' where q: "envPrefix env = Inr q" "envPrefix env' = Inr q'"
    and p: "p = q @ encodeBase62 b" "p' = q' @ encodeBase62 c" "h = hex_encode (sha p)" "x = take 16 p" "16 \<le> length p"
    by (auto simp: GenerateKey_def Let_def split: sum.splits if_splits)
  have len: "length q = 8" "length q' = 8" using q by (auto simp: pre)
  have "p = p' \<longleftrightarrow> q = q' \<and> encodeBase62 b = encodeBase62 c" unfolding p(1,2) using len by simp
  moreover have "q = q' \<longleftrightarrow> env = env'" using q by (auto simp: pre)
  moreover have "encodeBase62 b = encodeBase62 c \<longleftrightarrow> b = c" using assms(1,2) encodeBase62_inj by metis
  moreover have "of_base 256 (map byte d) < 62 ^ 7" if "GenerateKey sha (Some d) env = None"
    using GenerateKey_None [OF q(1) that] .
  moreover have "\<exists>r. p = (if env = ''sandbox'' then ''gp_test_'' else ''gp_live_'') @ r \<and> set r \<subseteq> set base62Alphabet"
    using q(1) encodeBase62_chars [of b] unfolding p(1) pre by auto
  moreover have "length x = 16" using p(4,5) by simp
  ultimately show ?thesis using p(3,4) by (simp only: HashKey_def) blast
qed

section \<open>The signature scheme\<close>


section \<open>The run of the worker\<close>

type_synonym sender = "string \<Rightarrow> string \<Rightarrow> string \<Rightarrow> string \<Rightarrow> string + int \<times> string"

text \<open>A sequence of cycles, each with its instant, the iteration order and what the endpoints answer.\<close>

fun worker_cycles :: "(nat \<Rightarrow> ident) \<Rightarrow> (time \<times> ident list \<times> sender) list \<Rightarrow> portal \<Rightarrow> portal" where
  "worker_cycles rand [] s = s"
| "worker_cycles rand ((t, ks, send) # cs) s =
     worker_cycles rand cs (snd (ProcessPending (memory_worker send rand t ks) t s))"

definition delivery_ids :: "portal \<Rightarrow> bool" where
  "delivery_ids s \<longleftrightarrow> (\<forall>i d. po_deliveries s i = Some d \<longrightarrow> wd_ID d = i)"

text \<open>One attempt to deliver.\<close>

definition attempt :: "time \<Rightarrow> string + int \<times> string \<Rightarrow> WebhookDelivery \<Rightarrow> WebhookDelivery" where
  "attempt t reply d =
     (case reply of
        Inr (code, body) \<Rightarrow>
          if success_code code
          then d\<lparr>wd_Status := ''DELIVERED'', wd_LastResponseCode := code, wd_LastResponseBody := body,
                 wd_Attempts := i64 (wd_Attempts d + 1), wd_NextRetryAt := None, wd_DeliveredAt := Some t\<rparr>
          else d\<lparr>wd_Status := ''PENDING'', wd_LastResponseCode := code, wd_LastResponseBody := body,
                 wd_Attempts := i64 (wd_Attempts d + 1),
                 wd_NextRetryAt := Some (t + NextRetryDelay (wd_Attempts d))\<rparr>
      | Inl err \<Rightarrow>
          d\<lparr>wd_Status := ''PENDING'', wd_LastResponseCode := 0, wd_LastResponseBody := err,
            wd_Attempts := i64 (wd_Attempts d + 1),
            wd_NextRetryAt := Some (t + NextRetryDelay (wd_Attempts d))\<rparr>)"

definition reply_of :: "sender \<Rightarrow> WebhookSubscription \<Rightarrow> WebhookDelivery \<Rightarrow> string + int \<times> string" where
  "reply_of send w d = send (ws_URL w) (wd_Payload d) (ws_Secret w) (wd_EventType d)"

lemma process_hooks:
  "process_delivery (memory_worker send rand t ks) t job (c, s) = (c', s') \<Longrightarrow>
     po_hooks s' = po_hooks s \<and> dom (po_deliveries s') = dom (po_deliveries s) \<and>
     (delivery_ids s \<longrightarrow> delivery_ids s') \<and> (\<forall>i. i \<noteq> wq_ID job \<longrightarrow> po_deliveries s' i = po_deliveries s i)"
  by (auto simp: process_delivery_def memory_worker_def InMemoryDeliveryStore_def InMemoryWebhookStore_def
      dlv_UpdateStatus_def delivery_ids_def Let_def hook_GetByID_def
      split: sum.splits if_splits prod.splits option.splits)

lemma process_attempt:
  assumes "process_delivery (memory_worker send rand t ks) t (to_job d) (c, s) = (c', s')"
    and "po_deliveries s (wd_ID d) = Some d" "po_hooks s (wd_SubscriptionID d) = Some w" "ws_Status w = ''ACTIVE''"
  shows "po_deliveries s' (wd_ID d) = Some (attempt t (reply_of send w d) d)"
  using assms
  by (auto simp: process_delivery_def memory_worker_def InMemoryDeliveryStore_def InMemoryWebhookStore_def
      dlv_UpdateStatus_def Let_def hook_GetByID_def to_job_def to_sub_def attempt_def reply_of_def
      success_code_def split: sum.splits if_splits prod.splits option.splits)

lemma fold_process:
  assumes "fold (process_delivery (memory_worker send rand t ks) t) jobs (c, s) = (c', s')"
  shows "po_hooks s' = po_hooks s \<and> dom (po_deliveries s') = dom (po_deliveries s) \<and>
     (delivery_ids s \<longrightarrow> delivery_ids s') \<and> (\<forall>i. i \<notin> wq_ID ` set jobs \<longrightarrow> po_deliveries s' i = po_deliveries s i)"
  using assms
proof (induction jobs arbitrary: c s)
  case (Cons job jobs)
  obtain c1 s1 where s1: "process_delivery (memory_worker send rand t ks) t job (c, s) = (c1, s1)" by fastforce
  with Cons.prems have "fold (process_delivery (memory_worker send rand t ks) t) jobs (c1, s1) = (c', s')" by simp
  from Cons.IH [OF this] process_hooks [OF s1] show ?case by auto
qed simp

lemma ids_range_vals:
  "\<forall>i d. m i = Some d \<longrightarrow> f d = i \<Longrightarrow> distinct ks \<Longrightarrow> distinct (map f (filter P (range_vals ks m)))"
proof (induction ks)
  case (Cons k ks)
  then show ?case by (auto simp: set_range_vals split: option.splits)
qed simp

text \<open>A cycle attempts each due delivery of an active subscription once and touches no other.\<close>

lemma cycle_effect:
  assumes "delivery_ids s" "range_of ks (po_deliveries s)" "po_deliveries s i = Some d"
    and "po_hooks s (wd_SubscriptionID d) = Some w" "ws_Status w = ''ACTIVE''"
    and "s' = snd (ProcessPending (memory_worker send rand t ks) t s)"
  shows "po_deliveries s' i = Some (if due t d then attempt t (reply_of send w d) d else d)"
    and "po_hooks s' = po_hooks s" "delivery_ids s'" "dom (po_deliveries s') = dom (po_deliveries s)"
proof -
  let ?P = "process_delivery (memory_worker send rand t ks) t"
  let ?ds = "filter (due t) (range_vals ks (po_deliveries s))"
  obtain c' where f: "fold ?P (map to_job ?ds) (\<lparr>cy_processed = 0, cy_succeeded = 0, cy_failed = 0\<rparr>, s) = (c', s')"
    using assms(6) by (auto simp: ProcessPending_def memory_worker_def InMemoryDeliveryStore_def
        dlv_ListPending_def Let_def intro: prod.collapse [symmetric])
  from fold_process [OF f] assms(1) show "po_hooks s' = po_hooks s" "delivery_ids s'"
    "dom (po_deliveries s') = dom (po_deliveries s)" by simp_all
  have id: "wd_ID d = i" using assms(1,3) by (simp add: delivery_ids_def)
  have dist: "distinct (map wd_ID ?ds)"
    using assms(1,2) by (intro ids_range_vals) (auto simp: delivery_ids_def range_of_def)
  have mem: "x \<in> set ?ds \<longleftrightarrow> due t x \<and> po_deliveries s (wd_ID x) = Some x" for x
    using assms(1,2) by (auto simp: set_range_vals_ran ran_def delivery_ids_def)
  have jobs: "wq_ID ` set (map to_job xs) = wd_ID ` set xs" for xs by (force simp: to_job_def)
  show "po_deliveries s' i = Some (if due t d then attempt t (reply_of send w d) d else d)"
  proof (cases "due t d")
    case False
    have "i \<notin> wd_ID ` set ?ds" using mem False assms(3) id by (metis (no_types, lifting) image_iff option.inject)
    then show ?thesis using fold_process [OF f] assms(3) False unfolding jobs by simp
  next
    case True
    with mem [of d] assms(3) id obtain xs ys where split: "?ds = xs @ d # ys"
      by (auto dest: split_list)
    from dist have notin: "i \<notin> wd_ID ` set xs" "i \<notin> wd_ID ` set ys" unfolding split using id by auto
    obtain c1 s1 where s1: "fold ?P (map to_job xs) (\<lparr>cy_processed = 0, cy_succeeded = 0, cy_failed = 0\<rparr>, s) = (c1, s1)"
      by fastforce
    obtain c2 s2 where s2: "?P (to_job d) (c1, s1) = (c2, s2)" by fastforce
    have s3: "fold ?P (map to_job ys) (c2, s2) = (c', s')" using f s1 s2 unfolding split by simp
    from fold_process [OF s1] notin(1) have "po_deliveries s1 i = Some d" "po_hooks s1 = po_hooks s"
      using assms(3) unfolding jobs by simp_all
    with process_attempt [OF s2] assms(4,5) id have "po_deliveries s2 i = Some (attempt t (reply_of send w d) d)" by simp
    with fold_process [OF s3] notin(2) True show ?thesis unfolding jobs by simp
  qed
qed

definition on_track :: "portal \<Rightarrow> ident \<Rightarrow> WebhookSubscription \<Rightarrow> time \<Rightarrow> bool" where
  "on_track s i w B \<longleftrightarrow> delivery_ids s \<and> (\<exists>d. po_deliveries s i = Some d \<and>
     po_hooks s (wd_SubscriptionID d) = Some w \<and>
     (wd_Status d = ''DELIVERED'' \<or>
      wd_Status d = ''PENDING'' \<and> (\<forall>r. wd_NextRetryAt d = Some r \<longrightarrow> r \<le> B)))"

definition delivered :: "portal \<Rightarrow> ident \<Rightarrow> bool" where
  "delivered s i \<longleftrightarrow> (\<exists>d. po_deliveries s i = Some d \<and> wd_Status d = ''DELIVERED'')"

definition answers :: "sender \<Rightarrow> WebhookSubscription \<Rightarrow> bool" where
  "answers send w \<longleftrightarrow> (\<forall>payload event. \<exists>code body.
     send (ws_URL w) payload (ws_Secret w) event = Inr (code, body) \<and> success_code code)"

lemma attempt_track:
  "wd_SubscriptionID (attempt t r d) = wd_SubscriptionID d"
  "wd_Status (attempt t r d) = ''DELIVERED'' \<or> wd_Status (attempt t r d) = ''PENDING'' \<and>
     (\<forall>u. wd_NextRetryAt (attempt t r d) = Some u \<longrightarrow> u \<le> t + 24 * hour)"
  using NextRetryDelay_bounds [of "wd_Attempts d"]
  by (auto simp: attempt_def split: sum.splits prod.splits)

lemma attempt_answers: "answers send w \<Longrightarrow> wd_Status (attempt t (reply_of send w d) d) = ''DELIVERED''"
proof -
  assume "answers send w"
  then obtain code body where "reply_of send w d = Inr (code, body)" "success_code code"
    unfolding answers_def reply_of_def by blast
  then show ?thesis by (simp add: attempt_def)
qed

lemma cycle_track:
  assumes "on_track s i w B" "ws_Status w = ''ACTIVE''" "range_of ks (po_deliveries s)" "t + 24 * hour \<le> B \<or> answers send w"
    and s': "s' = snd (ProcessPending (memory_worker send rand t ks) t s)"
  shows "on_track s' i w B \<and> dom (po_deliveries s') = dom (po_deliveries s) \<and>
    (delivered s i \<longrightarrow> delivered s' i) \<and> (answers send w \<and> B \<le> t \<longrightarrow> delivered s' i)"
proof -
  from assms(1) obtain d where ids: "delivery_ids s" and d: "po_deliveries s i = Some d"
    "po_hooks s (wd_SubscriptionID d) = Some w"
    and st: "wd_Status d = ''DELIVERED'' \<or> wd_Status d = ''PENDING'' \<and> (\<forall>r. wd_NextRetryAt d = Some r \<longrightarrow> r \<le> B)"
    unfolding on_track_def by blast
  note eff = cycle_effect [OF ids assms(3) d assms(2) s']
  let ?d' = "if due t d then attempt t (reply_of send w d) d else d"
  have st': "wd_Status ?d' = ''DELIVERED'' \<or> wd_Status ?d' = ''PENDING'' \<and> (\<forall>r. wd_NextRetryAt ?d' = Some r \<longrightarrow> r \<le> B)"
    using st assms(4) attempt_track(2) [of t "reply_of send w d" d] attempt_answers [of send w t d] by auto
  have "on_track s' i w B"
    unfolding on_track_def eff(1,2) using eff(3) st' d(2) by (auto simp: attempt_track(1))
  moreover have "delivered s i \<longrightarrow> delivered s' i"
    using d eff(1) by (auto simp: delivered_def due_def)
  moreover have "answers send w \<and> B \<le> t \<longrightarrow> delivered s' i"
  proof
    assume a: "answers send w \<and> B \<le> t"
    show "delivered s' i"
    proof (cases "due t d")
      case True
      with a eff(1) show ?thesis by (simp add: delivered_def attempt_answers)
    next
      case False
      with st a have "wd_Status d = ''DELIVERED''" by (auto simp: due_def split: option.splits)
      with False eff(1) show ?thesis by (simp add: delivered_def)
    qed
  qed
  ultimately show ?thesis using eff(4) by simp
qed

lemma cycles_track:
  assumes "\<forall>(t, ks, send)\<in>set cs. range_of ks m \<and> (t + 24 * hour \<le> B \<or> answers send w)"
    and "dom (po_deliveries s) = dom m" "ws_Status w = ''ACTIVE''" "on_track s i w B"
  shows "on_track (worker_cycles rand cs s) i w B \<and> dom (po_deliveries (worker_cycles rand cs s)) = dom m \<and>
    (delivered s i \<or> (\<exists>(t, ks, send)\<in>set cs. answers send w \<and> B \<le> t) \<longrightarrow> delivered (worker_cycles rand cs s) i)"
  using assms
proof (induction cs arbitrary: s)
  case (Cons c cs)
  obtain t ks send where c: "c = (t, ks, send)" by (metis prod.exhaust)
  let ?s' = "snd (ProcessPending (memory_worker send rand t ks) t s)"
  have "range_of ks (po_deliveries s)" using Cons.prems(1,2) by (simp add: c range_of_def)
  from cycle_track [OF Cons.prems(4,3) this _ refl] Cons.prems(1) have
    s': "on_track ?s' i w B" "dom (po_deliveries ?s') = dom (po_deliveries s)"
      "delivered s i \<longrightarrow> delivered ?s' i" "answers send w \<and> B \<le> t \<longrightarrow> delivered ?s' i" by (auto simp: c)
  from Cons.IH [of ?s'] Cons.prems s' show ?case by (auto simp: c)
qed simp


section \<open>Replays\<close>

lemma ReplayDelivery_path:
  assumes "ReplayDelivery D W A dispatch u a i s = (ans, s')" "\<not> is_error ans"
  shows "\<exists>(d::WebhookDelivery) sub s1 upd. dx_ResetForReplay D i s = Inr s1 \<and>
    s' = snd (dispatch sub (wd_EventType d) (wd_Payload d) s1) \<and>
    dx_GetByID D i s' = Inr upd \<and> ans = WriteJSON 200 (DeliveryBody (toDeliveryResponse upd))"
proof (cases "u = [] \<or> (\<exists>e. owned_app A u a s = (Inl e :: hook_answer + App))")
  case True
  with assms show ?thesis by (auto simp: ReplayDelivery_def split: if_splits dest: owned_app_error)
next
  case False
  then obtain app where "owned_app A u a s = (Inr app :: hook_answer + App)" "u \<noteq> []"
    by (cases "owned_app A u a s :: hook_answer + App") auto
  note own = this
  from assms own obtain d where d: "dx_GetByID D i s = Inr d"
    by (cases "dx_GetByID D i s") (auto simp: ReplayDelivery_def split: if_splits)
  from assms own d obtain sub where sub: "wx_GetByID W (wd_SubscriptionID d) s = Inr sub"
    by (cases "wx_GetByID W (wd_SubscriptionID d) s") (auto simp: ReplayDelivery_def)
  from assms own d sub obtain s1 where s1: "dx_ResetForReplay D i s = Inr s1"
    by (cases "dx_ResetForReplay D i s") (auto simp: ReplayDelivery_def split: if_splits)
  from assms own d sub s1 have "s' = snd (dispatch sub (wd_EventType d) (wd_Payload d) s1)"
    "\<exists>upd. dx_GetByID D i s' = Inr upd \<and> ans = WriteJSON 200 (DeliveryBody (toDeliveryResponse upd))"
    by (auto simp: ReplayDelivery_def Let_def split: if_splits sum.splits)
  with s1 show ?thesis by blast
qed

text \<open>
  A replayed delivery is never completed by the replay: the dispatcher records the new attempt under
  a delivery of its own, so that after a successful call of \<open>ReplayDelivery\<close> the delivery that was
  replayed is PENDING with no attempts, due at once, whatever the endpoint answered -- the worker will
  send it a second time.
\<close>

theorem replay_stays_pending:
  assumes "inj rand" "delivery_ids s" "\<forall>j d. po_deliveries s j = Some d \<longrightarrow> drawn rand (po_drawn s) j"
    and "ReplayDelivery (InMemoryDeliveryStore rand now ks) W A
      (Deliver mac net now (InMemoryDeliveryStore rand now ks)) u a i s = (ans, s')" "\<not> is_error ans"
  shows "\<exists>d. po_deliveries s' i = Some d \<and> wd_Status d = ''PENDING'' \<and> wd_Attempts d = 0 \<and>
    due t d \<and> ans = WriteJSON 200 (DeliveryBody (toDeliveryResponse d))"
proof -
  let ?D = "InMemoryDeliveryStore rand now ks"
  from assms(4,5) obtain d :: WebhookDelivery and sub s1 where s1: "dx_ResetForReplay ?D i s = Inr s1"
    and s': "s' = snd (Deliver mac net now ?D sub (wd_EventType d) (wd_Payload d) s1)"
    and ans: "\<exists>upd. dx_GetByID ?D i s' = Inr upd \<and> ans = WriteJSON 200 (DeliveryBody (toDeliveryResponse upd))"
    using ReplayDelivery_path [OF assms(4,5)] by blast
  from s1 obtain d0 where d0: "po_deliveries s i = Some d0"
    and s1': "s1 = s\<lparr>po_deliveries := (po_deliveries s)(i \<mapsto> d0\<lparr>wd_Status := ''PENDING'', wd_Attempts := 0,
        wd_NextRetryAt := None, wd_DeliveredAt := None\<rparr>)\<rparr>"
    by (auto simp: InMemoryDeliveryStore_def dlv_ResetForReplay_def split: option.splits)
  have fresh: "i \<noteq> rand (po_drawn s)"
    using assms(1,3) d0 drawn_fresh [of rand "po_drawn s" "po_drawn s"] by auto
  have "po_deliveries s' i = po_deliveries s1 i"
    unfolding s' using fresh
    by (auto simp: Deliver_def Let_def s1' InMemoryDeliveryStore_def dlv_Create_def dlv_UpdateStatus_def
        split: hook_reply.splits option.splits sum.splits)
  with ans show ?thesis
    by (auto simp: s1' due_def InMemoryDeliveryStore_def dlv_GetByID_def)
qed

section \<open>A concrete portal\<close>

definition portal_rand :: "nat \<Rightarrow> ident" where
  "portal_rand n = replicate (Suc n) CHR ''r''"

lemma inj_portal_rand: "inj portal_rand"
  by (rule injI) (simp add: portal_rand_def replicate_eq_replicate)

definition example_app :: App where
  "example_app = \<lparr>ap_ID = ''a'', ap_OwnerUserID = ''u'', ap_Name = ''A'', ap_Description = [],
     ap_Environment = ''sandbox'', ap_Tier = ''free'', ap_DailyLimit = 100, ap_CallbackURLs = [],
     ap_OAuthClientID = [], ap_Status = ''ACTIVE'', ap_CreatedAt = 0, ap_UpdatedAt = 0\<rparr>"

definition example_key :: APIKey where
  "example_key = \<lparr>ky_ID = ''r'', ky_AppID = ''a'', ky_KeyHash = hex_encode ''k'', ky_KeyPrefix = [],
     ky_Name = ''K'', ky_Environment = ''sandbox'', ky_Status = ''ACTIVE'', ky_LastUsedAt = None,
     ky_RevokedAt = None, ky_ExpiresAt = Some 100, ky_CreatedAt = 0\<rparr>"

definition example_hook :: WebhookSubscription where
  "example_hook = \<lparr>ws_ID = ''w'', ws_AppID = ''a'', ws_URL = ''https://x'', ws_Events = [''e''],
     ws_Secret = ''s'', ws_Status = ''ACTIVE'', ws_CreatedAt = 0, ws_UpdatedAt = 0\<rparr>"

definition example_delivery :: WebhookDelivery where
  "example_delivery = \<lparr>wd_ID = ''rr'', wd_SubscriptionID = ''w'', wd_EventType = ''e'', wd_Payload = ''{}'',
     wd_Status = ''PENDING'', wd_Attempts = 2, wd_LastResponseCode = 500, wd_LastResponseBody = [],
     wd_NextRetryAt = Some hour, wd_DeliveredAt = None, wd_CreatedAt = 0\<rparr>"

definition example_portal :: portal where
  "example_portal = \<lparr>po_apps = [''a'' \<mapsto> example_app], po_keys = [''r'' \<mapsto> example_key],
     po_usage = Map.empty, po_hooks = [''w'' \<mapsto> example_hook],
     po_deliveries = [''rr'' \<mapsto> example_delivery], po_drawn = 2\<rparr>"

abbreviation example_apps :: "portal AppStore" where
  "example_apps \<equiv> InMemoryAppStore portal_rand 0 [''a'']"

abbreviation example_keys :: "portal KeyStore" where
  "example_keys \<equiv> InMemoryKeyStore portal_rand 7 [''r'']"

lemma example_key_ids: "key_ids portal_rand example_portal"
proof -
  have "drawn portal_rand 2 (portal_rand 0)" by (rule drawnI) simp
  then show ?thesis by (simp add: key_ids_def example_portal_def example_key_def portal_rand_def)
qed

lemma example_revoke:
  "\<not> is_error (fst (RevokeKey 7 example_apps example_keys ''u'' ''a'' ''r'' example_portal))"
  by code_simp

theorem revoked_key_rejected_witness:
  "let s1 = snd (RevokeKey 7 example_apps example_keys ''u'' ''a'' ''r'' example_portal) in
   ValidateKey (\<lambda>x. x) example_apps example_keys (InMemoryUsageStore 7 [] []) 7 (Some ''k'') s1 =
     (WriteJSON 401 (Validation (invalid ''key_revoked'')), s1)"
proof -
  let ?r = "RevokeKey 7 example_apps example_keys ''u'' ''a'' ''r'' example_portal"
  have keys: "po_keys (snd ?r) = [''r'' \<mapsto> example_key\<lparr>ky_Status := ''REVOKED'', ky_RevokedAt := Some 7\<rparr>]"
    by (simp add: RevokeKey_def owned_app_def InMemoryAppStore_def InMemoryKeyStore_def app_GetByID_def
        key_Revoke_def example_portal_def example_app_def)
  have "ValidateKey (\<lambda>x. x) example_apps example_keys (InMemoryUsageStore 7 [] []) 7 (Some ''k'') (snd ?r) =
     (WriteJSON 401 (Validation (invalid ''key_revoked'')), snd ?r)"
  proof (rule revoked_key_rejected [OF inj_portal_rand example_key_ids _ prod.collapse [symmetric] example_revoke
          run_start [of _ "\<lambda>k m. m"], where k = example_key])
    show "range_of [''r''] (po_keys (snd ?r))" by (simp add: range_of_def keys)
    show "\<forall>j k'. po_keys (snd ?r) j = Some k' \<and> ky_KeyHash k' = ky_KeyHash example_key \<longrightarrow> j = ''r''"
      by (simp add: keys)
  qed (simp_all add: example_portal_def HashKey_def example_key_def)
  then show ?thesis unfolding Let_def .
qed

lemma example_valid:
  "fst (ValidateKey (\<lambda>x. x) (InMemoryAppStore portal_rand 7 [''a'']) example_keys (InMemoryUsageStore 7 [] []) 7 (Some ''k'')
     example_portal) = WriteJSON 200 (Validation \<lparr>kv_Valid = True, kv_AppID = ''a'', kv_Environment = ''sandbox'',
       kv_Tier = ''free'', kv_DailyLimit = 100, kv_Error = []\<rparr>)"
  by (simp add: ValidateKey_def Validate_def LookupByHash_def LookupApp_def GetDailyCount_def HashKey_def
      InMemoryAppStore_def InMemoryKeyStore_def InMemoryUsageStore_def key_GetByHash_def app_GetByID_def
      usage_GetDailyUsage_def example_portal_def example_key_def example_app_def)

theorem key_accepted_only_witness:
  "\<exists>k a. po_keys example_portal ''r'' = Some k \<and> ky_Status k = ''ACTIVE'' \<and>
     po_apps example_portal (ky_AppID k) = Some a \<and> ap_Status a = ''ACTIVE''"
proof -
  have "range_of [] (usage_of [])" "po_usage example_portal = usage_of []"
    by (simp_all add: usage_of_def example_portal_def)
  moreover obtain s' where "ValidateKey (\<lambda>x. x) (InMemoryAppStore portal_rand 7 [''a'']) example_keys
      (InMemoryUsageStore 7 [] []) 7 (Some ''k'') example_portal =
      (WriteJSON 200 (Validation \<lparr>kv_Valid = True, kv_AppID = ''a'', kv_Environment = ''sandbox'',
       kv_Tier = ''free'', kv_DailyLimit = 100, kv_Error = []\<rparr>), s')"
    using example_valid by (metis prod.collapse)
  ultimately have "\<exists>i k a. po_keys example_portal i = Some k \<and> ky_Status k = ''ACTIVE'' \<and>
     po_apps example_portal (ky_AppID k) = Some a \<and> ap_Status a = ''ACTIVE''"
    using key_accepted_only by blast
  then show ?thesis by (simp add: example_portal_def split: if_splits)
qed

theorem rate_limit_unenforced_witness:
  "let s = snd (CreateApp example_apps ''u'' (Some \<lparr>ca_Name = ''A'', ca_Description = [], ca_CallbackURLs = []\<rparr>) portal_init)
   in \<forall>b. fst (ValidateKey (\<lambda>x. x) (InMemoryAppStore portal_rand 7 [''a'']) example_keys (InMemoryUsageStore 7 [] []) 7 (Some ''k'') s) \<noteq> WriteJSON 429 b"
proof -
  let ?s = "snd (CreateApp example_apps ''u'' (Some \<lparr>ca_Name = ''A'', ca_Description = [], ca_CallbackURLs = []\<rparr>) portal_init)"
  have "portal_run (\<lambda>x. x) (\<lambda>k m. m) portal_rand portal_init ?s"
    by (rule run_step [OF run_start step_create_app [OF prod.collapse [symmetric]]])
  from rate_limit_unenforced [OF this] show ?thesis unfolding Let_def by blast
qed

lemma example_generated: "\<exists>p h x. GenerateKey (\<lambda>x. x) (Some (replicate 48 CHR ''z'')) ''sandbox'' = Some (Inr (p, h, x))"
proof -
  have "replicate 48 CHR ''z'' = CHR ''z'' # replicate 47 CHR ''z''" by (simp add: numeral_eq_Suc)
  then have "122 * 256 ^ 47 \<le> of_base 256 (map byte (replicate 48 CHR ''z''))"
    by (simp add: of_base_Cons byte_def del: replicate.simps)
  moreover have "(62::nat) ^ 7 \<le> 122 * 256 ^ 47" by simp
  ultimately have "\<not> of_base 256 (map byte (replicate 48 CHR ''z'')) < 62 ^ 7" by linarith
  with GenerateKey_None [of "''sandbox''" "''gp_test_''" "\<lambda>x. x" "replicate 48 CHR ''z''"] show ?thesis
    by (auto simp: GenerateKey_def envPrefix_def Let_def)
qed

theorem generated_keys_witness:
  "\<exists>p h x. GenerateKey (\<lambda>x. x) (Some (replicate 48 CHR ''z'')) ''sandbox'' = Some (Inr (p, h, x)) \<and>
     h = hex_encode p \<and> length x = 16"
proof -
  obtain p h x where g: "GenerateKey (\<lambda>x. x) (Some (replicate 48 CHR ''z'')) ''sandbox'' = Some (Inr (p, h, x))"
    using example_generated by blast
  from generated_keys [OF length_replicate length_replicate g g] have "h = HashKey (\<lambda>x. x) p" "length x = 16" by blast+
  with g show ?thesis by (auto simp: HashKey_def)
qed



lemma example_replay:
  "\<not> is_error (fst (ReplayDelivery (InMemoryDeliveryStore portal_rand 0 [''rr'']) (InMemoryWebhookStore portal_rand 0 [])
     example_apps (Deliver (\<lambda>k m. m) (\<lambda>u g e p. HookReply 200 []) 0 (InMemoryDeliveryStore portal_rand 0 [''rr'']))
     ''u'' ''a'' ''rr'' example_portal))"
  by code_simp

theorem replay_stays_pending_witness:
  "\<exists>d. po_deliveries (snd (ReplayDelivery (InMemoryDeliveryStore portal_rand 0 [''rr'']) (InMemoryWebhookStore portal_rand 0 [])
     example_apps (Deliver (\<lambda>k m. m) (\<lambda>u g e p. HookReply 200 []) 0 (InMemoryDeliveryStore portal_rand 0 [''rr'']))
     ''u'' ''a'' ''rr'' example_portal)) ''rr'' = Some d \<and> wd_Status d = ''PENDING''"
proof -
  have "drawn portal_rand 2 (portal_rand 1)" by (rule drawnI) simp
  then have "\<forall>j d. po_deliveries example_portal j = Some d \<longrightarrow> drawn portal_rand (po_drawn example_portal) j"
    by (simp add: example_portal_def portal_rand_def)
  moreover have "delivery_ids example_portal" by (simp add: delivery_ids_def example_portal_def example_delivery_def)
  ultimately show ?thesis
    using replay_stays_pending [OF inj_portal_rand _ _ prod.collapse [symmetric] example_replay] by blast
qed

end
