(* ===== verification/Identity_OTP.thy ===== *)
theory Identity_OTP
  imports GP_Text
begin

text \<open>
  The one-time passwords of the identity service (\<open>services/identity/otp/service.go\<close>).
  Redis and bcrypt are not part of the repository.
  The client is a record \<open>Redis\<close> of the two ways the service uses it, a \<open>GET\<close> and a pipeline of
  commands; the locale \<open>redis_server\<close> states what Redis documents about them, over a view of the
  server's keys with their values and deadlines.
  bcrypt is a pair of functions, \<open>gen\<close> for one call of \<open>GenerateFromPassword\<close> (the salt is drawn
  inside) and \<open>cmp\<close> for \<open>CompareHashAndPassword\<close>.
\<close>

section \<open>Redis\<close>

type_synonym keyspace = "string \<rightharpoonup> string \<times> time option"

datatype redis_cmd =
    CSet string string int
  | CDel string
  | CIncr string
  | CExpire string int

fun cmd_key :: "redis_cmd \<Rightarrow> string" where
  "cmd_key (CSet k v ttl) = k"
| "cmd_key (CDel k) = k"
| "cmd_key (CIncr k) = k"
| "cmd_key (CExpire k ttl) = k"

record 's Redis =
  rd_Get :: "time \<Rightarrow> string \<Rightarrow> 's \<Rightarrow> string + string option"
  rd_Exec :: "time \<Rightarrow> redis_cmd list \<Rightarrow> 's \<Rightarrow> string option \<times> 's"

text \<open>A key with a deadline is gone from its deadline on.\<close>

definition entry :: "time \<Rightarrow> string \<Rightarrow> keyspace \<Rightarrow> (string \<times> time option) option" where
  "entry now k m = (case m k of
     None \<Rightarrow> None
   | Some (v, d) \<Rightarrow> (case d of None \<Rightarrow> Some (v, d) | Some t \<Rightarrow> if now < t then Some (v, d) else None))"

definition counter :: "string \<Rightarrow> int" where
  "counter v = (case ParseInt v of Some n \<Rightarrow> n | None \<Rightarrow> 0)"

text \<open>
  \<open>INCR\<close> creates a key without a deadline and keeps the deadline of an existing one; on a value that
  is not an integer in decimal, or is the largest one, it fails.
\<close>

definition countable :: "time \<Rightarrow> string \<Rightarrow> keyspace \<Rightarrow> bool" where
  "countable now k m = (case entry now k m of
     None \<Rightarrow> True
   | Some (v, d) \<Rightarrow> v = show_int (counter v) \<and> counter v + 1 < 2 ^ 63)"

fun redis_apply :: "time \<Rightarrow> redis_cmd \<Rightarrow> keyspace \<Rightarrow> keyspace" where
  "redis_apply now (CSet k v ttl) m = m(k \<mapsto> (v, Some (now + ttl)))"
| "redis_apply now (CDel k) m = m(k := None)"
| "redis_apply now (CIncr k) m = (case entry now k m of
     None \<Rightarrow> m(k \<mapsto> (show_int 1, None))
   | Some (v, d) \<Rightarrow> m(k \<mapsto> (show_int (counter v + 1), d)))"
| "redis_apply now (CExpire k ttl) m = (case entry now k m of
     None \<Rightarrow> m
   | Some (v, d) \<Rightarrow> m(k \<mapsto> (v, Some (now + ttl))))"

text \<open>A pipeline runs its commands in order and reports an error when one of them fails.\<close>

fun pipeline_ok :: "time \<Rightarrow> redis_cmd list \<Rightarrow> keyspace \<Rightarrow> bool" where
  "pipeline_ok now [] m = True"
| "pipeline_ok now (c # cs) m =
     ((case c of CIncr k \<Rightarrow> countable now k m | _ \<Rightarrow> True) \<and> pipeline_ok now cs (redis_apply now c m))"

locale redis_server =
  fixes R :: "'s Redis" and view :: "'s \<Rightarrow> keyspace"
  assumes get: "rd_Get R now k s = Inr (map_option fst (entry now k (view s)))"
    and exec_result: "fst (rd_Exec R now cs s) = None \<longleftrightarrow> pipeline_ok now cs (view s)"
    and exec_view: "pipeline_ok now cs (view s) \<Longrightarrow>
           view (snd (rd_Exec R now cs s)) = fold (redis_apply now) cs (view s)"
    and exec_frame: "k \<notin> cmd_key ` set cs \<Longrightarrow> view (snd (rd_Exec R now cs s)) k = view s k"

section \<open>The service\<close>

definition otpTTL :: int where
  "otpTTL = 5 * minute"

definition maxSendsDay :: int where
  "maxSendsDay = 3"

definition maxAttempts :: int where
  "maxAttempts = 3"

definition sendCountTTL :: int where
  "sendCountTTL = 24 * hour"

datatype otp_err =
    ErrOTPExpired
  | ErrOTPInvalid
  | ErrMaxAttempts
  | ErrMaxSends
  | CheckSendCount string
  | GenerateCode
  | HashCode string
  | StoreOTP string
  | CheckAttempts string
  | GetHash string

definition sendKey :: "ident \<Rightarrow> string \<Rightarrow> string" where
  "sendKey reg channel = ''otp:sends:'' @ reg @ '':'' @ channel"

definition otpKey :: "ident \<Rightarrow> string \<Rightarrow> string" where
  "otpKey reg channel = ''otp:hash:'' @ reg @ '':'' @ channel"

definition attemptsKey :: "ident \<Rightarrow> string \<Rightarrow> string" where
  "attemptsKey reg channel = ''otp:attempts:'' @ reg @ '':'' @ channel"

text \<open>\<open>Get(...).Int()\<close>, where a missing key (\<open>redis.Nil\<close>) is no error and leaves the count 0.\<close>

definition redis_Int :: "'s Redis \<Rightarrow> time \<Rightarrow> string \<Rightarrow> 's \<Rightarrow> string + int" where
  "redis_Int R now k s = (case rd_Get R now k s of
     Inl e \<Rightarrow> Inl e
   | Inr None \<Rightarrow> Inr 0
   | Inr (Some v) \<Rightarrow> (case ParseInt v of None \<Rightarrow> Inl v | Some n \<Rightarrow> Inr n))"

text \<open>\<open>rand\<close> gives the results of the draws below 10 of one call, \<open>None\<close> for an error of the source.\<close>

fun code_loop :: "(nat \<Rightarrow> nat option) \<Rightarrow> nat \<Rightarrow> nat \<Rightarrow> string \<Rightarrow> string option" where
  "code_loop rand i 0 code = Some code"
| "code_loop rand i (Suc n) code = (case rand i of
     None \<Rightarrow> None
   | Some d \<Rightarrow> code_loop rand (Suc i) n (code @ digits d))"

definition generateCode :: "(nat \<Rightarrow> nat option) \<Rightarrow> nat \<Rightarrow> string option" where
  "generateCode rand len = code_loop rand 0 len []"

definition Generate ::
  "'s Redis \<Rightarrow> (string \<Rightarrow> string + string) \<Rightarrow> (nat \<Rightarrow> nat option) \<Rightarrow> time \<Rightarrow> ident \<Rightarrow> string \<Rightarrow> 's \<Rightarrow>
     (otp_err + string) \<times> 's" where
  "Generate R gen rand now registrationID channel s =
     (case redis_Int R now (sendKey registrationID channel) s of
        Inl err \<Rightarrow> (Inl (CheckSendCount err), s)
      | Inr sends \<Rightarrow>
        if sends \<ge> maxSendsDay then (Inl ErrMaxSends, s)
        else case generateCode rand 6 of
          None \<Rightarrow> (Inl GenerateCode, s)
        | Some code \<Rightarrow>
          (case gen code of
             Inl err \<Rightarrow> (Inl (HashCode err), s)
           | Inr hash \<Rightarrow>
             (case rd_Exec R now
                [CSet (otpKey registrationID channel) hash otpTTL,
                 CDel (attemptsKey registrationID channel),
                 CIncr (sendKey registrationID channel),
                 CExpire (sendKey registrationID channel) sendCountTTL] s of
                (Some err, s') \<Rightarrow> (Inl (StoreOTP err), s')
              | (None, s') \<Rightarrow> (Inr code, s'))))"

text \<open>
  \<open>Verify\<close> first reads the attempts and the hash, then compares and writes; nothing ties the two
  halves together, so they are two definitions.
  The errors of \<open>Del\<close> and of the pipeline that counts an attempt are ignored by the code.
\<close>

definition verify_read ::
  "'s Redis \<Rightarrow> time \<Rightarrow> ident \<Rightarrow> string \<Rightarrow> 's \<Rightarrow> (otp_err + int \<times> string) \<times> 's" where
  "verify_read R now registrationID channel s =
     (case redis_Int R now (attemptsKey registrationID channel) s of
        Inl err \<Rightarrow> (Inl (CheckAttempts err), s)
      | Inr attempts \<Rightarrow>
        if attempts \<ge> maxAttempts
        then (Inl ErrMaxAttempts,
              snd (rd_Exec R now [CDel (otpKey registrationID channel),
                                  CDel (attemptsKey registrationID channel)] s))
        else case rd_Get R now (otpKey registrationID channel) s of
          Inl err \<Rightarrow> (Inl (GetHash err), s)
        | Inr None \<Rightarrow> (Inl ErrOTPExpired, s)
        | Inr (Some hash) \<Rightarrow> (Inr (attempts, hash), s))"

definition verify_compare ::
  "'s Redis \<Rightarrow> (string \<Rightarrow> string \<Rightarrow> bool) \<Rightarrow> time \<Rightarrow> ident \<Rightarrow> string \<Rightarrow> string \<Rightarrow> int \<times> string \<Rightarrow> 's \<Rightarrow>
     otp_err option \<times> 's" where
  "verify_compare R cmp now registrationID channel code ah s =
     (let (attempts, hash) = ah;
          del = (\<lambda>s. snd (rd_Exec R now [CDel (otpKey registrationID channel),
                                         CDel (attemptsKey registrationID channel)] s))
      in if \<not> cmp hash code
         then let s1 = snd (rd_Exec R now [CIncr (attemptsKey registrationID channel),
                                           CExpire (attemptsKey registrationID channel) otpTTL] s);
                  newAttempts = attempts + 1
              in if newAttempts \<ge> maxAttempts then (Some ErrMaxAttempts, del s1)
                 else (Some ErrOTPInvalid, s1)
         else (None, del s))"

definition Verify ::
  "'s Redis \<Rightarrow> (string \<Rightarrow> string \<Rightarrow> bool) \<Rightarrow> time \<Rightarrow> ident \<Rightarrow> string \<Rightarrow> string \<Rightarrow> 's \<Rightarrow> otp_err option \<times> 's" where
  "Verify R cmp now registrationID channel code s =
     (case verify_read R now registrationID channel s of
        (Inl err, s') \<Rightarrow> (Some err, s')
      | (Inr ah, s') \<Rightarrow> verify_compare R cmp now registrationID channel code ah s')"

section \<open>Keys\<close>

text \<open>The three keys of a pair of registration and channel are made of one identifier.\<close>

definition otp_id :: "ident \<Rightarrow> string \<Rightarrow> string" where
  "otp_id registrationID channel = registrationID @ '':'' @ channel"

definition hash_key :: "string \<Rightarrow> string" where
  "hash_key i = ''otp:hash:'' @ i"

definition attempts_key :: "string \<Rightarrow> string" where
  "attempts_key i = ''otp:attempts:'' @ i"

definition sends_key :: "string \<Rightarrow> string" where
  "sends_key i = ''otp:sends:'' @ i"

lemma keys_id:
  "sendKey r c = sends_key (otp_id r c)" "otpKey r c = hash_key (otp_id r c)"
  "attemptsKey r c = attempts_key (otp_id r c)"
  by (simp_all add: sendKey_def otpKey_def attemptsKey_def otp_id_def hash_key_def attempts_key_def sends_key_def)

lemma keys_distinct [simp]:
  "hash_key i \<noteq> attempts_key j" "attempts_key j \<noteq> hash_key i" "hash_key i \<noteq> sends_key j"
  "sends_key j \<noteq> hash_key i" "attempts_key i \<noteq> sends_key j" "sends_key j \<noteq> attempts_key i"
  "hash_key i = hash_key j \<longleftrightarrow> i = j" "attempts_key i = attempts_key j \<longleftrightarrow> i = j"
  "sends_key i = sends_key j \<longleftrightarrow> i = j"
  by (simp_all add: hash_key_def attempts_key_def sends_key_def)

lemma entry_alive: "entry now k m = Some (v, Some d) \<longleftrightarrow> m k = Some (v, Some d) \<and> now < d"
  by (auto simp: entry_def split: option.splits if_splits)

lemma entry_missing: "m k = None \<Longrightarrow> entry now k m = None"
  by (simp add: entry_def)

lemma entry_upd: "entry now k (m(k' := x)) = (if k = k' then entry now k (\<lambda>_. x) else entry now k m)"
  by (simp add: entry_def)

lemma counter_show_int [simp]: "- (2 ^ 63) \<le> n \<Longrightarrow> n < 2 ^ 63 \<Longrightarrow> counter (show_int n) = n"
  by (simp add: counter_def ParseInt_show_int)

context redis_server begin

lemma exec_dels: "view (snd (rd_Exec R now [CDel a, CDel b] s)) = (view s)(a := None, b := None)"
  by (subst exec_view) simp_all

lemma exec_count:
  assumes "countable now k (view s)"
  shows "view (snd (rd_Exec R now [CIncr k, CExpire k ttl] s)) = (view s)(k \<mapsto>
     (show_int ((case entry now k (view s) of None \<Rightarrow> 0 | Some (v, d) \<Rightarrow> counter v) + 1), Some (now + ttl)))"
  using assms by (subst exec_view) (auto simp: entry_def split: option.splits if_splits)

lemma redis_Int_value:
  "redis_Int R now k s = (case entry now k (view s) of
     None \<Rightarrow> Inr 0
   | Some (v, d) \<Rightarrow> (case ParseInt v of None \<Rightarrow> Inl v | Some n \<Rightarrow> Inr n))"
  by (simp add: redis_Int_def get split: option.splits)

end

section \<open>Runs of the service\<close>

text \<open>
  A run is a list of calls of \<open>Generate\<close> and \<open>Verify\<close>, each with its instant; \<open>otp_run\<close> gives their
  results.
\<close>

datatype otp_op =
    OpGenerate "string \<Rightarrow> string + string" "nat \<Rightarrow> nat option" time ident string
  | OpVerify time ident string string

datatype otp_result = Sent "otp_err + string" | Checked "otp_err option"

fun op_time :: "otp_op \<Rightarrow> time" where
  "op_time (OpGenerate gen rand t r c) = t"
| "op_time (OpVerify t r c code) = t"

fun op_id :: "otp_op \<Rightarrow> string" where
  "op_id (OpGenerate gen rand t r c) = otp_id r c"
| "op_id (OpVerify t r c code) = otp_id r c"

fun is_generate :: "otp_op \<Rightarrow> bool" where
  "is_generate (OpGenerate gen rand t r c) = True"
| "is_generate (OpVerify t r c code) = False"

fun otp_step ::
  "'s Redis \<Rightarrow> (string \<Rightarrow> string \<Rightarrow> bool) \<Rightarrow> otp_op \<Rightarrow> 's \<Rightarrow> otp_result \<times> 's" where
  "otp_step R cmp (OpGenerate gen rand t r c) s =
     (case Generate R gen rand t r c s of (v, s') \<Rightarrow> (Sent v, s'))"
| "otp_step R cmp (OpVerify t r c code) s =
     (case Verify R cmp t r c code s of (v, s') \<Rightarrow> (Checked v, s'))"

fun otp_run ::
  "'s Redis \<Rightarrow> (string \<Rightarrow> string \<Rightarrow> bool) \<Rightarrow> otp_op list \<Rightarrow> 's \<Rightarrow> otp_result list" where
  "otp_run R cmp [] s = []"
| "otp_run R cmp (op # ops) s = (let (r, s') = otp_step R cmp op s in r # otp_run R cmp ops s')"

text \<open>The calls of \<open>Verify\<close> for an identifier, and what they answered.\<close>

fun tries :: "string \<Rightarrow> otp_op list \<Rightarrow> (time \<times> string) list" where
  "tries i [] = []"
| "tries i (OpVerify t r c code # ops) =
     (if otp_id r c = i then (t, code) # tries i ops else tries i ops)"
| "tries i (OpGenerate gen rand t r c # ops) = tries i ops"

fun verdicts :: "string \<Rightarrow> otp_op list \<Rightarrow> otp_result list \<Rightarrow> otp_err option list" where
  "verdicts i (op # ops) (Checked v # rs) =
     (if op_id op = i then v # verdicts i ops rs else verdicts i ops rs)"
| "verdicts i (op # ops) (Sent v # rs) = verdicts i ops rs"
| "verdicts i ops rs = []"

text \<open>
  The abstract password: it knows its deadline, its code and the number of guesses left.
\<close>

fun guesses :: "time \<Rightarrow> string \<Rightarrow> nat \<Rightarrow> (time \<times> string) list \<Rightarrow> otp_err option list" where
  "guesses D code n [] = []"
| "guesses D code n ((t, c) # gs) =
     (if n = 0 \<or> D \<le> t then Some ErrOTPExpired # guesses D code n gs
      else if c = code then None # guesses D code 0 gs
      else if n = 1 then Some ErrMaxAttempts # guesses D code 0 gs
      else Some ErrOTPInvalid # guesses D code (n - 1) gs)"

lemma guesses_bounds:
  "length (filter (\<lambda>v. v \<noteq> Some ErrOTPExpired) (guesses D code n gs)) \<le> n \<and>
   length (filter (\<lambda>v. v = None) (guesses D code n gs)) \<le> (if n = 0 then 0 else 1)"
proof (induction D code n gs rule: guesses.induct)
  case (2 D code n t c gs)
  then show ?case by (cases "n = 0 \<or> D \<le> t"; cases "c = code"; cases "n = 1") auto
qed simp

text \<open>How the keys of one identifier represent the abstract password with \<open>n\<close> guesses left.\<close>

definition represents :: "keyspace \<Rightarrow> string \<Rightarrow> string \<Rightarrow> time \<Rightarrow> nat \<Rightarrow> bool" where
  "represents m i hash D n \<longleftrightarrow> n \<le> 3 \<and>
     (if n = 0 then m (hash_key i) = None \<and> m (attempts_key i) = None
      else m (hash_key i) = Some (hash, Some D) \<and>
        (if n = 3 then m (attempts_key i) = None
         else \<exists>d\<ge>D. m (attempts_key i) = Some (show_int (3 - int n), Some d)))"

lemma represents_cong:
  "m' (hash_key i) = m (hash_key i) \<Longrightarrow> m' (attempts_key i) = m (attempts_key i) \<Longrightarrow>
     represents m' i hash D n = represents m i hash D n"
  by (simp add: represents_def)

lemma represents_attempts:
  assumes "represents m i hash D n" "n \<noteq> 0"
  shows "entry now (attempts_key i) m = None \<and> n = 3 \<or>
     entry now (attempts_key i) m = None \<and> D \<le> now \<or>
     (\<exists>d. entry now (attempts_key i) m = Some (show_int (3 - int n), d))"
  using assms by (auto simp: represents_def entry_def split: if_splits)

context redis_server begin

lemma read_attempts:
  assumes "represents (view s) i hash D n"
  shows "\<exists>a. redis_Int R now (attempts_key i) s = Inr a \<and> a < 3 \<and>
     (n \<noteq> 0 \<and> now < D \<longrightarrow> a = 3 - int n)"
proof (cases "n = 0")
  case True
  with assms show ?thesis by (simp add: represents_def redis_Int_value entry_missing)
next
  case False
  with assms have "n \<le> 3" by (simp add: represents_def)
  with False show ?thesis
    using represents_attempts [OF assms False, of now]
    by (auto simp: redis_Int_value ParseInt_show_int split: option.splits)
qed

lemma verify_read_represents:
  assumes "represents (view s) (otp_id r c) hash D n"
  shows "verify_read R now r c s =
     (if n = 0 \<or> D \<le> now then Inl ErrOTPExpired else Inr (3 - int n, hash), s)"
proof -
  obtain a where a: "redis_Int R now (attemptsKey r c) s = Inr a" "a < 3"
    "n \<noteq> 0 \<and> now < D \<longrightarrow> a = 3 - int n"
    using read_attempts [OF assms, of now] by (auto simp: keys_id)
  have "entry now (otpKey r c) (view s) = (if n = 0 \<or> D \<le> now then None else Some (hash, Some D))"
    using assms by (cases "n = 0") (auto simp: represents_def entry_def keys_id split: option.splits)
  with a show ?thesis
    by (auto simp: verify_read_def maxAttempts_def get)
qed

lemma verify_compare_right:
  assumes "cmp hash code"
  shows "verify_compare R cmp now r c code (a, hash) s =
     (None, snd (rd_Exec R now [CDel (otpKey r c), CDel (attemptsKey r c)] s))"
  using assms by (simp add: verify_compare_def)

lemma represents_deleted:
  "represents (view (snd (rd_Exec R now [CDel (otpKey r c), CDel (attemptsKey r c)] s))) (otp_id r c) hash D 0"
  by (simp add: represents_def exec_dels keys_id)

lemma represents_counted:
  assumes "represents (view s) (otp_id r c) hash D n" "n \<noteq> 0" "n \<noteq> 1" "now < D" "D \<le> now + otpTTL"
  shows "represents (view (snd (rd_Exec R now [CIncr (attemptsKey r c), CExpire (attemptsKey r c) otpTTL] s)))
     (otp_id r c) hash D (n - 1)"
proof -
  let ?k = "attempts_key (otp_id r c)"
  have n: "n = 2 \<or> n = 3" using assms(1-3) by (auto simp: represents_def)
  have e: "entry now ?k (view s) = None \<and> n = 3 \<or> (\<exists>d. entry now ?k (view s) = Some (show_int (3 - int n), d))"
    using represents_attempts [OF assms(1,2), of now] assms(4) by auto
  then have "countable now ?k (view s)" using n by (auto simp: countable_def split: option.splits)
  with e n assms(1,5) show ?thesis
    by (auto simp: keys_id exec_count represents_def)
qed

lemma Verify_represents:
  assumes J: "represents (view s) (otp_id r c) hash D n" and t: "D \<le> now + otpTTL"
    and cmp: "\<And>x. cmp hash x = (x = code)"
  shows "\<exists>n' s'. Verify R cmp now r c x s =
       (if n = 0 \<or> D \<le> now then Some ErrOTPExpired else if x = code then None
        else if n = 1 then Some ErrMaxAttempts else Some ErrOTPInvalid, s') \<and>
     n' = (if n = 0 \<or> D \<le> now then n else if x = code \<or> n = 1 then 0 else n - 1) \<and>
     represents (view s') (otp_id r c) hash D n'"
proof (cases "n = 0 \<or> D \<le> now")
  case True
  with J show ?thesis by (simp add: Verify_def verify_read_represents [OF J])
next
  case False
  then have V: "Verify R cmp now r c x s = verify_compare R cmp now r c x (3 - int n, hash) s"
    by (simp add: Verify_def verify_read_represents [OF J])
  show ?thesis
  proof (cases "x = code")
    case True
    then have "cmp hash x" by (simp add: cmp)
    with False True show ?thesis unfolding V by (simp add: verify_compare_right represents_deleted)
  next
    case wrong: False
    have n: "n = 1 \<or> n = 2 \<or> n = 3" using J False by (auto simp: represents_def)
    show ?thesis
    proof (cases "n = 1")
      case True
      with wrong False show ?thesis
        by (simp add: V verify_compare_def cmp maxAttempts_def represents_deleted)
    next
      case more: False
      have "represents (view (snd (rd_Exec R now [CIncr (attemptsKey r c), CExpire (attemptsKey r c) otpTTL] s)))
          (otp_id r c) hash D (n - 1)"
        using J False more t by (intro represents_counted) auto
      with more wrong False n show ?thesis
        by (auto simp: V verify_compare_def cmp maxAttempts_def)
    qed
  qed
qed

end

section \<open>Other identifiers\<close>

context redis_server begin

lemma Generate_frame:
  assumes "k \<noteq> otpKey r c" "k \<noteq> attemptsKey r c" "k \<noteq> sendKey r c"
  shows "view (snd (Generate R gen rand now r c s)) k = view s k"
proof -
  let ?cs = "\<lambda>h. [CSet (otpKey r c) h otpTTL, CDel (attemptsKey r c), CIncr (sendKey r c),
    CExpire (sendKey r c) sendCountTTL]"
  have "view (snd (rd_Exec R now (?cs h) s)) k = view s k" for h
    using assms by (intro exec_frame) simp
  then have "rd_Exec R now (?cs h) s = (x, s') \<Longrightarrow> view s' k = view s k" for h x s'
    by (metis snd_conv)
  then show ?thesis by (auto simp: Generate_def split: sum.split option.split prod.split)
qed

lemma verify_read_frame:
  "k \<noteq> otpKey r c \<Longrightarrow> k \<noteq> attemptsKey r c \<Longrightarrow> view (snd (verify_read R now r c s)) k = view s k"
  by (simp add: verify_read_def exec_frame split: sum.split option.split)

lemma verify_compare_frame:
  "k \<noteq> otpKey r c \<Longrightarrow> k \<noteq> attemptsKey r c \<Longrightarrow>
     view (snd (verify_compare R cmp now r c code ah s)) k = view s k"
proof -
  assume k: "k \<noteq> otpKey r c" "k \<noteq> attemptsKey r c"
  have "view (snd (rd_Exec R now [CDel (otpKey r c), CDel (attemptsKey r c)] s)) k = view s k" for s
    using k by (intro exec_frame) simp
  moreover have "view (snd (rd_Exec R now [CIncr (attemptsKey r c), CExpire (attemptsKey r c) otpTTL] s)) k = view s k" for s
    using k by (intro exec_frame) simp
  ultimately show ?thesis by (simp add: verify_compare_def split_beta Let_def)
qed

lemma Verify_frame:
  assumes "k \<noteq> otpKey r c" "k \<noteq> attemptsKey r c"
  shows "view (snd (Verify R cmp now r c code s)) k = view s k"
proof -
  obtain v s1 where v: "verify_read R now r c s = (v, s1)" by (cases "verify_read R now r c s")
  with verify_read_frame [OF assms, of now s] have "view s1 k = view s k" by simp
  with v show ?thesis
    by (cases v) (simp_all add: Verify_def verify_compare_frame [OF assms])
qed

lemma step_other_represents:
  assumes "represents (view s) i hash D n" "op_id op \<noteq> i"
  shows "represents (view (snd (otp_step R cmp op s))) i hash D n"
proof -
  have "view (snd (otp_step R cmp op s)) (hash_key i) = view s (hash_key i)"
    "view (snd (otp_step R cmp op s)) (attempts_key i) = view s (attempts_key i)"
    using assms(2) Generate_frame [of "hash_key i"] Generate_frame [of "attempts_key i"]
      Verify_frame [of "hash_key i"] Verify_frame [of "attempts_key i"]
    by (cases op; simp add: split_beta keys_id)+
  with assms(1) show ?thesis using represents_cong by metis
qed

end

section \<open>What the service promises\<close>

text \<open>A \<open>Generate\<close> that returns a code starts the abstract password with three guesses.\<close>

context redis_server begin

lemma Generate_represents:
  assumes "Generate R gen rand now r c s = (Inr code, s')"
  shows "\<exists>hash. gen code = Inr hash \<and> represents (view s') (otp_id r c) hash (now + otpTTL) 3 \<and>
     view s' (sends_key (otp_id r c)) = Some (show_int
       ((case entry now (sends_key (otp_id r c)) (view s) of None \<Rightarrow> 0 | Some (v, d) \<Rightarrow> counter v) + 1),
       Some (now + sendCountTTL))"
proof -
  let ?n = "case entry now (sends_key (otp_id r c)) (view s) of None \<Rightarrow> 0 | Some (v, d) \<Rightarrow> counter v"
  obtain hash x where h: "gen code = Inr hash" and x: "redis_Int R now (sendKey r c) s = Inr x" "x < 3"
    and e: "rd_Exec R now [CSet (otpKey r c) hash otpTTL, CDel (attemptsKey r c), CIncr (sendKey r c),
       CExpire (sendKey r c) sendCountTTL] s = (None, s')"
    using assms by (auto simp: Generate_def maxSendsDay_def split: sum.splits option.splits if_splits prod.splits)
  have "pipeline_ok now [CSet (otpKey r c) hash otpTTL, CDel (attemptsKey r c), CIncr (sendKey r c),
       CExpire (sendKey r c) sendCountTTL] (view s)"
    using exec_result by (metis e fst_conv)
  then have "view s' = fold (redis_apply now) [CSet (otpKey r c) hash otpTTL, CDel (attemptsKey r c),
      CIncr (sendKey r c), CExpire (sendKey r c) sendCountTTL] (view s)"
    using exec_view by (metis e snd_conv)
  also have "\<dots> = (view s)(hash_key (otp_id r c) \<mapsto> (hash, Some (now + otpTTL)),
      attempts_key (otp_id r c) := None, sends_key (otp_id r c) \<mapsto> (show_int (?n + 1), Some (now + sendCountTTL)))"
    by (auto simp: keys_id entry_def split: option.splits if_splits)
  finally show ?thesis using h by (simp add: represents_def)
qed

end

context redis_server begin

lemma run_guesses:
  assumes "represents (view s) i hash D n" "\<And>x. cmp hash x = (x = code)"
    "\<forall>op\<in>set ops. D \<le> op_time op + otpTTL" "\<forall>op\<in>set ops. is_generate op \<longrightarrow> op_id op \<noteq> i"
  shows "verdicts i ops (otp_run R cmp ops s) = guesses D code n (tries i ops)"
  using assms
proof (induction ops arbitrary: s n)
  case (Cons op ops)
  show ?case
  proof (cases "op_id op = i")
    case False
    have "verdicts i ops (otp_run R cmp ops (snd (otp_step R cmp op s))) = guesses D code n (tries i ops)"
      by (rule Cons.IH [OF step_other_represents [OF Cons.prems(1) False] Cons.prems(2)])
        (use Cons.prems(3,4) in simp_all)
    moreover have "verdicts i (op # ops) (otp_run R cmp (op # ops) s) =
        verdicts i ops (otp_run R cmp ops (snd (otp_step R cmp op s)))"
      using False by (cases op) (simp_all add: Let_def split_beta)
    moreover have "tries i (op # ops) = tries i ops" using False by (cases op) simp_all
    ultimately show ?thesis by simp
  next
    case True
    with Cons.prems(4) obtain t r c x where op: "op = OpVerify t r c x" and i: "otp_id r c = i"
      by (cases op) auto
    obtain n' s' where V: "Verify R cmp t r c x s =
         (if n = 0 \<or> D \<le> t then Some ErrOTPExpired else if x = code then None
          else if n = 1 then Some ErrMaxAttempts else Some ErrOTPInvalid, s')"
       and n': "n' = (if n = 0 \<or> D \<le> t then n else if x = code \<or> n = 1 then 0 else n - 1)"
       and J: "represents (view s') i hash D n'"
      using Verify_represents [of s r c hash D n t cmp code x] Cons.prems op i by auto
    have "verdicts i ops (otp_run R cmp ops s') = guesses D code n' (tries i ops)"
      by (rule Cons.IH [OF J Cons.prems(2)]) (use Cons.prems(3,4) in simp_all)
    with V n' op i show ?thesis by simp
  qed
qed simp

end

text \<open>
  C20. The life of a one-time password: after a \<open>Generate\<close> that returned a code, and until the next
  \<open>Generate\<close> of the same registration and channel, the answers of \<open>Verify\<close> are those of the abstract
  password, whatever is generated or verified for others in between -- the right code is accepted once,
  before five minutes are over, if at most two wrong ones came before it; at most three calls are
  answered with anything but \<open>ErrOTPExpired\<close>.
\<close>

theorem otp_lifecycle:
  assumes "redis_server R view" "\<And>h x y. gen x = Inr h \<Longrightarrow> cmp h y = (y = x)"
    "Generate R gen rand t r c s = (Inr code, s')"
    "\<forall>op\<in>set ops. t \<le> op_time op" "\<forall>op\<in>set ops. is_generate op \<longrightarrow> op_id op \<noteq> otp_id r c"
  defines "answers \<equiv> verdicts (otp_id r c) ops (otp_run R cmp ops s')"
  shows "answers = guesses (t + otpTTL) code 3 (tries (otp_id r c) ops) \<and>
     length (filter (\<lambda>v. v \<noteq> Some ErrOTPExpired) answers) \<le> 3 \<and>
     length (filter (\<lambda>v. v = None) answers) \<le> 1"
proof -
  obtain hash where h: "gen code = Inr hash" "represents (view s') (otp_id r c) hash (t + otpTTL) 3"
    using redis_server.Generate_represents [OF assms(1,3)] by blast
  then have "answers = guesses (t + otpTTL) code 3 (tries (otp_id r c) ops)"
    unfolding answers_def using assms(2,4,5) by (intro redis_server.run_guesses [OF assms(1)]) auto
  with guesses_bounds [of "t + otpTTL" code 3 "tries (otp_id r c) ops"] show ?thesis by simp
qed

text \<open>Requests in parallel: each compares after all of them have read.\<close>

fun compare_all ::
  "'s Redis \<Rightarrow> (string \<Rightarrow> string \<Rightarrow> bool) \<Rightarrow> time \<Rightarrow> ident \<Rightarrow> string \<Rightarrow> int \<times> string \<Rightarrow> string list \<Rightarrow> 's \<Rightarrow>
     otp_err option list" where
  "compare_all R cmp now r c ah [] s = []"
| "compare_all R cmp now r c ah (code # codes) s =
     (let (v, s') = verify_compare R cmp now r c code ah s in v # compare_all R cmp now r c ah codes s')"

lemma compare_all_wrong:
  "\<forall>w\<in>set ws. \<not> cmp h w \<Longrightarrow> cmp h code \<Longrightarrow>
     compare_all R cmp now r c (0, h) (ws @ [code]) s = replicate (length ws) (Some ErrOTPInvalid) @ [None]"
  by (induction ws arbitrary: s) (simp_all add: verify_compare_def maxAttempts_def Let_def)

text \<open>
  C26. The limit of three attempts does not bind requests in parallel: \<open>Verify\<close> reads the attempts and the
  hash before it counts, so that any number of wrong codes and then the right one, all of them having
  read before the first one writes, are each compared with the password, and the last is accepted.
\<close>

theorem otp_guess_race:
  assumes "redis_server R view" "\<And>h x y. gen x = Inr h \<Longrightarrow> cmp h y = (y = x)"
    "Generate R gen rand t r c s = (Inr code, s')" "t \<le> now" "now < t + otpTTL" "code \<notin> set wrong"
  shows "\<exists>ah. verify_read R now r c s' = (Inr ah, s') \<and>
     compare_all R cmp now r c ah (wrong @ [code]) s' =
       replicate (length wrong) (Some ErrOTPInvalid) @ [None]"
proof -
  obtain hash where h: "gen code = Inr hash" "represents (view s') (otp_id r c) hash (t + otpTTL) 3"
    using redis_server.Generate_represents [OF assms(1,3)] by blast
  have "verify_read R now r c s' = (Inr (0, hash), s')"
    using redis_server.verify_read_represents [OF assms(1) h(2)] assms(5) by simp
  moreover have "\<forall>w\<in>set wrong. \<not> cmp hash w" "cmp hash code" using assms(2) [OF h(1)] assms(6) by auto
  ultimately show ?thesis
    using compare_all_wrong [of wrong cmp hash code R now r c s'] by (intro exI [of _ "(0, hash)"]) simp
qed

section \<open>The limit of sends\<close>

text \<open>The instants of the successful \<open>Generate\<close> calls for an identifier.\<close>

fun sends_at :: "string \<Rightarrow> otp_op list \<Rightarrow> otp_result list \<Rightarrow> time list" where
  "sends_at i (op # ops) (Sent (Inr code) # rs) =
     (if op_id op = i then op_time op # sends_at i ops rs else sends_at i ops rs)"
| "sends_at i (op # ops) (Sent (Inl err) # rs) = sends_at i ops rs"
| "sends_at i (op # ops) (Checked v # rs) = sends_at i ops rs"
| "sends_at i ops rs = []"

definition in_window :: "time \<Rightarrow> time list \<Rightarrow> nat" where
  "in_window w ts = length (filter (\<lambda>t. w \<le> t \<and> t < w + sendCountTTL) ts)"

text \<open>The counter stands for a chain of sends, each less than 24 hours after the one before.\<close>

definition chain :: "keyspace \<Rightarrow> string \<Rightarrow> time list \<Rightarrow> bool" where
  "chain m i prev \<longleftrightarrow> length prev \<le> 3 \<and> sorted prev \<and>
     m (sends_key i) = (if prev = [] then None
       else Some (show_int (int (length prev)), Some (last prev + sendCountTTL)))"

lemma chain_entry:
  "chain m i prev \<Longrightarrow> entry now (sends_key i) m =
     (if prev = [] \<or> last prev + sendCountTTL \<le> now then None
      else Some (show_int (int (length prev)), Some (last prev + sendCountTTL)))"
  by (auto simp: chain_def entry_def split: option.splits)

lemma sends_at_Cons:
  "sends_at i (op # ops) (res # rs) = (if op_id op = i \<and> (\<exists>code. res = Sent (Inr code))
     then op_time op # sends_at i ops rs else sends_at i ops rs)"
  by (cases res rule: otp_result.exhaust; cases "case res of Sent x \<Rightarrow> x | Checked v \<Rightarrow> Inl ErrMaxSends") auto

lemma sends_at_times: "set (sends_at i ops rs) \<subseteq> op_time ` set ops"
  by (induction i ops rs rule: sends_at.induct) auto

lemma sorted_le_last: "sorted (xs :: int list) \<Longrightarrow> x \<in> set xs \<Longrightarrow> x \<le> last xs"
  by (induction xs) auto

lemma in_window_late:
  assumes "sorted prev" "prev \<noteq> []" "last prev + sendCountTTL \<le> t" "\<forall>x\<in>set ts. t \<le> x"
  shows "in_window w (prev @ t # ts) \<le> max (length prev) (in_window w (t # ts))"
proof (cases "\<exists>x\<in>set prev. w \<le> x \<and> x < w + sendCountTTL")
  case True
  then obtain x where x: "x \<in> set prev" "w \<le> x" by blast
  have "x \<le> last prev" using assms(1) x(1) by (rule sorted_le_last)
  then have "filter (\<lambda>x. w \<le> x \<and> x < w + sendCountTTL) (t # ts) = []" using assms(3,4) x(2) by (auto simp: filter_empty_conv)
  then show ?thesis by (simp add: in_window_def le_max_iff_disj del: filter.simps)
next
  case False
  then have "filter (\<lambda>x. w \<le> x \<and> x < w + sendCountTTL) prev = []" by (auto simp: filter_empty_conv)
  then show ?thesis by (simp add: in_window_def)
qed

context redis_server begin

lemma Generate_chain:
  fixes t :: time
  assumes c: "chain (view s) (otp_id r c) prev"
  defines "live \<equiv> prev \<noteq> [] \<and> t < last prev + sendCountTTL"
  shows "case Generate R gen rand t r c s of
     (Inl err, s') \<Rightarrow> view s' (sends_key (otp_id r c)) = view s (sends_key (otp_id r c))
   | (Inr code, s') \<Rightarrow> (live \<longrightarrow> length prev < 3) \<and>
       view s' (sends_key (otp_id r c)) = Some (show_int (if live then int (length prev) + 1 else 1),
         Some (t + sendCountTTL))"
proof -
  let ?i = "otp_id r c"
  have l: "length prev \<le> 3" using c by (simp add: chain_def)
  have e: "entry t (sends_key ?i) (view s) =
      (if live then Some (show_int (int (length prev)), Some (last prev + sendCountTTL)) else None)"
    using chain_entry [OF c, of t] by (auto simp: live_def)
  have n: "redis_Int R t (sendKey r c) s = Inr (if live then int (length prev) else 0)"
    using e l by (simp add: keys_id redis_Int_value ParseInt_show_int)
  have ok: "pipeline_ok t [CSet (otpKey r c) h otpTTL, CDel (attemptsKey r c), CIncr (sendKey r c),
       CExpire (sendKey r c) sendCountTTL] (view s)" for h
    using e l by (simp add: keys_id countable_def entry_upd entry_def [of t "sends_key ?i" "_(_ := _)"])
  have noerr: "rd_Exec R t [CSet (otpKey r c) h otpTTL, CDel (attemptsKey r c), CIncr (sendKey r c),
       CExpire (sendKey r c) sendCountTTL] s \<noteq> (Some x, s'')" for h x s''
    using exec_result ok [of h] by (metis fst_conv option.distinct(1))
  show ?thesis
  proof (cases "Generate R gen rand t r c s")
    case (Pair res s')
    show ?thesis
    proof (cases res)
      case (Inl err)
      have "s' = s"
        using Pair Inl n noerr
        by (auto simp: Generate_def split: sum.splits option.splits if_splits prod.splits)
      with Pair Inl show ?thesis by simp
    next
      case (Inr code)
      from Generate_represents [OF Pair [unfolded Inr]] e l
      have "view s' (sends_key ?i) = Some (show_int (if live then int (length prev) + 1 else 1), Some (t + sendCountTTL))"
        by (auto split: if_splits)
      moreover have "live \<longrightarrow> length prev < 3"
        using Pair Inr n by (auto simp: Generate_def maxSendsDay_def split: if_splits)
      ultimately show ?thesis using Pair Inr by simp
    qed
  qed
qed

end

context redis_server begin

lemma sends_bounded:
  assumes "chain (view s) i prev" "sorted (map op_time ops)"
    "prev \<noteq> [] \<Longrightarrow> \<forall>op\<in>set ops. last prev \<le> op_time op"
  shows "in_window w (prev @ sends_at i ops (otp_run R cmp ops s)) \<le> 3"
  using assms
proof (induction ops arbitrary: s prev w)
  case Nil
  then have "length prev \<le> 3" by (simp add: chain_def)
  with length_filter_le have "length (filter (\<lambda>t. w \<le> t \<and> t < w + sendCountTTL) prev) \<le> 3" by (rule order.trans)
  then show ?case by (simp add: in_window_def)
next
  case (Cons op ops)
  obtain res s' where st: "otp_step R cmp op s = (res, s')" by fastforce
  have srt: "sorted (map op_time ops)" and later: "\<forall>op'\<in>set ops. op_time op \<le> op_time op'"
    using Cons.prems(2) by auto
  show ?case
  proof (cases "op_id op = i \<and> (\<exists>code. res = Sent (Inr code))")
    case False
    then have at: "sends_at i (op # ops) (otp_run R cmp (op # ops) s) = sends_at i ops (otp_run R cmp ops s')"
      using st by (auto simp: sends_at_Cons)
    have "view s' (sends_key i) = view s (sends_key i)"
    proof (cases op)
      case (OpVerify t r c code)
      with st show ?thesis
        using Verify_frame [of "sends_key i" r c cmp t code s]
        by (cases "Verify R cmp t r c code s") (auto simp: keys_id)
    next
      case (OpGenerate gen rand t r c)
      show ?thesis
      proof (cases "otp_id r c = i")
        case True
        with False st OpGenerate Generate_chain [of s r c prev t gen rand] Cons.prems(1) show ?thesis
          by (auto split: prod.splits sum.splits)
      next
        case other: False
        with st OpGenerate Generate_frame [of "sends_key i" r c gen rand t s] show ?thesis
          by (cases "Generate R gen rand t r c s") (auto simp: keys_id)
      qed
    qed
    then have "chain (view s') i prev" using Cons.prems(1) by (simp add: chain_def)
    then show ?thesis unfolding at using Cons.prems(3) by (intro Cons.IH srt) auto
  next
    case True
    then obtain gen rand t r c code where op: "op = OpGenerate gen rand t r c" and i: "otp_id r c = i"
      and G: "Generate R gen rand t r c s = (Inr code, s')" and res: "res = Sent (Inr code)"
      using st by (cases op) (auto split: prod.splits)
    let ?F = "sends_at i ops (otp_run R cmp ops s')"
    have at: "sends_at i (op # ops) (otp_run R cmp (op # ops) s) = t # ?F"
      using st op i res by simp
    have F: "\<forall>x\<in>set ?F. t \<le> x" using sends_at_times [of i ops "otp_run R cmp ops s'"] later op by fastforce
    have le: "prev \<noteq> [] \<Longrightarrow> last prev \<le> t" using Cons.prems(3) op by simp
    have srtp: "sorted prev" using Cons.prems(1) by (simp add: chain_def)
    have G': "prev \<noteq> [] \<and> t < last prev + sendCountTTL \<longrightarrow> length prev < 3"
        "view s' (sends_key i) = Some (show_int (if prev \<noteq> [] \<and> t < last prev + sendCountTTL
          then int (length prev) + 1 else 1), Some (t + sendCountTTL))"
      using Generate_chain [of s r c prev t gen rand] Cons.prems(1) i G by (auto split: if_splits)
    show ?thesis
    proof (cases "prev \<noteq> [] \<and> t < last prev + sendCountTTL")
      case live: True
      have "\<forall>x\<in>set prev. x \<le> t" using sorted_le_last [OF srtp] le live by fastforce
      then have "chain (view s') i (prev @ [t])"
        using G' live srtp by (auto simp: chain_def sorted_append algebra_simps)
      then have "in_window w ((prev @ [t]) @ ?F) \<le> 3" using later op by (intro Cons.IH srt) auto
      then show ?thesis unfolding at by simp
    next
      case dead: False
      then have "chain (view s') i [t]" using G' by (auto simp: chain_def)
      then have t: "in_window w (t # ?F) \<le> 3" using later op Cons.IH [of s' "[t]" w] srt by simp
      show ?thesis
      proof (cases "prev = []")
        case True
        with t at show ?thesis by simp
      next
        case False
        have "in_window w (prev @ t # ?F) \<le> max (length prev) (in_window w (t # ?F))"
          using dead False F by (intro in_window_late srtp) auto
        moreover have "length prev \<le> 3" using Cons.prems(1) by (simp add: chain_def)
        ultimately show ?thesis unfolding at using t by simp
      qed
    qed
  qed
qed

end

text \<open>
  At most three passwords are sent to a registration and channel within any 24 hours, in every run
  of the service in which time does not run backwards.
\<close>

theorem otp_sends_limited:
  assumes "redis_server R view" "view s (sends_key i) = None" "sorted (map op_time ops)"
  shows "length (filter (\<lambda>t. w \<le> t \<and> t < w + 24 * hour) (sends_at i ops (otp_run R cmp ops s))) \<le> 3"
proof -
  have "chain (view s) i []" using assms(2) by (simp add: chain_def)
  from redis_server.sends_bounded [OF assms(1) this assms(3), of w cmp]
  show ?thesis by (simp add: in_window_def sendCountTTL_def)
qed

section \<open>Redis and bcrypt exist\<close>

text \<open>A server that is its key space, and a hash that keeps the password, satisfy the laws.\<close>

definition keyspace_redis :: "keyspace Redis" where
  "keyspace_redis =
     \<lparr>rd_Get = \<lambda>now k m. Inr (map_option fst (entry now k m)),
      rd_Exec = \<lambda>now cs m. (if pipeline_ok now cs m then None else Some ''ERR'', fold (redis_apply now) cs m)\<rparr>"

lemma redis_apply_frame: "k \<noteq> cmd_key c \<Longrightarrow> redis_apply now c m k = m k"
  by (cases c) (auto split: option.splits prod.splits)

lemma redis_fold_frame: "k \<notin> cmd_key ` set cs \<Longrightarrow> fold (redis_apply now) cs m k = m k"
  by (induction cs arbitrary: m) (simp_all add: redis_apply_frame)

interpretation keyspace_server: redis_server keyspace_redis "\<lambda>m. m"
  by unfold_locales (simp_all add: keyspace_redis_def redis_fold_frame)

definition example_gen :: "string \<Rightarrow> string + string" where
  "example_gen code = Inr code"

definition example_cmp :: "string \<Rightarrow> string \<Rightarrow> bool" where
  "example_cmp h code \<longleftrightarrow> h = code"

definition example_otp :: keyspace where
  "example_otp = snd (Generate keyspace_redis example_gen (\<lambda>k. Some k) 0 ''r'' ''phone'' Map.empty)"

lemma example_bcrypt: "example_gen x = Inr h \<Longrightarrow> example_cmp h y = (y = x)"
  by (auto simp: example_gen_def example_cmp_def)

lemma example_generate:
  "Generate keyspace_redis example_gen (\<lambda>k. Some k) 0 ''r'' ''phone'' Map.empty = (Inr ''012345'', example_otp)"
proof -
  have "fst (Generate keyspace_redis example_gen (\<lambda>k. Some k) 0 ''r'' ''phone'' Map.empty) = Inr ''012345''"
    by code_simp
  then show ?thesis unfolding example_otp_def by (metis prod.collapse)
qed

definition example_tries :: "otp_op list" where
  "example_tries = [OpVerify 1 ''r'' ''phone'' ''9'', OpVerify 2 ''r'' ''phone'' ''012345'',
     OpVerify 3 ''r'' ''phone'' ''012345'']"

theorem otp_lifecycle_witness:
  "verdicts (otp_id ''r'' ''phone'') example_tries (otp_run keyspace_redis example_cmp example_tries example_otp) =
     [Some ErrOTPInvalid, None, Some ErrOTPExpired]"
proof -
  have "verdicts (otp_id ''r'' ''phone'') example_tries (otp_run keyspace_redis example_cmp example_tries example_otp) =
     guesses (0 + otpTTL) ''012345'' 3 (tries (otp_id ''r'' ''phone'') example_tries)"
    by (rule conjunct1 [OF otp_lifecycle
        [OF keyspace_server.redis_server_axioms example_bcrypt example_generate]])
      (auto simp: example_tries_def)
  then show ?thesis by (simp add: example_tries_def otp_id_def otpTTL_def)
qed

theorem otp_guess_race_witness:
  "\<exists>ah. verify_read keyspace_redis 1 ''r'' ''phone'' example_otp = (Inr ah, example_otp) \<and>
     compare_all keyspace_redis example_cmp 1 ''r'' ''phone'' ah (replicate 100 ''0'' @ [''012345'']) example_otp =
       replicate 100 (Some ErrOTPInvalid) @ [None]"
  using otp_guess_race [OF keyspace_server.redis_server_axioms example_bcrypt example_generate, where now = 1 and wrong = "replicate 100 ''0''"]
  unfolding length_replicate by (rule meta_mp) (simp_all add: otpTTL_def)

definition example_sends :: "otp_op list" where
  "example_sends = replicate 5 (OpGenerate example_gen (\<lambda>k. Some k) 0 ''r'' ''phone'')"

theorem otp_sends_limited_witness:
  "length (filter (\<lambda>t. 0 \<le> t \<and> t < 0 + 24 * hour)
     (sends_at (otp_id ''r'' ''phone'') example_sends (otp_run keyspace_redis example_cmp example_sends Map.empty))) \<le> 3"
  by (rule otp_sends_limited [OF keyspace_server.redis_server_axioms])
    (simp_all add: example_sends_def numeral_eq_Suc)

end
