(* ===== verification/Identity_Store.thy ===== *)
theory Identity_Store
  imports GP_Interfaces GP_Text
begin

unbundle bit_operations_syntax

text \<open>
  The data of the identity service: identifiers (\<open>generateUUID\<close>, \<open>generateID\<close>), the checks and
  tokens of an NIK (\<open>crypto/nik.go\<close>) and envelope encryption of fields (\<open>crypto/field.go\<close>).
  HMAC-SHA256 and AES-GCM are parameters; what is used of AES-GCM is the locale \<open>gcm_scheme\<close>.
\<close>

section \<open>Identifiers\<close>

text \<open>Sixteen random bytes with the version and the variant of a UUID v4 set, in hexadecimal groups.\<close>

definition set_version :: "string \<Rightarrow> string" where
  "set_version b = b[6 := char_of ((byte (b ! 6) AND 15) OR 64), 8 := char_of ((byte (b ! 8) AND 63) OR 128)]"

definition slice :: "nat \<Rightarrow> nat \<Rightarrow> string \<Rightarrow> string" where
  "slice i j s = take (j - i) (drop i s)"

definition generateUUID :: "string option \<Rightarrow> ident option" where
  "generateUUID rnd = (case rnd of None \<Rightarrow> None | Some r \<Rightarrow>
     (let b = set_version r in
      Some (hex_encode (slice 0 4 b) @ ''-'' @ hex_encode (slice 4 6 b) @ ''-'' @ hex_encode (slice 6 8 b) @
            ''-'' @ hex_encode (slice 8 10 b) @ ''-'' @ hex_encode (slice 10 16 b))))"

lemma length_slice: "j \<le> length s \<Longrightarrow> length (slice i j s) = j - i"
  by (simp add: slice_def)

lemma length_set_version [simp]: "length (set_version b) = length b"
  by (simp add: set_version_def)

lemma low_or_high: "n \<le> k \<Longrightarrow> (x AND mask n) OR 2 ^ k = (x mod 2 ^ n + 2 ^ k :: nat)"
proof -
  assume "n \<le> k"
  then have "take_bit n x + 2 ^ k = take_bit n x OR 2 ^ k"
    by (intro disjunctive_add) (auto simp: bit_take_bit_iff bit_exp_iff)
  then show ?thesis by (simp add: take_bit_eq_mod flip: take_bit_eq_mask)
qed

lemma version_bytes:
  "(x AND 15) OR 64 = (x mod 16 + 64 :: nat)" "(x AND 63) OR 128 = (x mod 64 + 128 :: nat)"
  using low_or_high [of 4 6 x] low_or_high [of 6 7 x] by (simp_all add: mask_eq_exp_minus_1)

lemma set_version_bytes:
  assumes "16 \<le> length b"
  shows "byte (set_version b ! 6) = byte (b ! 6) mod 16 + 64"
    and "byte (set_version b ! 8) = byte (b ! 8) mod 64 + 128"
    and "i \<noteq> 6 \<Longrightarrow> i \<noteq> 8 \<Longrightarrow> set_version b ! i = b ! i"
proof -
  have "byte (b ! 6) mod 16 + 64 < 256" "byte (b ! 8) mod 64 + 128 < 256" by (simp_all add: byte_def)
  with assms show "byte (set_version b ! 6) = byte (b ! 6) mod 16 + 64"
    "byte (set_version b ! 8) = byte (b ! 8) mod 64 + 128"
    by (simp_all add: set_version_def version_bytes byte_def)
  show "i \<noteq> 6 \<Longrightarrow> i \<noteq> 8 \<Longrightarrow> set_version b ! i = b ! i" by (simp add: set_version_def)
qed

lemma length_generateUUID: "length r = 16 \<Longrightarrow> generateUUID (Some r) = Some u \<Longrightarrow> length u = 36"
  by (auto simp: generateUUID_def Let_def length_hex_encode length_slice)

lemma slice_drop: "i \<le> j \<Longrightarrow> slice i j b @ drop j b = drop i b"
  by (simp add: slice_def) (metis append_take_drop_id drop_drop le_add_diff_inverse2)

lemma slices_all:
  assumes "length b = 16"
  shows "slice 0 4 b @ slice 4 6 b @ slice 6 8 b @ slice 8 10 b @ slice 10 16 b = b"
proof -
  have "slice 10 16 b = drop 10 b" using slice_drop [of 10 16 b] assms by simp
  then have "slice 8 10 b @ slice 10 16 b = drop 8 b" using slice_drop [of 8 10 b] by simp
  then have "slice 6 8 b @ slice 8 10 b @ slice 10 16 b = drop 6 b" using slice_drop [of 6 8 b] by simp
  then have "slice 4 6 b @ slice 6 8 b @ slice 8 10 b @ slice 10 16 b = drop 4 b" using slice_drop [of 4 6 b] by simp
  then show ?thesis using slice_drop [of 0 4 b] by simp
qed

lemma generateUUID_inj:
  assumes "length r = 16" "length r' = 16" "generateUUID (Some r) = generateUUID (Some r')"
  shows "set_version r = set_version r'"
proof -
  let ?b = "set_version r" and ?c = "set_version r'"
  have "slice 0 4 ?b = slice 0 4 ?c \<and> slice 4 6 ?b = slice 4 6 ?c \<and> slice 6 8 ?b = slice 6 8 ?c \<and>
    slice 8 10 ?b = slice 8 10 ?c \<and> slice 10 16 ?b = slice 10 16 ?c"
    using assms by (auto simp: generateUUID_def Let_def length_hex_encode length_slice dest!: hex_encode_inj)
  moreover have "length ?b = 16" "length ?c = 16" using assms by simp_all
  ultimately show ?thesis using slices_all [of ?b] slices_all [of ?c] by metis
qed

section \<open>NIK\<close>

datatype nik_err = NotSixteenDigits | InvalidProvince nat

definition ValidateNIKFormat :: "string \<Rightarrow> nik_err option" where
  "ValidateNIKFormat nik =
     (if \<not> (length nik = 16 \<and> list_all is_digit nik) then Some NotSixteenDigits
      else let provinceCode = (case parse_digits (take 2 nik) of Some n \<Rightarrow> n | None \<Rightarrow> 0)
           in if provinceCode < 11 \<or> provinceCode > 99 then Some (InvalidProvince provinceCode) else None)"

definition TokenizeNIK :: "(string \<Rightarrow> string \<Rightarrow> string) \<Rightarrow> string \<Rightarrow> string \<Rightarrow> string" where
  "TokenizeNIK mac nik key = hex_encode (mac key nik)"

fun mask_loop :: "nat \<Rightarrow> string \<Rightarrow> string" where
  "mask_loop 0 masked = masked"
| "mask_loop (Suc n) masked = mask_loop n (masked @ ''*'')"

definition MaskNIK :: "string \<Rightarrow> string" where
  "MaskNIK nik =
     (if length nik \<le> 4 then nik else mask_loop (length nik - 4) [] @ drop (length nik - 4) nik)"

lemma mask_loop_stars: "mask_loop n masked = masked @ replicate n CHR ''*''"
  by (induction n arbitrary: masked) (simp_all add: replicate_append_same [symmetric])

lemma MaskNIK_stars:
  "4 < length nik \<Longrightarrow> MaskNIK nik = replicate (length nik - 4) CHR ''*'' @ drop (length nik - 4) nik"
  by (simp add: MaskNIK_def mask_loop_stars)

lemma ValidateNIKFormat_None:
  "ValidateNIKFormat nik = None \<longleftrightarrow>
     length nik = 16 \<and> list_all is_digit nik \<and> 11 \<le> 10 * digit_val (nik ! 0) + digit_val (nik ! 1)"
proof (cases "length nik = 16 \<and> list_all is_digit nik")
  case True
  then obtain a b r where nik: "nik = a # b # r" by (cases nik; cases "tl nik") auto
  with True have d: "is_digit a" "is_digit b" by auto
  then have "digit_val a \<le> 9" "digit_val b \<le> 9" by (auto simp: digit_val_def is_digit_def)
  with True nik d show ?thesis
    by (auto simp: ValidateNIKFormat_def parse_digits_def of_base_Cons Let_def split: if_splits)
qed (auto simp: ValidateNIKFormat_def)

section \<open>Envelope encryption\<close>

text \<open>
  AES-GCM under a key: \<open>seal\<close> and \<open>open\<close> with a nonce of 12 bytes; \<open>aes.NewCipher\<close> accepts keys of 16,
  24 or 32 bytes.
  The laws: \<open>Open\<close> inverts \<open>Seal\<close>, and \<open>Open\<close> accepts nothing but what \<open>Seal\<close> makes under the same
  key and nonce (the tag is recomputed and compared).
\<close>

record AEAD =
  gcm_seal :: "string \<Rightarrow> string \<Rightarrow> string \<Rightarrow> string"
  gcm_open :: "string \<Rightarrow> string \<Rightarrow> string \<Rightarrow> string option"

definition NonceSize :: nat where
  "NonceSize = 12"

definition NewCipher :: "string \<Rightarrow> bool" where
  "NewCipher key \<longleftrightarrow> length key = 16 \<or> length key = 24 \<or> length key = 32"

locale gcm_scheme =
  fixes A :: AEAD
  assumes open_seal: "gcm_open A k n (gcm_seal A k n p) = Some p"
    and open_only: "gcm_open A k n c = Some p \<Longrightarrow> c = gcm_seal A k n p"

datatype field_err =
    KEKLength nat
  | RandomFailed
  | WrappedTooShort
  | UnwrapFailed
  | BadDEK nat
  | CiphertextTooShort
  | DecryptFailed

text \<open>A \<open>FieldEncryptor\<close> holds its key-encryption key.\<close>

definition NewFieldEncryptor :: "string \<Rightarrow> field_err + string" where
  "NewFieldEncryptor kek = (if length kek \<noteq> 32 then Inl (KEKLength (length kek)) else Inr kek)"

definition GenerateWrappedDEK :: "AEAD \<Rightarrow> string \<Rightarrow> string option \<Rightarrow> string option \<Rightarrow> field_err + string" where
  "GenerateWrappedDEK A kek rnd rnd' =
     (case rnd of None \<Rightarrow> Inl RandomFailed
      | Some dek \<Rightarrow> (case rnd' of None \<Rightarrow> Inl RandomFailed
         | Some nonce \<Rightarrow> Inr (nonce @ gcm_seal A kek nonce dek)))"

definition unwrapDEK :: "AEAD \<Rightarrow> string \<Rightarrow> string \<Rightarrow> field_err + string" where
  "unwrapDEK A kek wrappedDEK =
     (if length wrappedDEK < NonceSize then Inl WrappedTooShort
      else case gcm_open A kek (take NonceSize wrappedDEK) (drop NonceSize wrappedDEK) of
        None \<Rightarrow> Inl UnwrapFailed
      | Some dek \<Rightarrow> Inr dek)"

definition EncryptField ::
  "AEAD \<Rightarrow> string \<Rightarrow> string option \<Rightarrow> string \<Rightarrow> string \<Rightarrow> field_err + string" where
  "EncryptField A kek rnd wrappedDEK plaintext =
     (case unwrapDEK A kek wrappedDEK of
        Inl err \<Rightarrow> Inl err
      | Inr dek \<Rightarrow>
        if \<not> NewCipher dek then Inl (BadDEK (length dek))
        else case rnd of None \<Rightarrow> Inl RandomFailed
          | Some nonce \<Rightarrow> Inr (nonce @ gcm_seal A dek nonce plaintext))"

definition DecryptField :: "AEAD \<Rightarrow> string \<Rightarrow> string \<Rightarrow> string \<Rightarrow> field_err + string" where
  "DecryptField A kek wrappedDEK ciphertext =
     (case unwrapDEK A kek wrappedDEK of
        Inl err \<Rightarrow> Inl err
      | Inr dek \<Rightarrow>
        if \<not> NewCipher dek then Inl (BadDEK (length dek))
        else if length ciphertext < NonceSize then Inl CiphertextTooShort
        else case gcm_open A dek (take NonceSize ciphertext) (drop NonceSize ciphertext) of
          None \<Rightarrow> Inl DecryptFailed
        | Some plaintext \<Rightarrow> Inr plaintext)"

context gcm_scheme begin

lemma open_iff: "gcm_open A k n c = Some p \<longleftrightarrow> c = gcm_seal A k n p"
  using open_seal open_only by blast

lemma unwrap_wrapped:
  "GenerateWrappedDEK A kek (Some dek) (Some nonce) = Inr w \<Longrightarrow> length nonce = 12 \<Longrightarrow>
     unwrapDEK A kek w = Inr dek"
  by (auto simp: GenerateWrappedDEK_def unwrapDEK_def NonceSize_def open_seal)

lemma decrypt_iff:
  assumes "GenerateWrappedDEK A kek (Some dek) (Some nonce) = Inr w" "length nonce = 12" "length dek = 32"
  shows "DecryptField A kek w c = Inr p \<longleftrightarrow>
     (\<exists>n. length n = 12 \<and> EncryptField A kek (Some n) w p = Inr c)"
proof -
  have c: "(\<exists>n. length n = 12 \<and> c = n @ gcm_seal A dek n p) \<longleftrightarrow>
      \<not> length c < 12 \<and> drop 12 c = gcm_seal A dek (take 12 c) p"
  proof
    assume r: "\<not> length c < 12 \<and> drop 12 c = gcm_seal A dek (take 12 c) p"
    then have "c = take 12 c @ gcm_seal A dek (take 12 c) p" by (metis append_take_drop_id)
    with r show "\<exists>n. length n = 12 \<and> c = n @ gcm_seal A dek n p"
      by (intro exI [of _ "take 12 c"]) simp
  qed auto
  have "NewCipher dek" using assms(3) by (simp add: NewCipher_def)
  with unwrap_wrapped [OF assms(1,2)] have D: "DecryptField A kek w c = Inr p \<longleftrightarrow>
      \<not> length c < 12 \<and> gcm_open A dek (take 12 c) (drop 12 c) = Some p"
    by (simp add: DecryptField_def NonceSize_def split: option.split)
  have "(\<exists>n. length n = 12 \<and> EncryptField A kek (Some n) w p = Inr c) \<longleftrightarrow>
      (\<exists>n. length n = 12 \<and> c = n @ gcm_seal A dek n p)"
    using \<open>NewCipher dek\<close> unwrap_wrapped [OF assms(1,2)] by (auto simp: EncryptField_def)
  with D c show ?thesis by (simp add: open_iff)
qed

end

end
