(* ===== verification/Identity_Users.thy ===== *)
theory Identity_Users
  imports Identity_Store
begin

text \<open>
  The repositories of the identity service: users (\<open>repository/user.go\<close>, \<open>repository/user_memory.go\<close>)
  and consents (\<open>repository/consent.go\<close>, \<open>repository/consent_memory.go\<close>), in memory and in Postgres.
  A table is a map from its primary key; \<open>fail\<close> gives the error of a statement of the database, and
  \<open>key\<close> is the identifier the database draws.
\<close>

section \<open>Users\<close>

record User =
  us_ID :: ident
  us_KeycloakID :: ident
  us_NIKToken :: string
  us_NIKMasked :: string
  us_NameEnc :: string
  us_DOBEnc :: string
  us_Gender :: string
  us_PhoneHash :: string
  us_PhoneEnc :: string
  us_EmailHash :: string
  us_EmailEnc :: string
  us_AddressEnc :: string
  us_WrappedDEK :: string
  us_AuthLevel :: int
  us_VerificationStatus :: string
  us_DukcapilVerifiedAt :: "time option"
  us_CreatedAt :: time
  us_UpdatedAt :: time

datatype repo_err = ErrNotFound | ErrDuplicateNIKToken | GenerateIDFailed | QueryFailed string

record users =
  ur_users :: "ident \<rightharpoonup> User"
  ur_byNIK :: "string \<rightharpoonup> ident"

definition NewInMemoryUserRepository :: users where
  "NewInMemoryUserRepository = \<lparr>ur_users = Map.empty, ur_byNIK = Map.empty\<rparr>"

definition user_Create :: "string option \<Rightarrow> time \<Rightarrow> User \<Rightarrow> users \<Rightarrow> repo_err + User \<times> users" where
  "user_Create rnd now user r =
     (case ur_byNIK r (us_NIKToken user) of
        Some i \<Rightarrow> Inl ErrDuplicateNIKToken
      | None \<Rightarrow>
         (case generateUUID rnd of
            None \<Rightarrow> Inl GenerateIDFailed
          | Some i \<Rightarrow>
             (let u = user\<lparr>us_ID := i, us_CreatedAt := now, us_UpdatedAt := now\<rparr>
              in Inr (u, r\<lparr>ur_users := (ur_users r)(us_ID u \<mapsto> u),
                           ur_byNIK := (ur_byNIK r)(us_NIKToken u \<mapsto> us_ID u)\<rparr>))))"

definition user_GetByID :: "ident \<Rightarrow> users \<Rightarrow> repo_err + User" where
  "user_GetByID i r = (case ur_users r i of None \<Rightarrow> Inl ErrNotFound | Some u \<Rightarrow> Inr u)"

text \<open>
  \<open>copyUser(r.users[id])\<close> of an identifier that is not there would dereference nil: a panic, the
  outer \<open>None\<close>.
\<close>

definition user_GetByNIKToken :: "string \<Rightarrow> users \<Rightarrow> (repo_err + User) option" where
  "user_GetByNIKToken t r =
     (case ur_byNIK r t of
        None \<Rightarrow> Some (Inl ErrNotFound)
      | Some i \<Rightarrow> (case ur_users r i of None \<Rightarrow> None | Some u \<Rightarrow> Some (Inr u)))"

definition user_UpdateVerificationStatus :: "ident \<Rightarrow> string \<Rightarrow> time \<Rightarrow> users \<Rightarrow> repo_err + users" where
  "user_UpdateVerificationStatus i status now r =
     (case ur_users r i of
        None \<Rightarrow> Inl ErrNotFound
      | Some u \<Rightarrow> Inr (r\<lparr>ur_users := (ur_users r)(i \<mapsto> u\<lparr>us_VerificationStatus := status, us_UpdatedAt := now\<rparr>)\<rparr>))"

definition user_Exists :: "string \<Rightarrow> users \<Rightarrow> bool" where
  "user_Exists t r \<longleftrightarrow> ur_byNIK r t \<noteq> None"

text \<open>The index points to the user with that token, and every user is in the index.\<close>

definition users_inv :: "users \<Rightarrow> bool" where
  "users_inv r \<longleftrightarrow>
     (\<forall>t i. ur_byNIK r t = Some i \<longrightarrow> (\<exists>u. ur_users r i = Some u \<and> us_NIKToken u = t)) \<and>
     (\<forall>i u. ur_users r i = Some u \<longrightarrow> us_ID u = i \<and> ur_byNIK r (us_NIKToken u) = Some i)"

lemma users_invD:
  "users_inv r \<Longrightarrow> ur_byNIK r t = Some i \<Longrightarrow> \<exists>u. ur_users r i = Some u \<and> us_NIKToken u = t"
  "users_inv r \<Longrightarrow> ur_users r i = Some u \<Longrightarrow> us_ID u = i \<and> ur_byNIK r (us_NIKToken u) = Some i"
  by (simp_all add: users_inv_def)

lemma users_invI:
  assumes "\<And>t i. ur_byNIK r t = Some i \<Longrightarrow> \<exists>u. ur_users r i = Some u \<and> us_NIKToken u = t"
    "\<And>i u. ur_users r i = Some u \<Longrightarrow> us_ID u = i \<and> ur_byNIK r (us_NIKToken u) = Some i"
  shows "users_inv r"
  using assms by (simp add: users_inv_def)

lemma users_inv_init: "users_inv NewInMemoryUserRepository"
  by (simp add: users_inv_def NewInMemoryUserRepository_def)

lemma user_Create_inv:
  assumes "users_inv r" "user_Create rnd now user r = Inr (u, r')" "ur_users r (us_ID u) = None"
  shows "users_inv r'"
proof -
  from assms(2) obtain i where "ur_byNIK r (us_NIKToken user) = None"
    "u = user\<lparr>us_ID := i, us_CreatedAt := now, us_UpdatedAt := now\<rparr>"
    "r' = r\<lparr>ur_users := (ur_users r)(i \<mapsto> u), ur_byNIK := (ur_byNIK r)(us_NIKToken user \<mapsto> i)\<rparr>"
    by (auto simp: user_Create_def Let_def split: option.splits)
  note r' = this
  show ?thesis
  proof (rule users_invI)
    fix t j assume "ur_byNIK r' t = Some j"
    then show "\<exists>u. ur_users r' j = Some u \<and> us_NIKToken u = t"
      using r' assms(3) users_invD(1) [OF assms(1), of t j] by (auto split: if_splits)
  next
    fix j v assume "ur_users r' j = Some v"
    then show "us_ID v = j \<and> ur_byNIK r' (us_NIKToken v) = Some j"
      using r' users_invD(2) [OF assms(1), of j v] by (auto split: if_splits)
  qed
qed

lemma user_Update_inv:
  assumes "users_inv r" "user_UpdateVerificationStatus i st now r = Inr r'"
  shows "users_inv r'"
proof -
  from assms(2) obtain u where "ur_users r i = Some u"
    "r' = r\<lparr>ur_users := (ur_users r)(i \<mapsto> u\<lparr>us_VerificationStatus := st, us_UpdatedAt := now\<rparr>)\<rparr>"
    by (auto simp: user_UpdateVerificationStatus_def split: option.splits)
  note r' = this
  show ?thesis
  proof (rule users_invI)
    fix t j assume "ur_byNIK r' t = Some j"
    then show "\<exists>u. ur_users r' j = Some u \<and> us_NIKToken u = t"
      using r' users_invD(1) [OF assms(1), of t j] by (auto split: if_splits)
  next
    fix j v assume "ur_users r' j = Some v"
    then show "us_ID v = j \<and> ur_byNIK r' (us_NIKToken v) = Some j"
      using r' users_invD(2) [OF assms(1), of j v] users_invD(2) [OF assms(1), of i u]
      by (auto split: if_splits)
  qed
qed

lemma user_GetByNIKToken_iff:
  assumes "users_inv r"
  shows "user_GetByNIKToken t r \<noteq> None"
    and "user_GetByNIKToken t r = Some (Inr u) \<longleftrightarrow> ur_users r (us_ID u) = Some u \<and> us_NIKToken u = t"
proof -
  show "user_GetByNIKToken t r \<noteq> None"
    using users_invD(1) [OF assms, of t] by (fastforce simp: user_GetByNIKToken_def split: option.splits)
  show "user_GetByNIKToken t r = Some (Inr u) \<longleftrightarrow> ur_users r (us_ID u) = Some u \<and> us_NIKToken u = t"
  proof
    assume "user_GetByNIKToken t r = Some (Inr u)"
    then obtain i where i: "ur_byNIK r t = Some i" "ur_users r i = Some u"
      by (auto simp: user_GetByNIKToken_def split: option.splits)
    with users_invD(1) [OF assms i(1)] users_invD(2) [OF assms i(2)]
    show "ur_users r (us_ID u) = Some u \<and> us_NIKToken u = t" by simp
  next
    assume "ur_users r (us_ID u) = Some u \<and> us_NIKToken u = t"
    with users_invD(2) [OF assms, of "us_ID u" u] show "user_GetByNIKToken t r = Some (Inr u)"
      by (simp add: user_GetByNIKToken_def)
  qed
qed

text \<open>
  The Postgres repository: the index is the unique constraint on \<open>nik_token\<close>, whose violation the
  code recognises by the text 23505 in the error (\<open>searchString\<close>).
\<close>

fun search_loop :: "string \<Rightarrow> string \<Rightarrow> nat \<Rightarrow> nat \<Rightarrow> bool" where
  "search_loop s substr i 0 = False"
| "search_loop s substr i (Suc n) =
     (if take (length substr) (drop i s) = substr then True else search_loop s substr (Suc i) n)"

definition searchString :: "string \<Rightarrow> string \<Rightarrow> bool" where
  "searchString s substr = search_loop s substr 0 (length s + 1 - length substr)"

definition contains_sub :: "string \<Rightarrow> string \<Rightarrow> bool" where
  "contains_sub s substr \<longleftrightarrow> length s \<ge> length substr \<and> searchString s substr"

definition isUniqueViolation :: "string option \<Rightarrow> bool" where
  "isUniqueViolation err = (case err of None \<Rightarrow> False | Some e \<Rightarrow> contains_sub e ''23505'')"

lemma search_loop_iff:
  "search_loop s substr i n \<longleftrightarrow> (\<exists>j<n. take (length substr) (drop (i + j) s) = substr)"
proof (induction n arbitrary: i)
  case (Suc n)
  have "(\<exists>j<Suc n. take (length substr) (drop (i + j) s) = substr) \<longleftrightarrow>
    take (length substr) (drop i s) = substr \<or> (\<exists>j<n. take (length substr) (drop (Suc i + j) s) = substr)"
    by (auto simp: less_Suc_eq_0_disj)
  with Suc show ?case by auto
qed simp

lemma contains_sub_iff: "contains_sub s substr \<longleftrightarrow> (\<exists>a b. s = a @ substr @ b)"
proof
  assume "contains_sub s substr"
  then obtain j where "take (length substr) (drop j s) = substr"
    by (auto simp: contains_sub_def searchString_def search_loop_iff)
  then have "s = take j s @ substr @ drop (length substr) (drop j s)"
    by (metis append_take_drop_id)
  then show "\<exists>a b. s = a @ substr @ b" by blast
next
  assume "\<exists>a b. s = a @ substr @ b"
  then obtain a b where "s = a @ substr @ b" by blast
  then have "take (length substr) (drop (length a) s) = substr" "length a < length s + 1 - length substr"
    "length substr \<le> length s" by auto
  then show "contains_sub s substr"
    by (auto simp: contains_sub_def searchString_def search_loop_iff intro!: exI [of _ "length a"])
qed

definition pg_user_Create ::
  "string option \<Rightarrow> string \<Rightarrow> ident list \<Rightarrow> ident \<Rightarrow> time \<Rightarrow> User \<Rightarrow> (ident \<rightharpoonup> User) \<Rightarrow>
     repo_err + User \<times> (ident \<rightharpoonup> User)" where
  "pg_user_Create fail violation ks key now user m =
     (let err = (case fail of Some e \<Rightarrow> Some e
                 | None \<Rightarrow> if list_ex (\<lambda>u. us_NIKToken u = us_NIKToken user) (range_vals ks m) then Some violation else None)
      in case err of
        Some e \<Rightarrow> if isUniqueViolation (Some e) then Inl ErrDuplicateNIKToken else Inl (QueryFailed e)
      | None \<Rightarrow> (let u = user\<lparr>us_ID := key, us_CreatedAt := now, us_UpdatedAt := now\<rparr>
                in Inr (u, m(key \<mapsto> u))))"

definition pg_user_GetByID :: "string option \<Rightarrow> ident \<Rightarrow> (ident \<rightharpoonup> User) \<Rightarrow> repo_err + User" where
  "pg_user_GetByID fail i m =
     (case fail of Some e \<Rightarrow> Inl (QueryFailed e)
      | None \<Rightarrow> (case m i of None \<Rightarrow> Inl ErrNotFound | Some u \<Rightarrow> Inr u))"

definition pg_user_GetByNIKToken ::
  "string option \<Rightarrow> ident list \<Rightarrow> string \<Rightarrow> (ident \<rightharpoonup> User) \<Rightarrow> repo_err + User" where
  "pg_user_GetByNIKToken fail ks t m =
     (case fail of Some e \<Rightarrow> Inl (QueryFailed e)
      | None \<Rightarrow> (case find (\<lambda>u. us_NIKToken u = t) (range_vals ks m) of None \<Rightarrow> Inl ErrNotFound | Some u \<Rightarrow> Inr u))"

definition pg_user_UpdateVerificationStatus ::
  "string option \<Rightarrow> ident \<Rightarrow> string \<Rightarrow> time \<Rightarrow> (ident \<rightharpoonup> User) \<Rightarrow> repo_err + (ident \<rightharpoonup> User)" where
  "pg_user_UpdateVerificationStatus fail i status now m =
     (case fail of Some e \<Rightarrow> Inl (QueryFailed e)
      | None \<Rightarrow> (case m i of None \<Rightarrow> Inl ErrNotFound
          | Some u \<Rightarrow> Inr (m(i \<mapsto> u\<lparr>us_VerificationStatus := status, us_UpdatedAt := now\<rparr>))))"

definition pg_user_Exists :: "string option \<Rightarrow> ident list \<Rightarrow> string \<Rightarrow> (ident \<rightharpoonup> User) \<Rightarrow> repo_err + bool" where
  "pg_user_Exists fail ks t m =
     (case fail of Some e \<Rightarrow> Inl (QueryFailed e)
      | None \<Rightarrow> Inr (list_ex (\<lambda>u. us_NIKToken u = t) (range_vals ks m)))"

text \<open>
  The two repositories agree where the index is the one of the in-memory repository, the database does
  not fail but for its constraint, and its error names it.
\<close>

lemma users_inv_token:
  assumes "users_inv r" "range_of ks (ur_users r)"
  shows "list_ex (\<lambda>u. us_NIKToken u = t) (range_vals ks (ur_users r)) \<longleftrightarrow> ur_byNIK r t \<noteq> None"
  using users_invD(1) [OF assms(1), of t] users_invD(2) [OF assms(1)] set_range_vals_ran [OF assms(2)]
  by (auto simp: list_ex_iff ran_def) blast+

lemma users_refine:
  assumes r: "users_inv r" "range_of ks (ur_users r)"
    and e: "violation = a @ ''23505'' @ b" and k: "generateUUID rnd = Some key"
  shows "map_sum id (apsnd ur_users) (user_Create rnd now user r) =
      pg_user_Create None violation ks key now user (ur_users r)"
    and "pg_user_GetByNIKToken None ks t (ur_users r) = the (user_GetByNIKToken t r)"
    and "pg_user_Exists None ks t (ur_users r) = Inr (user_Exists t r)"
proof -
  have "isUniqueViolation (Some violation)" using e by (auto simp: isUniqueViolation_def contains_sub_iff)
  then show "map_sum id (apsnd ur_users) (user_Create rnd now user r) =
      pg_user_Create None violation ks key now user (ur_users r)"
    using users_inv_token [OF r, of "us_NIKToken user"] k
    by (auto simp: user_Create_def pg_user_Create_def Let_def split: option.splits)
  show "pg_user_Exists None ks t (ur_users r) = Inr (user_Exists t r)"
    by (simp add: pg_user_Exists_def user_Exists_def users_inv_token [OF r])
  show "pg_user_GetByNIKToken None ks t (ur_users r) = the (user_GetByNIKToken t r)"
  proof (cases "ur_byNIK r t")
    case None
    with users_inv_token [OF r, of t] have "find (\<lambda>u. us_NIKToken u = t) (range_vals ks (ur_users r)) = None"
      by (auto simp: find_None_iff list_ex_iff)
    with None show ?thesis by (simp add: pg_user_GetByNIKToken_def user_GetByNIKToken_def)
  next
    case (Some i)
    then obtain u where u: "ur_users r i = Some u" "us_NIKToken u = t" using users_invD(1) [OF r(1)] by blast
    have "find (\<lambda>u. us_NIKToken u = t) (range_vals ks (ur_users r)) = Some u"
    proof (rule find_range_unique [OF r(2)])
      fix w assume w: "w \<in> ran (ur_users r)" "us_NIKToken w = t"
      then obtain j where j: "ur_users r j = Some w" by (auto simp: ran_def)
      with users_invD(2) [OF r(1) j] w(2) Some u show "w = u" by simp
    qed (use u in \<open>auto intro: in_ranI\<close>)
    with Some u show ?thesis by (simp add: pg_user_GetByNIKToken_def user_GetByNIKToken_def)
  qed
qed

section \<open>Consents\<close>

record IdConsent =
  ic_ID :: ident
  ic_UserID :: ident
  ic_ClientID :: ident
  ic_ClientName :: string
  ic_Purpose :: string
  ic_Fields :: string
  ic_DurationSeconds :: int
  ic_GrantedAt :: time
  ic_ExpiresAt :: time
  ic_RevokedAt :: "time option"
  ic_Status :: string
  ic_CreatedAt :: time

definition stamp_grant :: "ident \<Rightarrow> time \<Rightarrow> IdConsent \<Rightarrow> IdConsent" where
  "stamp_grant i now c = c\<lparr>ic_ID := i, ic_CreatedAt := now\<rparr>"

definition idc_Grant ::
  "string option \<Rightarrow> time \<Rightarrow> IdConsent \<Rightarrow> (ident \<rightharpoonup> IdConsent) \<Rightarrow> repo_err + IdConsent \<times> (ident \<rightharpoonup> IdConsent)" where
  "idc_Grant rnd now consent m =
     (case generateUUID rnd of
        None \<Rightarrow> Inl GenerateIDFailed
      | Some i \<Rightarrow> (let c = stamp_grant i now consent in Inr (c, m(ic_ID c \<mapsto> c))))"

definition idc_GetByID :: "ident \<Rightarrow> (ident \<rightharpoonup> IdConsent) \<Rightarrow> repo_err + IdConsent" where
  "idc_GetByID i m = (case m i of None \<Rightarrow> Inl ErrNotFound | Some c \<Rightarrow> Inr c)"

definition idc_ListByUser :: "ident list \<Rightarrow> ident \<Rightarrow> (ident \<rightharpoonup> IdConsent) \<Rightarrow> IdConsent list" where
  "idc_ListByUser ks u m = filter (\<lambda>c. ic_UserID c = u) (range_vals ks m)"

definition idc_Revoke :: "ident \<Rightarrow> time \<Rightarrow> (ident \<rightharpoonup> IdConsent) \<Rightarrow> repo_err + (ident \<rightharpoonup> IdConsent)" where
  "idc_Revoke i now m =
     (case m i of
        None \<Rightarrow> Inl ErrNotFound
      | Some c \<Rightarrow>
          if ic_Status c \<noteq> ''ACTIVE'' then Inl ErrNotFound
          else Inr (m(i \<mapsto> c\<lparr>ic_Status := ''REVOKED'', ic_RevokedAt := Some now\<rparr>)))"

definition idc_stale :: "time \<Rightarrow> IdConsent \<Rightarrow> bool" where
  "idc_stale now c \<longleftrightarrow> ic_Status c = ''ACTIVE'' \<and> ic_ExpiresAt c < now"

fun idc_expire_loop ::
  "ident list \<Rightarrow> time \<Rightarrow> nat \<times> (ident \<rightharpoonup> IdConsent) \<Rightarrow> nat \<times> (ident \<rightharpoonup> IdConsent)" where
  "idc_expire_loop [] now (n, m) = (n, m)"
| "idc_expire_loop (k # ks) now (n, m) = (case m k of
     None \<Rightarrow> idc_expire_loop ks now (n, m)
   | Some c \<Rightarrow>
       if idc_stale now c then idc_expire_loop ks now (Suc n, m(k \<mapsto> c\<lparr>ic_Status := ''EXPIRED''\<rparr>))
       else idc_expire_loop ks now (n, m))"

definition idc_ExpireStale :: "ident list \<Rightarrow> time \<Rightarrow> (ident \<rightharpoonup> IdConsent) \<Rightarrow> nat \<times> (ident \<rightharpoonup> IdConsent)" where
  "idc_ExpireStale ks now m = idc_expire_loop ks now (0, m)"

interpretation idc_rev: once_revocable_store "\<lambda>m. m" "\<lambda>i t c m. m(i \<mapsto> stamp_grant i t c)" idc_Revoke
  stamp_grant "\<lambda>t c. c\<lparr>ic_Status := ''REVOKED'', ic_RevokedAt := Some t\<rparr>" ic_Status
  by unfold_locales (auto simp: idc_Revoke_def split: option.splits if_splits)

text \<open>The statement of the Postgres repository changes the rows its \<open>WHERE\<close> selects, all at once.\<close>

definition expire_row :: "time \<Rightarrow> IdConsent \<Rightarrow> IdConsent" where
  "expire_row now c = (if idc_stale now c then c\<lparr>ic_Status := ''EXPIRED''\<rparr> else c)"

definition pg_idc_ExpireStale ::
  "string option \<Rightarrow> ident list \<Rightarrow> time \<Rightarrow> (ident \<rightharpoonup> IdConsent) \<Rightarrow> repo_err + nat \<times> (ident \<rightharpoonup> IdConsent)" where
  "pg_idc_ExpireStale fail ks now m =
     (case fail of Some e \<Rightarrow> Inl (QueryFailed e)
      | None \<Rightarrow> Inr (length (filter (idc_stale now) (range_vals ks m)), (\<lambda>i. map_option (expire_row now) (m i))))"

definition pg_idc_Revoke ::
  "string option \<Rightarrow> ident \<Rightarrow> time \<Rightarrow> (ident \<rightharpoonup> IdConsent) \<Rightarrow> repo_err + (ident \<rightharpoonup> IdConsent)" where
  "pg_idc_Revoke fail i now m =
     (case fail of Some e \<Rightarrow> Inl (QueryFailed e)
      | None \<Rightarrow> (let rows = (case m i of None \<Rightarrow> 0 | Some c \<Rightarrow> if ic_Status c = ''ACTIVE'' then 1 else (0 :: nat))
                in if rows = 0 then Inl ErrNotFound
                   else Inr (m(i \<mapsto> (the (m i))\<lparr>ic_Status := ''REVOKED'', ic_RevokedAt := Some now\<rparr>))))"

definition pg_idc_Grant ::
  "string option \<Rightarrow> ident \<Rightarrow> time \<Rightarrow> IdConsent \<Rightarrow> (ident \<rightharpoonup> IdConsent) \<Rightarrow>
     repo_err + IdConsent \<times> (ident \<rightharpoonup> IdConsent)" where
  "pg_idc_Grant fail key now consent m =
     (case fail of Some e \<Rightarrow> Inl (QueryFailed e)
      | None \<Rightarrow> (let c = stamp_grant key now consent in Inr (c, m(key \<mapsto> c))))"

definition pg_idc_GetByID :: "string option \<Rightarrow> ident \<Rightarrow> (ident \<rightharpoonup> IdConsent) \<Rightarrow> repo_err + IdConsent" where
  "pg_idc_GetByID fail i m =
     (case fail of Some e \<Rightarrow> Inl (QueryFailed e)
      | None \<Rightarrow> (case m i of None \<Rightarrow> Inl ErrNotFound | Some c \<Rightarrow> Inr c))"

definition pg_idc_ListByUser ::
  "string option \<Rightarrow> (IdConsent list \<Rightarrow> IdConsent list) \<Rightarrow> ident list \<Rightarrow> ident \<Rightarrow> (ident \<rightharpoonup> IdConsent) \<Rightarrow>
     repo_err + IdConsent list" where
  "pg_idc_ListByUser fail srt ks u m =
     (case fail of Some e \<Rightarrow> Inl (QueryFailed e)
      | None \<Rightarrow> Inr (srt (filter (\<lambda>c. ic_UserID c = u) (range_vals ks m))))"

lemma range_vals_upd_notin: "k \<notin> set ks \<Longrightarrow> range_vals ks (m(k := v)) = range_vals ks m"
  by (induction ks) (auto split: option.splits)

lemma expire_loop_spec:
  "distinct ks \<Longrightarrow> idc_expire_loop ks now (n, m) =
     (n + length (filter (idc_stale now) (range_vals ks m)),
      \<lambda>i. if i \<in> set ks then map_option (expire_row now) (m i) else m i)"
proof (induction ks arbitrary: n m)
  case (Cons k ks)
  then show ?case
    by (cases "m k") (auto simp: range_vals_upd_notin expire_row_def fun_eq_iff)
qed simp

lemma idc_refine:
  shows "range_of ks m \<Longrightarrow> pg_idc_ExpireStale None ks now m = Inr (idc_ExpireStale ks now m)"
    and "pg_idc_Revoke None i now m = idc_Revoke i now m"
    and "generateUUID rnd = Some key \<Longrightarrow> pg_idc_Grant None key now c m = idc_Grant rnd now c m"
proof -
  show "pg_idc_ExpireStale None ks now m = Inr (idc_ExpireStale ks now m)" if "range_of ks m"
    using that by (auto simp: pg_idc_ExpireStale_def idc_ExpireStale_def expire_loop_spec range_of_def fun_eq_iff)
  show "pg_idc_Revoke None i now m = idc_Revoke i now m"
    by (auto simp: pg_idc_Revoke_def idc_Revoke_def split: option.splits)
qed (simp add: pg_idc_Grant_def idc_Grant_def stamp_grant_def)

end
