(* ===== verification/Identity_Deletion.thy ===== *)
theory Identity_Deletion
  imports Identity_Users
begin

text \<open>
  Deletion requests of the identity service: the stores (\<open>store/deletion.go\<close>, \<open>store/validate.go\<close>,
  \<open>store/postgres.go\<close>) behind the interface \<open>DeletionStore\<close>, and the handlers
  (\<open>handler/deletion.go\<close>).
  \<open>nil\<close> and empty slices differ in \<open>UpdateStatus\<close>: a slice that may be nil is an \<open>option\<close>.
\<close>

section \<open>Requests and their validation\<close>

record DeletionRequest =
  dr_ID :: ident
  dr_UserID :: ident
  dr_Reason :: string
  dr_Status :: string
  dr_RequestedAt :: time
  dr_CompletedAt :: "time option"
  dr_DeletedData :: "string list option"

definition ValidReasons :: "string list" where
  "ValidReasons = [''user_request'', ''consent_revocation'', ''retention_expired'']"

definition allowedStatuses :: "string list" where
  "allowedStatuses = [[], ''PENDING'', ''PROCESSING'', ''COMPLETED'', ''FAILED'']"

definition allowedDataCategories :: "string list" where
  "allowedDataCategories = [''personal_info'', ''biometric'', ''contact'', ''identity'', ''financial'',
     ''health'', ''location'', ''family'', ''document'', ''signature'', ''audit_trail'',
     ''consent_history'', ''behavioral'', ''device'', ''session'']"

datatype deletion_err =
    DeletionNotFound
  | ErrInvalidReason
  | InvalidDeletion verr
  | DeletionID
  | DeletionQuery string

definition control_char :: "char \<Rightarrow> bool" where
  "control_char c \<longleftrightarrow> c = CHR 0x00 \<or> c = CHR 0x0A \<or> c = CHR 0x0D"

definition ValidateDeletionRequest :: "DeletionRequest option \<Rightarrow> deletion_err option" where
  "ValidateDeletionRequest r' = (case r' of
     None \<Rightarrow> Some (InvalidDeletion (IsNil ''deletion request''))
   | Some r \<Rightarrow> first_err
      [reject (dr_UserID r = []) (InvalidDeletion (Required ''user_id'')),
       reject (rune_count (dr_UserID r) > 128) (InvalidDeletion (Exceeds ''user_id'' 128)),
       reject (list_ex control_char (dr_UserID r))
         (InvalidDeletion (ControlChars ''user_id'')),
       reject (dr_Reason r \<notin> set ValidReasons) ErrInvalidReason])"

definition category_checks :: "string \<Rightarrow> deletion_err option list" where
  "category_checks c =
     [reject (c = []) (InvalidDeletion (EmptyEntry ''deleted_data'')),
      reject (rune_count c > 64) (InvalidDeletion (Exceeds ''category'' 64)),
      reject (c \<notin> set allowedDataCategories) (InvalidDeletion (NotAllowed ''category'' c))]"

definition ValidateStatusUpdate :: "string \<Rightarrow> string list option \<Rightarrow> deletion_err option" where
  "ValidateStatusUpdate status deletedData =
     (let data = (case deletedData of None \<Rightarrow> [] | Some d \<Rightarrow> d) in first_err
        ([reject (status \<notin> set allowedStatuses) (InvalidDeletion (NotAllowed ''status'' status)),
          reject (length data > 32) (InvalidDeletion (TooMany ''deleted_data'' 32))] @
         concat (map category_checks data)))"

section \<open>The stores\<close>

record 's DeletionStore =
  ds_Create :: "DeletionRequest \<Rightarrow> 's \<Rightarrow> deletion_err + DeletionRequest \<times> 's"
  ds_GetByID :: "ident \<Rightarrow> 's \<Rightarrow> deletion_err + DeletionRequest"
  ds_ListByUser :: "ident \<Rightarrow> 's \<Rightarrow> deletion_err + DeletionRequest list"
  ds_UpdateStatus :: "ident \<Rightarrow> string \<Rightarrow> time option \<Rightarrow> string list option \<Rightarrow> 's \<Rightarrow> deletion_err + 's"

record deletions =
  dn_requests :: "ident \<rightharpoonup> DeletionRequest"
  dn_draws :: nat
  dn_events :: "(string \<times> ident \<times> ident \<times> string) list"

definition pending :: "ident \<Rightarrow> time \<Rightarrow> DeletionRequest \<Rightarrow> DeletionRequest" where
  "pending i now req = req\<lparr>dr_ID := i, dr_Status := ''PENDING'', dr_RequestedAt := now\<rparr>"

definition del_Create ::
  "string option \<Rightarrow> time \<Rightarrow> DeletionRequest \<Rightarrow> (ident \<rightharpoonup> DeletionRequest) \<Rightarrow>
     deletion_err + DeletionRequest \<times> (ident \<rightharpoonup> DeletionRequest)" where
  "del_Create rnd now req m =
     (case ValidateDeletionRequest (Some req) of
        Some err \<Rightarrow> Inl err
      | None \<Rightarrow> (case generateUUID rnd of
          None \<Rightarrow> Inl DeletionID
        | Some i \<Rightarrow> (let r = pending i now req in Inr (r, m(dr_ID r \<mapsto> r)))))"

definition del_GetByID :: "ident \<Rightarrow> (ident \<rightharpoonup> DeletionRequest) \<Rightarrow> deletion_err + DeletionRequest" where
  "del_GetByID i m = (case m i of None \<Rightarrow> Inl DeletionNotFound | Some r \<Rightarrow> Inr r)"

definition del_ListByUser :: "ident list \<Rightarrow> ident \<Rightarrow> (ident \<rightharpoonup> DeletionRequest) \<Rightarrow> DeletionRequest list" where
  "del_ListByUser ks u m = filter (\<lambda>r. dr_UserID r = u) (range_vals ks m)"

definition apply_update :: "string \<Rightarrow> time option \<Rightarrow> string list option \<Rightarrow> DeletionRequest \<Rightarrow> DeletionRequest" where
  "apply_update status completedAt deletedData r =
     (let r1 = r\<lparr>dr_Status := status\<rparr>;
          r2 = (case completedAt of None \<Rightarrow> r1 | Some t \<Rightarrow> r1\<lparr>dr_CompletedAt := Some t\<rparr>)
      in case deletedData of None \<Rightarrow> r2 | Some d \<Rightarrow> r2\<lparr>dr_DeletedData := Some d\<rparr>)"

definition del_UpdateStatus ::
  "ident \<Rightarrow> string \<Rightarrow> time option \<Rightarrow> string list option \<Rightarrow> (ident \<rightharpoonup> DeletionRequest) \<Rightarrow>
     deletion_err + (ident \<rightharpoonup> DeletionRequest)" where
  "del_UpdateStatus i status completedAt deletedData m =
     (case ValidateStatusUpdate status deletedData of
        Some err \<Rightarrow> Inl err
      | None \<Rightarrow> (case m i of
          None \<Rightarrow> Inl DeletionNotFound
        | Some r \<Rightarrow> Inr (m(i \<mapsto> apply_update status completedAt deletedData r))))"

text \<open>\<open>rand\<close> gives the bytes of each draw; the emitter of the service only logs, here to a list.\<close>

definition InMemoryDeletionStore ::
  "(nat \<Rightarrow> string option) \<Rightarrow> time \<Rightarrow> ident list \<Rightarrow> deletions DeletionStore" where
  "InMemoryDeletionStore rand now ks = \<lparr>
     ds_Create = (\<lambda>r s. map_sum id
       (\<lambda>(r', m). (r', s\<lparr>dn_requests := m, dn_draws := Suc (dn_draws s)\<rparr>))
       (del_Create (rand (dn_draws s)) now r (dn_requests s))),
     ds_GetByID = (\<lambda>i s. del_GetByID i (dn_requests s)),
     ds_ListByUser = (\<lambda>u s. Inr (del_ListByUser ks u (dn_requests s))),
     ds_UpdateStatus = (\<lambda>i st c d s. map_sum id (\<lambda>m. s\<lparr>dn_requests := m\<rparr>)
       (del_UpdateStatus i st c d (dn_requests s)))\<rparr>"

text \<open>
  The Postgres store: the database draws the identifier, keeps an absent list of categories as an
  empty one, and updates with \<open>COALESCE\<close>, which keeps the old value where the new one is NULL.
\<close>

definition coalesce :: "'a option \<Rightarrow> 'a option \<Rightarrow> 'a option" where
  "coalesce a b = (case a of None \<Rightarrow> b | Some x \<Rightarrow> Some x)"

definition pg_del_Create ::
  "string option \<Rightarrow> ident \<Rightarrow> time \<Rightarrow> DeletionRequest \<Rightarrow> (ident \<rightharpoonup> DeletionRequest) \<Rightarrow>
     deletion_err + DeletionRequest \<times> (ident \<rightharpoonup> DeletionRequest)" where
  "pg_del_Create fail key now req m =
     (case ValidateDeletionRequest (Some req) of
        Some err \<Rightarrow> Inl err
      | None \<Rightarrow>
         (let r = req\<lparr>dr_DeletedData := (case dr_DeletedData req of None \<Rightarrow> Some [] | Some d \<Rightarrow> Some d)\<rparr>
          in case fail of Some e \<Rightarrow> Inl (DeletionQuery e)
             | None \<Rightarrow> Inr (pending key now r, m(key \<mapsto> pending key now r))))"

definition pg_del_GetByID ::
  "string option \<Rightarrow> ident \<Rightarrow> (ident \<rightharpoonup> DeletionRequest) \<Rightarrow> deletion_err + DeletionRequest" where
  "pg_del_GetByID fail i m =
     (case fail of Some e \<Rightarrow> Inl (DeletionQuery e)
      | None \<Rightarrow> (case m i of None \<Rightarrow> Inl DeletionNotFound | Some r \<Rightarrow> Inr r))"

definition pg_del_ListByUser ::
  "string option \<Rightarrow> (DeletionRequest list \<Rightarrow> DeletionRequest list) \<Rightarrow> ident list \<Rightarrow> ident \<Rightarrow>
     (ident \<rightharpoonup> DeletionRequest) \<Rightarrow> deletion_err + DeletionRequest list" where
  "pg_del_ListByUser fail srt ks u m =
     (case fail of Some e \<Rightarrow> Inl (DeletionQuery e)
      | None \<Rightarrow> Inr (srt (filter (\<lambda>r. dr_UserID r = u) (range_vals ks m))))"

definition pg_del_UpdateStatus ::
  "string option \<Rightarrow> ident \<Rightarrow> string \<Rightarrow> time option \<Rightarrow> string list option \<Rightarrow> (ident \<rightharpoonup> DeletionRequest) \<Rightarrow>
     deletion_err + (ident \<rightharpoonup> DeletionRequest)" where
  "pg_del_UpdateStatus fail i status completedAt deletedData m =
     (case ValidateStatusUpdate status deletedData of
        Some err \<Rightarrow> Inl err
      | None \<Rightarrow> (case fail of Some e \<Rightarrow> Inl (DeletionQuery e)
        | None \<Rightarrow> (case m i of
            None \<Rightarrow> Inl DeletionNotFound
          | Some r \<Rightarrow> Inr (m(i \<mapsto> r\<lparr>dr_Status := status,
                dr_CompletedAt := coalesce completedAt (dr_CompletedAt r),
                dr_DeletedData := coalesce deletedData (dr_DeletedData r)\<rparr>)))))"

definition PostgresDeletionStore ::
  "string option \<Rightarrow> (nat \<Rightarrow> ident) \<Rightarrow> (DeletionRequest list \<Rightarrow> DeletionRequest list) \<Rightarrow> time \<Rightarrow> ident list \<Rightarrow>
     deletions DeletionStore" where
  "PostgresDeletionStore fail keys srt now ks = \<lparr>
     ds_Create = (\<lambda>r s. map_sum id
       (\<lambda>(r', m). (r', s\<lparr>dn_requests := m, dn_draws := Suc (dn_draws s)\<rparr>))
       (pg_del_Create fail (keys (dn_draws s)) now r (dn_requests s))),
     ds_GetByID = (\<lambda>i s. pg_del_GetByID fail i (dn_requests s)),
     ds_ListByUser = (\<lambda>u s. pg_del_ListByUser fail srt ks u (dn_requests s)),
     ds_UpdateStatus = (\<lambda>i st c d s. map_sum id (\<lambda>m. s\<lparr>dn_requests := m\<rparr>)
       (pg_del_UpdateStatus fail i st c d (dn_requests s)))\<rparr>"

lemma apply_update_coalesce:
  "apply_update status c d r = r\<lparr>dr_Status := status, dr_CompletedAt := coalesce c (dr_CompletedAt r),
     dr_DeletedData := coalesce d (dr_DeletedData r)\<rparr>"
  by (cases r) (simp add: apply_update_def coalesce_def Let_def split: option.split)

lemma pg_del_Update_refines:
  "pg_del_UpdateStatus None i status c d m = del_UpdateStatus i status c d m"
  by (simp add: pg_del_UpdateStatus_def del_UpdateStatus_def apply_update_coalesce split: option.split)

section \<open>The handlers\<close>

datatype deletion_body =
    DeletionAccepted ident string time
  | DeletionStatus DeletionRequest

type_synonym deletion_answer = "(deletion_err, deletion_body) answer"

text \<open>\<open>emit\<close> is the audit emitter: it may fail, which the handler only logs.\<close>

definition RequestDeletion ::
  "'s DeletionStore \<Rightarrow> (string \<Rightarrow> ident \<Rightarrow> ident \<Rightarrow> string \<Rightarrow> 's \<Rightarrow> 's) \<Rightarrow> ident \<Rightarrow> string option \<Rightarrow> 's \<Rightarrow>
     deletion_answer \<times> 's" where
  "RequestDeletion D emit userID body s =
     (if userID = [] then (WriteError 400 ''missing_user_id'' ''X-User-ID header is required'', s)
      else case body of
        None \<Rightarrow> (WriteError 400 ''invalid_request'' ''Invalid JSON body'', s)
      | Some reason \<Rightarrow>
         (let req = \<lparr>dr_ID = [], dr_UserID = userID, dr_Reason = reason, dr_Status = [],
                    dr_RequestedAt = zero_time, dr_CompletedAt = None, dr_DeletedData = None\<rparr>
          in case ds_Create D req s of
               Inl err \<Rightarrow>
                 if err = ErrInvalidReason
                 then (WriteError 400 ''invalid_reason''
                   ''Reason must be one of: user_request, consent_revocation, retention_expired'', s)
                 else (WriteError 500 ''internal_error'' ''Failed to create deletion request'', s)
             | Inr (r, s1) \<Rightarrow>
                 (WriteJSON 202 (DeletionAccepted (dr_ID r) (dr_Status r) (dr_RequestedAt r)),
                  emit ''data_deletion.requested'' userID (dr_ID r) reason s1)))"

definition GetDeletionStatus :: "'s DeletionStore \<Rightarrow> ident \<Rightarrow> ident \<Rightarrow> 's \<Rightarrow> deletion_answer" where
  "GetDeletionStatus D userID i s =
     (if userID = [] then WriteError 400 ''missing_user_id'' ''X-User-ID header is required''
      else if i = [] then WriteError 400 ''missing_id'' ''Deletion request ID is required''
      else case ds_GetByID D i s of
        Inl err \<Rightarrow>
          if err = DeletionNotFound then WriteError 404 ''not_found'' ''Deletion request not found''
          else WriteError 500 ''internal_error'' ''Failed to retrieve deletion request''
      | Inr req \<Rightarrow>
          if dr_UserID req \<noteq> userID
          then WriteError 403 ''forbidden'' ''You do not have access to this deletion request''
          else WriteJSON 200 (DeletionStatus req))"

definition log_event :: "string \<Rightarrow> ident \<Rightarrow> ident \<Rightarrow> string \<Rightarrow> deletions \<Rightarrow> deletions" where
  "log_event eventType userID resourceID reason s =
     s\<lparr>dn_events := dn_events s @ [(eventType, userID, resourceID, reason)]\<rparr>"

section \<open>The contract of a deletion store\<close>

text \<open>What a stored request satisfies, and what \<open>UpdateStatus\<close> may change of it.\<close>

definition deletion_wf :: "ident \<Rightarrow> DeletionRequest \<Rightarrow> bool" where
  "deletion_wf i r \<longleftrightarrow> dr_ID r = i \<and> ValidateDeletionRequest (Some r) = None \<and>
     dr_Status r \<in> set allowedStatuses \<and>
     (case dr_DeletedData r of None \<Rightarrow> True
      | Some d \<Rightarrow> length d \<le> 32 \<and> set d \<subseteq> set allowedDataCategories)"

definition same_request :: "DeletionRequest \<Rightarrow> DeletionRequest \<Rightarrow> bool" where
  "same_request r r' \<longleftrightarrow> dr_ID r' = dr_ID r \<and> dr_UserID r' = dr_UserID r \<and> dr_Reason r' = dr_Reason r \<and>
     dr_RequestedAt r' = dr_RequestedAt r"

lemma same_request_refl [simp]: "same_request r r"
  by (simp add: same_request_def)

lemma same_request_trans: "same_request a b \<Longrightarrow> same_request b c \<Longrightarrow> same_request a c"
  by (simp add: same_request_def)

lemma ValidateDeletionRequest_None:
  "ValidateDeletionRequest (Some r) = None \<longleftrightarrow> dr_UserID r \<noteq> [] \<and> rune_count (dr_UserID r) \<le> 128 \<and>
     \<not> list_ex control_char (dr_UserID r) \<and> dr_Reason r \<in> set ValidReasons"
  by (auto simp: ValidateDeletionRequest_def)

lemma ValidateStatusUpdate_None:
  assumes "ValidateStatusUpdate status d = None"
  shows "status \<in> set allowedStatuses"
    and "d = Some data \<Longrightarrow> length data \<le> 32 \<and> set data \<subseteq> set allowedDataCategories"
  using assms by (auto simp: ValidateStatusUpdate_def category_checks_def Let_def)

lemma pending_wf:
  assumes "ValidateDeletionRequest (Some req) = None" "dr_DeletedData req \<in> {None, Some []}"
  shows "deletion_wf i (pending i now req)"
  using assms by (auto simp: deletion_wf_def pending_def ValidateDeletionRequest_None allowedStatuses_def)

lemma update_wf:
  assumes "deletion_wf i r" "ValidateStatusUpdate status d = None"
  shows "deletion_wf i (apply_update status c d r)" "same_request r (apply_update status c d r)"
  using assms ValidateStatusUpdate_None [OF assms(2)]
  by (auto simp: deletion_wf_def apply_update_coalesce coalesce_def ValidateDeletionRequest_None same_request_def
      split: option.splits)

text \<open>
  A run of the service: requests and status updates, each in an environment of its own (the clock and
  the order of the store), recorded by \<open>emit\<close>.
\<close>

inductive deletion_run ::
  "('e \<Rightarrow> 's DeletionStore) \<Rightarrow> (string \<Rightarrow> ident \<Rightarrow> ident \<Rightarrow> string \<Rightarrow> 's \<Rightarrow> 's) \<Rightarrow> 's \<Rightarrow> 's \<Rightarrow> bool"
  for D emit s0 where
  run_start: "deletion_run D emit s0 s0"
| run_request: "deletion_run D emit s0 s \<Longrightarrow> RequestDeletion (D e) emit u body s = (ans, s') \<Longrightarrow>
     deletion_run D emit s0 s'"
| run_update: "deletion_run D emit s0 s \<Longrightarrow> ds_UpdateStatus (D e) i st c d s = Inr s' \<Longrightarrow>
     deletion_run D emit s0 s'"

text \<open>
  The contract: \<open>ids n\<close> is the \<open>n\<close>-th identifier drawn, if drawing it succeeds.
  What follows rests on the identifiers being distinct, \<open>distinct_ids\<close>.
\<close>

definition distinct_ids :: "(nat \<Rightarrow> ident option) \<Rightarrow> bool" where
  "distinct_ids ids \<longleftrightarrow> (\<forall>m n i. ids m = Some i \<longrightarrow> ids n = Some i \<longrightarrow> m = n) \<and> (\<forall>n. ids n \<noteq> Some [])"

locale deletion_store =
  fixes D :: "'e \<Rightarrow> 's DeletionStore" and emit :: "string \<Rightarrow> ident \<Rightarrow> ident \<Rightarrow> string \<Rightarrow> 's \<Rightarrow> 's"
    and requests :: "'s \<Rightarrow> ident \<rightharpoonup> DeletionRequest" and draws :: "'s \<Rightarrow> nat" and ids :: "nat \<Rightarrow> ident option"
  assumes create_ok: "ds_Create (D e) req s = Inr (r, s') \<Longrightarrow> ValidateDeletionRequest (Some req) = None \<and>
        ids (draws s) = Some (dr_ID r) \<and> draws s' = Suc (draws s) \<and>
        requests s' = (requests s)(dr_ID r \<mapsto> r) \<and>
        (\<exists>now q. r = pending (dr_ID r) now q \<and> (q = req \<or> q = req\<lparr>dr_DeletedData := Some []\<rparr>))"
    and get_ok: "ds_GetByID (D e) i s = Inr r \<Longrightarrow> requests s i = Some r"
    and get_missing: "ds_GetByID (D e) i s = Inl DeletionNotFound \<Longrightarrow> requests s i = None"
    and update_ok: "ds_UpdateStatus (D e) i st c d s = Inr s' \<Longrightarrow> ValidateStatusUpdate st d = None \<and>
        draws s' = draws s \<and>
        (\<exists>r. requests s i = Some r \<and> requests s' = (requests s)(i \<mapsto> apply_update st c d r))"
    and emit_frame: "requests (emit ev u i t s) = requests s \<and> draws (emit ev u i t s) = draws s"
begin

definition wf :: "'s \<Rightarrow> bool" where
  "wf s \<longleftrightarrow> (\<forall>i r. requests s i = Some r \<longrightarrow> deletion_wf i r \<and> (\<exists>k<draws s. ids k = Some i))"

lemma RequestDeletion_accepted:
  assumes "RequestDeletion (D e) emit u body s = (ans, s')" "\<not> is_error ans" "wf s" "distinct_ids ids"
  shows "\<exists>r reason s1. body = Some reason \<and> requests s (dr_ID r) = None \<and> deletion_wf (dr_ID r) r \<and>
    dr_UserID r = u \<and> dr_Reason r = reason \<and> requests s' = (requests s)(dr_ID r \<mapsto> r) \<and> wf s' \<and>
    s' = emit ''data_deletion.requested'' u (dr_ID r) reason s1 \<and>
    ans = WriteJSON 202 (DeletionAccepted (dr_ID r) ''PENDING'' (dr_RequestedAt r))"
proof -
  from assms obtain reason r s1 where b: "body = Some reason"
    and c: "ds_Create (D e) \<lparr>dr_ID = [], dr_UserID = u, dr_Reason = reason, dr_Status = [],
        dr_RequestedAt = zero_time, dr_CompletedAt = None, dr_DeletedData = None\<rparr> s = Inr (r, s1)"
    and s': "s' = emit ''data_deletion.requested'' u (dr_ID r) reason s1"
    and a: "ans = WriteJSON 202 (DeletionAccepted (dr_ID r) (dr_Status r) (dr_RequestedAt r))"
    by (auto simp: RequestDeletion_def Let_def split: if_splits option.splits sum.splits)
  from create_ok [OF c] obtain now q where q: "r = pending (dr_ID r) now q"
    and q': "ValidateDeletionRequest (Some q) = None" "dr_DeletedData q \<in> {None, Some []}"
      "dr_UserID q = u" "dr_Reason q = reason"
    and i: "ids (draws s) = Some (dr_ID r)" "draws s1 = Suc (draws s)" "requests s1 = (requests s)(dr_ID r \<mapsto> r)"
    by (auto simp: ValidateDeletionRequest_None)
  have w: "deletion_wf (dr_ID r) r" using pending_wf [OF q'(1,2), of "dr_ID r" now] q by metis
  have f: "requests s (dr_ID r) = None"
    using assms(3,4) i(1) unfolding wf_def distinct_ids_def by (metis less_irrefl not_None_eq)
  have "dr_UserID (pending j n q) = u \<and> dr_Reason (pending j n q) = reason \<and> dr_Status (pending j n q) = ''PENDING''" for j n
    using q' by (simp add: pending_def)
  then have r: "dr_UserID r = u" "dr_Reason r = reason" "dr_Status r = ''PENDING''" using q by metis+
  have e: "requests s' = (requests s)(dr_ID r \<mapsto> r)" "draws s' = Suc (draws s)"
    using i emit_frame by (simp_all add: s')
  have "\<exists>k<Suc (draws s). ids k = Some j" if "\<exists>k<draws s. ids k = Some j" for j
    using that less_SucI by blast
  with assms(3) i(1) w have "wf s'" unfolding wf_def e by auto
  with b f w r e(1) s' a show ?thesis by metis
qed

lemma refused_unchanged: "RequestDeletion (D e) emit u body s = (ans, s') \<Longrightarrow> is_error ans \<Longrightarrow> s' = s"
  by (auto simp: RequestDeletion_def Let_def split: if_splits option.splits sum.splits)

lemma update_keeps:
  assumes "ds_UpdateStatus (D e) i st c d s = Inr s'" "wf s"
  shows "wf s'" and "requests s j = Some r \<Longrightarrow> \<exists>r'. requests s' j = Some r' \<and> same_request r r'"
proof -
  obtain q where q: "requests s i = Some q" "requests s' = (requests s)(i \<mapsto> apply_update st c d q)"
    "ValidateStatusUpdate st d = None" "draws s' = draws s" using update_ok [OF assms(1)] by blast
  with assms(2) have "deletion_wf i q" by (simp add: wf_def)
  from update_wf [OF this q(3), of c] q assms(2) show "wf s'" by (simp add: wf_def)
  from update_wf(2) [OF \<open>deletion_wf i q\<close> q(3), of c] q
  show "requests s j = Some r \<Longrightarrow> \<exists>r'. requests s' j = Some r' \<and> same_request r r'"
    by (cases "j = i") auto
qed

lemma run_keeps:
  assumes "deletion_run D emit s0 s" "wf s0" "distinct_ids ids"
  shows "wf s \<and> (\<forall>i r. requests s0 i = Some r \<longrightarrow> (\<exists>r'. requests s i = Some r' \<and> same_request r r'))"
  using assms
proof (induction rule: deletion_run.induct)
  case (run_request s e u body ans s')
  then have w: "wf s" by blast
  show ?case
  proof (cases "is_error ans")
    case True
    with run_request refused_unchanged show ?thesis by metis
  next
    case False
    from RequestDeletion_accepted [OF run_request.hyps(2) False w run_request.prems(2)]
    obtain r where "requests s (dr_ID r) = None" "requests s' = (requests s)(dr_ID r \<mapsto> r)" "wf s'" by blast
    with run_request show ?thesis by (metis fun_upd_other option.distinct(1))
  qed
next
  case (run_update s e i st c d s')
  then show ?case using update_keeps [OF run_update.hyps(2)] same_request_trans by meson
qed (auto intro: same_request_refl)

lemma GetDeletionStatus_owner:
  assumes "requests s i = Some r" "wf s" "distinct_ids ids"
  shows "GetDeletionStatus (D e) u i s \<in>
     {if dr_UserID r = u then WriteJSON 200 (DeletionStatus r)
      else WriteError 403 ''forbidden'' ''You do not have access to this deletion request'',
      WriteError 500 ''internal_error'' ''Failed to retrieve deletion request'',
      WriteError 400 ''missing_user_id'' ''X-User-ID header is required''}"
proof -
  have "i \<noteq> []" using assms unfolding wf_def distinct_ids_def by metis
  then show ?thesis
    using assms(1) get_missing [of e i s] get_ok [of e i s]
    by (cases "ds_GetByID (D e) i s") (auto simp: GetDeletionStatus_def)
qed

end

section \<open>The two stores keep the contract\<close>

definition deletions_init :: deletions where
  "deletions_init = \<lparr>dn_requests = Map.empty, dn_draws = 0, dn_events = []\<rparr>"

definition uuids :: "(nat \<Rightarrow> string option) \<Rightarrow> nat \<Rightarrow> ident option" where
  "uuids rand n = generateUUID (rand n)"

text \<open>
  The environment of a call: what the database fails with, how it orders rows, the clock and the order of
  \<open>range\<close>; the in-memory store uses the last two.
\<close>

type_synonym denv = "(string option \<times> (DeletionRequest list \<Rightarrow> DeletionRequest list)) \<times> time \<times> ident list"

definition memory_store :: "(nat \<Rightarrow> string option) \<Rightarrow> denv \<Rightarrow> deletions DeletionStore" where
  "memory_store rand e = InMemoryDeletionStore rand (fst (snd e)) (snd (snd e))"

definition postgres_store ::
  "(nat \<Rightarrow> ident) \<Rightarrow> denv \<Rightarrow> deletions DeletionStore" where
  "postgres_store keys e = PostgresDeletionStore (fst (fst e)) keys (snd (fst e)) (fst (snd e)) (snd (snd e))"

interpretation del_memory: deletion_store "memory_store rand" log_event dn_requests dn_draws "uuids rand"
  for rand
proof unfold_locales
  fix e req r s s'
  assume "ds_Create (memory_store rand e) req s = Inr (r, s')"
  then obtain i where i: "ValidateDeletionRequest (Some req) = None" "uuids rand (dn_draws s) = Some i"
    "r = pending i (fst (snd e)) req" "s' = s\<lparr>dn_requests := (dn_requests s)(i \<mapsto> r), dn_draws := Suc (dn_draws s)\<rparr>"
    by (auto simp: memory_store_def InMemoryDeletionStore_def del_Create_def Let_def uuids_def pending_def
        split: option.splits)
  then have "dr_ID r = i" by (simp add: pending_def)
  with i show "ValidateDeletionRequest (Some req) = None \<and> uuids rand (dn_draws s) = Some (dr_ID r) \<and>
      dn_draws s' = Suc (dn_draws s) \<and> dn_requests s' = (dn_requests s)(dr_ID r \<mapsto> r) \<and>
      (\<exists>now q. r = pending (dr_ID r) now q \<and> (q = req \<or> q = req\<lparr>dr_DeletedData := Some []\<rparr>))"
    by auto
qed (auto simp: memory_store_def InMemoryDeletionStore_def del_GetByID_def del_UpdateStatus_def log_event_def
    split: option.splits)

lemma deleted_data_id: "dr_DeletedData r = d \<Longrightarrow> r\<lparr>dr_DeletedData := d\<rparr> = r"
  by (cases r) auto

interpretation del_postgres: deletion_store "postgres_store keys" log_event dn_requests dn_draws
  "\<lambda>n. Some (keys n)" for keys
proof unfold_locales
  fix e req r s s'
  assume "ds_Create (postgres_store keys e) req s = Inr (r, s')"
  then obtain q where i: "ValidateDeletionRequest (Some req) = None"
    "q = req \<or> q = req\<lparr>dr_DeletedData := Some []\<rparr>" "r = pending (keys (dn_draws s)) (fst (snd e)) q"
    "s' = s\<lparr>dn_requests := (dn_requests s)(keys (dn_draws s) \<mapsto> r), dn_draws := Suc (dn_draws s)\<rparr>"
    by (cases "dr_DeletedData req")
      (auto simp: postgres_store_def PostgresDeletionStore_def pg_del_Create_def Let_def deleted_data_id split: option.splits)
  then have "dr_ID r = keys (dn_draws s)" by (simp add: pending_def)
  with i show "ValidateDeletionRequest (Some req) = None \<and> Some (keys (dn_draws s)) = Some (dr_ID r) \<and>
      dn_draws s' = Suc (dn_draws s) \<and> dn_requests s' = (dn_requests s)(dr_ID r \<mapsto> r) \<and>
      (\<exists>now q. r = pending (dr_ID r) now q \<and> (q = req \<or> q = req\<lparr>dr_DeletedData := Some []\<rparr>))"
    by auto
qed (auto simp: postgres_store_def PostgresDeletionStore_def pg_del_GetByID_def pg_del_Update_refines
    pg_del_UpdateStatus_def apply_update_coalesce log_event_def split: option.splits)

definition deletion_backend :: "(nat \<Rightarrow> ident option) \<Rightarrow> (denv \<Rightarrow> deletions DeletionStore) \<Rightarrow> bool" where
  "deletion_backend ids D \<longleftrightarrow> (\<exists>rand. ids = uuids rand \<and> D = memory_store rand) \<or>
     (\<exists>keys. ids = (\<lambda>n. Some (keys n)) \<and> D = postgres_store keys)"

lemma backend_contract:
  "deletion_backend ids D \<Longrightarrow> deletion_store D log_event dn_requests dn_draws ids"
  using del_memory.deletion_store_axioms del_postgres.deletion_store_axioms
  by (auto simp: deletion_backend_def)

lemma wf_init:
  assumes "deletion_backend ids D"
  shows "deletion_store.wf dn_requests dn_draws ids deletions_init"
  by (simp add: deletion_store.wf_def [OF backend_contract [OF assms]] deletions_init_def)


definition example_draw :: "nat \<Rightarrow> string option" where
  "example_draw n = (if n = 0 then Some (replicate 16 CHR ''k'') else None)"

definition example_denv :: denv where
  "example_denv = ((None, \<lambda>xs. xs), 5, [])"

lemma example_accepted:
  "\<exists>i s1. RequestDeletion (memory_store example_draw example_denv) log_event ''u'' (Some ''user_request'') deletions_init =
     (WriteJSON 202 (DeletionAccepted i ''PENDING'' 5), s1)"
  by (simp add: RequestDeletion_def memory_store_def InMemoryDeletionStore_def del_Create_def example_draw_def
      example_denv_def deletions_init_def pending_def ValidateDeletionRequest_def generateUUID_def Let_def
      rune_count_ascii ascii_def byte_def control_char_def ValidReasons_def first_err.simps reject_def)


end
