(* ===== verification/Identity_Handlers.thy ===== *)
theory Identity_Handlers
  imports Identity_OTP Identity_Deletion Circuit
begin

text \<open>
  The handlers of the identity service and the clients behind them: registration
  (\<open>handler/register.go\<close>) with the Dukcapil client (\<open>dukcapil/client.go\<close>, whose breaker is the one of the
  registry clients) and the one-time passwords, session management (\<open>handler/session_mgmt.go\<close>), the
  export of personal data (\<open>handler/export.go\<close>) and the Keycloak client (\<open>keycloak/admin.go\<close>).
\<close>

section \<open>Registration\<close>

record NIKVerifyResponse =
  nv_Valid :: bool
  nv_Alive :: bool
  nv_Name :: string
  nv_Message :: string

record initiateRequest =
  iq_NIK :: string
  iq_Phone :: string
  iq_Email :: string

text \<open>
  One exchange with Dukcapil: the clock before and after, a failure to build the request, what came
  back and how it decodes.
\<close>

record exchange =
  ex_now :: time
  ex_later :: time
  ex_build :: "string option"
  ex_http :: http_result
  ex_decode :: "string \<Rightarrow> NIKVerifyResponse option"

definition VerifyNIK :: "exchange \<Rightarrow> circuitBreaker \<Rightarrow> (client_err + NIKVerifyResponse) \<times> circuitBreaker" where
  "VerifyNIK x cb = doPost (ex_now x) (ex_later x) (ex_build x) (ex_http x) (ex_decode x) cb"

definition generateRegistrationID :: "string option \<Rightarrow> ident option" where
  "generateRegistrationID rnd = map_option hex_encode rnd"

text \<open>What one request of the registration handler depends on besides the two states.\<close>

record reg_env =
  re_dukcapil :: exchange
  re_random :: "string option"
  re_gen :: "string \<Rightarrow> string + string"
  re_rand :: "string \<Rightarrow> nat \<Rightarrow> nat option"
  re_phone_at :: time
  re_email_at :: time
  re_answer_at :: time

datatype reg_body = Initiated ident time

type_synonym reg_answer = "(nik_err, reg_body) answer"

definition Initiate ::
  "'s Redis \<Rightarrow> reg_env \<Rightarrow> initiateRequest option \<Rightarrow> circuitBreaker \<times> 's \<Rightarrow>
     reg_answer \<times> (circuitBreaker \<times> 's)" where
  "Initiate R env body cs =
     (let (cb, s) = cs in
      case body of
        None \<Rightarrow> (WriteError 400 ''invalid_request'' ''Invalid JSON body'', (cb, s))
      | Some req \<Rightarrow>
        (case ValidateNIKFormat (iq_NIK req) of
          Some err \<Rightarrow> (WriteErrText 400 ''invalid_nik'' err, (cb, s))
        | None \<Rightarrow>
          (case VerifyNIK (re_dukcapil env) cb of
            (Inl err, cb') \<Rightarrow>
              (WriteError 502 ''dukcapil_unavailable'' ''Identity verification service is unavailable'', (cb', s))
          | (Inr nikResp, cb') \<Rightarrow>
            if \<not> nv_Valid nikResp then (WriteError 400 ''invalid_nik'' ''NIK is not valid'', (cb', s))
            else if \<not> nv_Alive nikResp
            then (WriteError 400 ''deceased'' ''NIK belongs to a deceased individual'', (cb', s))
            else case generateRegistrationID (re_random env) of
              None \<Rightarrow> (WriteError 500 ''internal_error'' ''Failed to process registration'', (cb', s))
            | Some regID \<Rightarrow>
              (case Generate R (re_gen env) (re_rand env ''phone'') (re_phone_at env) regID ''phone'' s of
                (Inl err, s1) \<Rightarrow> (WriteError 500 ''internal_error'' ''Failed to send OTP'', (cb', s1))
              | (Inr code, s1) \<Rightarrow>
                (case Generate R (re_gen env) (re_rand env ''email'') (re_email_at env) regID ''email'' s1 of
                  (Inl err, s2) \<Rightarrow> (WriteError 500 ''internal_error'' ''Failed to send OTP'', (cb', s2))
                | (Inr code, s2) \<Rightarrow>
                    (WriteJSON 200 (Initiated regID (re_answer_at env + 5 * minute)), (cb', s2)))))))"

lemma Initiate_ok:
  assumes "Initiate R env body (cb, s) = (WriteJSON st b, (cb', s'))"
  obtains req resp rnd p e s1 where "body = Some req" "ValidateNIKFormat (iq_NIK req) = None"
    "VerifyNIK (re_dukcapil env) cb = (Inr resp, cb')" "nv_Valid resp" "nv_Alive resp"
    "re_random env = Some rnd" "st = 200" "b = Initiated (hex_encode rnd) (re_answer_at env + 5 * minute)"
    "Generate R (re_gen env) (re_rand env ''phone'') (re_phone_at env) (hex_encode rnd) ''phone'' s = (Inr p, s1)"
    "Generate R (re_gen env) (re_rand env ''email'') (re_email_at env) (hex_encode rnd) ''email'' s1 = (Inr e, s')"
  using assms
  by (auto simp: Initiate_def generateRegistrationID_def split: option.splits prod.splits sum.splits if_splits)

section \<open>Sessions\<close>

record Session =
  ss_ID :: ident
  ss_UserID :: ident
  ss_DeviceInfo :: string
  ss_IPAddress :: string
  ss_CreatedAt :: time
  ss_LastActive :: time
  ss_ExpiresAt :: time
  ss_Current :: bool

record 's SessionStore =
  st_List :: "ident \<Rightarrow> 's \<Rightarrow> string + Session list"
  st_Revoke :: "ident \<Rightarrow> ident \<Rightarrow> 's \<Rightarrow> string option \<times> 's"
  st_RevokeAll :: "ident \<Rightarrow> 's \<Rightarrow> (string + nat) \<times> 's"

datatype session_body = SessionList "Session list" | SessionRevoked | SessionsRevoked nat

type_synonym session_answer = "(string, session_body) answer"

definition ListSessions :: "'s SessionStore \<Rightarrow> ident \<Rightarrow> ident \<Rightarrow> 's \<Rightarrow> session_answer" where
  "ListSessions S userID currentSessionID s =
     (if userID = [] then WriteError 400 ''missing_user_id'' ''X-User-ID header is required''
      else case st_List S userID s of
        Inl err \<Rightarrow> WriteError 500 ''internal_error'' ''Failed to list sessions''
      | Inr sessions \<Rightarrow> WriteJSON 200 (SessionList
          (map (\<lambda>x. if ss_ID x = currentSessionID then x\<lparr>ss_Current := True\<rparr> else x) sessions)))"

definition TrimRight :: "char \<Rightarrow> string \<Rightarrow> string" where
  "TrimRight c s = rev (dropWhile (\<lambda>x. x = c) (rev s))"

definition extractSessionID :: "string \<Rightarrow> string" where
  "extractSessionID path =
     (let parts = split_on CHR ''/'' (TrimRight CHR ''/'' path) in
      if length parts = 0 then [] else parts ! (length parts - 1))"

definition RevokeSession :: "'s SessionStore \<Rightarrow> ident \<Rightarrow> string \<Rightarrow> 's \<Rightarrow> session_answer \<times> 's" where
  "RevokeSession S userID path s =
     (if userID = [] then (WriteError 400 ''missing_user_id'' ''X-User-ID header is required'', s)
      else let sessionID = extractSessionID path in
        if sessionID = [] then (WriteError 400 ''missing_session_id'' ''Session ID is required in path'', s)
        else case st_Revoke S userID sessionID s of
          (Some err, s') \<Rightarrow>
            if err = ''session not found'' then (WriteError 404 ''not_found'' ''Session not found'', s')
            else (WriteError 500 ''internal_error'' ''Failed to revoke session'', s')
        | (None, s') \<Rightarrow> (WriteJSON 200 SessionRevoked, s'))"

definition RevokeAllSessions :: "'s SessionStore \<Rightarrow> ident \<Rightarrow> 's \<Rightarrow> session_answer \<times> 's" where
  "RevokeAllSessions S userID s =
     (if userID = [] then (WriteError 400 ''missing_user_id'' ''X-User-ID header is required'', s)
      else case st_RevokeAll S userID s of
        (Inl err, s') \<Rightarrow> (WriteError 500 ''internal_error'' ''Failed to revoke sessions'', s')
      | (Inr n, s') \<Rightarrow> (WriteJSON 200 (SessionsRevoked n), s'))"

lemma TrimRight_slashes: "TrimRight c (s @ replicate n c) = TrimRight c s"
  unfolding TrimRight_def rev_append rev_replicate by (subst dropWhile_append2) auto

lemma TrimRight_id: "s \<noteq> [] \<Longrightarrow> last s \<noteq> c \<Longrightarrow> TrimRight c s = s"
  by (cases s rule: rev_cases) (simp_all add: TrimRight_def)

lemma extractSessionID_segment:
  assumes "t \<noteq> []" "CHR ''/'' \<notin> set t"
  shows "extractSessionID (s @ CHR ''/'' # t @ replicate n CHR ''/'') = t"
proof -
  have "last t \<noteq> CHR ''/''" using assms last_in_set by metis
  then have "TrimRight CHR ''/'' ((s @ CHR ''/'' # t) @ replicate n CHR ''/'') = s @ CHR ''/'' # t"
    using assms(1) by (subst TrimRight_slashes, subst TrimRight_id) auto
  then show ?thesis using assms(2)
    by (simp add: extractSessionID_def Let_def split_on_sep split_on_none nth_append)
qed

text \<open>A path without an identifier gives its last segment: the collection itself is taken for a session.\<close>

lemma extractSessionID_collection: "extractSessionID ''/api/v1/identity/sessions/'' = ''sessions''"
  using extractSessionID_segment [of "''sessions''" "''/api/v1/identity''" 1] by simp

section \<open>The export of personal data\<close>

text \<open>The answer is a constant but for the user and the clock.\<close>

record consentRecord =
  cr_Purpose :: string
  cr_Granted :: bool
  cr_GrantedAt :: time

record exportResponse =
  er_ExportTimestamp :: time
  er_DataCategories :: "string list"
  er_UserID :: ident
  er_MaskedNIK :: string
  er_VerificationStatus :: string
  er_ConsentList :: "consentRecord list"

definition ExportData :: "ident \<Rightarrow> time \<Rightarrow> (string, exportResponse) answer" where
  "ExportData userID now =
     (if userID = [] then WriteError 400 ''missing_user_id'' ''X-User-ID header is required''
      else let grantedAt = 1768471200 * second in WriteJSON 200
        \<lparr>er_ExportTimestamp = now,
         er_DataCategories = [''identity'', ''verification'', ''consent''],
         er_UserID = userID, er_MaskedNIK = ''3201****0001'', er_VerificationStatus = ''verified'',
         er_ConsentList =
           [\<lparr>cr_Purpose = ''identity_verification'', cr_Granted = True, cr_GrantedAt = grantedAt\<rparr>,
            \<lparr>cr_Purpose = ''data_sharing'', cr_Granted = True, cr_GrantedAt = grantedAt\<rparr>]\<rparr>)"

section \<open>The Keycloak client\<close>

record AdminClient =
  ac_token :: string
  ac_tokenExpiry :: time

datatype keycloak_err =
    KCBuild string
  | KCRequest string
  | KCStatus nat string
  | KCDecode
  | KCToken keycloak_err
  | KCMarshal
  | KCExists
  | KCNoLocation
  | KCBadLocation
  | KCEmptyPath

definition NewAdminClient :: AdminClient where
  "NewAdminClient = \<lparr>ac_token = [], ac_tokenExpiry = zero_time\<rparr>"

text \<open>
  \<open>getToken\<close>: a cached token is reused before its expiry, which lies 30 seconds before the end of its
  life; \<open>time.Duration(ExpiresIn)*time.Second\<close> is a product in \<open>int64\<close>.
  \<open>http\<close> is the answer to the token request, \<open>decode\<close> the token and its life from the body.
\<close>

definition getToken ::
  "time \<Rightarrow> time \<Rightarrow> string option \<Rightarrow> http_result \<Rightarrow> (string option \<Rightarrow> (string \<times> int) option) \<Rightarrow> AdminClient \<Rightarrow>
     (keycloak_err + string) \<times> AdminClient" where
  "getToken now later build http decode ac =
     (if ac_token ac \<noteq> [] \<and> now < ac_tokenExpiry ac then (Inr (ac_token ac), ac)
      else case build of
        Some e \<Rightarrow> (Inl (KCBuild e), ac)
      | None \<Rightarrow> (case http of
          DoFailed e \<Rightarrow> (Inl (KCRequest e), ac)
        | Response st body \<Rightarrow>
            if st \<noteq> 200 then (Inl (KCStatus st (case body of None \<Rightarrow> [] | Some b \<Rightarrow> b)), ac)
            else case decode body of
              None \<Rightarrow> (Inl KCDecode, ac)
            | Some (t, expiresIn) \<Rightarrow>
                (Inr t, ac\<lparr>ac_token := t,
                   ac_tokenExpiry := later + i64 (i64 (expiresIn * second) - 30 * second)\<rparr>)))"

definition splitPath :: "string \<Rightarrow> string list" where
  "splitPath path = filter (\<lambda>s. length s > 0) (split_on CHR ''/'' path)"

text \<open>The answer to the creation of a user: the status, the body and the \<open>Location\<close> header, parsed by \<open>url\<close>.\<close>

definition user_of_response ::
  "nat \<Rightarrow> string \<Rightarrow> string \<Rightarrow> (string \<Rightarrow> string option) \<Rightarrow> keycloak_err + ident" where
  "user_of_response st body location url =
     (if st = 409 then Inl KCExists
      else if st \<noteq> 201 then Inl (KCStatus st body)
      else if location = [] then Inl KCNoLocation
      else case url location of
        None \<Rightarrow> Inl KCBadLocation
      | Some path \<Rightarrow>
         (let segments = splitPath path in
          if length segments = 0 then Inl KCEmptyPath else Inr (segments ! (length segments - 1))))"

lemma splitPath_segment:
  assumes "t \<noteq> []" "CHR ''/'' \<notin> set t"
  shows "splitPath (s @ CHR ''/'' # t) = splitPath s @ [t]"
  using assms by (simp add: splitPath_def split_on_sep split_on_none)

lemma user_of_location:
  assumes "url location = Some (s @ CHR ''/'' # i)" "i \<noteq> []" "CHR ''/'' \<notin> set i" "location \<noteq> []"
  shows "user_of_response 201 body location url = Inr i"
  using assms by (simp add: user_of_response_def splitPath_segment Let_def nth_append)

text \<open>Between two uses of one token at most its life less 30 seconds passes.\<close>

lemma getToken_cached:
  assumes "getToken now later build (Response 200 body) decode ac = (Inr t, ac')" "now \<ge> ac_tokenExpiry ac"
    "decode body = Some (t, n)" "build = None" "30 \<le> n" "n < 2 ^ 32" "t \<noteq> []"
  shows "getToken now' later' build' http' decode' ac' =
      (if now' < later + (n - 30) * second then (Inr t, ac') else getToken now' later' build' http' decode' ac')"
proof -
  have "i64 (i64 (n * second) - 30 * second) = (n - 30) * second"
    using assms(5,6) by (simp add: i64_id algebra_simps)
  with assms have "ac' = ac\<lparr>ac_token := t, ac_tokenExpiry := later + (n - 30) * second\<rparr>"
    by (auto simp: getToken_def)
  then show ?thesis using assms(7) by (simp add: getToken_def)
qed

section \<open>What a registration starts\<close>

text \<open>
  What a successful registration means: the NIK is 16 digits with a province code of at least 11,
  Dukcapil answered through a closed or probing breaker that it is valid and its holder alive, and
  under the random identifier of the answer one password for the phone and one for the email have
  been started, each good for three guesses within five minutes.
\<close>

theorem registration_initiated:
  assumes "redis_server R view" "Initiate R env body (cb, s) = (WriteJSON st (Initiated reg t), (cb', s'))"
  shows "\<exists>req rnd p e hp he. body = Some req \<and>
    length (iq_NIK req) = 16 \<and> list_all is_digit (iq_NIK req) \<and>
    11 \<le> 10 * digit_val (iq_NIK req ! 0) + digit_val (iq_NIK req ! 1) \<and>
    fst (cb_allow (ex_now (re_dukcapil env)) cb) \<and> cb_state cb' = stateClosed \<and> cb_failureCount cb' = 0 \<and>
    re_random env = Some rnd \<and> reg = hex_encode rnd \<and>
    re_gen env p = Inr hp \<and> represents (view s') (otp_id reg ''phone'') hp (re_phone_at env + otpTTL) 3 \<and>
    re_gen env e = Inr he \<and> represents (view s') (otp_id reg ''email'') he (re_email_at env + otpTTL) 3"
proof -
  obtain req resp rnd p e s1 where r: "body = Some req" "ValidateNIKFormat (iq_NIK req) = None"
    "VerifyNIK (re_dukcapil env) cb = (Inr resp, cb')" "re_random env = Some rnd" "reg = hex_encode rnd"
    and g: "Generate R (re_gen env) (re_rand env ''phone'') (re_phone_at env) reg ''phone'' s = (Inr p, s1)"
      "Generate R (re_gen env) (re_rand env ''email'') (re_email_at env) reg ''email'' s1 = (Inr e, s')"
    using assms(2) by (auto elim!: Initiate_ok)
  obtain hp where hp: "re_gen env p = Inr hp" "represents (view s1) (otp_id reg ''phone'') hp (re_phone_at env + otpTTL) 3"
    using redis_server.Generate_represents [OF assms(1) g(1)] by blast
  obtain he where he: "re_gen env e = Inr he" "represents (view s') (otp_id reg ''email'') he (re_email_at env + otpTTL) 3"
    using redis_server.Generate_represents [OF assms(1) g(2)] by blast
  have ne: "otp_id reg ''email'' \<noteq> otp_id reg ''phone''" by (simp add: otp_id_def)
  then have "view s' (hash_key (otp_id reg ''phone'')) = view s1 (hash_key (otp_id reg ''phone''))"
    "view s' (attempts_key (otp_id reg ''phone'')) = view s1 (attempts_key (otp_id reg ''phone''))"
    using redis_server.Generate_frame [OF assms(1), of _ reg "''email''" "re_gen env" "re_rand env ''email''" "re_email_at env" s1] g(2)
    by (auto simp: keys_id)
  with hp(2) have "represents (view s') (otp_id reg ''phone'') hp (re_phone_at env + otpTTL) 3"
    using represents_cong by metis
  moreover have "fst (cb_allow (ex_now (re_dukcapil env)) cb) \<and> cb_state cb' = stateClosed \<and> cb_failureCount cb' = 0"
    using r(3) by (auto simp: VerifyNIK_def doPost_def cb_recordSuccess_def Let_def
        split: if_splits option.splits http_result.splits prod.splits)
  ultimately show ?thesis using r hp he ValidateNIKFormat_None by blast
qed

definition example_exchange :: exchange where
  "example_exchange = \<lparr>ex_now = 0, ex_later = 1, ex_build = None, ex_http = Response 200 (Some ''ok''),
     ex_decode = (\<lambda>b. Some \<lparr>nv_Valid = True, nv_Alive = True, nv_Name = ''n'', nv_Message = []\<rparr>)\<rparr>"

definition example_reg :: reg_env where
  "example_reg = \<lparr>re_dukcapil = example_exchange, re_random = Some ''r'', re_gen = example_gen,
     re_rand = (\<lambda>channel k. Some k), re_phone_at = 1, re_email_at = 2, re_answer_at = 3\<rparr>"

definition example_initiate :: initiateRequest where
  "example_initiate = \<lparr>iq_NIK = ''3201010101010001'', iq_Phone = [], iq_Email = []\<rparr>"

lemma example_initiated:
  "\<exists>cb s. Initiate keyspace_redis example_reg (Some example_initiate) (NewClient_cb, Map.empty) =
     (WriteJSON 200 (Initiated ''72'' 300000000003), (cb, s))"
proof -
  have "fst (Initiate keyspace_redis example_reg (Some example_initiate) (NewClient_cb, Map.empty)) =
     WriteJSON 200 (Initiated ''72'' 300000000003)"
    by code_simp
  then show ?thesis by (metis prod.collapse)
qed

theorem registration_initiated_witness:
  "\<exists>cb s h. Initiate keyspace_redis example_reg (Some example_initiate) (NewClient_cb, Map.empty) =
     (WriteJSON 200 (Initiated ''72'' 300000000003), (cb, s)) \<and>
     cb_failureCount cb = 0 \<and> represents s (otp_id ''72'' ''email'') h (2 + otpTTL) 3"
proof -
  obtain cb s where i: "Initiate keyspace_redis example_reg (Some example_initiate) (NewClient_cb, Map.empty) =
     (WriteJSON 200 (Initiated ''72'' 300000000003), (cb, s))" using example_initiated by blast
  from registration_initiated [OF keyspace_server.redis_server_axioms this] i show ?thesis
    by (auto simp: example_reg_def)
qed

section \<open>Field encryption\<close>

text \<open>
  C27. Envelope encryption: with a data key wrapped by \<open>GenerateWrappedDEK\<close>, \<open>EncryptField\<close> succeeds for every
  plaintext, \<open>DecryptField\<close> gives it back, and \<open>DecryptField\<close> accepts nothing else -- a ciphertext that
  no call of \<open>EncryptField\<close> under that data key could have made is refused.
\<close>

theorem field_encryption:
  assumes "gcm_scheme A" "GenerateWrappedDEK A kek (Some dek) (Some nonce) = Inr w"
    "length nonce = 12" "length dek = 32"
  shows "(\<forall>n p. length n = 12 \<longrightarrow> (\<exists>c. EncryptField A kek (Some n) w p = Inr c \<and> DecryptField A kek w c = Inr p)) \<and>
    (\<forall>c. (\<nexists>n p. length n = 12 \<and> EncryptField A kek (Some n) w p = Inr c) \<longrightarrow> (\<exists>e. DecryptField A kek w c = Inl e))"
proof (intro conjI allI impI)
  note dec = gcm_scheme.decrypt_iff [OF assms]
  have nc: "NewCipher dek" using assms(4) by (simp add: NewCipher_def)
  fix n p assume n: "length (n :: string) = 12"
  have "EncryptField A kek (Some n) w p = Inr (n @ gcm_seal A dek n p)"
    using gcm_scheme.unwrap_wrapped [OF assms(1-3)] nc by (simp add: EncryptField_def)
  with n dec show "\<exists>c. EncryptField A kek (Some n) w p = Inr c \<and> DecryptField A kek w c = Inr p" by blast
next
  fix c assume "\<nexists>n p. length n = 12 \<and> EncryptField A kek (Some n) w p = Inr c"
  then have "DecryptField A kek w c \<noteq> Inr p" for p using gcm_scheme.decrypt_iff [OF assms, of c p] by blast
  then show "\<exists>e. DecryptField A kek w c = Inl e" by (cases "DecryptField A kek w c") auto
qed

text \<open>A scheme with a tag that repeats key, nonce and plaintext satisfies the laws.\<close>

definition example_aead :: AEAD where
  "example_aead = \<lparr>gcm_seal = (\<lambda>k n p. k @ n @ p),
     gcm_open = (\<lambda>k n c. if take (length (k @ n)) c = k @ n then Some (drop (length (k @ n)) c) else None)\<rparr>"

interpretation example_gcm: gcm_scheme example_aead
proof unfold_locales
  fix k n c p assume "gcm_open example_aead k n c = Some p"
  then have "take (length (k @ n)) c = k @ n" "p = drop (length (k @ n)) c"
    by (auto simp: example_aead_def split: if_splits)
  then show "c = gcm_seal example_aead k n p" by (simp add: example_aead_def) (metis append.assoc append_take_drop_id)
qed (simp add: example_aead_def)

theorem field_encryption_witness:
  "\<exists>w c. GenerateWrappedDEK example_aead (replicate 32 CHR ''k'') (Some (replicate 32 CHR ''d'')) (Some (replicate 12 CHR ''n'')) = Inr w \<and>
     EncryptField example_aead (replicate 32 CHR ''k'') (Some (replicate 12 CHR ''m'')) w ''nik'' = Inr c \<and>
     DecryptField example_aead (replicate 32 CHR ''k'') w c = Inr ''nik''"
proof -
  obtain w where w: "GenerateWrappedDEK example_aead (replicate 32 CHR ''k'') (Some (replicate 32 CHR ''d''))
      (Some (replicate 12 CHR ''n'')) = Inr w" by (simp add: GenerateWrappedDEK_def)
  from field_encryption [OF example_gcm.gcm_scheme_axioms w length_replicate length_replicate]
  show ?thesis using w by (meson length_replicate)
qed

end
