(* ===== verification/Bff_Session.thy ===== *)
theory Bff_Session
  imports Identity_OTP Identity_Store
begin

text \<open>
  Sessions of the backend for the front ends (\<open>apps/bff/session/store.go\<close>): the interface \<open>Store\<close>, the
  in-memory store and the Redis store, which encrypts the data with AES-256-GCM.
  Redis and AES-GCM are the parameters of the identity service's theories; the JSON codec is a pair of
  functions \<open>enc\<close> and \<open>dec\<close>.
  A single command of the client is a pipeline of one.
  The locale \<open>session_store\<close> is what the handlers rely on, interpreted on both stores.
\<close>

record Data =
  sd_UserID :: ident
  sd_AccessToken :: string
  sd_RefreshToken :: string
  sd_IDToken :: string
  sd_ExpiresAt :: time
  sd_CSRFToken :: string
  sd_CreatedAt :: time
  sd_UserAgent :: string

datatype session_err =
    ErrSessionNotFound
  | ErrInvalidID
  | RandomError
  | MarshalError
  | EncryptError
  | DecryptError
  | UnmarshalError
  | RedisError string

record 's Store =
  se_Create :: "Data \<Rightarrow> int \<Rightarrow> 's \<Rightarrow> (session_err + ident) \<times> 's"
  se_Get :: "ident \<Rightarrow> 's \<Rightarrow> session_err + Data"
  se_Update :: "ident \<Rightarrow> Data \<Rightarrow> int \<Rightarrow> 's \<Rightarrow> session_err option \<times> 's"
  se_Delete :: "ident \<Rightarrow> 's \<Rightarrow> session_err option \<times> 's"

definition session_generateID :: "string option \<Rightarrow> ident option" where
  "session_generateID rnd = map_option hex_encode rnd"

definition hex_char :: "char \<Rightarrow> bool" where
  "hex_char c \<longleftrightarrow> 48 \<le> byte c \<and> byte c \<le> 57 \<or> 97 \<le> byte c \<and> byte c \<le> 102"

definition ValidateID :: "ident \<Rightarrow> session_err option" where
  "ValidateID i = (if length i = 64 \<and> list_all hex_char i then None else Some ErrInvalidID)"

lemma hex_digits_hex: "n < 16 \<Longrightarrow> hex_char (hex_digits ! n)"
proof -
  have "list_all hex_char hex_digits" by (simp add: hex_digits_def hex_char_def byte_def)
  moreover have "length hex_digits = 16" by (simp add: hex_digits_def)
  ultimately show "n < 16 \<Longrightarrow> hex_char (hex_digits ! n)" by (simp add: list_all_length)
qed

lemma hex_encode_hex: "list_all hex_char (hex_encode s)"
  by (induction s) (simp_all add: hex_encode_def hex_digits_hex byte_less less_mult_imp_div_less)

lemma generated_valid: "length r = 32 \<Longrightarrow> ValidateID (hex_encode r) = None"
  by (simp add: ValidateID_def length_hex_encode hex_encode_hex)

section \<open>The Redis store\<close>

text \<open>A store holds its key, if encryption is on; a nil or empty key turns it off.\<close>

definition NewRedisStore :: "string \<Rightarrow> nat + string option" where
  "NewRedisStore encryptionKey =
     (if length encryptionKey > 0
      then (if length encryptionKey \<noteq> 32 then Inl (length encryptionKey) else Inr (Some encryptionKey))
      else Inr None)"

definition session_encrypt :: "AEAD \<Rightarrow> string option \<Rightarrow> string option \<Rightarrow> string \<Rightarrow> string option" where
  "session_encrypt A gcm nonce plaintext =
     (case gcm of None \<Rightarrow> Some plaintext
      | Some k \<Rightarrow> (case nonce of None \<Rightarrow> None | Some n \<Rightarrow> Some (n @ gcm_seal A k n plaintext)))"

definition session_decrypt :: "AEAD \<Rightarrow> string option \<Rightarrow> string \<Rightarrow> string option" where
  "session_decrypt A gcm ciphertext =
     (case gcm of None \<Rightarrow> Some ciphertext
      | Some k \<Rightarrow>
         if length ciphertext < NonceSize then None
         else gcm_open A k (take NonceSize ciphertext) (drop NonceSize ciphertext))"

context gcm_scheme begin

lemma session_roundtrip:
  "length n = 12 \<Longrightarrow> session_encrypt A gcm (Some n) p = Some c \<Longrightarrow> session_decrypt A gcm c = Some p"
  by (auto simp: session_encrypt_def session_decrypt_def NonceSize_def open_seal split: option.splits)

end

definition session_prefix :: string where
  "session_prefix = ''gpass:session:''"

definition with_created :: "time \<Rightarrow> Data \<Rightarrow> Data" where
  "with_created now d = (if is_zero_time (sd_CreatedAt d) then d\<lparr>sd_CreatedAt := now\<rparr> else d)"

text \<open>What a store is built on: the server, the cipher with its key, and the codec.\<close>

record 's session_backend =
  sb_redis :: "'s Redis"
  sb_aead :: AEAD
  sb_gcm :: "string option"
  sb_enc :: "Data \<Rightarrow> string option"
  sb_dec :: "string \<Rightarrow> Data option"

definition redis_put ::
  "'s session_backend \<Rightarrow> time \<Rightarrow> string option \<Rightarrow> ident \<Rightarrow> Data \<Rightarrow> int \<Rightarrow> 's \<Rightarrow> session_err option \<times> 's" where
  "redis_put B now nonce i d ttl s =
     (case sb_enc B d of
        None \<Rightarrow> (Some MarshalError, s)
      | Some b \<Rightarrow> (case session_encrypt (sb_aead B) (sb_gcm B) nonce b of
          None \<Rightarrow> (Some EncryptError, s)
        | Some c \<Rightarrow> (case rd_Exec (sb_redis B) now [CSet (session_prefix @ i) c ttl] s of
            (Some e, s') \<Rightarrow> (Some (RedisError e), s')
          | (None, s') \<Rightarrow> (None, s'))))"

definition rs_Create ::
  "'s session_backend \<Rightarrow> time \<Rightarrow> string option \<Rightarrow> string option \<Rightarrow> Data \<Rightarrow> int \<Rightarrow> 's \<Rightarrow> (session_err + ident) \<times> 's" where
  "rs_Create B now rnd nonce data ttl s =
     (case session_generateID rnd of
        None \<Rightarrow> (Inl RandomError, s)
      | Some sid \<Rightarrow> (case redis_put B now nonce sid (with_created now data) ttl s of
          (Some e, s') \<Rightarrow> (Inl e, s')
        | (None, s') \<Rightarrow> (Inr sid, s')))"

definition rs_Get :: "'s session_backend \<Rightarrow> time \<Rightarrow> ident \<Rightarrow> 's \<Rightarrow> session_err + Data" where
  "rs_Get B now sessionID s =
     (if ValidateID sessionID \<noteq> None then Inl ErrSessionNotFound
      else case rd_Get (sb_redis B) now (session_prefix @ sessionID) s of
        Inl e \<Rightarrow> Inl (RedisError e)
      | Inr None \<Rightarrow> Inl ErrSessionNotFound
      | Inr (Some raw) \<Rightarrow> (case session_decrypt (sb_aead B) (sb_gcm B) raw of
          None \<Rightarrow> Inl DecryptError
        | Some b \<Rightarrow> (case sb_dec B b of None \<Rightarrow> Inl UnmarshalError | Some d \<Rightarrow> Inr d)))"

definition rs_Update ::
  "'s session_backend \<Rightarrow> time \<Rightarrow> string option \<Rightarrow> ident \<Rightarrow> Data \<Rightarrow> int \<Rightarrow> 's \<Rightarrow> session_err option \<times> 's" where
  "rs_Update B now nonce sessionID data ttl s =
     (case ValidateID sessionID of Some e \<Rightarrow> (Some e, s) | None \<Rightarrow> redis_put B now nonce sessionID data ttl s)"

definition rs_Delete :: "'s session_backend \<Rightarrow> time \<Rightarrow> ident \<Rightarrow> 's \<Rightarrow> session_err option \<times> 's" where
  "rs_Delete B now sessionID s =
     (case ValidateID sessionID of
        Some e \<Rightarrow> (None, s)
      | None \<Rightarrow> (case rd_Exec (sb_redis B) now [CDel (session_prefix @ sessionID)] s of
          (Some e, s') \<Rightarrow> (Some (RedisError e), s')
        | (None, s') \<Rightarrow> (None, s')))"

definition RedisStore :: "'s session_backend \<Rightarrow> time \<Rightarrow> string option \<Rightarrow> string option \<Rightarrow> 's Store" where
  "RedisStore B now rnd nonce = \<lparr>
     se_Create = rs_Create B now rnd nonce,
     se_Get = rs_Get B now,
     se_Update = rs_Update B now nonce,
     se_Delete = rs_Delete B now\<rparr>"

section \<open>The in-memory store\<close>

type_synonym sessions = "ident \<rightharpoonup> Data"

definition ms_Create :: "time \<Rightarrow> string option \<Rightarrow> Data \<Rightarrow> int \<Rightarrow> sessions \<Rightarrow> (session_err + ident) \<times> sessions" where
  "ms_Create now rnd data ttl m =
     (case session_generateID rnd of
        None \<Rightarrow> (Inl RandomError, m)
      | Some sid \<Rightarrow> (Inr sid, m(sid \<mapsto> with_created now data)))"

definition ms_Get :: "ident \<Rightarrow> sessions \<Rightarrow> session_err + Data" where
  "ms_Get sessionID m =
     (if ValidateID sessionID \<noteq> None then Inl ErrSessionNotFound
      else case m sessionID of None \<Rightarrow> Inl ErrSessionNotFound | Some d \<Rightarrow> Inr d)"

definition ms_Update :: "ident \<Rightarrow> Data \<Rightarrow> int \<Rightarrow> sessions \<Rightarrow> session_err option \<times> sessions" where
  "ms_Update sessionID data ttl m =
     (case ValidateID sessionID of Some e \<Rightarrow> (Some e, m) | None \<Rightarrow> (None, m(sessionID \<mapsto> data)))"

definition ms_Delete :: "ident \<Rightarrow> sessions \<Rightarrow> session_err option \<times> sessions" where
  "ms_Delete sessionID m = (None, m(sessionID := None))"

definition InMemoryStore :: "time \<Rightarrow> string option \<Rightarrow> sessions Store" where
  "InMemoryStore now rnd = \<lparr>
     se_Create = ms_Create now rnd, se_Get = ms_Get, se_Update = ms_Update, se_Delete = ms_Delete\<rparr>"

section \<open>The contract of a session store\<close>

text \<open>The environment of a call: the clock, 32 random bytes and a nonce of 12.\<close>

record senv =
  en_now :: time
  en_rnd :: "string option"
  en_nonce :: "string option"

definition senv_ok :: "senv \<Rightarrow> bool" where
  "senv_ok e \<longleftrightarrow> (\<forall>r. en_rnd e = Some r \<longrightarrow> length r = 32) \<and> (\<forall>n. en_nonce e = Some n \<longrightarrow> length n = 12)"

text \<open>
  \<open>stored t s i\<close> is what the store holds under \<open>i\<close> at the instant \<open>t\<close>: it may vanish with time, and a
  session that is gone does not come back.
\<close>

locale session_store =
  fixes S :: "senv \<Rightarrow> 's Store" and stored :: "time \<Rightarrow> 's \<Rightarrow> ident \<Rightarrow> Data option"
  assumes get_iff: "se_Get (S e) i s = Inr d \<longleftrightarrow> stored (en_now e) s i = Some d"
    and stored_valid: "stored t s i = Some d \<Longrightarrow> ValidateID i = None"
    and stored_fades: "stored t s i = Some d \<Longrightarrow> t' \<le> t \<Longrightarrow> stored t' s i = Some d"
    and create_ok: "senv_ok e \<Longrightarrow> se_Create (S e) d ttl s = (Inr i, s') \<Longrightarrow>
          session_generateID (en_rnd e) = Some i \<and>
          (\<forall>t j. stored t s' j \<in> (if j = i then {None, Some (with_created (en_now e) d)} else {stored t s j}))"
    and create_lives: "senv_ok e \<Longrightarrow> se_Create (S e) d ttl s = (Inr i, s') \<Longrightarrow> t < en_now e + ttl \<Longrightarrow>
          stored t s' i = Some (with_created (en_now e) d)"
    and create_fails: "se_Create (S e) d ttl s = (Inl err, s') \<Longrightarrow> stored t s' j = stored t s j"
    and delete_ok: "ValidateID i = None \<Longrightarrow> stored t (snd (se_Delete (S e) i s)) j =
          (if j = i then None else stored t s j)"
    and delete_invalid: "ValidateID i \<noteq> None \<Longrightarrow> stored t (snd (se_Delete (S e) i s)) j = stored t s j"

definition mem_stored :: "time \<Rightarrow> sessions \<Rightarrow> ident \<Rightarrow> Data option" where
  "mem_stored t m i = (if ValidateID i = None then m i else None)"

definition mem_store :: "senv \<Rightarrow> sessions Store" where
  "mem_store e = InMemoryStore (en_now e) (en_rnd e)"

lemma generated_id_valid: "senv_ok e \<Longrightarrow> session_generateID (en_rnd e) = Some i \<Longrightarrow> ValidateID i = None"
  by (auto simp: senv_ok_def session_generateID_def generated_valid)

interpretation mem_sessions: session_store mem_store mem_stored
proof unfold_locales
  fix e d ttl s i s'
  assume e: "senv_ok e" and c: "se_Create (mem_store e) d ttl s = (Inr i, s')"
  then have "session_generateID (en_rnd e) = Some i" "s' = s(i \<mapsto> with_created (en_now e) d)"
    by (auto simp: mem_store_def InMemoryStore_def ms_Create_def split: option.splits)
  with generated_id_valid [OF e] show "session_generateID (en_rnd e) = Some i \<and>
      (\<forall>t j. mem_stored t s' j \<in> (if j = i then {None, Some (with_created (en_now e) d)} else {mem_stored t s j}))"
    and "mem_stored t s' i = Some (with_created (en_now e) d)" for t
    by (simp_all add: mem_stored_def)
qed (auto simp: mem_store_def InMemoryStore_def mem_stored_def ms_Get_def ms_Create_def ms_Delete_def
    split: option.splits if_splits)

text \<open>The Redis store, over a server, a cipher and a codec that keep their laws.\<close>

definition backend_ok :: "'s session_backend \<Rightarrow> ('s \<Rightarrow> keyspace) \<Rightarrow> bool" where
  "backend_ok B view \<longleftrightarrow> redis_server (sb_redis B) view \<and> gcm_scheme (sb_aead B) \<and>
     (\<forall>d b. sb_enc B d = Some b \<longrightarrow> sb_dec B b = Some d)"

definition decode_session :: "'s session_backend \<Rightarrow> string \<Rightarrow> Data option" where
  "decode_session B raw = Option.bind (session_decrypt (sb_aead B) (sb_gcm B) raw) (sb_dec B)"

definition redis_stored :: "'s session_backend \<Rightarrow> ('s \<Rightarrow> keyspace) \<Rightarrow> time \<Rightarrow> 's \<Rightarrow> ident \<Rightarrow> Data option" where
  "redis_stored B view t s i =
     (if ValidateID i = None
      then Option.bind (map_option fst (entry t (session_prefix @ i) (view s))) (decode_session B) else None)"

definition redis_store :: "'s session_backend \<Rightarrow> senv \<Rightarrow> 's Store" where
  "redis_store B e = RedisStore B (en_now e) (en_rnd e) (en_nonce e)"

lemma redis_get:
  assumes "backend_ok B view"
  shows "rs_Get B t i s = Inr d \<longleftrightarrow> redis_stored B view t s i = Some d"
proof -
  have "rd_Get (sb_redis B) t k s = Inr (map_option fst (entry t k (view s)))" for k
    using assms by (auto simp: backend_ok_def dest: redis_server.get)
  then show ?thesis
    by (auto simp: rs_Get_def redis_stored_def decode_session_def bind_eq_Some_conv split: option.splits)
qed

lemma redis_exec_one:
  assumes "backend_ok B view" "\<And>k. c \<noteq> CIncr k"
  shows "fst (rd_Exec (sb_redis B) now [c] s) = None"
    and "view (snd (rd_Exec (sb_redis B) now [c] s)) = redis_apply now c (view s)"
proof -
  have "redis_server (sb_redis B) view" using assms(1) by (simp add: backend_ok_def)
  moreover have "pipeline_ok now [c] (view s)" using assms(2) by (cases c) auto
  ultimately show "fst (rd_Exec (sb_redis B) now [c] s) = None"
    and "view (snd (rd_Exec (sb_redis B) now [c] s)) = redis_apply now c (view s)"
    using redis_server.exec_result redis_server.exec_view by fastforce+
qed

lemma redis_put_ok:
  assumes B: "backend_ok B view" and n: "\<forall>n. nonce = Some n \<longrightarrow> length n = 12"
    and p: "redis_put B now nonce i d ttl s = (r, s')"
  shows "r = None \<Longrightarrow> \<exists>c. view s' = (view s)(session_prefix @ i \<mapsto> (c, Some (now + ttl))) \<and> decode_session B c = Some d"
    and "r \<noteq> None \<Longrightarrow> s' = s"
proof -
  show "s' = s" if "r \<noteq> None"
    using p that redis_exec_one(1) [OF B, of "CSet k c ttl" now s for k c]
    by (auto simp: redis_put_def split: option.splits prod.splits) (metis fst_conv option.distinct(1))
  show "\<exists>c. view s' = (view s)(session_prefix @ i \<mapsto> (c, Some (now + ttl))) \<and> decode_session B c = Some d" if "r = None"
  proof -
    from p that obtain b c where bc: "sb_enc B d = Some b" "session_encrypt (sb_aead B) (sb_gcm B) nonce b = Some c"
      "rd_Exec (sb_redis B) now [CSet (session_prefix @ i) c ttl] s = (None, s')"
      by (auto simp: redis_put_def split: option.splits prod.splits)
    have "view s' = (view s)(session_prefix @ i \<mapsto> (c, Some (now + ttl)))"
      using redis_exec_one(2) [OF B, of "CSet (session_prefix @ i) c ttl" now s] bc(3) by simp
    moreover have "session_decrypt (sb_aead B) (sb_gcm B) c = Some b"
    proof (cases "sb_gcm B")
      case None
      with bc(2) show ?thesis by (simp add: session_encrypt_def session_decrypt_def)
    next
      case (Some k)
      with bc(2) obtain m where m: "nonce = Some m" by (auto simp: session_encrypt_def split: option.splits)
      have "gcm_scheme (sb_aead B)" using B by (simp add: backend_ok_def)
      from gcm_scheme.session_roundtrip [OF this] n m bc(2) show ?thesis by blast
    qed
    moreover have "sb_dec B b = Some d" using B bc(1) by (simp add: backend_ok_def)
    ultimately show ?thesis by (auto simp: decode_session_def)
  qed
qed

lemma redis_stored_upd:
  assumes "view s' = (view s)(session_prefix @ i := x)"
  shows "redis_stored B view t s' j =
    (if j = i then (if ValidateID i = None then Option.bind (map_option fst (entry t (session_prefix @ i) (\<lambda>_. x)))
       (decode_session B) else None) else redis_stored B view t s j)"
  by (simp add: redis_stored_def assms entry_upd)

lemma redis_session_store:
  assumes B: "backend_ok B view"
  shows "session_store (redis_store B) (redis_stored B view)"
proof
  fix e i s d show "se_Get (redis_store B e) i s = Inr d \<longleftrightarrow> redis_stored B view (en_now e) s i = Some d"
    by (simp add: redis_store_def RedisStore_def redis_get [OF B])
next
  fix t s i d assume "redis_stored B view t s i = Some d"
  then show "ValidateID i = None" by (simp add: redis_stored_def split: if_splits)
next
  fix t t' s i d assume "redis_stored B view t s i = Some d" "t' \<le> t"
  then show "redis_stored B view t' s i = Some d"
    by (auto simp: redis_stored_def entry_def bind_eq_Some_conv split: if_splits option.splits)
next
  fix e d ttl s i s' assume e: "senv_ok e" and c: "se_Create (redis_store B e) d ttl s = (Inr i, s')"
  then have i: "session_generateID (en_rnd e) = Some i"
    and p: "redis_put B (en_now e) (en_nonce e) i (with_created (en_now e) d) ttl s = (None, s')"
    by (auto simp: redis_store_def RedisStore_def rs_Create_def split: option.splits prod.splits)
  have n: "\<forall>n. en_nonce e = Some n \<longrightarrow> length n = 12" using e by (simp add: senv_ok_def)
  from redis_put_ok(1) [OF B n p refl] obtain x where
    x: "view s' = (view s)(session_prefix @ i \<mapsto> (x, Some (en_now e + ttl)))"
       "decode_session B x = Some (with_created (en_now e) d)" by blast
  have st: "redis_stored B view t s' j = (if j = i then if t < en_now e + ttl then Some (with_created (en_now e) d) else None
      else redis_stored B view t s j)" for t j
    using generated_id_valid [OF e i] x(2) by (simp add: redis_stored_upd [of view, OF x(1)] entry_def)
  from i st show "session_generateID (en_rnd e) = Some i \<and>
      (\<forall>t j. redis_stored B view t s' j \<in> (if j = i then {None, Some (with_created (en_now e) d)} else {redis_stored B view t s j}))"
    by simp
  show "t < en_now e + ttl \<Longrightarrow> redis_stored B view t s' i = Some (with_created (en_now e) d)" for t
    by (simp add: st)
next
  fix e d ttl s err s' t j assume c: "se_Create (redis_store B e) d ttl s = (Inl err, s')"
  then have "s' = s \<or> (\<exists>i err. redis_put B (en_now e) (en_nonce e) i (with_created (en_now e) d) ttl s = (Some err, s'))"
    by (auto simp: redis_store_def RedisStore_def rs_Create_def split: option.splits prod.splits)
  moreover have "s' = s" if "redis_put B (en_now e) (en_nonce e) i (with_created (en_now e) d) ttl s = (Some err, s')" for i err
    using that redis_exec_one(1) [OF B, of "CSet (session_prefix @ i) x ttl" "en_now e" s for x]
    by (auto simp: redis_put_def split: option.splits prod.splits) (metis fst_conv option.distinct(1))
  ultimately have "s' = s" by blast
  then show "redis_stored B view t s' j = redis_stored B view t s j" by simp
next
  fix i t e s j assume "ValidateID i = None"
  then have "view (snd (se_Delete (redis_store B e) i s)) = (view s)(session_prefix @ i := None)"
    using redis_exec_one(2) [OF B, of "CDel (session_prefix @ i)" "en_now e" s]
    by (auto simp: redis_store_def RedisStore_def rs_Delete_def split: prod.splits option.splits)
  then show "redis_stored B view t (snd (se_Delete (redis_store B e) i s)) j = (if j = i then None else redis_stored B view t s j)"
    by (simp add: redis_stored_upd [of view, of _ s] entry_def)
next
  fix i t e s j assume "ValidateID i \<noteq> None"
  then show "redis_stored B view t (snd (se_Delete (redis_store B e) i s)) j = redis_stored B view t s j"
    by (auto simp: redis_store_def RedisStore_def rs_Delete_def)
qed

end
