(* ===== verification/Bff_Http.thy ===== *)
theory Bff_Http
  imports Bff_Session "HOL-Library.Sublist"
begin

text \<open>
  The HTTP side of the backend for the front ends (\<open>apps/bff\<close>): the middleware that guards the API
  (\<open>middleware/csrf.go\<close>, \<open>middleware/session.go\<close>, \<open>middleware/ratelimit.go\<close>), the login flow
  (\<open>handler/auth.go\<close>, \<open>handler/session.go\<close>), the proxy to the services (\<open>handler/proxy.go\<close>) and the
  health checks (\<open>handler/health.go\<close>, \<open>handler/readiness.go\<close>).
  A handler maps a request, the session of its context and the state to an answer and a state; a
  middleware is a function on handlers.
  SHA-256, base64 and \<open>url.QueryEscape\<close> are parameters.
\<close>

section \<open>Requests and answers\<close>

text \<open>Header names are in the canonical form \<open>net/http\<close> stores them in.\<close>

record request =
  rq_Method :: string
  rq_Path :: string
  rq_RawQuery :: string
  rq_Query :: "string \<Rightarrow> string"
  rq_Headers :: "string \<rightharpoonup> string list"
  rq_Cookies :: "string \<rightharpoonup> string"
  rq_RemoteAddr :: string
  rq_UserAgent :: string

record cookie =
  ck_Name :: string
  ck_Value :: string
  ck_Path :: string
  ck_Domain :: string
  ck_MaxAge :: int
  ck_HttpOnly :: bool
  ck_Secure :: bool
  ck_SameSite :: string

datatype bff_answer =
    HTTPError nat string string
  | Redirected string "cookie list"
  | SessionInfo bool ident string
  | Served string
  | Proxied nat "string \<rightharpoonup> string list" string

type_synonym 's handler = "request \<Rightarrow> Data option \<Rightarrow> 's \<Rightarrow> bff_answer \<times> 's"

text \<open>\<open>textproto.CanonicalMIMEHeaderKey\<close> on a valid header name: letters after a hyphen are capitals.\<close>

definition upper :: "char \<Rightarrow> char" where
  "upper c = (if 97 \<le> byte c \<and> byte c \<le> 122 then char_of (byte c - 32) else c)"

definition lower :: "char \<Rightarrow> char" where
  "lower c = (if 65 \<le> byte c \<and> byte c \<le> 90 then char_of (byte c + 32) else c)"

fun canonical_from :: "bool \<Rightarrow> string \<Rightarrow> string" where
  "canonical_from up [] = []"
| "canonical_from up (c # cs) = (if up then upper c else lower c) # canonical_from (c = CHR ''-'') cs"

definition CanonicalHeaderKey :: "string \<Rightarrow> string" where
  "CanonicalHeaderKey k = canonical_from True k"

definition header_Get :: "(string \<rightharpoonup> string list) \<Rightarrow> string \<Rightarrow> string" where
  "header_Get h k = (case h (CanonicalHeaderKey k) of None \<Rightarrow> [] | Some [] \<Rightarrow> [] | Some (v # vs) \<Rightarrow> v)"

definition header_Set :: "string \<Rightarrow> string \<Rightarrow> (string \<rightharpoonup> string list) \<Rightarrow> string \<rightharpoonup> string list" where
  "header_Set k v h = h(CanonicalHeaderKey k \<mapsto> [v])"

definition header_Del :: "string \<Rightarrow> (string \<rightharpoonup> string list) \<Rightarrow> string \<rightharpoonup> string list" where
  "header_Del k h = h(CanonicalHeaderKey k := None)"

section \<open>Middleware\<close>

definition isSafeMethod :: "string \<Rightarrow> bool" where
  "isSafeMethod m \<longleftrightarrow> m = ''GET'' \<or> m = ''HEAD'' \<or> m = ''OPTIONS''"

definition CSRF :: "'s handler \<Rightarrow> 's handler" where
  "CSRF next r ctx s =
     (if isSafeMethod (rq_Method r) then next r ctx s
      else let headerToken = header_Get (rq_Headers r) ''X-CSRF-Token'' in
        if headerToken = [] then (HTTPError 403 ''missing_csrf_token'' ''X-CSRF-Token header is required'', s)
        else case rq_Cookies r ''gpass_csrf'' of
          None \<Rightarrow> (HTTPError 403 ''missing_csrf_cookie'' ''CSRF cookie is missing'', s)
        | Some v \<Rightarrow>
            if v = [] then (HTTPError 403 ''missing_csrf_cookie'' ''CSRF cookie is missing'', s)
            else if headerToken \<noteq> v then (HTTPError 403 ''csrf_mismatch'' ''CSRF token does not match'', s)
            else next r ctx s)"

definition RequireSession :: "'s Store \<Rightarrow> time \<Rightarrow> 's handler \<Rightarrow> 's handler" where
  "RequireSession st now next r ctx s =
     (case rq_Cookies r ''gpass_session'' of
        None \<Rightarrow> (HTTPError 401 ''unauthorized'' ''Authentication required'', s)
      | Some sid \<Rightarrow> (case se_Get st sid s of
          Inl err \<Rightarrow> (HTTPError 401 ''unauthorized'' ''Session invalid or expired'', s)
        | Inr d \<Rightarrow>
            if \<not> is_zero_time (sd_ExpiresAt d) \<and> now > sd_ExpiresAt d
            then (HTTPError 401 ''session_expired'' ''Session has expired, please login again'',
                  snd (se_Delete st sid s))
            else next r (Some d) s))"

text \<open>The API as \<open>main.go\<close> mounts it.\<close>

definition api_chain :: "'s Store \<Rightarrow> time \<Rightarrow> 's handler \<Rightarrow> 's handler" where
  "api_chain st now mux = CSRF (RequireSession st now mux)"

section \<open>The rate limiter\<close>

record bucket =
  bk_tokens :: int
  bk_lastReset :: time

record ipLimiter =
  il_visitors :: "string \<rightharpoonup> bucket"
  il_rpm :: int

definition newIPLimiter :: "int \<Rightarrow> ipLimiter" where
  "newIPLimiter rpm = \<lparr>il_visitors = Map.empty, il_rpm = rpm\<rparr>"

definition il_allow :: "time \<Rightarrow> string \<Rightarrow> ipLimiter \<Rightarrow> bool \<times> ipLimiter" where
  "il_allow now ip l =
     (let reset = \<lparr>bk_tokens = il_rpm l - 1, bk_lastReset = now\<rparr> in
      case il_visitors l ip of
        None \<Rightarrow> (True, l\<lparr>il_visitors := (il_visitors l)(ip \<mapsto> reset)\<rparr>)
      | Some b \<Rightarrow>
          if time_Sub now (bk_lastReset b) \<ge> minute
          then (True, l\<lparr>il_visitors := (il_visitors l)(ip \<mapsto> reset)\<rparr>)
          else if bk_tokens b \<le> 0 then (False, l)
          else (True, l\<lparr>il_visitors := (il_visitors l)(ip \<mapsto> b\<lparr>bk_tokens := bk_tokens b - 1\<rparr>)\<rparr>))"

definition il_cleanup :: "time \<Rightarrow> ipLimiter \<Rightarrow> ipLimiter" where
  "il_cleanup now l = l\<lparr>il_visitors := (\<lambda>ip. case il_visitors l ip of None \<Rightarrow> None
     | Some b \<Rightarrow> if bk_lastReset b < now - 5 * minute then None else Some b)\<rparr>"

fun before_comma :: "string \<Rightarrow> string" where
  "before_comma [] = []"
| "before_comma (c # cs) = (if c = CHR '','' then [] else c # before_comma cs)"

fun strip_port :: "string \<Rightarrow> string option" where
  "strip_port [] = None"
| "strip_port (c # cs) = (case strip_port cs of
     Some r \<Rightarrow> Some (c # r) | None \<Rightarrow> if c = CHR '':'' then Some [] else None)"

definition extractIP :: "request \<Rightarrow> string" where
  "extractIP r =
     (let xff = header_Get (rq_Headers r) ''X-Forwarded-For'' in
      if xff \<noteq> [] then before_comma xff
      else case strip_port (rq_RemoteAddr r) of Some a \<Rightarrow> a | None \<Rightarrow> rq_RemoteAddr r)"

definition RateLimit :: "time \<Rightarrow> 's handler \<Rightarrow> request \<Rightarrow> Data option \<Rightarrow> ipLimiter \<times> 's \<Rightarrow> bff_answer \<times> (ipLimiter \<times> 's)" where
  "RateLimit now next r ctx ls =
     (let (l, s) = ls; (ok, l') = il_allow now (extractIP r) l in
      if \<not> ok then (HTTPError 429 ''rate_limited'' ''Too many requests, please try again later'', (l', s))
      else let (a, s') = next r ctx s in (a, (l', s')))"

section \<open>Login, callback and logout\<close>

record AuthConfig =
  af_IssuerURL :: string
  af_ClientID :: string
  af_RedirectURI :: string
  af_FrontendURL :: string
  af_CookieDomain :: string
  af_SecureCookie :: bool

definition sessionTTL :: int where
  "sessionTTL = 30 * minute"

definition randomString :: "nat \<Rightarrow> string option \<Rightarrow> string option" where
  "randomString n rnd = map_option (\<lambda>b. take n (hex_encode b)) rnd"

definition computeCodeChallenge :: "(string \<Rightarrow> string) \<Rightarrow> (string \<Rightarrow> string) \<Rightarrow> string \<Rightarrow> string" where
  "computeCodeChallenge sha b64 verifier = b64 (sha verifier)"

definition auth_cookie :: "AuthConfig \<Rightarrow> string \<Rightarrow> string \<Rightarrow> cookie" where
  "auth_cookie cfg name v = \<lparr>ck_Name = name, ck_Value = v, ck_Path = ''/auth'', ck_Domain = [], ck_MaxAge = 300,
     ck_HttpOnly = True, ck_Secure = af_SecureCookie cfg, ck_SameSite = ''Lax''\<rparr>"

definition site_cookie :: "AuthConfig \<Rightarrow> string \<Rightarrow> string \<Rightarrow> int \<Rightarrow> bool \<Rightarrow> cookie" where
  "site_cookie cfg name v age httpOnly = \<lparr>ck_Name = name, ck_Value = v, ck_Path = ''/'',
     ck_Domain = af_CookieDomain cfg, ck_MaxAge = age, ck_HttpOnly = httpOnly, ck_Secure = af_SecureCookie cfg,
     ck_SameSite = ''Strict''\<rparr>"

definition clearAuthCookies :: "cookie list" where
  "clearAuthCookies = map (\<lambda>name. \<lparr>ck_Name = name, ck_Value = [], ck_Path = ''/auth'', ck_Domain = [],
     ck_MaxAge = -1, ck_HttpOnly = False, ck_Secure = False, ck_SameSite = []\<rparr>) [''gpass_pkce'', ''gpass_state'']"

definition authURL :: "(string \<Rightarrow> string) \<Rightarrow> AuthConfig \<Rightarrow> string \<Rightarrow> string \<Rightarrow> string" where
  "authURL esc cfg state challenge =
     af_IssuerURL cfg @ ''/protocol/openid-connect/auth?response_type=code&client_id='' @ esc (af_ClientID cfg) @
     ''&redirect_uri='' @ esc (af_RedirectURI cfg) @ ''&scope=openid+profile+email&state='' @ esc state @
     ''&code_challenge='' @ esc challenge @ ''&code_challenge_method=S256''"

text \<open>\<open>rnd\<close> and \<open>rnd'\<close> are the 32 and 64 bytes the two draws give.\<close>

definition Login ::
  "(string \<Rightarrow> string) \<Rightarrow> (string \<Rightarrow> string) \<Rightarrow> (string \<Rightarrow> string) \<Rightarrow> AuthConfig \<Rightarrow> string option \<Rightarrow> string option \<Rightarrow>
     bff_answer" where
  "Login sha b64 esc cfg rnd rnd' =
     (case randomString 32 rnd of
        None \<Rightarrow> HTTPError 500 ''internal_error'' ''Failed to initiate login''
      | Some state \<Rightarrow> (case randomString 64 rnd' of
          None \<Rightarrow> HTTPError 500 ''internal_error'' ''Failed to initiate login''
        | Some verifier \<Rightarrow>
            Redirected (authURL esc cfg state (computeCodeChallenge sha b64 verifier))
              [auth_cookie cfg ''gpass_pkce'' verifier, auth_cookie cfg ''gpass_state'' state]))"

text \<open>
  The callback; the exchange of the code is still to be written, and every accepted callback opens a
  session of the same user.
  \<open>mustRandomString\<close> panics without random bytes: the outer \<open>None\<close>.
\<close>

definition callback_session :: "time \<Rightarrow> string \<Rightarrow> request \<Rightarrow> Data" where
  "callback_session now csrfToken r =
     \<lparr>sd_UserID = ''stub-user'', sd_AccessToken = [], sd_RefreshToken = [], sd_IDToken = [],
      sd_ExpiresAt = now + sessionTTL, sd_CSRFToken = csrfToken, sd_CreatedAt = zero_time,
      sd_UserAgent = rq_UserAgent r\<rparr>"

definition Callback ::
  "AuthConfig \<Rightarrow> 's Store \<Rightarrow> time \<Rightarrow> string option \<Rightarrow> request \<Rightarrow> 's \<Rightarrow> (bff_answer \<times> 's) option" where
  "Callback cfg st now rnd r s =
     (if rq_Query r ''error'' \<noteq> []
      then Some (Redirected (af_FrontendURL cfg @ ''?error=auth_failed'') clearAuthCookies, s)
      else if rq_Query r ''code'' = []
      then Some (HTTPError 400 ''missing_code'' ''Missing authorization code'', s)
      else case rq_Cookies r ''gpass_state'' of
        None \<Rightarrow> Some (HTTPError 400 ''invalid_state'' ''State validation failed'', s)
      | Some stateCookie \<Rightarrow>
          if stateCookie = [] then Some (HTTPError 400 ''invalid_state'' ''State validation failed'', s)
          else if rq_Query r ''state'' \<noteq> stateCookie
          then Some (HTTPError 400 ''state_mismatch'' ''State parameter does not match'', s)
          else case randomString 32 rnd of
            None \<Rightarrow> None
          | Some csrfToken \<Rightarrow>
              (let sess = callback_session now csrfToken r
               in case se_Create st sess sessionTTL s of
                    (Inl err, s') \<Rightarrow> Some (HTTPError 500 ''session_error'' ''Failed to create session'', s')
                  | (Inr sid, s') \<Rightarrow>
                      Some (Redirected (af_FrontendURL cfg)
                        ([site_cookie cfg ''gpass_session'' sid 1800 True,
                          site_cookie cfg ''gpass_csrf'' csrfToken 1800 False] @ clearAuthCookies), s')))"

definition Logout :: "AuthConfig \<Rightarrow> 's Store \<Rightarrow> request \<Rightarrow> 's \<Rightarrow> bff_answer \<times> 's" where
  "Logout cfg st r s =
     (let s' = (case rq_Cookies r ''gpass_session'' of
                  None \<Rightarrow> s
                | Some sid \<Rightarrow> if sid \<noteq> [] then snd (se_Delete st sid s) else s)
      in (Redirected (af_FrontendURL cfg)
            [site_cookie cfg ''gpass_session'' [] (-1) True, site_cookie cfg ''gpass_csrf'' [] (-1) False], s'))"

definition GetSession :: "'s Store \<Rightarrow> 's handler" where
  "GetSession st r ctx s =
     (case rq_Cookies r ''gpass_session'' of
        None \<Rightarrow> (SessionInfo False [] [], s)
      | Some sid \<Rightarrow> (case se_Get st sid s of
          Inl err \<Rightarrow> (SessionInfo False [] [], s)
        | Inr d \<Rightarrow> (SessionInfo True (sd_UserID d) (sd_CSRFToken d), s)))"

section \<open>The proxy\<close>

definition hopByHopHeaders :: "string list" where
  "hopByHopHeaders = [''Connection'', ''Keep-Alive'', ''Proxy-Authenticate'', ''Proxy-Authorization'', ''TE'',
     ''Trailers'', ''Transfer-Encoding'', ''Upgrade'']"

definition default_routes :: "string \<rightharpoonup> string" where
  "default_routes = map_of
     [(''/api/v1/identity'', ''http://localhost:4001''), (''/api/v1/consent'', ''http://localhost:4003''),
      (''/api/v1/corp'', ''http://localhost:4006''), (''/api/v1/sign'', ''http://localhost:4007''),
      (''/api/v1/portal'', ''http://localhost:4009''), (''/api/v1/audit'', ''http://localhost:4010''),
      (''/api/v1/notify'', ''http://localhost:4011'')]"

fun match_loop :: "string list \<Rightarrow> (string \<rightharpoonup> string) \<Rightarrow> string \<Rightarrow> nat \<times> string \<times> string \<Rightarrow> nat \<times> string \<times> string" where
  "match_loop [] routes path best = best"
| "match_loop (pfx # ks) routes path best = (case routes pfx of
     None \<Rightarrow> match_loop ks routes path best
   | Some url \<Rightarrow>
       if prefix pfx path \<and> length pfx > fst best then match_loop ks routes path (length pfx, url, pfx)
       else match_loop ks routes path best)"

definition matchRoute :: "string list \<Rightarrow> (string \<rightharpoonup> string) \<Rightarrow> string \<Rightarrow> string \<times> string" where
  "matchRoute ks routes path = snd (match_loop ks routes path (0, [], []))"

definition forward_headers :: "(string \<rightharpoonup> string list) \<Rightarrow> string \<rightharpoonup> string list" where
  "forward_headers h =
     (let copied = (\<lambda>k. case h k of Some [] \<Rightarrow> None | x \<Rightarrow> x);
          h1 = fold header_Del hopByHopHeaders copied;
          h2 = header_Del ''X-User-ID'' h1;
          userID = header_Get h ''X-User-ID'';
          h3 = (if userID \<noteq> [] then header_Set ''X-User-ID'' userID h2 else h2);
          reqID = header_Get h ''X-Request-Id''
      in if reqID \<noteq> [] then header_Set ''X-Request-Id'' reqID h3 else h3)"

text \<open>
  \<open>backend\<close> answers the request that goes out: method, target and headers; its error is an unreachable
  backend.
  \<open>valid\<close> is whether \<open>NewRequestWithContext\<close> accepts method and target.
\<close>

definition targetURL :: "string list \<Rightarrow> (string \<rightharpoonup> string) \<Rightarrow> request \<Rightarrow> string" where
  "targetURL ks routes r =
     (let (url, pfx) = matchRoute ks routes (rq_Path r) in
      url @ drop (length pfx) (rq_Path r) @ (if rq_RawQuery r \<noteq> [] then CHR ''?'' # rq_RawQuery r else []))"

definition proxy_ServeHTTP ::
  "string list \<Rightarrow> (string \<rightharpoonup> string) \<Rightarrow> (string \<Rightarrow> string \<Rightarrow> bool) \<Rightarrow>
     (string \<Rightarrow> string \<Rightarrow> (string \<rightharpoonup> string list) \<Rightarrow> (nat \<times> (string \<rightharpoonup> string list) \<times> string) option) \<Rightarrow>
     request \<Rightarrow> bff_answer" where
  "proxy_ServeHTTP ks routes valid backend r =
     (if fst (matchRoute ks routes (rq_Path r)) = []
      then HTTPError 404 ''not_found'' ''No matching service route''
      else let target = targetURL ks routes r in
        if \<not> valid (rq_Method r) target
        then HTTPError 500 ''internal_error'' ''Failed to create proxy request''
        else case backend (rq_Method r) target (forward_headers (rq_Headers r)) of
          None \<Rightarrow> HTTPError 502 ''bad_gateway'' ''Backend service unavailable''
        | Some (st, h, body) \<Rightarrow>
            Proxied st (fold header_Del hopByHopHeaders (\<lambda>k. case h k of Some [] \<Rightarrow> None | x \<Rightarrow> x)) body)"

section \<open>Health\<close>

record ServiceHealth =
  sv_Name :: string
  sv_URL :: string
  sv_Status :: string
  sv_Error :: string

text \<open>
  The answers of the services: the request could not be built, it failed, or its status.
  The checks run concurrently, each writing its own place of \<open>results\<close>.
\<close>

datatype probe = BuildError string | RequestError string | Status nat

definition checkService :: "(string \<Rightarrow> probe) \<Rightarrow> string \<times> string \<Rightarrow> ServiceHealth" where
  "checkService ask svc =
     (case ask (snd svc) of
        BuildError e \<Rightarrow> \<lparr>sv_Name = fst svc, sv_URL = snd svc, sv_Status = ''unhealthy'',
                         sv_Error = ''create request: '' @ e\<rparr>
      | RequestError e \<Rightarrow> \<lparr>sv_Name = fst svc, sv_URL = snd svc, sv_Status = ''unhealthy'',
                           sv_Error = ''request failed: '' @ e\<rparr>
      | Status st \<Rightarrow> \<lparr>sv_Name = fst svc, sv_URL = snd svc,
                     sv_Status = (if st \<noteq> 200 then ''unhealthy'' else ''ok''), sv_Error = []\<rparr>)"

definition overall_status :: "ServiceHealth list \<Rightarrow> string" where
  "overall_status results =
     (let unhealthyCount = length (filter (\<lambda>x. sv_Status x = ''unhealthy'') results) in
      if unhealthyCount > 0 \<and> unhealthyCount < length results then ''degraded''
      else if unhealthyCount = length results then ''unhealthy'' else ''ok'')"

definition CheckAll :: "(string \<Rightarrow> probe) \<Rightarrow> (string \<times> string) list \<Rightarrow> string \<times> ServiceHealth list" where
  "CheckAll ask services = (let results = map (checkService ask) services in (overall_status results, results))"

definition health_ServeHTTP :: "(string \<Rightarrow> probe) \<Rightarrow> (string \<times> string) list \<Rightarrow> nat \<times> string \<times> ServiceHealth list" where
  "health_ServeHTTP ask services =
     (let result = CheckAll ask services in
      ((if fst result = ''degraded'' then 200 else if fst result = ''unhealthy'' then 503 else 200), result))"

lemma all_filter: "length (filter P xs) = length xs \<longleftrightarrow> (\<forall>x\<in>set xs. P x)"
proof (induction xs)
  case (Cons x xs)
  have "length (filter P xs) \<noteq> Suc (length xs)" using length_filter_le [of P xs] by linarith
  with Cons show ?case by auto
qed simp

lemma overall_status_iff:
  "overall_status rs = ''ok'' \<longleftrightarrow> rs \<noteq> [] \<and> (\<forall>x\<in>set rs. sv_Status x \<noteq> ''unhealthy'')"
  "overall_status rs = ''unhealthy'' \<longleftrightarrow> (\<forall>x\<in>set rs. sv_Status x = ''unhealthy'')"
proof -
  define n where "n = length (filter (\<lambda>x. sv_Status x = ''unhealthy'') rs)"
  have o: "overall_status rs = (if 0 < n \<and> n < length rs then ''degraded'' else if n = length rs then ''unhealthy'' else ''ok'')"
    by (simp add: overall_status_def n_def Let_def)
  have "n \<le> length rs" by (simp add: n_def)
  then have "overall_status rs = ''ok'' \<longleftrightarrow> n = 0 \<and> rs \<noteq> []" "overall_status rs = ''unhealthy'' \<longleftrightarrow> n = length rs"
    by (auto simp: o)
  then show "overall_status rs = ''ok'' \<longleftrightarrow> rs \<noteq> [] \<and> (\<forall>x\<in>set rs. sv_Status x \<noteq> ''unhealthy'')"
    "overall_status rs = ''unhealthy'' \<longleftrightarrow> (\<forall>x\<in>set rs. sv_Status x = ''unhealthy'')"
    unfolding n_def all_filter by (auto simp: filter_empty_conv)
qed

record ReadinessCheck =
  rc_Name :: string
  rc_Critical :: bool
  rc_Check :: "string option"

text \<open>The readiness checks finish in the order \<open>cs\<close>, any order of the handler's checks.\<close>

definition finish_check :: "ReadinessCheck \<Rightarrow> (string \<rightharpoonup> string) \<times> bool \<Rightarrow> (string \<rightharpoonup> string) \<times> bool" where
  "finish_check c rf =
     (let (results, criticalFailed) = rf in
      case rc_Check c of
        Some err \<Rightarrow> (results(rc_Name c \<mapsto> ''error: '' @ err), if rc_Critical c then True else criticalFailed)
      | None \<Rightarrow> (results(rc_Name c \<mapsto> ''ok''), criticalFailed))"

definition ready_ServeHTTP :: "ReadinessCheck list \<Rightarrow> nat \<times> bool \<times> (string \<rightharpoonup> string)" where
  "ready_ServeHTTP cs =
     (let (results, criticalFailed) = fold finish_check cs (Map.empty, False) in
      (if criticalFailed then 503 else 200, \<not> criticalFailed, results))"

lemma fold_finish_failed:
  "snd (fold finish_check cs rf) \<longleftrightarrow> snd rf \<or> (\<exists>c\<in>set cs. rc_Critical c \<and> rc_Check c \<noteq> None)"
  by (induction cs arbitrary: rf) (auto simp: finish_check_def split: prod.splits option.splits)

lemma ready_status:
  "fst (ready_ServeHTTP cs) = (if \<exists>c\<in>set cs. rc_Critical c \<and> rc_Check c \<noteq> None then 503 else 200)"
  using fold_finish_failed [of cs "(Map.empty, False)"] by (auto simp: ready_ServeHTTP_def split: prod.splits)

lemma finish_commute:
  "rc_Name c \<noteq> rc_Name c' \<Longrightarrow> finish_check c (finish_check c' rf) = finish_check c' (finish_check c rf)"
  by (auto simp: finish_check_def fun_upd_twist split: prod.splits option.splits)

text \<open>With distinct names the answer does not depend on the order in which the checks finish.\<close>

lemma ready_order:
  assumes "mset cs = mset cs'" "distinct (map rc_Name cs)"
  shows "ready_ServeHTTP cs = ready_ServeHTTP cs'"
proof -
  have "fold finish_check cs = fold finish_check cs'"
  proof (rule fold_multiset_equiv [OF _ assms(1)])
    fix x y assume "x \<in> set cs" "y \<in> set cs"
    with assms(2) have "x = y \<or> rc_Name x \<noteq> rc_Name y" by (auto simp: distinct_map inj_on_def)
    then show "finish_check x \<circ> finish_check y = finish_check y \<circ> finish_check x"
      by (auto simp: fun_eq_iff finish_commute)
  qed
  then show ?thesis by (simp add: ready_ServeHTTP_def)
qed

section \<open>Routing\<close>

definition routed :: "(string \<rightharpoonup> string) \<Rightarrow> string \<Rightarrow> string \<Rightarrow> bool" where
  "routed routes path pfx \<longleftrightarrow> pfx \<in> dom routes \<and> prefix pfx path \<and> pfx \<noteq> []"

lemma prefix_same_length: "prefix a p \<Longrightarrow> prefix b p \<Longrightarrow> length a = length b \<Longrightarrow> a = b"
  by (metis append_eq_append_conv prefix_def)

lemma match_loop_spec:
  assumes "best = (0, [], []) \<or> (\<exists>b. best = (length b, the (routes b), b) \<and> routed routes path b)"
  shows "match_loop ks routes path best = (0, [], []) \<and> best = (0, [], []) \<and> (\<forall>k\<in>set ks. \<not> routed routes path k) \<or>
    (\<exists>b. match_loop ks routes path best = (length b, the (routes b), b) \<and> routed routes path b \<and>
       fst best \<le> length b \<and> (\<forall>k\<in>set ks. routed routes path k \<longrightarrow> length k \<le> length b))"
  using assms
proof (induction ks arbitrary: best)
  case (Cons k ks)
  show ?case
  proof (cases "routed routes path k \<and> length k > fst best")
    case True
    then obtain url where u: "routes k = Some url" "prefix k path" by (auto simp: routed_def)
    from Cons.IH [of "(length k, url, k)"] True u show ?thesis by (auto simp: routed_def)
  next
    case False
    then have "match_loop (k # ks) routes path best = match_loop ks routes path best"
      by (auto simp: routed_def split: option.splits)
    moreover have "routed routes path k \<longrightarrow> length k \<le> fst best" using False by auto
    moreover have "routed routes path k \<longrightarrow> 0 < length k" by (simp add: routed_def)
    ultimately show ?thesis using Cons.IH [OF Cons.prems] by (auto intro: order.trans)
  qed
qed auto

lemma matchRoute_longest:
  assumes "range_of ks routes"
  shows "matchRoute ks routes path = ([], []) \<and> (\<forall>k. \<not> routed routes path k) \<or>
    (\<exists>b. matchRoute ks routes path = (the (routes b), b) \<and> routed routes path b \<and>
       (\<forall>k. routed routes path k \<longrightarrow> length k \<le> length b))"
proof -
  have "k \<in> set ks" if "routed routes path k" for k using that assms by (simp add: routed_def range_of_def)
  with match_loop_spec [of "(0, [], [])" routes path ks] show ?thesis by (auto simp: matchRoute_def)
qed

lemma matchRoute_order:
  assumes "range_of ks routes" "range_of ks' routes"
  shows "matchRoute ks routes path = matchRoute ks' routes path"
  using matchRoute_longest [OF assms(1), of path] matchRoute_longest [OF assms(2), of path]
  by (metis le_antisym prefix_same_length routed_def)

end
