(* ===== verification/Bff_System.thy ===== *)
theory Bff_System
  imports Bff_Http
begin

text \<open>
  What the backend for the front ends promises: who reaches the API, and the life of a
  session on every store that keeps the contract \<open>session_store\<close>.
\<close>

section \<open>The API and the life of a session\<close>

text \<open>A request the two middlewares let through, with the session it carries.\<close>

definition admitted :: "(time \<Rightarrow> 's \<Rightarrow> ident \<Rightarrow> Data option) \<Rightarrow> time \<Rightarrow> request \<Rightarrow> 's \<Rightarrow> Data \<Rightarrow> bool" where
  "admitted stored now r s d \<longleftrightarrow>
     (isSafeMethod (rq_Method r) \<or> header_Get (rq_Headers r) ''X-CSRF-Token'' \<noteq> [] \<and>
        rq_Cookies r ''gpass_csrf'' = Some (header_Get (rq_Headers r) ''X-CSRF-Token'')) \<and>
     (\<exists>sid. rq_Cookies r ''gpass_session'' = Some sid \<and> stored now s sid = Some d) \<and>
     (is_zero_time (sd_ExpiresAt d) \<or> now \<le> sd_ExpiresAt d)"

context session_store begin

lemma get_cases: "se_Get (S e) i s = (case stored (en_now e) s i of Some d \<Rightarrow> Inr d | None \<Rightarrow> Inl (projl (se_Get (S e) i s)))"
  using get_iff [of e i s] by (cases "se_Get (S e) i s") (auto split: option.splits)

lemma delete_shrinks: "stored t (snd (se_Delete (S e) i s)) j = Some d \<Longrightarrow> stored t s j = Some d"
  using delete_ok [of i t e s j] delete_invalid [of i t e s j] by (cases "ValidateID i") (auto split: if_splits)

lemma RequireSession_cases:
  "(\<exists>sid d. rq_Cookies r ''gpass_session'' = Some sid \<and> stored (en_now e) s sid = Some d \<and>
      (is_zero_time (sd_ExpiresAt d) \<or> en_now e \<le> sd_ExpiresAt d) \<and>
      RequireSession (S e) (en_now e) next r ctx s = next r (Some d) s) \<or>
   (\<exists>c m s'. RequireSession (S e) (en_now e) next r ctx s = (HTTPError 401 c m, s') \<and>
      (\<forall>t i d. stored t s' i = Some d \<longrightarrow> stored t s i = Some d))"
proof (cases "rq_Cookies r ''gpass_session''")
  case (Some sid)
  show ?thesis
  proof (cases "se_Get (S e) sid s")
    case (Inr d)
    with get_iff [of e sid s d] Some delete_shrinks [of _ e sid s] show ?thesis
      by (cases "\<not> is_zero_time (sd_ExpiresAt d) \<and> en_now e > sd_ExpiresAt d")
        (auto simp: RequireSession_def)
  qed (use Some in \<open>auto simp: RequireSession_def\<close>)
qed (auto simp: RequireSession_def)

lemma RequireSession_admits:
  assumes "rq_Cookies r ''gpass_session'' = Some sid" "stored (en_now e) s sid = Some d"
    "is_zero_time (sd_ExpiresAt d) \<or> en_now e \<le> sd_ExpiresAt d"
  shows "RequireSession (S e) (en_now e) next r ctx s = next r (Some d) s"
  using assms get_iff [of e sid s d] by (auto simp: RequireSession_def)

lemma RequireSession_refuses:
  assumes "\<And>d sid. rq_Cookies r ''gpass_session'' = Some sid \<Longrightarrow> stored (en_now e) s sid = Some d \<Longrightarrow>
     \<not> is_zero_time (sd_ExpiresAt d) \<and> sd_ExpiresAt d < en_now e"
  shows "\<exists>c m s'. RequireSession (S e) (en_now e) next r ctx s = (HTTPError 401 c m, s')"
proof (cases "rq_Cookies r ''gpass_session''")
  case (Some sid)
  show ?thesis
  proof (cases "se_Get (S e) sid s")
    case (Inr d)
    then have "stored (en_now e) s sid = Some d" by (simp add: get_iff)
    from assms [OF Some this] Some Inr show ?thesis by (simp add: RequireSession_def)
  qed (use Some in \<open>simp add: RequireSession_def\<close>)
qed (simp add: RequireSession_def)

lemma Callback_opens:
  assumes "Callback cfg (S e) (en_now e) rnd r s = Some (Redirected url cs, s')" "rq_Query r ''error'' = []"
  shows "\<exists>token sid. rq_Cookies r ''gpass_state'' = Some (rq_Query r ''state'') \<and> rq_Query r ''state'' \<noteq> [] \<and>
    cs = [site_cookie cfg ''gpass_session'' sid 1800 True, site_cookie cfg ''gpass_csrf'' token 1800 False] @ clearAuthCookies \<and>
    se_Create (S e) (callback_session (en_now e) token r) sessionTTL s = (Inr sid, s')"
  using assms
  by (auto simp: Callback_def Let_def split: if_splits option.splits sum.splits prod.splits)

end

text \<open>
  C21. Who reaches the API: a request passes \<open>CSRF\<close> and \<open>RequireSession\<close>, with its session in the context,
  exactly when its method is safe or it repeats a non-empty CSRF cookie in its header, and its session
  cookie names a stored session that has not expired; every other request is answered 401 or 403, and
  the store holds no session afterwards that it did not hold before.
\<close>

theorem api_guarded:
  assumes "session_store S stored"
  shows "if \<exists>d. admitted stored (en_now e) r s d
     then \<exists>d. admitted stored (en_now e) r s d \<and> api_chain (S e) (en_now e) mux r ctx s = mux r (Some d) s
     else \<exists>st c m s'. api_chain (S e) (en_now e) mux r ctx s = (HTTPError st c m, s') \<and> st \<in> {401, 403} \<and>
       (\<forall>t i d. stored t s' i = Some d \<longrightarrow> stored t s i = Some d)"
proof -
  let ?tok = "header_Get (rq_Headers r) ''X-CSRF-Token''"
  define pass where "pass \<longleftrightarrow> isSafeMethod (rq_Method r) \<or> ?tok \<noteq> [] \<and> rq_Cookies r ''gpass_csrf'' = Some ?tok"
  have c: "api_chain (S e) (en_now e) mux r ctx s =
      (if pass then RequireSession (S e) (en_now e) mux r ctx s else api_chain (S e) (en_now e) mux r ctx s)"
    by (auto simp: api_chain_def CSRF_def pass_def Let_def)
  have no: "\<not> pass \<Longrightarrow> \<exists>c m. api_chain (S e) (en_now e) mux r ctx s = (HTTPError 403 c m, s)"
    by (auto simp: api_chain_def CSRF_def pass_def Let_def split: option.splits)
  show ?thesis
  proof (cases pass)
    case False
    then show ?thesis using no by (auto simp: admitted_def pass_def)
  next
    case True
    then have adm: "admitted stored (en_now e) r s d \<longleftrightarrow> (\<exists>sid. rq_Cookies r ''gpass_session'' = Some sid \<and>
        stored (en_now e) s sid = Some d) \<and> (is_zero_time (sd_ExpiresAt d) \<or> en_now e \<le> sd_ExpiresAt d)" for d
      by (simp add: admitted_def pass_def)
    have api: "api_chain (S e) (en_now e) mux r ctx s = RequireSession (S e) (en_now e) mux r ctx s"
      using c True by simp
    show ?thesis
    proof (cases "\<exists>d. admitted stored (en_now e) r s d")
      case True
      then obtain d sid where d: "admitted stored (en_now e) r s d" "rq_Cookies r ''gpass_session'' = Some sid"
        "stored (en_now e) s sid = Some d" "is_zero_time (sd_ExpiresAt d) \<or> en_now e \<le> sd_ExpiresAt d"
        using adm by blast
      with session_store.RequireSession_admits [OF assms d(2-4), of mux ctx] api True show ?thesis by auto
    next
      case False
      with session_store.RequireSession_cases [OF assms, of r e s mux ctx] adm api show ?thesis by auto
    qed
  qed
qed

text \<open>A session of the in-memory store reaches the API, and the same request without its CSRF header does not.\<close>

definition example_sid :: ident where
  "example_sid = replicate 64 (CHR ''a'')"

definition example_request :: "string \<Rightarrow> request" where
  "example_request tok = \<lparr>rq_Method = ''POST'', rq_Path = ''/api/v1/sign'', rq_RawQuery = [], rq_Query = (\<lambda>_. []),
     rq_Headers = [''X-Csrf-Token'' \<mapsto> [tok]],
     rq_Cookies = [''gpass_csrf'' \<mapsto> ''tok'', ''gpass_session'' \<mapsto> example_sid],
     rq_RemoteAddr = ''10.0.0.1:80'', rq_UserAgent = []\<rparr>"

lemma example_sid_valid: "ValidateID example_sid = None"
  by (simp add: example_sid_def ValidateID_def list_all_iff hex_char_def byte_def)

theorem api_guarded_witness:
  "(\<exists>d. api_chain (mem_store \<lparr>en_now = 7, en_rnd = None, en_nonce = None\<rparr>) 7 (\<lambda>r d s. (Served [], s))
      (example_request ''tok'') None [example_sid \<mapsto> d] = (Served [], [example_sid \<mapsto> d])) \<and>
   (\<forall>d. \<exists>c m s'. api_chain (mem_store \<lparr>en_now = 7, en_rnd = None, en_nonce = None\<rparr>) 7 (\<lambda>r d s. (Served [], s))
      (example_request ''x'') None [example_sid \<mapsto> d] \<in> {(HTTPError 401 c m, s'), (HTTPError 403 c m, s')})"
proof -
  let ?e = "\<lparr>en_now = 7, en_rnd = None, en_nonce = None\<rparr>"
  note G = api_guarded [OF mem_sessions.session_store_axioms, of ?e _ _ "\<lambda>r d s. (Served [], s)" None, simplified]
  define d where "d = callback_session 5 ''tok'' (example_request ''tok'')"
  have "CanonicalHeaderKey ''X-CSRF-Token'' = ''X-Csrf-Token''" by code_simp
  then have hdr: "header_Get (rq_Headers (example_request tok)) ''X-CSRF-Token'' = tok" for tok
    by (simp add: example_request_def header_Get_def)
  have "admitted mem_stored 7 (example_request ''tok'') [example_sid \<mapsto> d] d"
    using hdr [of "''tok''"] example_sid_valid
    by (simp add: admitted_def mem_stored_def example_request_def d_def callback_session_def sessionTTL_def is_zero_time_def zero_time_def)
  then have 1: "\<exists>d. admitted mem_stored 7 (example_request ''tok'') [example_sid \<mapsto> d] d" for d' by blast
  have 2: "\<not> admitted mem_stored 7 (example_request ''x'') s d" for s d
    using hdr [of "''x''"] by (simp add: admitted_def isSafeMethod_def example_request_def)
  from \<open>admitted mem_stored 7 (example_request ''tok'') [example_sid \<mapsto> d] d\<close>
    G [of "example_request ''tok''" "[example_sid \<mapsto> d]"]
  have "\<exists>d. api_chain (mem_store ?e) 7 (\<lambda>r d s. (Served [], s)) (example_request ''tok'') None [example_sid \<mapsto> d] =
      (Served [], [example_sid \<mapsto> d])" by (auto split: if_splits)
  moreover have "\<forall>d. \<exists>c m s'. api_chain (mem_store ?e) 7 (\<lambda>r d s. (Served [], s)) (example_request ''x'') None
      [example_sid \<mapsto> d] \<in> {(HTTPError 401 c m, s'), (HTTPError 403 c m, s')}"
  proof
    fix d :: Data
    from 2 G [of "example_request ''x''" "[example_sid \<mapsto> d]"] show "\<exists>c m s'. api_chain (mem_store ?e) 7
      (\<lambda>r d s. (Served [], s)) (example_request ''x'') None [example_sid \<mapsto> d] \<in> {(HTTPError 401 c m, s'), (HTTPError 403 c m, s')}"
      by auto
  qed
  ultimately show ?thesis by blast
qed

section \<open>The life of a session\<close>

text \<open>
  What happens at the store between two requests, seen from the session \<open>sid\<close>: logins that draw other
  identifiers, calls of the API, and logouts of other sessions; \<open>T\<close> bounds the clock.
\<close>

inductive bff_step :: "AuthConfig \<Rightarrow> (senv \<Rightarrow> 's Store) \<Rightarrow> ident \<Rightarrow> time option \<Rightarrow> 's \<Rightarrow> 's \<Rightarrow> bool"
  for cfg S sid T where
  login: "senv_ok e \<Longrightarrow> session_generateID (en_rnd e) \<noteq> Some sid \<Longrightarrow>
    Callback cfg (S e) (en_now e) rnd r s = Some (a, s') \<Longrightarrow> bff_step cfg S sid T s s'"
| logout: "rq_Cookies r ''gpass_session'' \<noteq> Some sid \<or> T = None \<Longrightarrow> Logout cfg (S e) r s = (a, s') \<Longrightarrow>
    bff_step cfg S sid T s s'"
| api: "(\<And>t. T = Some t \<Longrightarrow> en_now e \<le> t) \<Longrightarrow>
    api_chain (S e) (en_now e) (\<lambda>r d s. (f r d, s)) r ctx s = (a, s') \<Longrightarrow> bff_step cfg S sid T s s'"

text \<open>\<open>T = None\<close>: no bound on the clock, and logouts of the session itself count as well.\<close>

abbreviation bff_run :: "AuthConfig \<Rightarrow> (senv \<Rightarrow> 's Store) \<Rightarrow> ident \<Rightarrow> time option \<Rightarrow> 's \<Rightarrow> 's \<Rightarrow> bool" where
  "bff_run cfg S sid T \<equiv> (bff_step cfg S sid T)\<^sup>*\<^sup>*"

context session_store begin

lemma callback_frame:
  assumes "senv_ok e" "session_generateID (en_rnd e) \<noteq> Some sid"
    "Callback cfg (S e) (en_now e) rnd r s = Some (a, s')"
  shows "stored t s' sid = stored t s sid"
proof -
  have "s' = s \<or> (\<exists>d x. se_Create (S e) d sessionTTL s = (x, s'))"
    using assms(3) by (auto simp: Callback_def Let_def split: if_splits option.splits sum.splits prod.splits)
  moreover have "stored t s' sid = stored t s sid" if "se_Create (S e) d sessionTTL s = (x, s')" for d x
  proof (cases x)
    case (Inl err)
    with that create_fails show ?thesis by blast
  next
    case (Inr i)
    with create_ok [OF assms(1), of d sessionTTL s i s'] that assms(2) show ?thesis by (metis singletonD)
  qed
  ultimately show ?thesis by blast
qed

lemma delete_frame: "j \<noteq> sid \<Longrightarrow> stored t (snd (se_Delete (S e) j s)) sid = stored t s sid"
  using delete_ok [of j t e s sid] delete_invalid [of j t e s sid] by (cases "ValidateID j") auto

lemma step_shrinks:
  "bff_step cfg S sid T s s' \<Longrightarrow> stored t s' sid = None \<or> stored t s' sid = stored t s sid"
proof (induction rule: bff_step.induct)
  case (login e rnd r s a s')
  then show ?case by (simp add: callback_frame)
next
  case (logout r e s a s')
  then show ?case using delete_shrinks [of t e _ s sid]
    by (cases "stored t s' sid") (auto simp: Logout_def Let_def split: option.splits if_splits)
next
  case (api e f r ctx s a s')
  then have "s' = s \<or> (\<exists>j. s' = snd (se_Delete (S e) j s))"
    by (auto simp: api_chain_def CSRF_def RequireSession_def Let_def split: if_splits option.splits sum.splits)
  then show ?case using delete_shrinks [of t e _ s sid] by (cases "stored t s' sid") auto
qed

lemma step_keeps:
  "bff_step cfg S sid (Some T) s s' \<Longrightarrow> sd_ExpiresAt d = T \<Longrightarrow> (\<And>t. t < T \<Longrightarrow> stored t s sid = Some d) \<Longrightarrow>
    (\<And>t. stored t s sid \<in> {None, Some d}) \<Longrightarrow> t < T \<Longrightarrow> stored t s' sid = Some d"
proof (induction rule: bff_step.induct)
  case (login e rnd r s a s')
  then show ?case by (simp add: callback_frame)
next
  case (logout r e s a s')
  then show ?case by (auto simp: Logout_def Let_def delete_frame split: option.splits if_splits)
next
  case (api e f r ctx s a s')
  have "s' = s \<or> (\<exists>j d'. stored (en_now e) s j = Some d' \<and> sd_ExpiresAt d' < en_now e \<and> s' = snd (se_Delete (S e) j s))"
    using api.hyps get_iff
    by (auto simp: api_chain_def CSRF_def RequireSession_def Let_def split: if_splits option.splits sum.splits)
  moreover have "j \<noteq> sid" if "stored (en_now e) s j = Some d'" "sd_ExpiresAt d' < en_now e" for j d'
    using that api.prems(3) [of "en_now e"] api.prems(1) api.hyps(1) [OF refl] by auto
  ultimately show ?case using api.prems by (auto simp: delete_frame)
qed

lemma run_shrinks:
  "bff_run cfg S sid T s s' \<Longrightarrow> stored t s' sid = None \<or> stored t s' sid = stored t s sid"
  by (induction rule: rtranclp_induct) (use step_shrinks in \<open>blast intro: trans\<close>)+

lemma run_keeps:
  assumes "bff_run cfg S sid (Some T) s s'" "sd_ExpiresAt d = T" "\<And>t. t < T \<Longrightarrow> stored t s sid = Some d"
    "\<And>t. stored t s sid \<in> {None, Some d}"
  shows "(\<forall>t<T. stored t s' sid = Some d) \<and> (\<forall>t. stored t s' sid \<in> {None, Some d})"
  using assms(1)
proof (induction rule: rtranclp_induct)
  case (step y z)
  then have "\<forall>t<T. stored t z sid = Some d" using step_keeps [OF step.hyps(2) assms(2)] by blast
  moreover have "stored t z sid \<in> {None, Some d}" for t
    using step_shrinks [OF step.hyps(2), of t] step.IH by (metis insertCI)
  ultimately show ?case by blast
qed (use assms in blast)

end

text \<open>
  C22. The life of a session: an accepted callback carries the state the browser's cookie recorded and
  opens a session whose cookie it sets; a request with that cookie passes \<open>RequireSession\<close> until the 30
  minutes are over, whatever else is logged in, logged out or called meanwhile; later, and after a logout
  with that cookie, it is answered 401 for good.
\<close>

theorem session_lifecycle:
  assumes "session_store S stored" "senv_ok e" "0 \<le> en_now e" "rq_Query r ''error'' = []"
    "Callback cfg (S e) (en_now e) rnd r s = Some (Redirected url cs, s1)"
  shows "\<exists>token sid. rq_Cookies r ''gpass_state'' = Some (rq_Query r ''state'') \<and> rq_Query r ''state'' \<noteq> [] \<and>
    cs = [site_cookie cfg ''gpass_session'' sid 1800 True, site_cookie cfg ''gpass_csrf'' token 1800 False] @ clearAuthCookies \<and>
    (\<forall>(r' :: request) (e' :: senv) ctx next s2. rq_Cookies r' ''gpass_session'' = Some sid \<longrightarrow>
      (bff_run cfg S sid (Some (en_now e + sessionTTL)) s1 s2 \<and> en_now e' < en_now e + sessionTTL \<longrightarrow>
        RequireSession (S e') (en_now e') next r' ctx s2 =
          next r' (Some (with_created (en_now e) (callback_session (en_now e) token r))) s2) \<and>
      (bff_run cfg S sid None s1 s2 \<and> en_now e + sessionTTL < en_now e' \<longrightarrow>
        (\<exists>c m s3. RequireSession (S e') (en_now e') next r' ctx s2 = (HTTPError 401 c m, s3))) \<and>
      (\<forall>s3 (e3 :: senv). bff_run cfg S sid None s1 s2 \<and> bff_run cfg S sid None (snd (Logout cfg (S e') r' s2)) s3 \<longrightarrow>
        (\<exists>c m s4. RequireSession (S e3) (en_now e3) next r' ctx s3 = (HTTPError 401 c m, s4))))"
proof -
  note L = session_store.Callback_opens [OF assms(1) assms(5,4)] session_store.create_ok [OF assms(1,2)]
    session_store.create_lives [OF assms(1,2)]
  from L(1) obtain token sid where o: "rq_Cookies r ''gpass_state'' = Some (rq_Query r ''state'')" "rq_Query r ''state'' \<noteq> []"
    "cs = [site_cookie cfg ''gpass_session'' sid 1800 True, site_cookie cfg ''gpass_csrf'' token 1800 False] @ clearAuthCookies"
    "se_Create (S e) (callback_session (en_now e) token r) sessionTTL s = (Inr sid, s1)" by blast
  define d where "d = with_created (en_now e) (callback_session (en_now e) token r)"
  have exp: "sd_ExpiresAt d = en_now e + sessionTTL" "\<not> is_zero_time (sd_ExpiresAt d)"
    using assms(3) by (simp_all add: d_def with_created_def callback_session_def sessionTTL_def is_zero_time_def zero_time_def)
  have live: "t < en_now e + sessionTTL \<Longrightarrow> stored t s1 sid = Some d" for t using L(3) [OF o(4)] by (simp add: d_def)
  have only: "stored t s1 sid \<in> {None, Some d}" for t using L(2) [OF o(4)] by (metis d_def)
  have valid: "ValidateID sid = None"
    using live [of "en_now e"] session_store.stored_valid [OF assms(1)] by (simp add: sessionTTL_def)
  have fades: "stored t s2 sid \<in> {None, Some d}" if "bff_run cfg S sid None s1 s2" for t s2
    using session_store.run_shrinks [OF assms(1) that, of t] only [of t] by auto
  show ?thesis
  proof (rule exI [of _ token], rule exI [of _ sid], intro conjI allI impI)
    fix r' :: request and e' :: senv and ctx "next" s2 assume c: "rq_Cookies r' ''gpass_session'' = Some sid"
    { assume "bff_run cfg S sid (Some (en_now e + sessionTTL)) s1 s2 \<and> en_now e' < en_now e + sessionTTL"
      with session_store.run_keeps [OF assms(1) _ exp(1) live only] have "stored (en_now e') s2 sid = Some d" "en_now e' \<le> sd_ExpiresAt d"
        by (auto simp: exp)
      then show "RequireSession (S e') (en_now e') next r' ctx s2 =
          next r' (Some (with_created (en_now e) (callback_session (en_now e) token r))) s2"
        using session_store.RequireSession_admits [OF assms(1) c] by (simp add: d_def) }
    { assume run: "bff_run cfg S sid None s1 s2 \<and> en_now e + sessionTTL < en_now e'"
      show "\<exists>c m s3. RequireSession (S e') (en_now e') next r' ctx s2 = (HTTPError 401 c m, s3)"
      proof (rule session_store.RequireSession_refuses [OF assms(1)])
        fix d' sid' assume "rq_Cookies r' ''gpass_session'' = Some sid'" "stored (en_now e') s2 sid' = Some d'"
        with c fades [OF conjunct1 [OF run], of "en_now e'"] have "d' = d" by auto
        with exp run show "\<not> is_zero_time (sd_ExpiresAt d') \<and> sd_ExpiresAt d' < en_now e'" by simp
      qed }
    { fix s3 and e3 :: senv assume run: "bff_run cfg S sid None s1 s2 \<and> bff_run cfg S sid None (snd (Logout cfg (S e') r' s2)) s3"
      have "sid \<noteq> []" using valid by (auto simp: ValidateID_def)
      then have "stored t (snd (Logout cfg (S e') r' s2)) sid = None" for t
        using c session_store.delete_ok [OF assms(1) valid] by (simp add: Logout_def)
      then have "stored t s3 sid = None" for t using session_store.run_shrinks [OF assms(1) conjunct2 [OF run], of t] by auto
      then show "\<exists>c m s4. RequireSession (S e3) (en_now e3) next r' ctx s3 = (HTTPError 401 c m, s4)"
        by (intro session_store.RequireSession_refuses [OF assms(1)]) (use c in auto) }
  qed (use o in auto)
qed

definition example_login :: request where
  "example_login = \<lparr>rq_Method = ''GET'', rq_Path = ''/auth/callback'', rq_RawQuery = [],
     rq_Query = (\<lambda>k. if k = ''code'' then ''c'' else if k = ''state'' then ''abc'' else []),
     rq_Headers = Map.empty, rq_Cookies = [''gpass_state'' \<mapsto> ''abc''], rq_RemoteAddr = ''10.0.0.1:80'', rq_UserAgent = []\<rparr>"

definition example_config :: AuthConfig where
  "example_config = \<lparr>af_IssuerURL = ''https://id'', af_ClientID = ''bff'', af_RedirectURI = ''https://app/auth/callback'',
     af_FrontendURL = ''https://app'', af_CookieDomain = [], af_SecureCookie = True\<rparr>"

theorem session_lifecycle_witness:
  "\<exists>url token sid s1. Callback example_config (mem_store \<lparr>en_now = 5, en_rnd = Some (replicate 32 (CHR ''q'')), en_nonce = None\<rparr>) 5
      (Some (replicate 16 (CHR ''z''))) example_login Map.empty =
    Some (Redirected url ([site_cookie example_config ''gpass_session'' sid 1800 True,
      site_cookie example_config ''gpass_csrf'' token 1800 False] @ clearAuthCookies), s1) \<and>
    (\<forall>e'. en_now e' < 1800 * second \<longrightarrow>
      (\<exists>d. fst (RequireSession (mem_store e') (en_now e') (\<lambda>r d s. (SessionInfo True (sd_UserID (the d)) [], s))
        (example_login\<lparr>rq_Cookies := [''gpass_session'' \<mapsto> sid]\<rparr>) None s1) = SessionInfo True ''stub-user'' []))"
proof -
  let ?e = "\<lparr>en_now = 5, en_rnd = Some (replicate 32 (CHR ''q'')), en_nonce = None\<rparr>"
  have q: "rq_Query example_login ''error'' = []" "rq_Query example_login ''code'' = ''c''" "rq_Query example_login ''state'' = ''abc''"
    "rq_Cookies example_login ''gpass_state'' = Some ''abc''" by (simp_all add: example_login_def)
  obtain url cs s1 where C: "Callback example_config (mem_store ?e) (en_now ?e) (Some (replicate 16 (CHR ''z''))) example_login
      Map.empty = Some (Redirected url cs, s1)"
    by (simp add: Callback_def q randomString_def mem_store_def InMemoryStore_def ms_Create_def session_generateID_def Let_def)
  have "senv_ok ?e" by (simp add: senv_ok_def)
  from session_lifecycle [OF mem_sessions.session_store_axioms this _ q(1) C] obtain token sid where
    T: "cs = [site_cookie example_config ''gpass_session'' sid 1800 True,
      site_cookie example_config ''gpass_csrf'' token 1800 False] @ clearAuthCookies"
    "\<And>r' (e' :: senv) ctx next s2. rq_Cookies r' ''gpass_session'' = Some sid \<Longrightarrow>
       bff_run example_config mem_store sid (Some (en_now ?e + sessionTTL)) s1 s2 \<Longrightarrow> en_now e' < en_now ?e + sessionTTL \<Longrightarrow>
       RequireSession (mem_store e') (en_now e') next r' ctx s2 =
         next r' (Some (with_created (en_now ?e) (callback_session (en_now ?e) token example_login))) s2"
    by auto
  have "fst (RequireSession (mem_store e') (en_now e') (\<lambda>r d s. (SessionInfo True (sd_UserID (the d)) [], s))
      (example_login\<lparr>rq_Cookies := [''gpass_session'' \<mapsto> sid]\<rparr>) None s1) = SessionInfo True ''stub-user'' []"
    if "en_now e' < 1800 * second" for e' :: senv
    using T(2) [of "example_login\<lparr>rq_Cookies := [''gpass_session'' \<mapsto> sid]\<rparr>" s1 e'] that
    by (simp add: sessionTTL_def with_created_def callback_session_def)
  with C T(1) show ?thesis by auto
qed

end
