(* ===== verification/Notify.thy ===== *)
theory Notify
  imports GP_Text "HOL-Library.Sublist"
begin

text \<open>
  The notification service (\<open>services/garudanotify\<close>): the two senders with their in-memory
  implementations (\<open>channel/email.go\<close>, \<open>channel/sms.go\<close>), the handlers that send one-time passwords,
  alerts and batches (\<open>handler/notify.go\<close>, \<open>handler/batch.go\<close>), the templates
  (\<open>handler/template.go\<close>) and the validators (\<open>handler/validate.go\<close>).
  Error texts that quote their argument (\<open>%q\<close>) are constructors with that argument.
\<close>

section \<open>Senders\<close>

datatype notify_err =
    ErrText string
  | UnsupportedChannel string string
  | UnsupportedType string
  | TemplateNotFound string
  | MissingVariable string string

record EmailMessage =
  em_To :: string
  em_Subject :: string
  em_Body :: string
  em_SentAt :: time

record SMSMessage =
  sm_PhoneNumber :: string
  sm_Message :: string
  sm_SentAt :: time

text \<open>The two interfaces together, as the handler holds them.\<close>

record 's NotifyHandler =
  nh_email :: "string \<Rightarrow> string \<Rightarrow> string \<Rightarrow> 's \<Rightarrow> notify_err option \<times> 's"
  nh_sms :: "string \<Rightarrow> string \<Rightarrow> 's \<Rightarrow> notify_err option \<times> 's"

record MockEmailSender =
  me_Sent :: "EmailMessage list"
  me_FailOnSend :: bool

record MockSMSSender =
  ms_Sent :: "SMSMessage list"
  ms_FailOnSend :: bool

definition email_Send :: "time \<Rightarrow> string \<Rightarrow> string \<Rightarrow> string \<Rightarrow> MockEmailSender \<Rightarrow> notify_err option \<times> MockEmailSender" where
  "email_Send now to subject body m =
     (if me_FailOnSend m then (Some (ErrText ''mock email send failure''), m)
      else if to = [] then (Some (ErrText ''recipient (to) is required''), m)
      else if subject = [] then (Some (ErrText ''subject is required''), m)
      else (None, m\<lparr>me_Sent := me_Sent m @ [\<lparr>em_To = to, em_Subject = subject, em_Body = body, em_SentAt = now\<rparr>]\<rparr>))"

definition sms_Send :: "time \<Rightarrow> string \<Rightarrow> string \<Rightarrow> MockSMSSender \<Rightarrow> notify_err option \<times> MockSMSSender" where
  "sms_Send now phoneNumber message m =
     (if ms_FailOnSend m then (Some (ErrText ''mock SMS send failure''), m)
      else if phoneNumber = [] then (Some (ErrText ''phone number is required''), m)
      else if \<not> prefix ''+62'' phoneNumber
      then (Some (ErrText ''phone number must start with +62 (Indonesian format)''), m)
      else if message = [] then (Some (ErrText ''message is required''), m)
      else (None, m\<lparr>ms_Sent := ms_Sent m @
              [\<lparr>sm_PhoneNumber = phoneNumber, sm_Message = message, sm_SentAt = now\<rparr>]\<rparr>))"

text \<open>The handler as \<open>main.go\<close> builds it; the world is the pair of the two mocks.\<close>

definition mock_handler :: "time \<Rightarrow> (MockEmailSender \<times> MockSMSSender) NotifyHandler" where
  "mock_handler now = \<lparr>
     nh_email = (\<lambda>to subject body (e, p). let (r, e') = email_Send now to subject body e in (r, (e', p))),
     nh_sms = (\<lambda>phone message (e, p). let (r, p') = sms_Send now phone message p in (r, (e, p')))\<rparr>"

section \<open>Handlers\<close>

record otpRequest =
  or_Channel :: string
  or_Recipient :: string
  or_OTPCode :: string

record alertRequest =
  al_Channel :: string
  al_Recipient :: string
  al_Subject :: string
  al_Message :: string

record BatchItemResult =
  br_Index :: nat
  br_Status :: string
  br_Error :: string
  br_Message :: "notify_err option"

record BatchResponse =
  bp_Total :: nat
  bp_Succeeded :: nat
  bp_Failed :: nat
  bp_Results :: "BatchItemResult list"

datatype notify_answer =
    NotifyError nat string notify_err
  | Sent
  | BatchDone BatchResponse

definition otp_subject :: string where
  "otp_subject = ''Your GarudaPass Verification Code''"

definition newline :: char where
  "newline = char_of (10 :: nat)"

definition otp_email_body :: "string \<Rightarrow> string" where
  "otp_email_body code = ''Your verification code is: '' @ code @ [newline, newline] @
     ''This code expires in 5 minutes. Do not share it with anyone.''"

definition otp_sms :: "string \<Rightarrow> string" where
  "otp_sms code = ''GarudaPass: Your verification code is '' @ code @ ''. Valid for 5 minutes.''"

definition SendOTP :: "'s NotifyHandler \<Rightarrow> otpRequest option \<Rightarrow> 's \<Rightarrow> notify_answer \<times> 's" where
  "SendOTP h body s =
     (case body of
        None \<Rightarrow> (NotifyError 400 ''invalid_request'' (ErrText ''Invalid JSON body''), s)
      | Some req \<Rightarrow>
          if or_Channel req = [] then (NotifyError 400 ''missing_channel'' (ErrText ''channel is required''), s)
          else if or_Channel req = ''email''
          then (case nh_email h (or_Recipient req) otp_subject (otp_email_body (or_OTPCode req)) s of
                  (Some e, s') \<Rightarrow> (NotifyError 500 ''send_failed'' (ErrText ''Failed to send OTP''), s')
                | (None, s') \<Rightarrow> (Sent, s'))
          else if or_Channel req = ''sms''
          then (case nh_sms h (or_Recipient req) (otp_sms (or_OTPCode req)) s of
                  (Some e, s') \<Rightarrow> (NotifyError 500 ''send_failed'' (ErrText ''Failed to send OTP''), s')
                | (None, s') \<Rightarrow> (Sent, s'))
          else (NotifyError 400 ''invalid_channel'' (UnsupportedChannel (or_Channel req) ''email or sms''), s))"

definition SendAlert :: "'s NotifyHandler \<Rightarrow> alertRequest option \<Rightarrow> 's \<Rightarrow> notify_answer \<times> 's" where
  "SendAlert h body s =
     (case body of
        None \<Rightarrow> (NotifyError 400 ''invalid_request'' (ErrText ''Invalid JSON body''), s)
      | Some req \<Rightarrow>
          if al_Channel req = [] then (NotifyError 400 ''missing_channel'' (ErrText ''channel is required''), s)
          else if al_Channel req = ''email''
          then (case nh_email h (al_Recipient req) (al_Subject req) (al_Message req) s of
                  (Some e, s') \<Rightarrow> (NotifyError 500 ''send_failed'' (ErrText ''Failed to send alert''), s')
                | (None, s') \<Rightarrow> (Sent, s'))
          else (NotifyError 400 ''invalid_channel'' (UnsupportedChannel (al_Channel req) ''email''), s))"

section \<open>Batches\<close>

record BatchItem =
  bi_Type :: string
  bi_Channel :: string
  bi_Recipient :: string
  bi_OTPCode :: string
  bi_Subject :: string
  bi_Message :: string

definition maxBatchSize :: nat where
  "maxBatchSize = 100"

definition sendOTPItem :: "'s NotifyHandler \<Rightarrow> BatchItem \<Rightarrow> 's \<Rightarrow> notify_err option \<times> 's" where
  "sendOTPItem h item s =
     (if bi_Channel item = ''email''
      then nh_email h (bi_Recipient item) otp_subject (otp_email_body (bi_OTPCode item)) s
      else if bi_Channel item = ''sms'' then nh_sms h (bi_Recipient item) (otp_sms (bi_OTPCode item)) s
      else (Some (UnsupportedChannel (bi_Channel item) ''OTP''), s))"

definition sendAlertItem :: "'s NotifyHandler \<Rightarrow> BatchItem \<Rightarrow> 's \<Rightarrow> notify_err option \<times> 's" where
  "sendAlertItem h item s =
     (if bi_Channel item = ''email'' then nh_email h (bi_Recipient item) (bi_Subject item) (bi_Message item) s
      else (Some (UnsupportedChannel (bi_Channel item) ''alerts''), s))"

definition send_outcome :: "nat \<Rightarrow> notify_err option \<Rightarrow> BatchItemResult" where
  "send_outcome i err = (case err of
     Some e \<Rightarrow> \<lparr>br_Index = i, br_Status = ''failed'', br_Error = ''send_failed'', br_Message = Some e\<rparr>
   | None \<Rightarrow> \<lparr>br_Index = i, br_Status = ''sent'', br_Error = [], br_Message = None\<rparr>)"

definition batch_item :: "'s NotifyHandler \<Rightarrow> nat \<Rightarrow> BatchItem \<Rightarrow> 's \<Rightarrow> BatchItemResult \<times> 's" where
  "batch_item h i item s =
     (if bi_Type item = ''otp'' then let (err, s') = sendOTPItem h item s in (send_outcome i err, s')
      else if bi_Type item = ''alert'' then let (err, s') = sendAlertItem h item s in (send_outcome i err, s')
      else (\<lparr>br_Index = i, br_Status = ''failed'', br_Error = ''invalid_type'',
             br_Message = Some (UnsupportedType (bi_Type item))\<rparr>, s))"

fun batch_loop :: "'s NotifyHandler \<Rightarrow> nat \<Rightarrow> BatchItem list \<Rightarrow> BatchResponse \<Rightarrow> 's \<Rightarrow> BatchResponse \<times> 's" where
  "batch_loop h i [] resp s = (resp, s)"
| "batch_loop h i (item # items) resp s =
     (let (r, s') = batch_item h i item s;
          resp' = (if br_Status r = ''sent'' then resp\<lparr>bp_Succeeded := bp_Succeeded resp + 1\<rparr>
                   else resp\<lparr>bp_Failed := bp_Failed resp + 1\<rparr>)
      in batch_loop h (Suc i) items (resp'\<lparr>bp_Results := bp_Results resp @ [r]\<rparr>) s')"

definition SendBatch :: "'s NotifyHandler \<Rightarrow> BatchItem list option \<Rightarrow> 's \<Rightarrow> notify_answer \<times> 's" where
  "SendBatch h body s =
     (case body of
        None \<Rightarrow> (NotifyError 400 ''invalid_request'' (ErrText ''Invalid JSON body''), s)
      | Some items \<Rightarrow>
          if items = [] then (NotifyError 400 ''empty_batch'' (ErrText ''Batch must contain at least one item''), s)
          else if length items > maxBatchSize
          then (NotifyError 400 ''batch_too_large'' (ErrText ''Batch exceeds maximum size of 100 items''), s)
          else let (resp, s') = batch_loop h 0 items
                 \<lparr>bp_Total = length items, bp_Succeeded = 0, bp_Failed = 0, bp_Results = []\<rparr> s
               in (BatchDone resp, s'))"

section \<open>Validators\<close>

definition letter :: "char \<Rightarrow> bool" where
  "letter c \<longleftrightarrow> 65 \<le> byte c \<and> byte c \<le> 90 \<or> 97 \<le> byte c \<and> byte c \<le> 122"

definition local_char :: "char \<Rightarrow> bool" where
  "local_char c \<longleftrightarrow> letter c \<or> is_digit c \<or> c \<in> set ''._%+-''"

definition domain_char :: "char \<Rightarrow> bool" where
  "domain_char c \<longleftrightarrow> letter c \<or> is_digit c \<or> c = CHR ''.'' \<or> c = CHR ''-''"

text \<open>The regular expression: one split at the at sign, and one of the domain at a dot.\<close>

definition emailRegexp :: "string \<Rightarrow> bool" where
  "emailRegexp s \<longleftrightarrow> list_ex (\<lambda>i. s ! i = CHR ''@'' \<and> i > 0 \<and> list_all local_char (take i s) \<and>
     list_ex (\<lambda>j. s ! j = CHR ''.'' \<and> Suc i < j \<and> list_all domain_char (drop (Suc i) (take j s)) \<and>
       length s - Suc j \<ge> 2 \<and> list_all letter (drop (Suc j) s)) [0..<length s]) [0..<length s]"

definition validateEmail :: "string \<Rightarrow> notify_err option" where
  "validateEmail email =
     (if email = [] then Some (ErrText ''email is required'')
      else if \<not> emailRegexp email then Some (ErrText ''invalid email format'') else None)"

definition validatePhone :: "string \<Rightarrow> notify_err option" where
  "validatePhone phone =
     (if phone = [] then Some (ErrText ''phone number is required'')
      else if \<not> prefix ''+62'' phone then Some (ErrText ''phone number must start with +62'')
      else let digits = drop 3 phone in
        if length digits < 9 \<or> length digits > 13 then Some (ErrText ''phone number must have 9-13 digits after +62'')
        else if \<not> list_all is_digit digits
        then Some (ErrText ''phone number must contain only digits after +62'') else None)"

definition validateOTPRequest :: "otpRequest \<Rightarrow> notify_err option" where
  "validateOTPRequest req =
     (if or_Channel req = [] then Some (ErrText ''channel is required'')
      else if or_Recipient req = [] then Some (ErrText ''recipient is required'')
      else if or_OTPCode req = [] then Some (ErrText ''otp_code is required'')
      else if or_Channel req = ''email'' then validateEmail (or_Recipient req)
      else if or_Channel req = ''sms'' then validatePhone (or_Recipient req)
      else Some (ErrText ''channel must be email or sms''))"

definition validateAlertRequest :: "alertRequest \<Rightarrow> notify_err option" where
  "validateAlertRequest req =
     (if al_Channel req = [] then Some (ErrText ''channel is required'')
      else if al_Recipient req = [] then Some (ErrText ''recipient is required'')
      else if al_Subject req = [] then Some (ErrText ''subject is required'')
      else if al_Message req = [] then Some (ErrText ''message is required'')
      else if al_Channel req = ''email'' then validateEmail (al_Recipient req) else None)"

section \<open>Templates\<close>

record Template =
  tm_Name :: string
  tm_SubjectEN :: string
  tm_BodyEN :: string
  tm_SubjectID :: string
  tm_BodyID :: string
  tm_Variables :: "string list"

text \<open>\<open>strings.ReplaceAll\<close>, for an \<open>old\<close> that is not empty (it never is here).\<close>

function ReplaceAll :: "string \<Rightarrow> string \<Rightarrow> string \<Rightarrow> string" where
  "ReplaceAll s old new =
     (if s = [] \<or> old = [] then s
      else if prefix old s then new @ ReplaceAll (drop (length old) s) old new
      else hd s # ReplaceAll (tl s) old new)"
  by pat_completeness auto
termination
  by (relation "measure (\<lambda>(s, old, new). length s)") (auto simp: prefix_def)

declare ReplaceAll.simps [simp del]

definition placeholder :: "string \<Rightarrow> string" where
  "placeholder v = ''{{'' @ v @ ''}}''"

fun render_loop :: "string \<Rightarrow> (string \<rightharpoonup> string) \<Rightarrow> string list \<Rightarrow> string \<times> string \<Rightarrow> notify_err + string \<times> string" where
  "render_loop name data [] sb = Inr sb"
| "render_loop name data (v # vs) sb =
     (case data v of
        None \<Rightarrow> Inl (MissingVariable v name)
      | Some val \<Rightarrow> render_loop name data vs
          (ReplaceAll (fst sb) (placeholder v) val, ReplaceAll (snd sb) (placeholder v) val))"

definition RenderTemplateWithLang ::
  "(string \<rightharpoonup> Template) \<Rightarrow> string \<Rightarrow> string \<Rightarrow> (string \<rightharpoonup> string) \<Rightarrow> notify_err + string \<times> string" where
  "RenderTemplateWithLang ts name lang data =
     (case ts name of
        None \<Rightarrow> Inl (TemplateNotFound name)
      | Some tmpl \<Rightarrow>
          render_loop name data (tm_Variables tmpl)
            (if lang = ''id'' then (tm_SubjectID tmpl, tm_BodyID tmpl) else (tm_SubjectEN tmpl, tm_BodyEN tmpl)))"

definition RenderTemplate :: "(string \<rightharpoonup> Template) \<Rightarrow> string \<Rightarrow> (string \<rightharpoonup> string) \<Rightarrow> notify_err + string \<times> string" where
  "RenderTemplate ts name data = RenderTemplateWithLang ts name ''en'' data"

definition ListTemplates :: "string list \<Rightarrow> (string \<rightharpoonup> Template) \<Rightarrow> Template list" where
  "ListTemplates ks ts = range_vals ks ts"

definition otp_template :: Template where
  "otp_template = \<lparr>tm_Name = ''otp'',
     tm_SubjectEN = ''Your GarudaPass Verification Code'',
     tm_BodyEN = ''Your verification code is: {{code}}. This code expires in {{expiry}} minutes. Do not share it with anyone.'',
     tm_SubjectID = ''Kode Verifikasi GarudaPass Anda'',
     tm_BodyID = ''Kode verifikasi Anda adalah: {{code}}. Kode ini berlaku selama {{expiry}} menit. Jangan bagikan kepada siapa pun.'',
     tm_Variables = [''code'', ''expiry'']\<rparr>"

definition welcome_template :: Template where
  "welcome_template = \<lparr>tm_Name = ''welcome'',
     tm_SubjectEN = ''Welcome to GarudaPass'',
     tm_BodyEN = ''Hello {{name}}, welcome to GarudaPass! Your digital identity account has been created successfully.'',
     tm_SubjectID = ''Selamat Datang di GarudaPass'',
     tm_BodyID = ''Halo {{name}}, selamat datang di GarudaPass! Akun identitas digital Anda telah berhasil dibuat.'',
     tm_Variables = [''name'']\<rparr>"

definition reset_template :: Template where
  "reset_template = \<lparr>tm_Name = ''password_reset'',
     tm_SubjectEN = ''GarudaPass Password Reset'',
     tm_BodyEN = ''Hello {{name}}, use the following link to reset your password: {{link}}. This link expires in {{expiry}} minutes.'',
     tm_SubjectID = ''Reset Kata Sandi GarudaPass'',
     tm_BodyID = ''Halo {{name}}, gunakan tautan berikut untuk mereset kata sandi Anda: {{link}}. Tautan ini berlaku selama {{expiry}} menit.'',
     tm_Variables = [''name'', ''link'', ''expiry'']\<rparr>"

definition alert_template :: Template where
  "alert_template = \<lparr>tm_Name = ''security_alert'',
     tm_SubjectEN = ''GarudaPass Security Alert'',
     tm_BodyEN = ''A {{event}} was detected on your account from {{location}} at {{time}}. If this was not you, please secure your account immediately.'',
     tm_SubjectID = ''Peringatan Keamanan GarudaPass'',
     tm_BodyID = ''Terdeteksi {{event}} pada akun Anda dari {{location}} pada {{time}}. Jika ini bukan Anda, segera amankan akun Anda.'',
     tm_Variables = [''event'', ''location'', ''time'']\<rparr>"

definition consent_template :: Template where
  "consent_template = \<lparr>tm_Name = ''consent_granted'',
     tm_SubjectEN = ''GarudaPass Consent Confirmation'',
     tm_BodyEN = ''You have granted {{service}} access to your {{data_type}} data. This consent is valid until {{expiry}}.'',
     tm_SubjectID = ''Konfirmasi Persetujuan GarudaPass'',
     tm_BodyID = ''Anda telah memberikan {{service}} akses ke data {{data_type}} Anda. Persetujuan ini berlaku hingga {{expiry}}.'',
     tm_Variables = [''service'', ''data_type'', ''expiry'']\<rparr>"

definition deletion_template :: Template where
  "deletion_template = \<lparr>tm_Name = ''data_deletion'',
     tm_SubjectEN = ''GarudaPass Data Deletion Confirmation'',
     tm_BodyEN = ''Your {{data_type}} data has been permanently deleted as requested on {{date}}. Reference ID: {{reference_id}}.'',
     tm_SubjectID = ''Konfirmasi Penghapusan Data GarudaPass'',
     tm_BodyID = ''Data {{data_type}} Anda telah dihapus secara permanen sesuai permintaan pada {{date}}. ID Referensi: {{reference_id}}.'',
     tm_Variables = [''data_type'', ''date'', ''reference_id'']\<rparr>"

definition predefined :: "Template list" where
  "predefined = [otp_template, welcome_template, reset_template, alert_template, consent_template, deletion_template]"

definition NewTemplateStore :: "string \<rightharpoonup> Template" where
  "NewTemplateStore = map_of (map (\<lambda>t. (tm_Name t, t)) predefined)"

section \<open>Rendering as one substitution\<close>

datatype seg = Lit string | Var string

fun flat1 :: "seg \<Rightarrow> string" where
  "flat1 (Lit s) = s"
| "flat1 (Var v) = placeholder v"

definition flat :: "seg list \<Rightarrow> string" where
  "flat xs = concat (map flat1 xs)"

text \<open>The text of a template cut at its placeholders.\<close>

function segs :: "string \<Rightarrow> seg list" where
  "segs s = (case s of
     [] \<Rightarrow> []
   | c # r \<Rightarrow>
       if prefix ''{{'' s
       then let v = takeWhile (\<lambda>c. c \<noteq> CHR ''}'') (drop 2 s) in Var v # segs (drop (length v + 4) s)
       else let l = takeWhile (\<lambda>c. c \<noteq> CHR ''{'') r in Lit (c # l) # segs (drop (length l) r))"
  by pat_completeness auto
termination
  by (relation "measure length") (auto simp: less_Suc_eq_le)

declare segs.simps [simp del]

definition fill :: "(string \<rightharpoonup> string) \<Rightarrow> seg list \<Rightarrow> string" where
  "fill data xs = concat (map (\<lambda>x. case x of Lit s \<Rightarrow> s | Var v \<Rightarrow> the (data v)) xs)"

definition brace_free :: "string \<Rightarrow> bool" where
  "brace_free s \<longleftrightarrow> CHR ''{'' \<notin> set s"

definition seg_ok :: "string list \<Rightarrow> seg \<Rightarrow> bool" where
  "seg_ok vs x = (case x of Lit s \<Rightarrow> brace_free s | Var v \<Rightarrow> brace_free v \<and> CHR ''}'' \<notin> set v \<and> v \<in> set vs)"

definition text_ok :: "string list \<Rightarrow> string \<Rightarrow> bool" where
  "text_ok vs s \<longleftrightarrow> flat (segs s) = s \<and> list_all (seg_ok vs) (segs s)"

definition template_ok :: "Template \<Rightarrow> bool" where
  "template_ok t \<longleftrightarrow> list_all (text_ok (tm_Variables t)) [tm_SubjectEN t, tm_BodyEN t, tm_SubjectID t, tm_BodyID t] \<and>
     list_all (\<lambda>v. brace_free v \<and> CHR ''}'' \<notin> set v) (tm_Variables t)"

lemma predefined_ok: "list_all template_ok predefined"
  by code_simp

definition plug :: "string \<Rightarrow> string \<Rightarrow> seg \<Rightarrow> seg" where
  "plug v val x = (case x of Lit s \<Rightarrow> Lit s | Var w \<Rightarrow> if w = v then Lit val else Var w)"

lemma ReplaceAll_Nil [simp]: "ReplaceAll [] old new = []"
  by (simp add: ReplaceAll.simps)

lemma ReplaceAll_pass:
  "old \<noteq> [] \<Longrightarrow> \<not> prefix old (c # s) \<Longrightarrow> ReplaceAll (c # s) old new = c # ReplaceAll s old new"
  by (subst ReplaceAll.simps) simp

lemma ReplaceAll_hit: "old \<noteq> [] \<Longrightarrow> ReplaceAll (old @ s) old new = new @ ReplaceAll s old new"
  by (subst ReplaceAll.simps) simp

lemma placeholder_nonempty [simp]: "placeholder v \<noteq> []"
  by (simp add: placeholder_def)

lemma ReplaceAll_lit: "brace_free l \<Longrightarrow> ReplaceAll (l @ s) (placeholder v) new = l @ ReplaceAll s (placeholder v) new"
proof (induction l)
  case (Cons c l)
  then have "\<not> prefix (placeholder v) (c # l @ s)" by (simp add: placeholder_def brace_free_def)
  with Cons show ?case by (simp add: ReplaceAll_pass brace_free_def)
qed simp

lemma before_brace: "CHR ''}'' \<notin> set v \<Longrightarrow> takeWhile (\<lambda>c. c \<noteq> CHR ''}'') (v @ CHR ''}'' # s) = v"
  by (induction v) auto

lemma placeholder_other:
  assumes "brace_free v" "CHR ''}'' \<notin> set v" "brace_free w" "CHR ''}'' \<notin> set w"
  shows "prefix (placeholder v) (placeholder w @ s) \<longleftrightarrow> v = w"
proof
  assume "prefix (placeholder v) (placeholder w @ s)"
  then obtain z where "v @ ''}}'' @ z = w @ ''}}'' @ s" by (auto simp: placeholder_def prefix_def)
  then have "takeWhile (\<lambda>c. c \<noteq> CHR ''}'') (v @ CHR ''}'' # ''}'' @ z) =
      takeWhile (\<lambda>c. c \<noteq> CHR ''}'') (w @ CHR ''}'' # ''}'' @ s)" by simp
  then show "v = w" unfolding before_brace [OF assms(2)] before_brace [OF assms(4)] .
qed simp

lemma ReplaceAll_other:
  assumes "brace_free v" "CHR ''}'' \<notin> set v" "brace_free w" "CHR ''}'' \<notin> set w" "w \<noteq> v"
  shows "ReplaceAll (placeholder w @ s) (placeholder v) new = placeholder w @ ReplaceAll s (placeholder v) new"
proof -
  have 1: "\<not> prefix (placeholder v) (placeholder w @ s)" using placeholder_other [OF assms(1-4)] assms(5) by simp
  have 2: "\<not> prefix (placeholder v) (CHR ''{'' # w @ ''}}'' @ s)"
    using assms(3) by (cases w) (auto simp: placeholder_def brace_free_def)
  have "brace_free (w @ ''}}'')" using assms(3) by (simp add: brace_free_def)
  from ReplaceAll_lit [OF this, of s v new] 1 2 show ?thesis
    by (simp add: placeholder_def [of w] ReplaceAll_pass)
qed

lemma ReplaceAll_flat:
  "list_all (seg_ok vs) xs \<Longrightarrow> brace_free v \<Longrightarrow> CHR ''}'' \<notin> set v \<Longrightarrow>
     ReplaceAll (flat xs) (placeholder v) val = flat (map (plug v val) xs)"
proof (induction xs)
  case (Cons x xs)
  then show ?case
    by (cases x) (simp_all add: flat_def plug_def seg_ok_def ReplaceAll_lit ReplaceAll_hit ReplaceAll_other)
qed (simp add: flat_def)

definition filled :: "(string \<rightharpoonup> string) \<Rightarrow> string list \<Rightarrow> seg \<Rightarrow> seg" where
  "filled data vs x = (case x of Lit s \<Rightarrow> Lit s | Var w \<Rightarrow> if w \<in> set vs then Lit (the (data w)) else Var w)"

lemma filled_Cons: "filled data (v # vs) x = filled data vs (plug v (the (data v)) x)"
  by (cases x) (auto simp: filled_def plug_def)

lemma filled_Nil [simp]: "filled data [] = (\<lambda>x. x)"
  by (auto simp: filled_def fun_eq_iff split: seg.splits)

lemma render_loop_filled:
  assumes "\<forall>v\<in>set vs. brace_free v \<and> CHR ''}'' \<notin> set v" "\<forall>v\<in>set vs. \<exists>val. data v = Some val \<and> brace_free val"
    "list_all (seg_ok us) xs" "list_all (seg_ok us) ys"
  shows "render_loop name data vs (flat xs, flat ys) = Inr (flat (map (filled data vs) xs), flat (map (filled data vs) ys))"
  using assms
proof (induction vs arbitrary: xs ys)
  case (Cons v vs)
  then obtain val where val: "data v = Some val" "brace_free val" by auto
  have keep: "list_all (seg_ok us) (map (plug v val) zs)" if "list_all (seg_ok us) zs" for zs
    using that val(2) by (auto simp: list_all_iff plug_def seg_ok_def split: seg.splits)
  have map: "map (filled data (v # vs)) zs = map (filled data vs) (map (plug v val) zs)" for zs
    using val(1) by (simp add: filled_Cons)
  show ?case
    using Cons.IH [OF _ _ keep [OF Cons.prems(3)] keep [OF Cons.prems(4)]] Cons.prems val
    by (simp add: ReplaceAll_flat [where vs = us] map del: map_map)
qed simp

lemma fill_filled: "list_all (seg_ok vs) xs \<Longrightarrow> flat (map (filled data vs) xs) = fill data xs"
  by (induction xs) (auto simp: flat_def fill_def filled_def seg_ok_def split: seg.splits)

lemma render_loop_missing:
  "(\<exists>v\<in>set vs. data v = None) \<Longrightarrow> \<exists>v\<in>set vs. data v = None \<and> render_loop name data vs sb = Inl (MissingVariable v name)"
  by (induction vs arbitrary: sb) (auto split: option.splits)

text \<open>
  Rendering: for every predefined template and language the variable-by-variable \<open>ReplaceAll\<close> of the
  code is one simultaneous substitution that leaves no placeholder, provided no value contains an
  opening brace; without a value for some variable the answer is an error naming such a variable.
\<close>

theorem template_rendering:
  fixes lang :: string
  assumes "NewTemplateStore name = Some t"
  defines "texts \<equiv> (if lang = ''id'' then (tm_SubjectID t, tm_BodyID t) else (tm_SubjectEN t, tm_BodyEN t))"
  shows "if \<exists>v\<in>set (tm_Variables t). data v = None
    then \<exists>v\<in>set (tm_Variables t). data v = None \<and>
      RenderTemplateWithLang NewTemplateStore name lang data = Inl (MissingVariable v name)
    else (\<forall>v\<in>set (tm_Variables t). brace_free (the (data v))) \<longrightarrow>
      RenderTemplateWithLang NewTemplateStore name lang data =
        Inr (fill data (segs (fst texts)), fill data (segs (snd texts))) \<and>
      brace_free (fill data (segs (fst texts))) \<and> brace_free (fill data (segs (snd texts)))"
proof -
  have r: "RenderTemplateWithLang NewTemplateStore name lang data = render_loop name data (tm_Variables t) texts"
    by (simp add: RenderTemplateWithLang_def assms)
  have "t \<in> set predefined" using assms(1) by (auto simp: NewTemplateStore_def dest: map_of_SomeD)
  then have ok: "template_ok t" using predefined_ok by (simp add: list_all_iff)
  then have tx: "text_ok (tm_Variables t) (fst texts)" "text_ok (tm_Variables t) (snd texts)"
    by (auto simp: template_ok_def texts_def)
  have vars: "\<forall>v\<in>set (tm_Variables t). brace_free v \<and> CHR ''}'' \<notin> set v" using ok by (simp add: template_ok_def list_all_iff)
  show ?thesis
  proof (cases "\<exists>v\<in>set (tm_Variables t). data v = None")
    case True
    then show ?thesis using render_loop_missing [OF True, of name texts] r by auto
  next
    case all: False
    show ?thesis
    proof (simp only: all if_False, intro impI)
      assume free: "\<forall>v\<in>set (tm_Variables t). brace_free (the (data v))"
      with all have vals: "\<forall>v\<in>set (tm_Variables t). \<exists>val. data v = Some val \<and> brace_free val" by force
      have segs: "flat (segs (fst texts)) = fst texts" "list_all (seg_ok (tm_Variables t)) (segs (fst texts))"
        "flat (segs (snd texts)) = snd texts" "list_all (seg_ok (tm_Variables t)) (segs (snd texts))"
        using tx by (simp_all add: text_ok_def)
      have free_fill: "brace_free (fill data xs)" if "list_all (seg_ok (tm_Variables t)) xs" for xs
        using that free by (induction xs) (auto simp: fill_def brace_free_def seg_ok_def split: seg.splits)
      from render_loop_filled [OF vars vals segs(2,4), of name] segs fill_filled [OF segs(2)] fill_filled [OF segs(4)]
      show "RenderTemplateWithLang NewTemplateStore name lang data =
            Inr (fill data (segs (fst texts)), fill data (segs (snd texts))) \<and>
          brace_free (fill data (segs (fst texts))) \<and> brace_free (fill data (segs (snd texts)))"
        using free_fill [OF segs(2)] free_fill [OF segs(4)] r by simp
    qed
  qed
qed

theorem template_rendering_witness:
  "RenderTemplateWithLang NewTemplateStore ''welcome'' ''id'' [''name'' \<mapsto> ''Siti''] =
     Inr (''Selamat Datang di GarudaPass'',
       ''Halo Siti, selamat datang di GarudaPass! Akun identitas digital Anda telah berhasil dibuat.'')"
proof -
  have s: "NewTemplateStore ''welcome'' = Some welcome_template" by code_simp
  have v: "tm_Variables welcome_template = [''name'']" by (simp add: welcome_template_def)
  have f: "fill [''name'' \<mapsto> ''Siti''] (segs (tm_SubjectID welcome_template)) = ''Selamat Datang di GarudaPass''"
    "fill [''name'' \<mapsto> ''Siti''] (segs (tm_BodyID welcome_template)) =
       ''Halo Siti, selamat datang di GarudaPass! Akun identitas digital Anda telah berhasil dibuat.''"
    by code_simp+
  from template_rendering [OF s, of "[''name'' \<mapsto> ''Siti'']" "''id''"] show ?thesis
    by (simp add: v f) (simp add: brace_free_def)
qed

text \<open>A value that contains the placeholder of a later variable is itself rewritten.\<close>

lemma value_rewritten:
  "RenderTemplate NewTemplateStore ''password_reset'' (map_of [(''name'', ''{{link}}''), (''link'', ''L''), (''expiry'', ''5'')]) =
     Inr (''GarudaPass Password Reset'',
       ''Hello L, use the following link to reset your password: L. This link expires in 5 minutes.'')"
  by code_simp

section \<open>What a batch sends\<close>

definition mail_of :: "time \<Rightarrow> BatchItem \<Rightarrow> EmailMessage" where
  "mail_of now item =
     (if bi_Type item = ''otp''
      then \<lparr>em_To = bi_Recipient item, em_Subject = otp_subject, em_Body = otp_email_body (bi_OTPCode item), em_SentAt = now\<rparr>
      else \<lparr>em_To = bi_Recipient item, em_Subject = bi_Subject item, em_Body = bi_Message item, em_SentAt = now\<rparr>)"

definition sms_of :: "time \<Rightarrow> BatchItem \<Rightarrow> SMSMessage" where
  "sms_of now item = \<lparr>sm_PhoneNumber = bi_Recipient item, sm_Message = otp_sms (bi_OTPCode item), sm_SentAt = now\<rparr>"

definition status_400 :: "notify_answer \<Rightarrow> bool" where
  "status_400 a \<longleftrightarrow> (\<exists>c m. a = NotifyError 400 c m)"

text \<open>The items of a batch that were reported as sent.\<close>

definition sent_items :: "BatchItem list \<Rightarrow> BatchItemResult list \<Rightarrow> BatchItem list" where
  "sent_items items rs = map fst (filter (\<lambda>(item, r). br_Status r = ''sent'') (zip items rs))"

lemma batch_item_mock:
  assumes "batch_item (mock_handler now) i item (e, p) = (r, (e', p'))"
  shows "br_Index r = i"
    "me_Sent e' = me_Sent e @ (if br_Status r = ''sent'' \<and> bi_Channel item = ''email'' then [mail_of now item] else [])"
    "ms_Sent p' = ms_Sent p @ (if br_Status r = ''sent'' \<and> bi_Channel item \<noteq> ''email'' then [sms_of now item] else [])"
  using assms
  by (auto simp: batch_item_def sendOTPItem_def sendAlertItem_def send_outcome_def mock_handler_def email_Send_def
      sms_Send_def mail_of_def sms_of_def Let_def split: if_splits)

lemma batch_loop_mock:
  assumes "batch_loop (mock_handler now) i items resp (e, p) = (resp', (e', p'))"
  shows "\<exists>rs. bp_Results resp' = bp_Results resp @ rs \<and> length rs = length items \<and>
    map br_Index rs = [i..<i + length items] \<and> bp_Total resp' = bp_Total resp \<and>
    bp_Succeeded resp' = bp_Succeeded resp + length (sent_items items rs) \<and>
    bp_Succeeded resp' + bp_Failed resp' = bp_Succeeded resp + bp_Failed resp + length items \<and>
    me_Sent e' = me_Sent e @ map (mail_of now) (filter (\<lambda>x. bi_Channel x = ''email'') (sent_items items rs)) \<and>
    ms_Sent p' = ms_Sent p @ map (sms_of now) (filter (\<lambda>x. bi_Channel x \<noteq> ''email'') (sent_items items rs))"
  using assms
proof (induction items arbitrary: i resp e p)
  case Nil
  then show ?case by (auto simp: sent_items_def)
next
  case (Cons item items)
  obtain r e1 p1 where b: "batch_item (mock_handler now) i item (e, p) = (r, (e1, p1))" by (metis prod_cases3)
  define resp1 where "resp1 = (if br_Status r = ''sent'' then resp\<lparr>bp_Succeeded := bp_Succeeded resp + 1\<rparr>
     else resp\<lparr>bp_Failed := bp_Failed resp + 1\<rparr>)\<lparr>bp_Results := bp_Results resp @ [r]\<rparr>"
  have "batch_loop (mock_handler now) (Suc i) items resp1 (e1, p1) = (resp', (e', p'))"
    using Cons.prems b by (simp add: Let_def resp1_def)
  from Cons.IH [OF this] obtain rs where rs: "bp_Results resp' = bp_Results resp1 @ rs" "length rs = length items"
    "map br_Index rs = [Suc i..<Suc i + length items]" "bp_Total resp' = bp_Total resp1"
    "bp_Succeeded resp' = bp_Succeeded resp1 + length (sent_items items rs)"
    "bp_Succeeded resp' + bp_Failed resp' = bp_Succeeded resp1 + bp_Failed resp1 + length items"
    "me_Sent e' = me_Sent e1 @ map (mail_of now) (filter (\<lambda>x. bi_Channel x = ''email'') (sent_items items rs))"
    "ms_Sent p' = ms_Sent p1 @ map (sms_of now) (filter (\<lambda>x. bi_Channel x \<noteq> ''email'') (sent_items items rs))" by blast
  have s: "sent_items (item # items) (r # rs) = (if br_Status r = ''sent'' then [item] else []) @ sent_items items rs"
    by (simp add: sent_items_def)
  have up: "[i..<i + length (item # items)] = i # [Suc i..<Suc i + length items]" by (simp add: upt_rec)
  show ?case
    using rs batch_item_mock [OF b] unfolding up
    by (intro exI [of _ "r # rs"]) (auto simp: s resp1_def)
qed

text \<open>
  A batch on the senders of the service: the answer counts every item once, its results are in the
  order of the items, and exactly one message leaves for each item reported as sent, in that order, and
  none for the others; a batch that is empty or larger than 100 sends nothing.
\<close>

theorem batch_accounting:
  assumes "SendBatch (mock_handler now) (Some items) (e, p) = (a, (e', p'))"
  shows "if items = [] \<or> length items > 100 then status_400 a \<and> (e', p') = (e, p)
    else \<exists>resp. a = BatchDone resp \<and> bp_Total resp = length items \<and>
      bp_Succeeded resp + bp_Failed resp = length items \<and> map br_Index (bp_Results resp) = [0..<length items] \<and>
      length (sent_items items (bp_Results resp)) = bp_Succeeded resp \<and>
      me_Sent e' = me_Sent e @ map (mail_of now) (filter (\<lambda>x. bi_Channel x = ''email'') (sent_items items (bp_Results resp))) \<and>
      ms_Sent p' = ms_Sent p @ map (sms_of now) (filter (\<lambda>x. bi_Channel x \<noteq> ''email'') (sent_items items (bp_Results resp)))"
proof (cases "items = [] \<or> length items > 100")
  case True
  then show ?thesis using assms by (auto simp: SendBatch_def maxBatchSize_def status_400_def split: if_splits)
next
  case False
  define resp0 where "resp0 = \<lparr>bp_Total = length items, bp_Succeeded = 0, bp_Failed = 0, bp_Results = []\<rparr>"
  obtain resp where "batch_loop (mock_handler now) 0 items resp0 (e, p) = (resp, (e', p'))" "a = BatchDone resp"
    using False assms by (auto simp: SendBatch_def maxBatchSize_def resp0_def Let_def split: prod.splits)
  with batch_loop_mock [OF this(1)] False show ?thesis by (auto simp: resp0_def)
qed

definition example_batch :: "BatchItem list" where
  "example_batch =
    [\<lparr>bi_Type = ''otp'', bi_Channel = ''sms'', bi_Recipient = ''0812'', bi_OTPCode = ''1'', bi_Subject = [], bi_Message = []\<rparr>,
     \<lparr>bi_Type = ''alert'', bi_Channel = ''email'', bi_Recipient = ''a@b.id'', bi_OTPCode = [], bi_Subject = ''S'', bi_Message = ''M''\<rparr>]"

definition no_mail :: MockEmailSender where
  "no_mail = \<lparr>me_Sent = [], me_FailOnSend = False\<rparr>"

definition no_sms :: MockSMSSender where
  "no_sms = \<lparr>ms_Sent = [], ms_FailOnSend = False\<rparr>"

theorem batch_accounting_witness:
  "\<exists>resp. SendBatch (mock_handler 7) (Some example_batch) (no_mail, no_sms) =
     (BatchDone resp, (no_mail\<lparr>me_Sent := map (mail_of 7) (drop 1 example_batch)\<rparr>, no_sms)) \<and>
     bp_Succeeded resp = 1 \<and> bp_Failed resp = 1"
proof -
  obtain a e' p' where r: "SendBatch (mock_handler 7) (Some example_batch) (no_mail, no_sms) = (a, (e', p'))"
    by (metis prod_cases3)
  have l: "length example_batch = 2" by (simp add: example_batch_def)
  then have "example_batch \<noteq> []" by auto
  with batch_accounting [OF r] l have "\<exists>resp. a = BatchDone resp \<and> bp_Succeeded resp + bp_Failed resp = 2" by auto
  moreover have "bp_Succeeded resp = 1" "e' = no_mail\<lparr>me_Sent := map (mail_of 7) (drop 1 example_batch)\<rparr>" "p' = no_sms"
    if "a = BatchDone resp" for resp
    using r that unfolding SendBatch_def
    by (auto simp: example_batch_def no_mail_def no_sms_def mock_handler_def batch_item_def sendOTPItem_def sendAlertItem_def
        email_Send_def sms_Send_def send_outcome_def maxBatchSize_def Let_def mail_of_def)
  ultimately show ?thesis using r by auto
qed

end
