(* ===== verification/Lib_Graph.thy ===== *)
theory Lib_Graph
  imports GP_Prelude "HOL-Library.List_Lexorder" "HOL-Library.Char_ord"
begin

text \<open>
  The graph of service dependencies (\<open>packages/golib/healthgraph\<close>): which services a failure reaches,
  an order to start them in, single points of failure and the status of the whole.
  The two recursive searches are \<open>partial_function (option)\<close>, so that a search that does not end is
  \<open>None\<close>.
  Every \<open>range\<close> over the map of nodes may use another order: \<open>ord\<close> gives the one a call of
  \<open>findDependents\<close> uses.
\<close>

section \<open>The graph\<close>

record Node =
  hn_Name :: ident
  hn_Status :: string
  hn_Dependencies :: "ident list"
  hn_LastCheck :: time

type_synonym Graph = "ident \<rightharpoonup> Node"

definition NewGraph :: Graph where
  "NewGraph = Map.empty"

definition AddNode :: "time \<Rightarrow> ident \<Rightarrow> ident list \<Rightarrow> Graph \<Rightarrow> Graph" where
  "AddNode now name deps g =
     g(name \<mapsto> \<lparr>hn_Name = name, hn_Status = ''healthy'', hn_Dependencies = deps, hn_LastCheck = now\<rparr>)"

definition graph_UpdateStatus :: "time \<Rightarrow> ident \<Rightarrow> string \<Rightarrow> Graph \<Rightarrow> Graph" where
  "graph_UpdateStatus now name status g =
     (case g name of None \<Rightarrow> g | Some n \<Rightarrow> g(name \<mapsto> n\<lparr>hn_Status := status, hn_LastCheck := now\<rparr>))"

partial_function (option) findDependents ::
  "Graph \<Rightarrow> (ident \<Rightarrow> ident set \<Rightarrow> ident list) \<Rightarrow> ident \<Rightarrow> ident list \<Rightarrow> ident set \<Rightarrow> ident set option" where
  "findDependents g ord target todo affected =
     (case todo of
        [] \<Rightarrow> Some affected
      | name # rest \<Rightarrow>
          if name \<in> affected then findDependents g ord target rest affected
          else case g name of
            None \<Rightarrow> findDependents g ord target rest affected
          | Some node \<Rightarrow>
              if list_ex (\<lambda>dep. dep = target \<or> dep \<in> affected) (hn_Dependencies node)
              then Option.bind (findDependents g ord name (ord name (insert name affected)) (insert name affected))
                     (\<lambda>affected'. findDependents g ord target rest affected')
              else findDependents g ord target rest affected)"

declare findDependents.simps [code]

definition ImpactAnalysis :: "Graph \<Rightarrow> (ident \<Rightarrow> ident set \<Rightarrow> ident list) \<Rightarrow> ident \<Rightarrow> ident list option" where
  "ImpactAnalysis g ord failedNode =
     map_option sorted_list_of_set (findDependents g ord failedNode (ord failedNode {}) {})"

definition single_deps :: "Node list \<Rightarrow> ident list" where
  "single_deps nodes = concat (map (\<lambda>n. if length (hn_Dependencies n) = 1 then [hn_Dependencies n ! 0] else []) nodes)"

definition CriticalPath :: "ident list \<Rightarrow> Graph \<Rightarrow> ident list" where
  "CriticalPath ks g = sorted_list_of_set (set (filter (\<lambda>name. g name \<noteq> None) (single_deps (range_vals ks g))))"

text \<open>\<open>visit\<close> on a list of names one after the other; the state is \<open>visited\<close> and \<open>order\<close>.\<close>

partial_function (option) visit :: "Graph \<Rightarrow> ident list \<Rightarrow> ident set \<times> ident list \<Rightarrow> (ident set \<times> ident list) option" where
  "visit g names vo =
     (case names of
        [] \<Rightarrow> Some vo
      | name # rest \<Rightarrow>
          if name \<in> fst vo then visit g rest vo
          else case g name of
            None \<Rightarrow> visit g rest (insert name (fst vo), snd vo)
          | Some node \<Rightarrow>
              Option.bind (visit g (sort (hn_Dependencies node)) (insert name (fst vo), snd vo))
                (\<lambda>vo'. visit g rest (fst vo', snd vo' @ [name])))"

declare visit.simps [code]

definition TopologicalOrder :: "ident list \<Rightarrow> Graph \<Rightarrow> ident list option" where
  "TopologicalOrder ks g = map_option snd (visit g (sort ks) ({}, []))"

definition OverallStatus :: "ident list \<Rightarrow> Graph \<Rightarrow> string" where
  "OverallStatus ks g =
     (if list_all (\<lambda>n. hn_Status n = ''healthy'') (range_vals ks g) then ''healthy''
      else if list_ex (\<lambda>node. length (hn_Dependencies node) = 1 \<and>
                (case g (hn_Dependencies node ! 0) of None \<Rightarrow> False | Some n \<Rightarrow> hn_Status n \<noteq> ''healthy'')) (range_vals ks g)
      then ''unhealthy'' else ''degraded'')"

section \<open>The search ends and finds the dependents\<close>

definition dependsOn :: "Graph \<Rightarrow> (ident \<times> ident) set" where
  "dependsOn g = {(n, d). \<exists>node. g n = Some node \<and> d \<in> set (hn_Dependencies node)}"

definition orders :: "(ident \<Rightarrow> ident set \<Rightarrow> ident list) \<Rightarrow> Graph \<Rightarrow> bool" where
  "orders ord g \<longleftrightarrow> (\<forall>n a. range_of (ord n a) g)"

text \<open>What a search from \<open>target\<close> still to look at \<open>todo\<close> establishes.\<close>

definition closed_at :: "Graph \<Rightarrow> ident set \<Rightarrow> ident \<Rightarrow> bool" where
  "closed_at g a t \<longleftrightarrow> (\<forall>n. (n, t) \<in> dependsOn g \<longrightarrow> n \<in> a)"

definition found :: "Graph \<Rightarrow> ident \<Rightarrow> ident list \<Rightarrow> ident set \<Rightarrow> ident set \<Rightarrow> bool" where
  "found g t todo a a' \<longleftrightarrow> a \<subseteq> a' \<and> a' \<subseteq> dom g \<and> (\<forall>n\<in>set todo. (n, t) \<in> dependsOn g \<longrightarrow> n \<in> a') \<and>
     (\<forall>x\<in>a' - a. closed_at g a' x) \<and> (\<forall>x\<in>a' - a. \<exists>y\<in>insert t a. (x, y) \<in> (dependsOn g)\<^sup>+)"

lemma foundD:
  assumes "found g t todo a a'"
  shows "a \<subseteq> a'" "a' \<subseteq> dom g" "n \<in> set todo \<Longrightarrow> (n, t) \<in> dependsOn g \<Longrightarrow> n \<in> a'"
    "x \<in> a' \<Longrightarrow> x \<notin> a \<Longrightarrow> closed_at g a' x"
    "x \<in> a' \<Longrightarrow> x \<notin> a \<Longrightarrow> \<exists>y\<in>insert t a. (x, y) \<in> (dependsOn g)\<^sup>+"
  using assms by (simp_all add: found_def)

lemma closed_at_mono: "closed_at g a x \<Longrightarrow> a \<subseteq> b \<Longrightarrow> closed_at g b x"
  by (auto simp: closed_at_def)

lemma found_chain:
  assumes "found g name (ord name (insert name a)) (insert name a) b" "found g t rest b c"
    "orders ord g" "name \<in> dom g" "(name, d) \<in> dependsOn g" "d \<in> insert t a"
  shows "found g t (name # rest) a c"
proof -
  note F1 = foundD [OF assms(1)] and F2 = foundD [OF assms(2)]
  have reach1: "\<exists>y\<in>insert t a. (x, y) \<in> (dependsOn g)\<^sup>+" if x: "x \<in> b" "x \<notin> a" for x
  proof -
    have n: "(name, d) \<in> (dependsOn g)\<^sup>+" using assms(5) by (rule r_into_trancl)
    show ?thesis
    proof (cases "x = name")
      case True with n assms(6) show ?thesis by blast
    next
      case False
      with F1(5) [OF x(1)] x(2) obtain y where y: "y \<in> insert name a" "(x, y) \<in> (dependsOn g)\<^sup>+" by auto
      show ?thesis
      proof (cases "y = name")
        case True with y(2) n have "(x, d) \<in> (dependsOn g)\<^sup>+" by simp
        with assms(6) show ?thesis by blast
      qed (use y in blast)
    qed
  qed
  have closed_name: "closed_at g b name"
    unfolding closed_at_def
  proof (intro allI impI)
    fix n assume n: "(n, name) \<in> dependsOn g"
    then have "n \<in> dom g" by (auto simp: dependsOn_def)
    then have "n \<in> set (ord name (insert name a))" using assms(3) by (simp add: orders_def range_of_def)
    from F1(3) [OF this n] show "n \<in> b" .
  qed
  have "closed_at g c x" if x: "x \<in> c" "x \<notin> a" for x
  proof (cases "x \<in> b")
    case True
    then have "closed_at g b x" using F1(4) [OF True] x(2) closed_name by blast
    then show ?thesis using F2(1) by (rule closed_at_mono)
  qed (use F2(4) x in blast)
  moreover have "\<exists>y\<in>insert t a. (x, y) \<in> (dependsOn g)\<^sup>+" if x: "x \<in> c" "x \<notin> a" for x
  proof (cases "x \<in> b")
    case False
    with F2(5) [OF x(1)] obtain y where y: "y \<in> insert t b" "(x, y) \<in> (dependsOn g)\<^sup>+" by auto
    show ?thesis
    proof (cases "y \<in> insert t a")
      case False
      with y(1) obtain z where "z \<in> insert t a" "(y, z) \<in> (dependsOn g)\<^sup>+" using reach1 [of y] by auto
      with y(2) show ?thesis by (meson trancl_trans)
    qed (use y in blast)
  qed (use that reach1 in blast)
  moreover have "n \<in> c" if "n \<in> set (name # rest)" "(n, t) \<in> dependsOn g" for n
    using that F1(1) F2(1,3) by auto
  moreover have "a \<subseteq> c" using F1(1) F2(1) by blast
  ultimately show ?thesis using F2(2) by (simp add: found_def)
qed

lemma findDependents_total:
  assumes "finite (dom g)" "orders ord g" "a \<subseteq> dom g" "set todo \<subseteq> dom g"
  shows "\<exists>a'. findDependents g ord t todo a = Some a' \<and> found g t todo a a'"
  using assms(3,4)
proof (induction "card (dom g - a)" arbitrary: t todo a rule: less_induct)
  case less
  from less.prems(2) show ?case
  proof (induction todo)
    case Nil
    then show ?case using less.prems(1) by (simp add: findDependents.simps found_def)
  next
    case (Cons name rest)
    then obtain node b where node: "g name = Some node" and b: "findDependents g ord t rest a = Some b" "found g t rest a b"
      by auto
    define hit where "hit \<longleftrightarrow> (\<exists>d\<in>set (hn_Dependencies node). d = t \<or> d \<in> a)"
    note step = findDependents.simps [of g ord t "name # rest" a]
    show ?case
    proof (cases "name \<in> a \<or> \<not> hit")
      case True
      then have "findDependents g ord t (name # rest) a = Some b"
        using step node b by (auto simp: hit_def list_ex_iff)
      moreover have "found g t (name # rest) a b"
        using b(2) True node by (auto simp: found_def hit_def dependsOn_def)
      ultimately show ?thesis by blast
    next
      case False
      then obtain d where d: "(name, d) \<in> dependsOn g" "d \<in> insert t a" using node by (auto simp: hit_def dependsOn_def)
      have smaller: "card (dom g - c) < card (dom g - a)" if "insert name a \<subseteq> c" for c
        by (rule psubset_card_mono) (use that False node assms(1) in auto)
      have dom: "insert name a \<subseteq> dom g" "set (ord name (insert name a)) \<subseteq> dom g"
        using less.prems(1) node assms(2) by (auto simp: orders_def range_of_def)
      from less.hyps [OF smaller [OF order.refl] dom] obtain c where
        c: "findDependents g ord name (ord name (insert name a)) (insert name a) = Some c"
           "found g name (ord name (insert name a)) (insert name a) c" by blast
      then have "insert name a \<subseteq> c" "c \<subseteq> dom g" by (auto simp: found_def)
      from less.hyps [OF smaller [OF this(1)] this(2), of rest t] Cons.prems obtain e where
        e: "findDependents g ord t rest c = Some e" "found g t rest c e" by auto
      have "findDependents g ord t (name # rest) a = Some e"
        using step False node c(1) e(1) by (auto simp: hit_def list_ex_iff)
      moreover have "found g t (name # rest) a e"
        by (rule found_chain [OF c(2) e(2) assms(2) _ d]) (use node in auto)
      ultimately show ?thesis by blast
    qed
  qed
qed

lemma closed_reaches:
  assumes "(x, y) \<in> (dependsOn g)\<^sup>+" "\<And>z. (z, y) \<in> dependsOn g \<Longrightarrow> z \<in> a" "\<forall>z\<in>a. closed_at g a z"
  shows "x \<in> a"
  using assms(1)
proof (induction rule: converse_trancl_induct)
  case (step y z)
  then show ?case using assms(3) by (auto simp: closed_at_def)
qed (use assms(2) in blast)

text \<open>
  C28. The impact analysis ends on every finite graph, cycles included and whatever the order in which
  the maps are visited, and it lists, sorted and without repetition, exactly the nodes from which the
  failed one is reached by dependencies.
\<close>

theorem impact_analysis_ends:
  assumes "finite (dom g)" "orders ord g"
  shows "\<exists>ns. ImpactAnalysis g ord failed = Some ns \<and> sorted ns \<and> distinct ns \<and>
    set ns = {n. (n, failed) \<in> (dependsOn g)\<^sup>+}"
proof -
  have o: "set (ord failed {}) = dom g" using assms(2) by (simp add: orders_def range_of_def)
  then obtain a where a: "findDependents g ord failed (ord failed {}) {} = Some a" "found g failed (ord failed {}) {} a"
    using findDependents_total [OF assms, of "{}" "ord failed {}" failed] by auto
  have fin: "finite a" using a(2) assms(1) by (auto simp: found_def intro: finite_subset)
  have "a = {n. (n, failed) \<in> (dependsOn g)\<^sup>+}"
  proof (intro equalityI subsetI CollectI)
    fix x assume "x \<in> a"
    with a(2) show "(x, failed) \<in> (dependsOn g)\<^sup>+" by (auto simp: found_def)
  next
    fix x assume "x \<in> {n. (n, failed) \<in> (dependsOn g)\<^sup>+}"
    moreover have "n \<in> a" if "(n, failed) \<in> dependsOn g" for n
      using that a(2) o by (auto simp: found_def dependsOn_def)
    ultimately show "x \<in> a" using a(2) by (auto simp: found_def intro: closed_reaches)
  qed
  with a(1) fin show ?thesis by (simp add: ImpactAnalysis_def)
qed

text \<open>A chain of three services.\<close>

definition chain_graph :: Graph where
  "chain_graph = AddNode 0 ''portal'' [''api''] (AddNode 0 ''api'' [''db''] (AddNode 0 ''db'' [] NewGraph))"

lemma chain_graph:
  "dom chain_graph = {''portal'', ''api'', ''db''}"
  "(n, d) \<in> dependsOn chain_graph \<longleftrightarrow> n = ''portal'' \<and> d = ''api'' \<or> n = ''api'' \<and> d = ''db''"
  by (auto simp: chain_graph_def AddNode_def NewGraph_def dependsOn_def)

theorem impact_analysis_ends_witness:
  "\<exists>ns. ImpactAnalysis chain_graph (\<lambda>_ _. [''portal'', ''db'', ''api'']) ''db'' = Some ns \<and> sorted ns \<and>
     {''api'', ''portal''} \<subseteq> set ns"
proof -
  have "orders (\<lambda>_ _. [''portal'', ''db'', ''api'']) chain_graph"
    by (auto simp: orders_def range_of_def chain_graph(1))
  then obtain ns where ns: "ImpactAnalysis chain_graph (\<lambda>_ _. [''portal'', ''db'', ''api'']) ''db'' = Some ns" "sorted ns"
    "set ns = {n. (n, ''db'') \<in> (dependsOn chain_graph)\<^sup>+}"
    using impact_analysis_ends [of chain_graph _ "''db''"] by (auto simp: chain_graph(1))
  have "(''api'', ''db'') \<in> (dependsOn chain_graph)\<^sup>+" "(''portal'', ''api'') \<in> (dependsOn chain_graph)\<^sup>+"
    by (simp_all add: chain_graph(2) r_into_trancl)
  with ns(3) have "{''api'', ''portal''} \<subseteq> set ns" by (auto intro: trancl_trans)
  with ns show ?thesis by blast
qed

section \<open>The order of starting\<close>

definition starts_after_deps :: "Graph \<Rightarrow> ident list \<Rightarrow> bool" where
  "starts_after_deps g os \<longleftrightarrow>
     (\<forall>xs n ys d. os = xs @ n # ys \<longrightarrow> (n, d) \<in> dependsOn g \<longrightarrow> d \<in> dom g \<longrightarrow> d \<in> set xs)"

lemma starts_snoc:
  assumes "starts_after_deps g os" "\<And>d. (n, d) \<in> dependsOn g \<Longrightarrow> d \<in> dom g \<Longrightarrow> d \<in> set os"
  shows "starts_after_deps g (os @ [n])"
  unfolding starts_after_deps_def
proof (intro allI impI)
  fix xs m ys d assume h: "os @ [n] = xs @ m # ys" "(m, d) \<in> dependsOn g" "d \<in> dom g"
  show "d \<in> set xs"
  proof (cases ys rule: rev_cases)
    case Nil with h assms(2) show ?thesis by simp
  next
    case (snoc zs z)
    with h(1) have "os = xs @ m # zs" by simp
    with assms(1) h(2,3) show ?thesis unfolding starts_after_deps_def by blast
  qed
qed

text \<open>\<open>on_stack\<close> are the nodes whose dependencies are being visited.\<close>

definition on_stack :: "Graph \<Rightarrow> ident set \<times> ident list \<Rightarrow> ident set" where
  "on_stack g vo = (fst vo \<inter> dom g) - set (snd vo)"

definition stack_ok :: "Graph \<Rightarrow> ident list \<Rightarrow> ident set \<times> ident list \<Rightarrow> bool" where
  "stack_ok g names vo \<longleftrightarrow> acyclic (dependsOn g) \<and> starts_after_deps g (snd vo) \<and>
     (\<forall>s\<in>on_stack g vo. \<forall>n\<in>set names. (s, n) \<in> (dependsOn g)\<^sup>+)"

definition visited_ok :: "Graph \<Rightarrow> ident list \<Rightarrow> ident set \<times> ident list \<Rightarrow> ident set \<times> ident list \<Rightarrow> bool" where
  "visited_ok g names vo vo' \<longleftrightarrow> fst vo \<subseteq> fst vo' \<and> set names \<subseteq> fst vo' \<and> set (snd vo) \<subseteq> set (snd vo') \<and>
     distinct (snd vo') \<and> set (snd vo') \<subseteq> fst vo' \<inter> dom g \<and> on_stack g vo' = on_stack g vo \<and>
     (stack_ok g names vo \<longrightarrow> starts_after_deps g (snd vo') \<and> set names \<inter> dom g \<subseteq> set (snd vo'))"

lemma visitedD:
  assumes "visited_ok g names vo vo'"
  shows "fst vo \<subseteq> fst vo'" "set names \<subseteq> fst vo'" "set (snd vo) \<subseteq> set (snd vo')" "distinct (snd vo')"
    "set (snd vo') \<subseteq> fst vo'" "set (snd vo') \<subseteq> dom g" "on_stack g vo' = on_stack g vo"
    "stack_ok g names vo \<Longrightarrow> starts_after_deps g (snd vo')"
    "stack_ok g names vo \<Longrightarrow> n \<in> set names \<Longrightarrow> n \<in> dom g \<Longrightarrow> n \<in> set (snd vo')"
  using assms unfolding visited_ok_def by blast+

lemma stack_tl: "stack_ok g (name # rest) vo \<Longrightarrow> stack_ok g rest vo"
  by (simp add: stack_ok_def)

lemma not_stacked:
  assumes "stack_ok g (name # rest) vo" "name \<in> fst vo" "name \<in> dom g"
  shows "name \<in> set (snd vo)"
proof (rule ccontr)
  assume "name \<notin> set (snd vo)"
  then have "name \<in> on_stack g vo" using assms(2,3) by (simp add: on_stack_def)
  with assms(1) have "(name, name) \<in> (dependsOn g)\<^sup>+" by (simp add: stack_ok_def)
  with assms(1) show False by (simp add: stack_ok_def acyclic_def)
qed

lemma visited_skip:
  assumes "visited_ok g rest vo vo'" "name \<in> fst vo"
  shows "visited_ok g (name # rest) vo vo'"
proof -
  note D = visitedD [OF assms(1)]
  have "n \<in> set (snd vo')" if "stack_ok g (name # rest) vo" "n \<in> set (name # rest)" "n \<in> dom g" for n
    using not_stacked [OF that(1) assms(2)] D(3) D(9) [OF stack_tl [OF that(1)]] that by auto
  moreover have "name \<in> fst vo'" using assms(2) D(1) by blast
  ultimately show ?thesis using D(1-7) D(8) [OF stack_tl] unfolding visited_ok_def by auto
qed

lemma visited_unknown:
  assumes "visited_ok g rest (insert name v, os) vo'" "name \<notin> dom g"
  shows "visited_ok g (name # rest) (v, os) vo'"
proof -
  note D = visitedD [OF assms(1)]
  have s: "on_stack g (insert name v, os) = on_stack g (v, os)" using assms(2) by (auto simp: on_stack_def)
  have ok: "stack_ok g rest (insert name v, os)" if "stack_ok g (name # rest) (v, os)" using that s by (simp add: stack_ok_def)
  have "n \<in> set (snd vo')" if "stack_ok g (name # rest) (v, os)" "n \<in> set (name # rest)" "n \<in> dom g" for n
    using D(9) [OF ok [OF that(1)], of n] that assms(2) by auto
  then show ?thesis using D(1-7) D(8) [OF ok] s unfolding visited_ok_def by auto
qed

lemma visited_node:
  assumes "visited_ok g (sort (hn_Dependencies node)) (insert name v, os) (w, os1)"
    "visited_ok g rest (w, os1 @ [name]) vo'" "g name = Some node" "name \<notin> v" "set os \<subseteq> v"
  shows "visited_ok g (name # rest) (v, os) vo'"
proof -
  note D1 = visitedD [OF assms(1), simplified] and D2 = visitedD [OF assms(2), simplified]
  have dep: "(name, d) \<in> dependsOn g \<longleftrightarrow> d \<in> set (hn_Dependencies node)" for d
    using assms(3) by (auto simp: dependsOn_def)
  have s0: "on_stack g (insert name v, os) = insert name (on_stack g (v, os))"
    using assms(3-5) by (auto simp: on_stack_def)
  have s1: "on_stack g (w, os1 @ [name]) = on_stack g (v, os)"
  proof -
    have "on_stack g (w, os1 @ [name]) = on_stack g (w, os1) - {name}" by (auto simp: on_stack_def)
    moreover have "name \<notin> on_stack g (v, os)" using assms(4) by (simp add: on_stack_def)
    ultimately show ?thesis using D1(7) s0 by auto
  qed
  have ok1: "stack_ok g (sort (hn_Dependencies node)) (insert name v, os)" if "stack_ok g (name # rest) (v, os)"
  proof -
    have "(s, d) \<in> (dependsOn g)\<^sup>+" if "s \<in> insert name (on_stack g (v, os))" "d \<in> set (hn_Dependencies node)" for s d
      using that \<open>stack_ok g (name # rest) (v, os)\<close> dep [of d] by (auto simp: stack_ok_def intro: trancl_into_trancl)
    with that s0 show ?thesis by (simp add: stack_ok_def)
  qed
  have starts: "starts_after_deps g (os1 @ [name])" if "stack_ok g (name # rest) (v, os)"
    by (rule starts_snoc) (use D1(8,9) [OF ok1 [OF that]] dep in auto)
  have ok2: "stack_ok g rest (w, os1 @ [name])" if "stack_ok g (name # rest) (v, os)"
    using that starts [OF that] s1 by (simp add: stack_ok_def)
  have "n \<in> set (snd vo')" if "stack_ok g (name # rest) (v, os)" "n \<in> set (name # rest)" "n \<in> dom g" for n
    using D2(9) [OF ok2 [OF that(1)], of n] D2(3) that by auto
  moreover have "v \<subseteq> fst vo'" "name \<in> fst vo'" "set os \<subseteq> set (snd vo')" using D1(1,3) D2(1,3) by auto
  ultimately show ?thesis using D2(2,4-7) D2(8) [OF ok2] s1 unfolding visited_ok_def by auto
qed

lemma visit_total:
  assumes "finite u" "dom g \<subseteq> u" "\<And>n d. (n, d) \<in> dependsOn g \<Longrightarrow> d \<in> u"
    "fst vo \<subseteq> u" "set names \<subseteq> u" "distinct (snd vo)" "set (snd vo) \<subseteq> fst vo \<inter> dom g"
  shows "\<exists>vo'. visit g names vo = Some vo' \<and> fst vo' \<subseteq> u \<and> visited_ok g names vo vo'"
  using assms(4-7)
proof (induction "card (u - fst vo)" arbitrary: names vo rule: less_induct)
  case less
  from less.prems(2) show ?case
  proof (induction names)
    case Nil
    then show ?case using less.prems by (simp add: visit.simps visited_ok_def stack_ok_def)
  next
    case (Cons name rest)
    obtain v os where vo: "vo = (v, os)" by fastforce
    note step = visit.simps [of g "name # rest" vo]
    show ?case
    proof (cases "name \<in> v")
      case True
      from Cons obtain vo' where "visit g rest vo = Some vo'" "fst vo' \<subseteq> u" "visited_ok g rest vo vo'" by auto
      then show ?thesis using visited_skip [of g rest vo vo' name] True vo step by simp
    next
      case new: False
      have v: "v \<subseteq> u" "set os \<subseteq> v \<inter> dom g" "distinct os" "name \<in> u" "set rest \<subseteq> u" using less.prems Cons.prems vo by auto
      have smaller: "card (u - w) < card (u - fst vo)" if "insert name v \<subseteq> w" for w
        by (rule psubset_card_mono) (use that new v assms(1) vo in auto)
      show ?thesis
      proof (cases "g name")
        case None
        have "\<exists>vo'. visit g rest (insert name v, os) = Some vo' \<and> fst vo' \<subseteq> u \<and> visited_ok g rest (insert name v, os) vo'"
          by (rule less.hyps) (use smaller v in auto)
        then obtain vo' where "visit g rest (insert name v, os) = Some vo'" "fst vo' \<subseteq> u"
          "visited_ok g rest (insert name v, os) vo'" by blast
        then show ?thesis using visited_unknown [of g rest name v os vo'] None new vo step by auto
      next
        case (Some node)
        have deps: "set (hn_Dependencies node) \<subseteq> u" using assms(3) Some by (auto simp: dependsOn_def)
        have "\<exists>vo'. visit g (sort (hn_Dependencies node)) (insert name v, os) = Some vo' \<and> fst vo' \<subseteq> u \<and>
            visited_ok g (sort (hn_Dependencies node)) (insert name v, os) vo'"
          by (rule less.hyps) (use smaller v deps in auto)
        then obtain w os1 where w: "visit g (sort (hn_Dependencies node)) (insert name v, os) = Some (w, os1)" "w \<subseteq> u"
          "visited_ok g (sort (hn_Dependencies node)) (insert name v, os) (w, os1)" by auto
        note D = visitedD [OF w(3), simplified]
        have "name \<in> on_stack g (w, os1)" using D(7) Some new v(2) by (auto simp: on_stack_def)
        then have "name \<notin> set os1" by (simp add: on_stack_def)
        then have "\<exists>vo'. visit g rest (w, os1 @ [name]) = Some vo' \<and> fst vo' \<subseteq> u \<and> visited_ok g rest (w, os1 @ [name]) vo'"
          by (intro less.hyps) (use smaller [of w] D w(2) v Some in auto)
        then obtain vo' where "visit g rest (w, os1 @ [name]) = Some vo'" "fst vo' \<subseteq> u" "visited_ok g rest (w, os1 @ [name]) vo'"
          by blast
        then show ?thesis using visited_node [OF w(3) _ Some new, of rest vo'] v(2) new Some w(1) vo step by auto
      qed
    qed
  qed
qed

text \<open>
  The start-up order exists for every finite graph and has each node exactly once; without cyclic
  dependencies each node comes after the ones it depends on.
\<close>

theorem topological_order:
  assumes "finite (dom g)" "range_of ks g"
  shows "\<exists>os. TopologicalOrder ks g = Some os \<and> distinct os \<and> set os = dom g \<and>
    (acyclic (dependsOn g) \<longrightarrow> starts_after_deps g os)"
proof -
  define u where "u = dom g \<union> (\<Union>n\<in>ran g. set (hn_Dependencies n))"
  have "finite u" using assms(1) by (simp add: u_def finite_ran)
  moreover have "dom g \<subseteq> u" "\<And>n d. (n, d) \<in> dependsOn g \<Longrightarrow> d \<in> u"
    by (auto simp: u_def dependsOn_def ran_def)
  moreover have ks: "set (sort ks) = dom g" using assms(2) by (simp add: range_of_def)
  ultimately obtain vo' where vo': "visit g (sort ks) ({}, []) = Some vo'" "visited_ok g (sort ks) ({}, []) vo'"
    using visit_total [of u g "({}, [])" "sort ks"] by auto
  note D = visitedD [OF vo'(2)]
  have "on_stack g vo' = {}" using D(7) by (simp add: on_stack_def)
  then have "set (snd vo') = dom g" using D(2,5,6) ks by (auto simp: on_stack_def)
  moreover have "acyclic (dependsOn g) \<Longrightarrow> stack_ok g (sort ks) ({}, [])"
    by (simp add: stack_ok_def on_stack_def starts_after_deps_def)
  ultimately show ?thesis using vo'(1) D(4,8) by (auto simp: TopologicalOrder_def)
qed

theorem topological_order_witness:
  "\<exists>os. TopologicalOrder [''portal'', ''db'', ''api''] chain_graph = Some os \<and> set os = {''portal'', ''api'', ''db''} \<and>
     starts_after_deps chain_graph os"
proof -
  have "acyclic (dependsOn chain_graph)" by (rule acyclicI_order [of _ length]) (auto simp: chain_graph(2))
  moreover have "range_of [''portal'', ''db'', ''api''] chain_graph" by (auto simp: range_of_def chain_graph(1))
  ultimately show ?thesis
    using topological_order [of chain_graph "[''portal'', ''db'', ''api'']"] by (auto simp: chain_graph(1))
qed

section \<open>The status of the whole\<close>

lemma critical_path: "set (CriticalPath ks g) = {d \<in> dom g. \<exists>n\<in>set (range_vals ks g). hn_Dependencies n = [d]}"
  by (auto simp: CriticalPath_def single_deps_def length_Suc_conv split: if_splits) (force intro!: bexI)+

lemma overall_status:
  assumes "range_of ks g"
  shows "OverallStatus ks g = (if \<forall>n\<in>ran g. hn_Status n = ''healthy'' then ''healthy''
    else if \<exists>d\<in>set (CriticalPath ks g). hn_Status (the (g d)) \<noteq> ''healthy'' then ''unhealthy'' else ''degraded'')"
proof -
  have "list_ex (\<lambda>node. length (hn_Dependencies node) = 1 \<and>
      (case g (hn_Dependencies node ! 0) of None \<Rightarrow> False | Some n \<Rightarrow> hn_Status n \<noteq> ''healthy'')) (range_vals ks g) \<longleftrightarrow>
    (\<exists>d\<in>set (CriticalPath ks g). hn_Status (the (g d)) \<noteq> ''healthy'')"
    unfolding critical_path list_ex_iff by (force simp: length_Suc_conv split: option.splits)
  then show ?thesis using assms by (simp add: OverallStatus_def list_all_iff set_range_vals_ran)
qed

end
