(* ===== verification/Lib_Outbox.thy ===== *)
theory Lib_Outbox
  imports GP_Text
begin

text \<open>
  Delivery of events in the shared library: the transactional outbox (\<open>packages/golib/outbox\<close>) with its
  poller and in-memory store, the dead letter queue (\<open>packages/golib/dlq\<close>) and the idempotency keys
  (\<open>packages/golib/idempotent\<close>).
\<close>

section \<open>The outbox\<close>

record Event =
  ob_ID :: ident
  ob_AggregateID :: ident
  ob_EventType :: string
  ob_Payload :: string
  ob_Status :: string
  ob_Attempts :: int
  ob_LastError :: string
  ob_CreatedAt :: time
  ob_PublishedAt :: "time option"

datatype outbox_err = ErrEventNotFound | OutboxError string

record 's OutboxStore =
  ox_Save :: "Event \<Rightarrow> 's \<Rightarrow> outbox_err option \<times> 's"
  ox_FetchPending :: "int \<Rightarrow> 's \<Rightarrow> outbox_err + Event list"
  ox_MarkPublished :: "ident \<Rightarrow> time \<Rightarrow> 's \<Rightarrow> outbox_err option \<times> 's"
  ox_MarkFailed :: "ident \<Rightarrow> string \<Rightarrow> int \<Rightarrow> 's \<Rightarrow> outbox_err option \<times> 's"

record PollerConfig =
  pc_Interval :: int
  pc_BatchSize :: int
  pc_MaxAttempts :: int

definition NewPoller :: "PollerConfig \<Rightarrow> PollerConfig" where
  "NewPoller cfg = \<lparr>
     pc_Interval = (if pc_Interval cfg \<le> 0 then second else pc_Interval cfg),
     pc_BatchSize = (if pc_BatchSize cfg \<le> 0 then 100 else pc_BatchSize cfg),
     pc_MaxAttempts = (if pc_MaxAttempts cfg \<le> 0 then 5 else pc_MaxAttempts cfg)\<rparr>"

text \<open>
  One cycle: \<open>publish\<close> is the broker's answer to an event, \<open>stop e\<close> whether the stop channel is closed when
  the loop reaches \<open>e\<close>.
  Next to the state the cycle returns what was handed to the broker and accepted.
\<close>

fun poll_loop ::
  "'s OutboxStore \<Rightarrow> (Event \<Rightarrow> string option) \<Rightarrow> (Event \<Rightarrow> bool) \<Rightarrow> time \<Rightarrow> int \<Rightarrow> Event list \<Rightarrow> 's \<Rightarrow> Event list \<times> 's" where
  "poll_loop S publish stop now maxAttempts [] s = ([], s)"
| "poll_loop S publish stop now maxAttempts (e # es) s =
     (if ob_Attempts e \<ge> maxAttempts then poll_loop S publish stop now maxAttempts es s
      else if stop e then ([], s)
      else case publish e of
        Some err \<Rightarrow>
          poll_loop S publish stop now maxAttempts es (snd (ox_MarkFailed S (ob_ID e) err (ob_Attempts e + 1) s))
      | None \<Rightarrow>
          let (done, s') = poll_loop S publish stop now maxAttempts es (snd (ox_MarkPublished S (ob_ID e) now s))
          in (e # done, s'))"

definition poll ::
  "'s OutboxStore \<Rightarrow> PollerConfig \<Rightarrow> (Event \<Rightarrow> string option) \<Rightarrow> (Event \<Rightarrow> bool) \<Rightarrow> time \<Rightarrow> 's \<Rightarrow> Event list \<times> 's" where
  "poll S p publish stop now s =
     (case ox_FetchPending S (pc_BatchSize p) s of
        Inl err \<Rightarrow> ([], s)
      | Inr events \<Rightarrow> poll_loop S publish stop now (pc_MaxAttempts p) events s)"

record OutboxMemory =
  om_events :: "ident \<rightharpoonup> Event"
  om_order :: "ident list"

definition NewMemoryStore :: OutboxMemory where
  "NewMemoryStore = \<lparr>om_events = Map.empty, om_order = []\<rparr>"

definition om_Save :: "Event \<Rightarrow> OutboxMemory \<Rightarrow> outbox_err option \<times> OutboxMemory" where
  "om_Save e m = (None, m\<lparr>om_events := (om_events m)(ob_ID e \<mapsto> e), om_order := om_order m @ [ob_ID e]\<rparr>)"

text \<open>Each id of \<open>order\<close> is a key of \<open>events\<close>: nothing is ever deleted.\<close>

fun fetch_loop :: "(ident \<rightharpoonup> Event) \<Rightarrow> int \<Rightarrow> ident list \<Rightarrow> Event list \<Rightarrow> Event list" where
  "fetch_loop es limit [] result = result"
| "fetch_loop es limit (i # is) result =
     (if int (length result) \<ge> limit then result
      else let e = the (es i) in
        fetch_loop es limit is
          (if ob_Status e = ''pending'' \<or> ob_Status e = ''failed'' then result @ [e] else result))"

definition om_FetchPending :: "int \<Rightarrow> OutboxMemory \<Rightarrow> outbox_err + Event list" where
  "om_FetchPending limit m = Inr (fetch_loop (om_events m) limit (om_order m) [])"

definition om_MarkPublished :: "ident \<Rightarrow> time \<Rightarrow> OutboxMemory \<Rightarrow> outbox_err option \<times> OutboxMemory" where
  "om_MarkPublished i t m =
     (case om_events m i of
        None \<Rightarrow> (Some ErrEventNotFound, m)
      | Some e \<Rightarrow> (None, m\<lparr>om_events := (om_events m)(i \<mapsto> e\<lparr>ob_Status := ''published'', ob_PublishedAt := Some t\<rparr>)\<rparr>))"

definition om_MarkFailed :: "ident \<Rightarrow> string \<Rightarrow> int \<Rightarrow> OutboxMemory \<Rightarrow> outbox_err option \<times> OutboxMemory" where
  "om_MarkFailed i err attempts m =
     (case om_events m i of
        None \<Rightarrow> (Some ErrEventNotFound, m)
      | Some e \<Rightarrow> (None, m\<lparr>om_events := (om_events m)(i \<mapsto>
          e\<lparr>ob_Status := ''failed'', ob_LastError := err, ob_Attempts := attempts\<rparr>)\<rparr>))"

definition om_Get :: "ident \<Rightarrow> OutboxMemory \<Rightarrow> Event option" where
  "om_Get i m = om_events m i"

definition MemoryStore :: "OutboxMemory OutboxStore" where
  "MemoryStore = \<lparr>ox_Save = om_Save, ox_FetchPending = om_FetchPending, ox_MarkPublished = om_MarkPublished,
     ox_MarkFailed = om_MarkFailed\<rparr>"

definition NewEvent :: "(string \<Rightarrow> string option) \<Rightarrow> time \<Rightarrow> ident \<Rightarrow> ident \<Rightarrow> string \<Rightarrow> string \<Rightarrow> outbox_err + Event" where
  "NewEvent marshal now i aggregateID eventType payload =
     (case marshal payload of
        None \<Rightarrow> Inl (OutboxError ''outbox: marshal payload'')
      | Some d \<Rightarrow> Inr \<lparr>ob_ID = i, ob_AggregateID = aggregateID, ob_EventType = eventType, ob_Payload = d,
          ob_Status = ''pending'', ob_Attempts = 0, ob_LastError = [], ob_CreatedAt = now, ob_PublishedAt = None\<rparr>)"

section \<open>What a cycle of the outbox does\<close>

definition unpublished :: "Event \<Rightarrow> bool" where
  "unpublished e \<longleftrightarrow> ob_Status e = ''pending'' \<or> ob_Status e = ''failed''"

text \<open>The unpublished events in the order of saving.\<close>

definition backlog :: "OutboxMemory \<Rightarrow> Event list" where
  "backlog m = filter unpublished (map (\<lambda>i. the (om_events m i)) (om_order m))"

definition om_inv :: "OutboxMemory \<Rightarrow> bool" where
  "om_inv m \<longleftrightarrow> distinct (om_order m) \<and> (\<forall>i\<in>set (om_order m). \<exists>e. om_events m i = Some e \<and> ob_ID e = i)"

lemma fetch_loop_take:
  "fetch_loop es limit is result =
     (if int (length result) \<ge> limit then result
      else take (nat limit) (result @ filter unpublished (map (\<lambda>i. the (es i)) is)))"
proof (induction "is" arbitrary: result)
  case (Cons i "is")
  have step: "fetch_loop es limit (i # is) result =
      (if int (length result) \<ge> limit then result
       else fetch_loop es limit is (if unpublished (the (es i)) then result @ [the (es i)] else result))"
    by (simp add: Let_def unpublished_def)
  show ?case
  proof (cases "int (length result) \<ge> limit")
    case False
    then obtain k where k: "nat limit - length result = Suc k" by (metis Suc_diff_Suc linorder_not_le nat_less_iff of_nat_0_le_iff zless_nat_eq_int_zless)
    then have "nat limit - Suc (length result) = k" by simp
    with k show ?thesis using False unfolding step Cons.IH by auto
  qed (simp add: step)
qed auto

lemma om_FetchPending_take: "om_FetchPending limit m = Inr (take (nat limit) (backlog m))"
  by (auto simp: om_FetchPending_def fetch_loop_take backlog_def)

text \<open>The events a cycle offers to the broker, and what becomes of each.\<close>

definition attempted :: "PollerConfig \<Rightarrow> (Event \<Rightarrow> bool) \<Rightarrow> OutboxMemory \<Rightarrow> Event list" where
  "attempted p stop m = takeWhile (\<lambda>e. \<not> stop e)
     (filter (\<lambda>e. ob_Attempts e < pc_MaxAttempts p) (take (nat (pc_BatchSize p)) (backlog m)))"

definition settle :: "(Event \<Rightarrow> string option) \<Rightarrow> time \<Rightarrow> Event \<Rightarrow> Event" where
  "settle publish now e = (case publish e of
     None \<Rightarrow> e\<lparr>ob_Status := ''published'', ob_PublishedAt := Some now\<rparr>
   | Some err \<Rightarrow> e\<lparr>ob_Status := ''failed'', ob_LastError := err, ob_Attempts := ob_Attempts e + 1\<rparr>)"

definition settle_all :: "(Event \<Rightarrow> string option) \<Rightarrow> time \<Rightarrow> Event list \<Rightarrow> OutboxMemory \<Rightarrow> OutboxMemory" where
  "settle_all publish now es m =
     m\<lparr>om_events := \<lambda>i. map_option (\<lambda>e. if e \<in> set es then settle publish now e else e) (om_events m i)\<rparr>"

lemma mark_settles:
  "om_events m (ob_ID e) = Some e \<Longrightarrow>
     (case publish e of None \<Rightarrow> snd (om_MarkPublished (ob_ID e) now m)
      | Some err \<Rightarrow> snd (om_MarkFailed (ob_ID e) err (ob_Attempts e + 1) m)) =
     m\<lparr>om_events := (om_events m)(ob_ID e \<mapsto> settle publish now e)\<rparr>"
  by (simp add: om_MarkPublished_def om_MarkFailed_def settle_def split: option.splits)

lemma settle_all_Cons:
  assumes "om_events m (ob_ID e) = Some e" "\<forall>x\<in>set es. om_events m (ob_ID x) = Some x \<and> ob_ID x \<noteq> ob_ID e"
    "\<forall>i x. om_events m i = Some x \<longrightarrow> ob_ID x = i"
  shows "settle_all publish now es (m\<lparr>om_events := (om_events m)(ob_ID e \<mapsto> settle publish now e)\<rparr>) =
    settle_all publish now (e # es) m"
proof -
  have "settle publish now e \<notin> set es"
  proof
    assume s: "settle publish now e \<in> set es"
    have "ob_ID (settle publish now e) = ob_ID e" by (simp add: settle_def split: option.splits)
    with assms(2) s show False by metis
  qed
  moreover have "e \<notin> set es" using assms(2) by blast
  moreover have "x \<noteq> e" if "om_events m i = Some x" "i \<noteq> ob_ID e" for i x using assms(3) that by blast
  ultimately have "map_option (\<lambda>x. if x \<in> set es then settle publish now x else x)
      (((om_events m)(ob_ID e \<mapsto> settle publish now e)) i) =
    map_option (\<lambda>x. if x \<in> set (e # es) then settle publish now x else x) (om_events m i)" for i
    using assms(1) by (cases "om_events m i") auto
  then show ?thesis by (simp add: settle_all_def)
qed

lemma poll_loop_memory:
  fixes mx :: int and stop :: "Event \<Rightarrow> bool"
  assumes "distinct (map ob_ID es)" "\<forall>e\<in>set es. om_events m (ob_ID e) = Some e" "\<forall>i x. om_events m i = Some x \<longrightarrow> ob_ID x = i"
  defines "offered \<equiv> takeWhile (\<lambda>e. \<not> stop e) (filter (\<lambda>e. ob_Attempts e < mx) es)"
  shows "poll_loop MemoryStore publish stop now mx es m = (filter (\<lambda>e. publish e = None) offered, settle_all publish now offered m)"
  using assms(1-3) unfolding offered_def
proof (induction es arbitrary: m)
  case Nil
  have "settle_all publish now [] m = m" by (cases m) (simp add: settle_all_def option.map_ident)
  then show ?case by simp
next
  case (Cons e es)
  define m1 where "m1 = m\<lparr>om_events := (om_events m)(ob_ID e \<mapsto> settle publish now e)\<rparr>"
  define rest where "rest = takeWhile (\<lambda>e. \<not> stop e) (filter (\<lambda>e. ob_Attempts e < mx) es)"
  have same: "settle_all publish now [] m = m" by (cases m) (simp add: settle_all_def option.map_ident)
  consider "ob_Attempts e \<ge> mx" | "ob_Attempts e < mx" "stop e" | "ob_Attempts e < mx" "\<not> stop e" by fastforce
  then show ?case
  proof cases
    case 3
    have d: "\<forall>x\<in>set es. ob_ID x \<noteq> ob_ID e" using Cons.prems(1) by (auto simp: image_iff)
    have sid: "ob_ID (settle publish now e) = ob_ID e" by (simp add: settle_def split: option.splits)
    have "\<forall>x\<in>set es. om_events m1 (ob_ID x) = Some x" using Cons.prems(2) d by (simp add: m1_def)
    moreover have "\<forall>i x. om_events m1 i = Some x \<longrightarrow> ob_ID x = i" using Cons.prems(3) sid by (simp add: m1_def)
    ultimately have IH: "poll_loop MemoryStore publish stop now mx es m1 =
        (filter (\<lambda>e. publish e = None) rest, settle_all publish now rest m1)"
      using Cons.IH [of m1] Cons.prems(1) by (simp add: rest_def)
    have "\<forall>x\<in>set rest. om_events m (ob_ID x) = Some x \<and> ob_ID x \<noteq> ob_ID e"
      using Cons.prems(2) d by (auto simp: rest_def dest!: set_takeWhileD)
    then have "settle_all publish now rest m1 = settle_all publish now (e # rest) m"
      using settle_all_Cons [of m e rest] Cons.prems unfolding m1_def by simp
    moreover have "poll_loop MemoryStore publish stop now mx (e # es) m =
        (let (d, s') = poll_loop MemoryStore publish stop now mx es m1 in (if publish e = None then e # d else d, s'))"
      using 3 mark_settles [of m e, where publish = publish and now = now] Cons.prems(2)
      by (auto simp: m1_def MemoryStore_def Let_def split: option.splits prod.splits)
    ultimately show ?thesis using 3 IH by (simp add: rest_def)
  qed (use Cons same in auto)
qed

lemma om_inv_fetched:
  assumes "om_inv m"
  shows "distinct (map ob_ID (take n (backlog m)))" "e \<in> set (take n (backlog m)) \<Longrightarrow> om_events m (ob_ID e) = Some e"
proof -
  have ids: "map ob_ID (map (\<lambda>i. the (om_events m i)) (om_order m)) = om_order m"
    using assms unfolding om_inv_def by (intro map_idI [of "om_order m", THEN trans [rotated]]) (auto intro!: map_idI)
  have "distinct (map ob_ID (backlog m))"
    unfolding backlog_def by (rule distinct_map_filter) (use assms ids in \<open>simp add: om_inv_def\<close>)
  then show "distinct (map ob_ID (take n (backlog m)))" by (simp add: take_map [symmetric])
  assume "e \<in> set (take n (backlog m))"
  then have "e \<in> set (backlog m)" by (rule in_set_takeD)
  then show "om_events m (ob_ID e) = Some e" using assms by (force simp: backlog_def om_inv_def)
qed

lemma poll_memory:
  assumes "om_inv m" "\<forall>i x. om_events m i = Some x \<longrightarrow> ob_ID x = i"
  shows "poll MemoryStore p publish stop now m =
    (filter (\<lambda>e. publish e = None) (attempted p stop m), settle_all publish now (attempted p stop m) m)"
proof -
  have "poll MemoryStore p publish stop now m =
      poll_loop MemoryStore publish stop now (pc_MaxAttempts p) (take (nat (pc_BatchSize p)) (backlog m)) m"
    by (simp add: poll_def MemoryStore_def om_FetchPending_take)
  then show ?thesis unfolding attempted_def
    using poll_loop_memory [OF om_inv_fetched(1) [OF assms(1)] _ assms(2)] om_inv_fetched(2) [OF assms(1)] by simp
qed

section \<open>Runs of the outbox\<close>

text \<open>
  Events are saved under new ids and cycles run at any time, with any behaviour of the broker; the list
  is what the broker has accepted so far.
\<close>

inductive outbox_run :: "PollerConfig \<Rightarrow> OutboxMemory \<Rightarrow> Event list \<Rightarrow> OutboxMemory \<Rightarrow> bool"
  for p m where
  start: "outbox_run p m [] m"
| save: "outbox_run p m ps m1 \<Longrightarrow> om_events m1 (ob_ID e) = None \<Longrightarrow> ob_Status e = ''pending'' \<Longrightarrow> ob_Attempts e = 0 \<Longrightarrow>
    outbox_run p m ps (snd (om_Save e m1))"
| cycle: "outbox_run p m ps m1 \<Longrightarrow> poll MemoryStore p publish stop now m1 = (done, m2) \<Longrightarrow> outbox_run p m (ps @ done) m2"

definition outbox_inv :: "OutboxMemory \<Rightarrow> bool" where
  "outbox_inv m \<longleftrightarrow> om_inv m \<and> dom (om_events m) = set (om_order m) \<and> (\<forall>i x. om_events m i = Some x \<longrightarrow> ob_ID x = i)"

lemma outbox_inv_save:
  "outbox_inv m \<Longrightarrow> om_events m (ob_ID e) = None \<Longrightarrow> outbox_inv (snd (om_Save e m))"
  unfolding outbox_inv_def om_inv_def om_Save_def by (auto simp: dom_def)

lemma settle_ID [simp]: "ob_ID (settle publish now e) = ob_ID e"
  by (simp add: settle_def split: option.splits)

lemma outbox_inv_settle: "outbox_inv m \<Longrightarrow> outbox_inv (settle_all publish now es m)"
proof -
  assume inv: "outbox_inv m"
  let ?m = "settle_all publish now es m"
  have v: "om_events ?m i = Some x \<Longrightarrow> ob_ID x = i" for i x using inv by (auto simp: outbox_inv_def settle_all_def)
  have d: "dom (om_events ?m) = dom (om_events m)" "om_order ?m = om_order m" by (auto simp: settle_all_def)
  have "\<exists>x. om_events ?m i = Some x \<and> ob_ID x = i" if "i \<in> set (om_order m)" for i
  proof -
    from that inv d(1) have "i \<in> dom (om_events ?m)" by (simp add: outbox_inv_def)
    then show ?thesis using v by blast
  qed
  then show ?thesis using inv v d by (simp add: outbox_inv_def om_inv_def)
qed

lemma poll_inv:
  assumes "outbox_inv m"
  shows "poll MemoryStore p publish stop now m =
    (filter (\<lambda>e. publish e = None) (attempted p stop m), settle_all publish now (attempted p stop m) m)"
  using assms by (intro poll_memory) (simp_all add: outbox_inv_def)

lemma attemptedD:
  assumes "outbox_inv m" "e \<in> set (attempted p stop m)"
  shows "om_events m (ob_ID e) = Some e" "unpublished e" "ob_Attempts e < pc_MaxAttempts p"
proof -
  from assms(2) have e: "e \<in> set (take (nat (pc_BatchSize p)) (backlog m))" "ob_Attempts e < pc_MaxAttempts p"
    by (auto simp: attempted_def dest!: set_takeWhileD)
  then show "om_events m (ob_ID e) = Some e" "ob_Attempts e < pc_MaxAttempts p"
    using om_inv_fetched(2) [of m] assms(1) by (auto simp: outbox_inv_def)
  show "unpublished e" using e(1) by (auto simp: backlog_def dest!: in_set_takeD)
qed

lemma distinct_attempted:
  assumes "outbox_inv m"
  shows "distinct (map ob_ID (attempted p stop m))"
proof -
  have "distinct (map ob_ID (take (nat (pc_BatchSize p)) (backlog m)))"
    using om_inv_fetched(1) assms by (simp add: outbox_inv_def)
  then have "distinct (map ob_ID (filter (\<lambda>e. ob_Attempts e < pc_MaxAttempts p) (take (nat (pc_BatchSize p)) (backlog m))))"
    by (rule distinct_map_filter)
  then show ?thesis unfolding attempted_def by (metis distinct_take takeWhile_eq_take take_map)
qed

lemma settle_all_at:
  assumes "outbox_inv m" "\<forall>e\<in>set es. om_events m (ob_ID e) = Some e" "om_events m i = Some x"
  shows "om_events (settle_all publish now es m) i = Some (if i \<in> ob_ID ` set es then settle publish now x else x)"
proof -
  have "x \<in> set es \<longleftrightarrow> i \<in> ob_ID ` set es" using assms unfolding outbox_inv_def by force
  with assms(3) show ?thesis by (simp add: settle_all_def)
qed

definition accepted_ok :: "PollerConfig \<Rightarrow> Event list \<Rightarrow> OutboxMemory \<Rightarrow> bool" where
  "accepted_ok p ps m \<longleftrightarrow> distinct (map ob_ID ps) \<and>
     (\<forall>e\<in>set ps. \<exists>x. om_events m (ob_ID e) = Some x \<and> ob_Status x = ''published'' \<and> ob_Payload x = ob_Payload e) \<and>
     (\<forall>i x. om_events m i = Some x \<longrightarrow> 0 \<le> ob_Attempts x \<and> ob_Attempts x \<le> pc_MaxAttempts p)"

lemma accepted_ok_poll:
  assumes "outbox_inv m" "accepted_ok p ps m" "poll MemoryStore p publish stop now m = (done, m2)"
  shows "accepted_ok p (ps @ done) m2"
proof -
  define es where "es = attempted p stop m"
  from assms(1,3) have r: "done = filter (\<lambda>e. publish e = None) es" "m2 = settle_all publish now es m"
    by (simp_all add: poll_inv es_def)
  note D = attemptedD [OF assms(1), of _ p stop, folded es_def]
  have at: "om_events m2 i = Some (if i \<in> ob_ID ` set es then settle publish now x else x)" if "om_events m i = Some x" for i x
    using settle_all_at [OF assms(1) _ that, of es] D(1) r(2) by simp
  have old: "ob_ID e \<notin> ob_ID ` set es" if "e \<in> set ps" for e
  proof
    assume "ob_ID e \<in> ob_ID ` set es"
    then obtain e' where e': "e' \<in> set es" "ob_ID e' = ob_ID e" by auto
    from assms(2) that obtain x where "om_events m (ob_ID e) = Some x" "ob_Status x = ''published''"
      by (auto simp: accepted_ok_def)
    with D(1,2) [OF e'(1)] e'(2) show False by (auto simp: unpublished_def)
  qed
  have "distinct (map ob_ID (ps @ done))"
    using assms(2) distinct_attempted [OF assms(1), of p stop] old
    by (auto simp: accepted_ok_def r(1) es_def intro: distinct_map_filter)
  moreover have "\<exists>x. om_events m2 (ob_ID e) = Some x \<and> ob_Status x = ''published'' \<and> ob_Payload x = ob_Payload e"
    if "e \<in> set (ps @ done)" for e
  proof (cases "e \<in> set ps")
    case True
    with assms(2) obtain x where "om_events m (ob_ID e) = Some x" "ob_Status x = ''published''" "ob_Payload x = ob_Payload e"
      by (auto simp: accepted_ok_def)
    with at old [OF True] show ?thesis by auto
  next
    case False
    with that have "e \<in> set es" "publish e = None" by (auto simp: r(1))
    with at [OF D(1)] show ?thesis by (auto simp: settle_def)
  qed
  moreover have "0 \<le> ob_Attempts x \<and> ob_Attempts x \<le> pc_MaxAttempts p" if "om_events m2 i = Some x" for i x
  proof -
    from that r(2) obtain y where y: "om_events m i = Some y" by (auto simp: settle_all_def)
    then have b: "0 \<le> ob_Attempts y" "ob_Attempts y \<le> pc_MaxAttempts p" using assms(2) by (auto simp: accepted_ok_def)
    show ?thesis
    proof (cases "i \<in> ob_ID ` set es")
      case True
      then obtain e where "e \<in> set es" "ob_ID e = i" by auto
      with D(1,3) y have "ob_Attempts y < pc_MaxAttempts p" by (metis option.inject)
      with at [OF y] that True b show ?thesis by (auto simp: settle_def split: option.splits)
    qed (use at [OF y] that b in auto)
  qed
  ultimately show ?thesis by (simp add: accepted_ok_def)
qed

lemma accepted_ok_save:
  assumes "accepted_ok p ps m" "om_events m (ob_ID e) = None" "ob_Attempts e = 0" "0 \<le> pc_MaxAttempts p"
  shows "accepted_ok p ps (snd (om_Save e m))"
proof -
  have "ob_ID e' \<noteq> ob_ID e" if "e' \<in> set ps" for e' using assms(1,2) that by (auto simp: accepted_ok_def)
  then show ?thesis using assms by (auto simp: accepted_ok_def om_Save_def)
qed

lemma run_inv:
  assumes "outbox_run p m ps m'" "outbox_inv m"
  shows "outbox_inv m'"
  using assms by (induction rule: outbox_run.induct) (auto simp: outbox_inv_save poll_inv outbox_inv_settle)

lemma NewMemoryStore_inv: "outbox_inv NewMemoryStore"
  by (simp add: outbox_inv_def om_inv_def NewMemoryStore_def)


lemma backlog_save:
  assumes "outbox_inv m" "om_events m (ob_ID e) = None"
  shows "backlog (snd (om_Save e m)) = backlog m @ (if unpublished e then [e] else [])"
proof -
  have "ob_ID e \<notin> set (om_order m)" using assms by (auto simp: outbox_inv_def)
  then have "map (\<lambda>i. the (((om_events m)(ob_ID e \<mapsto> e)) i)) (om_order m) = map (\<lambda>i. the (om_events m i)) (om_order m)"
    by (intro map_cong) auto
  moreover have "backlog (snd (om_Save e m)) =
      filter unpublished (map (\<lambda>i. the (((om_events m)(ob_ID e \<mapsto> e)) i)) (om_order m)) @ filter unpublished [e]"
    by (simp add: backlog_def om_Save_def)
  ultimately show ?thesis by (simp only: backlog_def) simp
qed

text \<open>
  Head-of-line blocking: once the oldest \<open>BatchSize\<close> unpublished events have all used up their
  attempts, the poller never offers any event again, whatever is saved and however often it runs.
\<close>

theorem outbox_starves:
  assumes "outbox_inv m" "outbox_run p m ps m'" "0 < pc_BatchSize p" "pc_BatchSize p \<le> int (length (backlog m))"
    "\<forall>e\<in>set (take (nat (pc_BatchSize p)) (backlog m)). pc_MaxAttempts p \<le> ob_Attempts e"
  shows "ps = [] \<and> (\<forall>e\<in>set (backlog m). om_events m' (ob_ID e) = Some e)"
proof -
  have "ps = [] \<and> (\<exists>zs. backlog m' = backlog m @ zs)"
    using assms(2)
  proof (induction rule: outbox_run.induct)
    case start
    show ?case by simp
  next
    case (save ps m1 e)
    then show ?case using backlog_save [OF run_inv [OF save.hyps(1) assms(1)] save.hyps(2)] by auto
  next
    case (cycle ps m1 publish stop now "done" m2)
    then have b: "take (nat (pc_BatchSize p)) (backlog m1) = take (nat (pc_BatchSize p)) (backlog m)"
      using assms(3,4) by auto
    have "filter (\<lambda>e. ob_Attempts e < pc_MaxAttempts p) (take (nat (pc_BatchSize p)) (backlog m)) = []"
      using assms(5) by (auto simp: filter_empty_conv)
    then have "attempted p stop m1 = []" by (simp add: attempted_def b)
    moreover have "settle_all publish now [] m1 = m1" by (cases m1) (simp add: settle_all_def option.map_ident)
    ultimately show ?case
      using cycle.hyps(2) cycle.IH poll_inv [OF run_inv [OF cycle.hyps(1) assms(1)]] by simp
  qed
  moreover have "om_events m' (ob_ID e) = Some e" if "e \<in> set (backlog m')" for e
  proof -
    have "om_inv m'" using run_inv [OF assms(2,1)] unfolding outbox_inv_def by blast
    from om_inv_fetched(2) [OF this, of e "length (backlog m')"] that show ?thesis by simp
  qed
  ultimately show ?thesis by (metis Un_iff set_append)
qed

definition example_event :: "ident \<Rightarrow> Event" where
  "example_event i = \<lparr>ob_ID = i, ob_AggregateID = ''a'', ob_EventType = ''t'', ob_Payload = ''{}'', ob_Status = ''pending'',
     ob_Attempts = 0, ob_LastError = [], ob_CreatedAt = 0, ob_PublishedAt = None\<rparr>"

definition small_poller :: PollerConfig where
  "small_poller = \<lparr>pc_Interval = second, pc_BatchSize = 1, pc_MaxAttempts = 1\<rparr>"

definition one_saved :: OutboxMemory where
  "one_saved = snd (om_Save (example_event ''1'') NewMemoryStore)"

lemma one_saved_run: "outbox_run small_poller NewMemoryStore [] one_saved"
  unfolding one_saved_def by (rule outbox_run.save [OF outbox_run.start]) (simp_all add: NewMemoryStore_def example_event_def)


text \<open>The first event fails once and is given up; the second is never offered.\<close>

definition stuck :: OutboxMemory where
  "stuck = snd (om_Save (example_event ''2'') (settle_all (\<lambda>_. Some ''down'') 9 [example_event ''1''] one_saved))"

theorem outbox_starves_witness:
  "fst (poll MemoryStore small_poller (\<lambda>_. None) (\<lambda>_. False) 10 stuck) = [] \<and>
   om_events (snd (poll MemoryStore small_poller (\<lambda>_. None) (\<lambda>_. False) 10 stuck)) ''2'' = Some (example_event ''2'')"
proof -
  obtain "done" m2 where p: "poll MemoryStore small_poller (\<lambda>_. None) (\<lambda>_. False) 10 stuck = (done, m2)" by fastforce
  have run: "outbox_run small_poller stuck ([] @ done) m2" by (rule outbox_run.cycle [OF outbox_run.start p])
  have inv: "outbox_inv stuck" unfolding stuck_def
    by (rule outbox_inv_save [OF outbox_inv_settle [OF run_inv [OF one_saved_run NewMemoryStore_inv]]])
      (simp add: settle_all_def one_saved_def om_Save_def NewMemoryStore_def example_event_def)
  have b: "backlog stuck = [(example_event ''1'')\<lparr>ob_Status := ''failed'', ob_LastError := ''down'', ob_Attempts := 1\<rparr>, example_event ''2'']"
    by code_simp
  from outbox_starves [OF inv run] b have "[] @ done = [] \<and> om_events m2 (ob_ID (example_event ''2'')) = Some (example_event ''2'')"
    by (auto simp: small_poller_def)
  with p show ?thesis by (simp add: example_event_def)
qed

section \<open>The dead letter queue\<close>

record Entry =
  dq_ID :: ident
  dq_OriginalID :: ident
  dq_Type :: string
  dq_Payload :: string
  dq_Error :: string
  dq_Attempts :: int
  dq_Source :: string
  dq_CreatedAt :: time
  dq_ReviewedAt :: "time option"
  dq_ReplayedAt :: "time option"
  dq_Status :: string

record Queue =
  qu_entries :: "ident \<rightharpoonup> Entry"
  qu_seq :: nat

definition NewQueue :: Queue where
  "NewQueue = \<lparr>qu_entries = Map.empty, qu_seq = 0\<rparr>"

definition dlq_id :: "nat \<Rightarrow> ident" where
  "dlq_id n = ''dlq-'' @ digits n"

definition dlq_Add :: "time \<Rightarrow> Entry \<Rightarrow> Queue \<Rightarrow> ident \<times> Queue" where
  "dlq_Add now entry q =
     (let n = qu_seq q + 1;
          e = entry\<lparr>dq_ID := dlq_id n, dq_Status := (if dq_Status entry = [] then ''PENDING'' else dq_Status entry),
                    dq_CreatedAt := (if is_zero_time (dq_CreatedAt entry) then now else dq_CreatedAt entry)\<rparr>
      in (dlq_id n, \<lparr>qu_entries = (qu_entries q)(dlq_id n \<mapsto> e), qu_seq = n\<rparr>))"

definition dlq_Get :: "ident \<Rightarrow> Queue \<Rightarrow> Entry option" where
  "dlq_Get i q = qu_entries q i"

definition dlq_update :: "ident \<Rightarrow> (Entry \<Rightarrow> Entry) \<Rightarrow> Queue \<Rightarrow> bool \<times> Queue" where
  "dlq_update i f q = (case qu_entries q i of
     None \<Rightarrow> (False, q) | Some e \<Rightarrow> (True, q\<lparr>qu_entries := (qu_entries q)(i \<mapsto> f e)\<rparr>))"

definition MarkReviewed :: "time \<Rightarrow> ident \<Rightarrow> Queue \<Rightarrow> bool \<times> Queue" where
  "MarkReviewed now i q = dlq_update i (\<lambda>e. e\<lparr>dq_Status := ''REVIEWED'', dq_ReviewedAt := Some now\<rparr>) q"

definition dlq_Replay :: "time \<Rightarrow> ident \<Rightarrow> Queue \<Rightarrow> bool \<times> Queue" where
  "dlq_Replay now i q = dlq_update i (\<lambda>e. e\<lparr>dq_Status := ''REPLAYED'', dq_ReplayedAt := Some now\<rparr>) q"

definition dlq_Discard :: "ident \<Rightarrow> Queue \<Rightarrow> bool \<times> Queue" where
  "dlq_Discard i q = dlq_update i (\<lambda>e. e\<lparr>dq_Status := ''DISCARDED''\<rparr>) q"

fun dlq_list_loop :: "string \<Rightarrow> string \<Rightarrow> int \<Rightarrow> Entry list \<Rightarrow> Entry list \<Rightarrow> Entry list" where
  "dlq_list_loop status ty limit [] result = result"
| "dlq_list_loop status ty limit (e # es) result =
     (if status \<noteq> [] \<and> dq_Status e \<noteq> status then dlq_list_loop status ty limit es result
      else if ty \<noteq> [] \<and> dq_Type e \<noteq> ty then dlq_list_loop status ty limit es result
      else if limit > 0 \<and> int (length result) + 1 \<ge> limit then result @ [e]
      else dlq_list_loop status ty limit es (result @ [e]))"

definition dlq_List :: "ident list \<Rightarrow> string \<Rightarrow> string \<Rightarrow> int \<Rightarrow> Queue \<Rightarrow> Entry list" where
  "dlq_List ks status ty limit q = dlq_list_loop status ty limit (range_vals ks (qu_entries q)) []"

definition dlq_Count :: "ident list \<Rightarrow> Queue \<Rightarrow> string \<rightharpoonup> nat" where
  "dlq_Count ks q = fold (\<lambda>e c. c(dq_Status e \<mapsto> (case c (dq_Status e) of None \<Rightarrow> 0 | Some n \<Rightarrow> n) + 1))
     (range_vals ks (qu_entries q)) Map.empty"

definition dlq_inv :: "Queue \<Rightarrow> bool" where
  "dlq_inv q \<longleftrightarrow> (\<forall>i e. qu_entries q i = Some e \<longrightarrow> dq_ID e = i \<and> (\<exists>n. 1 \<le> n \<and> n \<le> qu_seq q \<and> i = dlq_id n))"

lemma dlq_id_inj: "dlq_id m = dlq_id n \<Longrightarrow> m = n"
  by (simp add: dlq_id_def digits_inj)

lemma dlq_Add_fresh:
  assumes "dlq_inv q"
  shows "qu_entries q (fst (dlq_Add now e q)) = None"
proof (rule ccontr)
  assume "qu_entries q (fst (dlq_Add now e q)) \<noteq> None"
  then obtain n where "n \<le> qu_seq q" "dlq_id (qu_seq q + 1) = dlq_id n"
    using assms by (auto simp: dlq_Add_def dlq_inv_def Let_def)
  with dlq_id_inj show False by fastforce
qed

lemma dlq_inv_keep:
  "dlq_inv NewQueue"
  "dlq_inv q \<Longrightarrow> dlq_inv (snd (dlq_Add now e q))"
  "dlq_inv q \<Longrightarrow> (\<And>e. dq_ID (f e) = dq_ID e) \<Longrightarrow> dlq_inv (snd (dlq_update i f q))"
    apply (simp add: dlq_inv_def NewQueue_def)
   apply (fastforce simp: dlq_inv_def dlq_Add_def Let_def)
  apply (auto simp: dlq_inv_def dlq_update_def split: option.splits)
  done

lemma dlq_list_loop_filter:
  defines "keep \<equiv> \<lambda>status ty e. (status = [] \<or> dq_Status e = status) \<and> (ty = [] \<or> dq_Type e = ty)"
  shows "int (length result) < limit \<or> limit \<le> 0 \<Longrightarrow> dlq_list_loop status ty limit es result =
    (if limit > 0 then take (nat limit) (result @ filter (keep status ty) es) else result @ filter (keep status ty) es)"
proof (induction es arbitrary: result)
  case (Cons e es)
  have k: "nat limit - length result = Suc (nat limit - Suc (length result))" if "limit > 0"
    using Cons.prems that by linarith
  show ?case
    using Cons k by (auto simp: keep_def)
qed auto

lemma dlq_Count_eq:
  "dlq_Count ks q st = (let n = length (filter (\<lambda>e. dq_Status e = st) (range_vals ks (qu_entries q))) in
     if n = 0 then None else Some n)"
proof -
  define f where "f = (\<lambda>(e :: Entry) c. c(dq_Status e \<mapsto> (case c (dq_Status e) of None \<Rightarrow> 0 | Some n \<Rightarrow> n) + (1 :: nat)))"
  have "fold f es c st = (let n = length (filter (\<lambda>e. dq_Status e = st) es) in
      if n = 0 then c st else Some ((case c st of None \<Rightarrow> 0 | Some k \<Rightarrow> k) + n))" for es :: "Entry list" and c
    by (induction es arbitrary: c) (auto simp: f_def Let_def split: option.splits)
  from this [of "range_vals ks (qu_entries q)" Map.empty] show ?thesis by (simp add: dlq_Count_def f_def Let_def)
qed

section \<open>Idempotency keys\<close>

record IdemEntry =
  ik_Key :: string
  ik_Status :: string
  ik_StatusCode :: int
  ik_Headers :: "(string \<rightharpoonup> string) option"
  ik_Body :: string
  ik_CreatedAt :: time
  ik_CompletedAt :: "time option"

type_synonym idem = "string \<rightharpoonup> IdemEntry"

definition idem_Lock :: "time \<Rightarrow> string \<Rightarrow> idem \<Rightarrow> bool \<times> idem" where
  "idem_Lock now key m =
     (case m key of
        Some e \<Rightarrow>
          if ik_Status e = ''failed'' then (True, m(key \<mapsto> e\<lparr>ik_Status := ''processing'', ik_CreatedAt := now\<rparr>))
          else (False, m)
      | None \<Rightarrow> (True, m(key \<mapsto> \<lparr>ik_Key = key, ik_Status = ''processing'', ik_StatusCode = 0, ik_Headers = None,
                     ik_Body = [], ik_CreatedAt = now, ik_CompletedAt = None\<rparr>)))"

definition idem_Complete :: "time \<Rightarrow> string \<Rightarrow> int \<Rightarrow> (string \<rightharpoonup> string) option \<Rightarrow> string \<Rightarrow> idem \<Rightarrow> idem" where
  "idem_Complete now key code headers body m =
     (case m key of None \<Rightarrow> m
      | Some e \<Rightarrow> m(key \<mapsto> e\<lparr>ik_Status := ''completed'', ik_StatusCode := code, ik_Headers := headers, ik_Body := body,
          ik_CompletedAt := Some now\<rparr>))"

definition idem_Fail :: "string \<Rightarrow> idem \<Rightarrow> idem" where
  "idem_Fail key m = (case m key of None \<Rightarrow> m | Some e \<Rightarrow> m(key \<mapsto> e\<lparr>ik_Status := ''failed''\<rparr>))"

definition idem_Cleanup :: "time \<Rightarrow> int \<Rightarrow> string list \<Rightarrow> idem \<Rightarrow> nat \<times> idem" where
  "idem_Cleanup now maxAge ks m =
     (let old = (\<lambda>k. case m k of None \<Rightarrow> False | Some e \<Rightarrow> ik_CreatedAt e < now - maxAge)
      in (length (filter old ks), (\<lambda>k. if old k then None else m k)))"

text \<open>The answer of \<open>Check\<close>: the stored entry of a duplicate, and whether to go on.\<close>

definition idem_Check :: "time \<Rightarrow> string \<Rightarrow> idem \<Rightarrow> (IdemEntry option \<times> bool) \<times> idem" where
  "idem_Check now key m =
     (if key = [] then ((None, True), m)
      else let (locked, m') = idem_Lock now key m in
        if locked then ((None, True), m') else ((m' key, False), m'))"

definition idem_handler_Complete :: "time \<Rightarrow> string \<Rightarrow> int \<Rightarrow> (string \<rightharpoonup> string) option \<Rightarrow> string \<Rightarrow> idem \<Rightarrow> idem" where
  "idem_handler_Complete now key code headers body m = (if key = [] then m else idem_Complete now key code headers body m)"

definition idem_handler_Fail :: "string \<Rightarrow> idem \<Rightarrow> idem" where
  "idem_handler_Fail key m = (if key = [] then m else idem_Fail key m)"

datatype idem_op =
    ICheck time string
  | IComplete time string int "(string \<rightharpoonup> string) option" string
  | IFail string
  | ICleanup time int "string list"

fun idem_apply :: "idem_op \<Rightarrow> idem \<Rightarrow> idem" where
  "idem_apply (ICheck now key) m = snd (idem_Check now key m)"
| "idem_apply (IComplete now key code h b) m = idem_handler_Complete now key code h b m"
| "idem_apply (IFail key) m = idem_handler_Fail key m"
| "idem_apply (ICleanup now age ks) m = snd (idem_Cleanup now age ks m)"

text \<open>Operations that neither complete nor fail \<open>key\<close>, nor clean up.\<close>

fun idem_leaves :: "string \<Rightarrow> idem_op \<Rightarrow> bool" where
  "idem_leaves key (ICheck now k) = True"
| "idem_leaves key (IComplete now k code h b) = (k \<noteq> key)"
| "idem_leaves key (IFail k) = (k \<noteq> key)"
| "idem_leaves key (ICleanup now age ks) = False"

lemma idem_apply_leaves:
  "idem_leaves key op \<Longrightarrow> m key = Some e \<Longrightarrow> ik_Status e \<noteq> ''failed'' \<Longrightarrow> idem_apply op m key = Some e"
  by (cases op) (auto simp: idem_Check_def idem_Lock_def idem_handler_Complete_def idem_Complete_def idem_handler_Fail_def
      idem_Fail_def Let_def split: option.splits if_splits prod.splits)

text \<open>
  A key is new once: after a \<open>Check\<close> that said so, every further one is a duplicate until the request has
  failed or the entry is cleaned up; once the request is completed, duplicates get its response.
\<close>

lemma idempotency:
  assumes "idem_Check now key m = ((x, True), m1)" "key \<noteq> []" "\<forall>op\<in>set ops. idem_leaves key op"
  shows "\<exists>e. idem_Check t key (fold idem_apply ops m1) = ((Some e, False), fold idem_apply ops m1)"
    and "\<forall>op\<in>set ops'. idem_leaves key op \<Longrightarrow>
      \<exists>e m3. idem_Check t key (fold idem_apply ops' (idem_handler_Complete t' key code h b (fold idem_apply ops m1))) = ((Some e, False), m3) \<and>
        ik_Status e = ''completed'' \<and> ik_StatusCode e = code \<and> ik_Headers e = h \<and> ik_Body e = b"
proof -
  have fold: "fold idem_apply os m0 key = Some e" if "\<forall>op\<in>set os. idem_leaves key op" "m0 key = Some e" "ik_Status e \<noteq> ''failed''" for os m0 e
    using that by (induction os arbitrary: m0) (auto simp: idem_apply_leaves)
  from assms(1,2) obtain e where e: "m1 key = Some e" "ik_Status e = ''processing''"
    by (auto simp: idem_Check_def idem_Lock_def Let_def split: option.splits if_splits)
  then have f: "fold idem_apply ops m1 key = Some e" using fold [OF assms(3)] by simp
  then show "\<exists>e. idem_Check t key (fold idem_apply ops m1) = ((Some e, False), fold idem_apply ops m1)"
    using e(2) assms(2) by (simp add: idem_Check_def idem_Lock_def)
  assume l: "\<forall>op\<in>set ops'. idem_leaves key op"
  define c where "c = e\<lparr>ik_Status := ''completed'', ik_StatusCode := code, ik_Headers := h, ik_Body := b, ik_CompletedAt := Some t'\<rparr>"
  have "idem_handler_Complete t' key code h b (fold idem_apply ops m1) key = Some c"
    using f assms(2) by (simp add: idem_handler_Complete_def idem_Complete_def c_def)
  then have "fold idem_apply ops' (idem_handler_Complete t' key code h b (fold idem_apply ops m1)) key = Some c"
    by (intro fold l) (simp_all add: c_def)
  then show "\<exists>e m3. idem_Check t key (fold idem_apply ops' (idem_handler_Complete t' key code h b (fold idem_apply ops m1))) = ((Some e, False), m3) \<and>
        ik_Status e = ''completed'' \<and> ik_StatusCode e = code \<and> ik_Headers e = h \<and> ik_Body e = b"
    using assms(2) by (simp add: idem_Check_def idem_Lock_def c_def)
qed

end
