(* ===== verification/Lib_Access.thy ===== *)
theory Lib_Access
  imports GP_Text "HOL-Library.Sublist" "HOL-Library.List_Lexorder" "HOL-Library.Char_ord"
begin

text \<open>
  Access decisions of the shared library: scopes and roles (\<open>packages/golib/permission\<close>), the policy
  engine (\<open>packages/golib/policy\<close>), the scope checks of a request (\<open>packages/golib/scopecheck\<close>) and field
  masks (\<open>packages/golib/fieldmask\<close>).
\<close>

section \<open>Scopes\<close>

definition Scope_Match :: "string \<Rightarrow> string \<Rightarrow> bool" where
  "Scope_Match s required \<longleftrightarrow>
     (if s = ''*'' \<or> required = ''*'' then True
      else if s = required then True
      else if suffix ''.*'' s then prefix (take (length s - 2) s @ ''.'') required
      else False)"

type_synonym grants = "ident \<rightharpoonup> string list"

definition scopes_of :: "ident \<Rightarrow> grants \<Rightarrow> string list" where
  "scopes_of subject g = (case g subject of None \<Rightarrow> [] | Some ss \<Rightarrow> ss)"

definition perm_Grant :: "ident \<Rightarrow> string list \<Rightarrow> grants \<Rightarrow> grants" where
  "perm_Grant subject scopes g = g(subject \<mapsto> scopes_of subject g @ scopes)"

definition perm_Revoke :: "ident \<Rightarrow> grants \<Rightarrow> grants" where
  "perm_Revoke subject g = g(subject := None)"

definition RevokeScope :: "ident \<Rightarrow> string \<Rightarrow> grants \<Rightarrow> grants" where
  "RevokeScope subject scope g = g(subject \<mapsto> filter (\<lambda>s. s \<noteq> scope) (scopes_of subject g))"

definition HasPermission :: "ident \<Rightarrow> string \<Rightarrow> grants \<Rightarrow> bool" where
  "HasPermission subject required g = list_ex (\<lambda>s. Scope_Match s required) (scopes_of subject g)"

definition HasAny :: "ident \<Rightarrow> string list \<Rightarrow> grants \<Rightarrow> bool" where
  "HasAny subject required g = list_ex (\<lambda>r. HasPermission subject r g) required"

definition HasAll :: "ident \<Rightarrow> string list \<Rightarrow> grants \<Rightarrow> bool" where
  "HasAll subject required g = list_all (\<lambda>r. HasPermission subject r g) required"

text \<open>Any grant at all passes a check for the scope \<open>*\<close>.\<close>

lemma star_required: "HasPermission subject ''*'' g \<longleftrightarrow> scopes_of subject g \<noteq> []"
  by (cases "scopes_of subject g") (auto simp: HasPermission_def Scope_Match_def)

lemma revoked_scope:
  "required \<noteq> ''*'' \<Longrightarrow> \<not> suffix ''.*'' required \<Longrightarrow>
     HasPermission subject required (RevokeScope subject scope g) \<longleftrightarrow>
     (\<exists>s\<in>set (scopes_of subject g). s \<noteq> scope \<and> Scope_Match s required)"
  by (auto simp: HasPermission_def RevokeScope_def scopes_of_def list_ex_iff)

section \<open>Roles that inherit\<close>

record RoleHierarchy =
  rh_roles :: "ident \<rightharpoonup> string list"
  rh_parents :: "ident \<rightharpoonup> ident"

definition NewRoleHierarchy :: RoleHierarchy where
  "NewRoleHierarchy = \<lparr>rh_roles = Map.empty, rh_parents = Map.empty\<rparr>"

definition rh_Define :: "ident \<Rightarrow> string list \<Rightarrow> RoleHierarchy \<Rightarrow> RoleHierarchy" where
  "rh_Define name scopes h = h\<lparr>rh_roles := (rh_roles h)(name \<mapsto> scopes)\<rparr>"

definition rh_Inherit :: "ident \<Rightarrow> ident \<Rightarrow> RoleHierarchy \<Rightarrow> RoleHierarchy" where
  "rh_Inherit child parent h = h\<lparr>rh_parents := (rh_parents h)(child \<mapsto> parent)\<rparr>"

partial_function (option) resolveRecursive :: "RoleHierarchy \<Rightarrow> ident \<Rightarrow> ident set \<Rightarrow> string list option" where
  "resolveRecursive h roleName visited =
     (if roleName \<in> visited then Some []
      else let own = (case rh_roles h roleName of None \<Rightarrow> [] | Some ss \<Rightarrow> ss) in
        case rh_parents h roleName of
          None \<Rightarrow> Some own
        | Some parent \<Rightarrow> Option.bind (resolveRecursive h parent (insert roleName visited)) (\<lambda>ss. Some (own @ ss)))"

declare resolveRecursive.simps [code]

definition ResolveScopes :: "RoleHierarchy \<Rightarrow> ident \<Rightarrow> string list option" where
  "ResolveScopes h roleName = resolveRecursive h roleName {}"

definition inherits :: "RoleHierarchy \<Rightarrow> (ident \<times> ident) set" where
  "inherits h = {(c, p). rh_parents h c = Some p}"

definition own_scopes :: "RoleHierarchy \<Rightarrow> ident \<Rightarrow> string list" where
  "own_scopes h r = (case rh_roles h r of None \<Rightarrow> [] | Some ss \<Rightarrow> ss)"

text \<open>The inheritance that does not lead into \<open>v\<close>.\<close>

definition outside :: "RoleHierarchy \<Rightarrow> ident set \<Rightarrow> (ident \<times> ident) set" where
  "outside h v = {(c, p). rh_parents h c = Some p \<and> p \<notin> v}"

lemma outside_step:
  assumes "(r, a) \<in> (outside h v)\<^sup>*" "rh_parents h r = Some p"
  shows "a = r \<or> p \<notin> insert r v \<and> (p, a) \<in> (outside h (insert r v))\<^sup>*"
  using assms(1)
proof (induction rule: rtrancl_induct)
  case (step a b)
  then have b: "rh_parents h a = Some b" "b \<notin> v" by (auto simp: outside_def)
  show ?case
  proof (cases "b = r")
    case False
    from step.IH show ?thesis
    proof
      assume "a = r" with b False assms(2) show ?thesis by auto
    next
      assume "p \<notin> insert r v \<and> (p, a) \<in> (outside h (insert r v))\<^sup>*"
      moreover have "(a, b) \<in> outside h (insert r v)" using b False by (simp add: outside_def)
      ultimately show ?thesis by (meson rtrancl.rtrancl_into_rtrancl)
    qed
  qed simp
qed simp

lemma outside_mono: "v \<subseteq> w \<Longrightarrow> (outside h w)\<^sup>* \<subseteq> (outside h v)\<^sup>*"
  by (rule rtrancl_mono) (auto simp: outside_def)

lemma resolve_total:
  assumes "finite (dom (rh_parents h))"
  shows "\<exists>ss. resolveRecursive h r v = Some ss \<and>
    set ss = (if r \<in> v then {} else (\<Union>a\<in>{a. (r, a) \<in> (outside h v)\<^sup>*}. set (own_scopes h a)))"
proof (induction "card (dom (rh_parents h) - v)" arbitrary: r v rule: less_induct)
  case less
  note step = resolveRecursive.simps [of h r v]
  show ?case
  proof (cases "r \<in> v")
    case True
    with step show ?thesis by auto
  next
    case new: False
    show ?thesis
    proof (cases "rh_parents h r")
      case None
      have "{a. (r, a) \<in> (outside h v)\<^sup>*} = {r}" using None by (auto simp: outside_def elim: converse_rtranclE)
      then show ?thesis using step new None by (simp add: own_scopes_def)
    next
      case (Some p)
      have "card (dom (rh_parents h) - insert r v) < card (dom (rh_parents h) - v)"
        by (rule psubset_card_mono) (use assms new Some in auto)
      from less.hyps [OF this, of p] obtain ss where ss: "resolveRecursive h p (insert r v) = Some ss"
        "set ss = (if p \<in> insert r v then {} else (\<Union>a\<in>{a. (p, a) \<in> (outside h (insert r v))\<^sup>*}. set (own_scopes h a)))"
        by blast
      have "{a. (r, a) \<in> (outside h v)\<^sup>*} =
          insert r (if p \<in> insert r v then {} else {a. (p, a) \<in> (outside h (insert r v))\<^sup>*})" (is "?A = ?B")
      proof (intro equalityI subsetI)
        fix a assume "a \<in> ?A" then show "a \<in> ?B" using outside_step [of r a h v p] Some by auto
      next
        fix a assume "a \<in> ?B"
        then consider "a = r" | "p \<notin> insert r v" "(p, a) \<in> (outside h (insert r v))\<^sup>*" by (auto split: if_splits)
        then show "a \<in> ?A"
        proof cases
          case 2
          then have "(r, p) \<in> outside h v" "(p, a) \<in> (outside h v)\<^sup>*"
            using Some outside_mono [of v "insert r v" h] by (auto simp: outside_def)
          then show ?thesis by (simp add: converse_rtrancl_into_rtrancl)
        qed simp
      qed
      moreover have "resolveRecursive h r v = Some (own_scopes h r @ ss)"
        using step new Some ss(1) by (simp add: own_scopes_def)
      ultimately show ?thesis using new ss(2) by auto
    qed
  qed
qed

text \<open>\<open>ResolveScopes\<close> ends, also for roles that inherit from each other in a cycle, with the scopes of the role
  and of every role it inherits from.\<close>

lemma resolve_scopes:
  assumes "finite (dom (rh_parents h))"
  shows "\<exists>ss. ResolveScopes h r = Some ss \<and> set ss = (\<Union>a\<in>{a. (r, a) \<in> (inherits h)\<^sup>*}. set (own_scopes h a))"
proof -
  have "outside h {} = inherits h" by (auto simp: outside_def inherits_def)
  with resolve_total [OF assms, of r "{}"] show ?thesis by (simp add: ResolveScopes_def)
qed

section \<open>Patterns of the policy engine\<close>

fun Index :: "string \<Rightarrow> string \<Rightarrow> nat option" where
  "Index part [] = (if part = [] then Some 0 else None)"
| "Index part (c # s) = (if prefix part (c # s) then Some 0 else map_option Suc (Index part s))"

fun match_parts :: "bool \<Rightarrow> string list \<Rightarrow> string \<Rightarrow> string option" where
  "match_parts first [] remaining = Some remaining"
| "match_parts first (part # parts) remaining =
     (if part = [] then match_parts False parts remaining
      else case Index part remaining of
        None \<Rightarrow> None
      | Some idx \<Rightarrow>
          if first \<and> idx \<noteq> 0 then None else match_parts False parts (drop (idx + length part) remaining))"

definition policy_Match :: "string \<Rightarrow> string \<Rightarrow> bool" where
  "policy_Match pattern v =
     (if pattern = ''*'' then True
      else if CHR ''*'' \<notin> set pattern then pattern = v
      else case match_parts True (split_on (CHR ''*'') pattern) v of
        None \<Rightarrow> False
      | Some remaining \<Rightarrow> suffix ''*'' pattern \<or> remaining = [])"

text \<open>What a pattern means: a star stands for any string.\<close>

fun glob :: "string \<Rightarrow> string \<Rightarrow> bool" where
  "glob [] v \<longleftrightarrow> v = []"
| "glob (c # p) v \<longleftrightarrow>
     (if c = CHR ''*'' then \<exists>k\<le>length v. glob p (drop k v)
      else case v of [] \<Rightarrow> False | d # v' \<Rightarrow> d = c \<and> glob p v')"

fun glob_rest :: "string list \<Rightarrow> string \<Rightarrow> bool" where
  "glob_rest [] v \<longleftrightarrow> v = []"
| "glob_rest (q # qs) v \<longleftrightarrow> (\<exists>a b. v = a @ q @ b \<and> glob_rest qs b)"

lemma glob_literal: "CHR ''*'' \<notin> set q \<Longrightarrow> glob (q @ p) v \<longleftrightarrow> (\<exists>b. v = q @ b \<and> glob p b)"
  by (induction q arbitrary: v) (auto split: list.splits)

lemma glob_star: "glob (CHR ''*'' # p) v \<longleftrightarrow> (\<exists>a b. v = a @ b \<and> glob p b)"
proof
  assume "glob (CHR ''*'' # p) v"
  then obtain k where "k \<le> length v" "glob p (drop k v)" by auto
  then have "v = take k v @ drop k v \<and> glob p (drop k v)" by simp
  then show "\<exists>a b. v = a @ b \<and> glob p b" by blast
next
  assume "\<exists>a b. v = a @ b \<and> glob p b"
  then obtain a b where "v = a @ b" "glob p b" by blast
  then have "length a \<le> length v \<and> glob p (drop (length a) v)" by simp
  then show "glob (CHR ''*'' # p) v" by auto
qed

text \<open>A pattern is a first part and the parts after its stars.\<close>

definition joined :: "string \<Rightarrow> string list \<Rightarrow> string" where
  "joined q0 qs = q0 @ concat (map (\<lambda>q. CHR ''*'' # q) qs)"

lemma split_on_stars:
  "\<exists>q0 qs. split_on d p = q0 # qs \<and> d \<notin> set q0 \<and> (\<forall>q\<in>set qs. d \<notin> set q) \<and> p = q0 @ concat (map (\<lambda>q. d # q) qs)"
proof (induction p)
  case (Cons c p)
  then obtain q0 qs where "split_on d p = q0 # qs" "d \<notin> set q0" "\<forall>q\<in>set qs. d \<notin> set q" "p = q0 @ concat (map (\<lambda>q. d # q) qs)"
    by blast
  then show ?case by (cases "c = d") auto
qed simp

lemma glob_stars:
  "\<forall>q\<in>set qs. CHR ''*'' \<notin> set q \<Longrightarrow> glob (concat (map (\<lambda>q. CHR ''*'' # q) qs)) v \<longleftrightarrow> glob_rest qs v"
proof (induction qs arbitrary: v)
  case (Cons q qs)
  then have "glob (q @ concat (map (\<lambda>q. CHR ''*'' # q) qs)) b \<longleftrightarrow> (\<exists>c. b = q @ c \<and> glob_rest qs c)" for b
    by (simp add: glob_literal)
  then show ?case by (simp only: list.map concat.simps append_Cons glob_star) auto
qed simp

lemma Index_Some: "Index q s = Some k \<Longrightarrow> \<exists>a b. s = a @ q @ b \<and> k = length a"
proof (induction s arbitrary: k)
  case (Cons c s)
  show ?case
  proof (cases "prefix q (c # s)")
    case False
    with Cons obtain a b where "s = a @ q @ b" "k = Suc (length a)" by fastforce
    then show ?thesis by (intro exI [of _ "c # a"] exI [of _ b]) auto
  qed (use Cons in \<open>auto simp: prefix_def\<close>)
qed (auto split: if_splits)

text \<open>The first occurrence leaves at least as much of the string as any other.\<close>

lemma Index_first:
  "s = a @ q @ b \<Longrightarrow> \<exists>k. Index q s = Some k \<and> k \<le> length a \<and> (\<exists>c. drop (k + length q) s = c @ b)"
proof (induction s arbitrary: a)
  case (Cons x s)
  show ?case
  proof (cases "prefix q (x # s)")
    case True
    then have "Index q (x # s) = Some 0" by simp
    moreover have "drop (0 + length q) (x # s) = drop (length q) (a @ q) @ b" unfolding Cons.prems by simp
    ultimately show ?thesis by blast
  next
    case False
    with Cons.prems obtain a' where "a = x # a'" "s = a' @ q @ b" by (cases a) auto
    with Cons.IH [of a'] False show ?thesis by fastforce
  qed
qed auto

lemma glob_rest_front: "qs \<noteq> [] \<Longrightarrow> glob_rest qs b \<Longrightarrow> glob_rest qs (c @ b)"
  by (cases qs) (auto, metis append_assoc)

lemma match_parts_sound:
  "match_parts False qs v = Some r \<Longrightarrow> r = [] \<or> (qs \<noteq> [] \<and> last qs = []) \<Longrightarrow> glob_rest qs v"
proof (induction qs arbitrary: v)
  case (Cons q qs)
  show ?case
  proof (cases "q = []")
    case True
    show ?thesis
    proof (cases "qs = []")
      case False
      with Cons True have "glob_rest qs v" by auto
      with True show ?thesis by auto
    qed (use True in auto)
  next
    case False
    with Cons.prems(1) obtain k where k: "Index q v = Some k" "match_parts False qs (drop (k + length q) v) = Some r"
      by (auto split: option.splits)
    from Index_Some [OF k(1)] obtain a b where ab: "v = a @ q @ b" "k = length a" by blast
    then have "match_parts False qs b = Some r" using k(2) by simp
    moreover have "r = [] \<or> (qs \<noteq> [] \<and> last qs = [])" using Cons.prems(2) False by (auto split: if_splits)
    ultimately have "glob_rest qs b" by (rule Cons.IH)
    with ab show ?thesis by auto
  qed
qed auto

lemma match_parts_complete:
  "glob_rest qs v \<Longrightarrow> qs \<noteq> [] \<Longrightarrow> \<exists>r. match_parts False qs v = Some r"
proof (induction qs arbitrary: v)
  case (Cons q qs)
  then obtain a b where ab: "v = a @ q @ b" "glob_rest qs b" by auto
  show ?case
  proof (cases "q = []")
    case True
    show ?thesis
    proof (cases "qs = []")
      case False
      with Cons.IH [of v] glob_rest_front [OF False ab(2), of a] ab(1) True show ?thesis by simp
    qed (use True in simp)
  next
    case False
    from Index_first [OF ab(1)] obtain k c where k: "Index q v = Some k" "drop (k + length q) v = c @ b" by blast
    show ?thesis
    proof (cases "qs = []")
      case True with k False show ?thesis by simp
    next
      case ne: False
      with Cons.IH [of "c @ b"] glob_rest_front [OF ne ab(2), of c] k False show ?thesis by simp
    qed
  qed
qed simp

lemma policy_match_glob_iff:
  shows policy_match_sound: "policy_Match p v \<Longrightarrow> glob p v"
    and "CHR ''*'' \<notin> set p \<or> suffix ''*'' p \<Longrightarrow> policy_Match p v = glob p v"
proof -
  obtain q0 qs where s: "split_on (CHR ''*'') p = q0 # qs" "CHR ''*'' \<notin> set q0" "\<forall>q\<in>set qs. CHR ''*'' \<notin> set q"
    "p = q0 @ concat (map (\<lambda>q. CHR ''*'' # q) qs)" using split_on_stars by blast
  have g: "glob p v \<longleftrightarrow> (\<exists>b. v = q0 @ b \<and> glob_rest qs b)"
    unfolding s(4) by (simp add: glob_literal [OF s(2)] glob_stars [OF s(3)])
  have ends: "suffix ''*'' p \<longleftrightarrow> qs \<noteq> [] \<and> last qs = []"
  proof (cases qs rule: rev_cases)
    case Nil
    with s(2,4) show ?thesis by (auto simp: suffix_def)
  next
    case (snoc qs' q)
    then have "p = (q0 @ concat (map (\<lambda>q. CHR ''*'' # q) qs')) @ CHR ''*'' # q" using s(4) by simp
    with s(3) snoc show ?thesis by (cases q rule: rev_cases) (auto simp: suffix_def)
  qed
  have first: "match_parts True (q0 # qs) v = (if prefix q0 v then match_parts False qs (drop (length q0) v) else None)"
  proof (cases "q0 = []")
    case False
    show ?thesis
    proof (cases v)
      case (Cons c v')
      then show ?thesis using False by (auto split: option.splits)
    qed (use False in auto)
  qed simp
  have pre: "prefix q0 v \<longleftrightarrow> (\<exists>b. v = q0 @ b)" by (auto simp: prefix_def)
  have star: "glob ''*'' v" by (auto intro: exI [of _ "length v"])
  define mp where "mp = match_parts True (q0 # qs) v"
  have m: "policy_Match p v = (if p = ''*'' then True else if CHR ''*'' \<notin> set p then p = v
      else case mp of None \<Rightarrow> False | Some r \<Rightarrow> suffix ''*'' p \<or> r = [])"
    by (simp only: policy_Match_def s(1) mp_def)
  have whole: "CHR ''*'' \<notin> set p \<Longrightarrow> glob p v \<longleftrightarrow> p = v" using glob_literal [of p "[]" v] by auto
  have sound: "glob p v" if "mp = Some r" "suffix ''*'' p \<or> r = []" for r
  proof -
    from that(1) first obtain b where "v = q0 @ b" "match_parts False qs b = Some r" by (auto simp: mp_def pre split: if_splits)
    with match_parts_sound [of qs b r] that(2) ends g show ?thesis by blast
  qed
  have complete: "mp \<noteq> None" if "suffix ''*'' p" "glob p v"
  proof -
    from that(2) g obtain b where b: "v = q0 @ b" "glob_rest qs b" by blast
    from match_parts_complete [OF b(2)] that(1) ends first b(1) show ?thesis by (auto simp: mp_def)
  qed
  show "policy_Match p v \<Longrightarrow> glob p v"
    unfolding m using star whole sound by (cases mp) (auto split: if_splits)
  show "CHR ''*'' \<notin> set p \<or> suffix ''*'' p \<Longrightarrow> policy_Match p v = glob p v"
    unfolding m using star whole sound complete by (cases mp) auto
qed

text \<open>
  The patterns of the policy engine: whatever \<open>Match\<close> accepts is an instance of the pattern, and for
  patterns without a star or ending in one it accepts every instance; for others it may refuse one,
  because each part is matched at its first occurrence.
\<close>

theorem policy_match_glob:
  "(policy_Match p v \<longrightarrow> glob p v) \<and>
   (CHR ''*'' \<notin> set p \<or> suffix ''*'' p \<longrightarrow> policy_Match p v = glob p v) \<and>
   glob ''*:read'' ''a:read:read'' \<and> \<not> policy_Match ''*:read'' ''a:read:read''"
proof -
  have "glob ''*:read'' ''a:read:read''"
    unfolding glob_star using glob_literal [of "'':read''" "[]" "'':read''"]
    by (intro exI [of _ "''a:read''"] exI [of _ "'':read''"]) simp
  moreover have "\<not> policy_Match ''*:read'' ''a:read:read''" by code_simp
  ultimately show ?thesis using policy_match_glob_iff [of p v] by blast
qed

theorem policy_match_glob_witness:
  "policy_Match ''api:/v1/sign/*'' ''api:/v1/sign/certificates'' \<and> glob ''api:/v1/sign/*'' ''api:/v1/sign/certificates''"
proof -
  have "policy_Match ''api:/v1/sign/*'' ''api:/v1/sign/certificates''" by code_simp
  then show ?thesis using policy_match_glob [of "''api:/v1/sign/*''" "''api:/v1/sign/certificates''"] by blast
qed

section \<open>The policy engine\<close>

text \<open>
  A value of a condition or a context; \<open>'f\<close> stands for \<open>float64\<close>.
  What the engine uses of numbers and of the verb \<open>%v\<close> is the record \<open>values\<close>: the conversion, the two
  comparisons, and the text of a value.
\<close>

datatype 'f pvalue = PInt int | PFloat 'f | PStr string | PBool bool | PStrs "string list" | PList "'f pvalue list"

record 'f "values" =
  va_float64 :: "int \<Rightarrow> 'f"
  va_lt :: "'f \<Rightarrow> 'f \<Rightarrow> bool"
  va_le :: "'f \<Rightarrow> 'f \<Rightarrow> bool"
  va_Sprint :: "'f pvalue \<Rightarrow> string"

record 'f Condition =
  cn_Key :: string
  cn_Operator :: string
  cn_Value :: "'f pvalue"

record 'f Policy =
  pl_ID :: ident
  pl_Name :: string
  pl_Effect :: string
  pl_Subjects :: "string list"
  pl_Resources :: "string list"
  pl_Actions :: "string list"
  pl_Conditions :: "'f Condition list"

record 'f Request =
  rt_Subject :: string
  rt_Resource :: string
  rt_Action :: string
  rt_Context :: "(string \<rightharpoonup> 'f pvalue) option"

definition matchAny :: "string list \<Rightarrow> string \<Rightarrow> bool" where
  "matchAny patterns v = list_ex (\<lambda>p. policy_Match p v) patterns"

definition policyMatchesRequest :: "'f Policy \<Rightarrow> 'f Request \<Rightarrow> bool" where
  "policyMatchesRequest p req \<longleftrightarrow> matchAny (pl_Subjects p) (rt_Subject req) \<and>
     matchAny (pl_Resources p) (rt_Resource req) \<and> matchAny (pl_Actions p) (rt_Action req)"

definition toFloat :: "'f values \<Rightarrow> 'f pvalue \<Rightarrow> 'f" where
  "toFloat va v = (case v of PInt n \<Rightarrow> va_float64 va n | PFloat x \<Rightarrow> x | _ \<Rightarrow> va_float64 va 0)"

definition evalIn :: "'f values \<Rightarrow> 'f pvalue \<Rightarrow> 'f pvalue \<Rightarrow> bool" where
  "evalIn va ctxVal condVal =
     (let s = va_Sprint va ctxVal in
      case condVal of
        PStrs xs \<Rightarrow> list_ex (\<lambda>item. item = s) xs
      | PList xs \<Rightarrow> list_ex (\<lambda>item. va_Sprint va item = s) xs
      | _ \<Rightarrow> False)"

definition EvaluateCondition :: "'f values \<Rightarrow> 'f Condition \<Rightarrow> (string \<rightharpoonup> 'f pvalue) option \<Rightarrow> bool" where
  "EvaluateCondition va cond ctx =
     (case ctx of
        None \<Rightarrow> False
      | Some c \<Rightarrow> (case c (cn_Key cond) of
          None \<Rightarrow> False
        | Some v \<Rightarrow>
            let op = cn_Operator cond; w = cn_Value cond; sp = va_Sprint va; f = toFloat va in
            if op = ''eq'' then sp v = sp w
            else if op = ''neq'' then sp v \<noteq> sp w
            else if op = ''gt'' then va_lt va (f w) (f v)
            else if op = ''lt'' then va_lt va (f v) (f w)
            else if op = ''gte'' then va_le va (f w) (f v)
            else if op = ''lte'' then va_le va (f v) (f w)
            else if op = ''in'' then evalIn va v w
            else if op = ''contains'' then Index (sp w) (sp v) \<noteq> None
            else if op = ''matches'' then policy_Match (sp w) (sp v)
            else False))"

fun evaluate_loop :: "'f values \<Rightarrow> 'f Request \<Rightarrow> 'f Policy list \<Rightarrow> ident option \<Rightarrow> bool \<times> ident" where
  "evaluate_loop va req [] allowMatch = (case allowMatch of Some i \<Rightarrow> (True, i) | None \<Rightarrow> (False, []))"
| "evaluate_loop va req (p # ps) allowMatch =
     (if \<not> policyMatchesRequest p req then evaluate_loop va req ps allowMatch
      else if \<not> list_all (\<lambda>c. EvaluateCondition va c (rt_Context req)) (pl_Conditions p)
      then evaluate_loop va req ps allowMatch
      else if pl_Effect p = ''DENY'' then (False, pl_ID p)
      else evaluate_loop va req ps
             (if pl_Effect p = ''ALLOW'' \<and> allowMatch = None then Some (pl_ID p) else allowMatch))"

definition Evaluate :: "'f values \<Rightarrow> 'f Policy list \<Rightarrow> 'f Request \<Rightarrow> bool \<times> ident" where
  "Evaluate va policies req = evaluate_loop va req policies None"

definition AddPolicy :: "'f Policy \<Rightarrow> 'f Policy list \<Rightarrow> 'f Policy list" where
  "AddPolicy p ps = ps @ [p]"

definition policy :: "ident \<Rightarrow> string \<Rightarrow> string \<Rightarrow> string list \<Rightarrow> string list \<Rightarrow> string list \<Rightarrow> 'f Condition list \<Rightarrow> 'f Policy" where
  "policy i name eff subjects resources actions conds = \<lparr>pl_ID = i, pl_Name = name, pl_Effect = eff, pl_Subjects = subjects,
     pl_Resources = resources, pl_Actions = actions, pl_Conditions = conds\<rparr>"

definition DefaultGarudaPassPolicies :: "'f Policy list" where
  "DefaultGarudaPassPolicies =
    [policy ''gp-admin-full'' ''Admin Full Access'' ''ALLOW'' [''admin''] [''*''] [''*''] [],
     policy ''gp-user-own-data'' ''User Own Data Access'' ''ALLOW'' [''user:*''] [''data:users:self''] [''read'', ''write''] [],
     policy ''gp-user-deny-other'' ''Deny Other User Data'' ''DENY'' [''user:*''] [''data:users:other''] [''*''] [],
     policy ''gp-service-internal'' ''Service Internal API Access'' ''ALLOW'' [''service:*''] [''api:/internal/*''] [''read'', ''write''] [],
     policy ''gp-signing-auth'' ''Signing Requires Strong Auth'' ''ALLOW'' [''*''] [''api:/v1/sign/*''] [''sign'']
       [\<lparr>cn_Key = ''auth_level'', cn_Operator = ''gte'', cn_Value = PInt 2\<rparr>],
     policy ''gp-delete-auth'' ''Data Deletion Requires Strong Auth'' ''ALLOW'' [''*''] [''data:*''] [''delete'']
       [\<lparr>cn_Key = ''auth_level'', cn_Operator = ''gte'', cn_Value = PInt 2\<rparr>],
     policy ''gp-audit-admin'' ''Audit Read Admin Only'' ''ALLOW'' [''admin''] [''audit:*''] [''read''] []]"

text \<open>A policy applies when it matches and all its conditions hold.\<close>

definition applies :: "'f values \<Rightarrow> 'f Request \<Rightarrow> 'f Policy \<Rightarrow> bool" where
  "applies va req p \<longleftrightarrow> policyMatchesRequest p req \<and> (\<forall>c\<in>set (pl_Conditions p). EvaluateCondition va c (rt_Context req))"

lemma evaluate_loop_find:
  "evaluate_loop va req ps a =
    (case find (\<lambda>p. applies va req p \<and> pl_Effect p = ''DENY'') ps of
       Some p \<Rightarrow> (False, pl_ID p)
     | None \<Rightarrow> (case a of Some i \<Rightarrow> (True, i)
       | None \<Rightarrow> (case find (\<lambda>p. applies va req p \<and> pl_Effect p = ''ALLOW'') ps of Some p \<Rightarrow> (True, pl_ID p) | None \<Rightarrow> (False, []))))"
proof (induction ps arbitrary: a)
  case Nil
  show ?case by (cases a) simp_all
next
  case (Cons p ps)
  have step: "evaluate_loop va req (p # ps) a = (if \<not> applies va req p then evaluate_loop va req ps a
      else if pl_Effect p = ''DENY'' then (False, pl_ID p)
      else evaluate_loop va req ps (if pl_Effect p = ''ALLOW'' \<and> a = None then Some (pl_ID p) else a))"
    by (simp add: applies_def list_all_iff)
  show ?case unfolding step Cons.IH by (cases a) (simp_all split: option.splits)
qed



text \<open>No context lets a user reach the data of others.\<close>

definition others :: string where
  "others = ''data:users:other''"

lemma users_kept_apart:
  assumes "prefix ''user:'' subject"
  shows "\<not> fst (Evaluate va DefaultGarudaPassPolicies \<lparr>rt_Subject = subject, rt_Resource = others, rt_Action = a, rt_Context = c\<rparr>)"
proof -
  let ?r = "\<lparr>rt_Subject = subject, rt_Resource = others, rt_Action = a, rt_Context = c\<rparr>"
  define p :: "'a Policy" where
    "p = policy ''gp-user-deny-other'' ''Deny Other User Data'' ''DENY'' [''user:*''] [''data:users:other''] [''*''] []"
  obtain rest where rest: "subject = ''user:'' @ rest" using assms by (auto simp: prefix_def)
  have "policy_Match ''user:*'' subject"
  proof -
    have "glob (''user:'' @ ''*'') subject"
      using glob_literal [of "''user:''" "''*''" subject] rest by (auto intro: exI [of _ "length rest"])
    moreover have "suffix ''*'' ''user:*''" by (simp add: suffix_def)
    ultimately show ?thesis using policy_match_glob_iff [of "''user:*''" subject] by simp
  qed
  then have "applies va ?r p"
    by (simp add: applies_def p_def policy_def policyMatchesRequest_def matchAny_def others_def policy_Match_def)
  moreover have "p \<in> set DefaultGarudaPassPolicies" by (simp add: p_def DefaultGarudaPassPolicies_def)
  moreover have "pl_Effect p = ''DENY''" by (simp add: p_def policy_def)
  ultimately have "find (\<lambda>p. applies va ?r p \<and> pl_Effect p = ''DENY'') DefaultGarudaPassPolicies \<noteq> None"
    unfolding find_None_iff by blast
  then show ?thesis unfolding Evaluate_def evaluate_loop_find by (auto split: option.splits)
qed

section \<open>Scopes of a request\<close>

definition trimmed :: "string list \<Rightarrow> string set" where
  "trimmed xs = set (filter (\<lambda>s. s \<noteq> []) (map TrimSpace xs))"

text \<open>The context holds the set under a private key: \<open>None\<close> before \<open>SetScopes\<close>.\<close>

definition SetScopes :: "string list \<Rightarrow> string set option" where
  "SetScopes scopes = Some (trimmed scopes)"

definition GetScopes :: "string set option \<Rightarrow> string list" where
  "GetScopes ctx = (case ctx of None \<Rightarrow> [] | Some ss \<Rightarrow> sorted_list_of_set ss)"

definition HasScope :: "string set option \<Rightarrow> string \<Rightarrow> bool" where
  "HasScope ctx scope = (case ctx of None \<Rightarrow> False | Some ss \<Rightarrow> scope \<in> ss)"

definition HasAllScopes :: "string set option \<Rightarrow> string list \<Rightarrow> bool" where
  "HasAllScopes ctx required = list_all (HasScope ctx) required"

definition HasAnyScope :: "string set option \<Rightarrow> string list \<Rightarrow> bool" where
  "HasAnyScope ctx scopes = list_ex (HasScope ctx) scopes"

datatype 'a scope_answer = Forbidden "string list" | Passed 'a

definition scope_Require :: "string list \<Rightarrow> (string set option \<Rightarrow> 'a) \<Rightarrow> string set option \<Rightarrow> 'a scope_answer" where
  "scope_Require scopes next ctx = (if \<not> HasAllScopes ctx scopes then Forbidden scopes else Passed (next ctx))"

definition scope_RequireAny :: "string list \<Rightarrow> (string set option \<Rightarrow> 'a) \<Rightarrow> string set option \<Rightarrow> 'a scope_answer" where
  "scope_RequireAny scopes next ctx = (if \<not> HasAnyScope ctx scopes then Forbidden scopes else Passed (next ctx))"

lemma require_after_set:
  "scope_Require required next (SetScopes granted) = Passed x \<longleftrightarrow> set required \<subseteq> trimmed granted \<and> x = next (SetScopes granted)"
  "scope_RequireAny required next (SetScopes granted) = Passed x \<longleftrightarrow> set required \<inter> trimmed granted \<noteq> {} \<and> x = next (SetScopes granted)"
  by (auto simp: scope_Require_def scope_RequireAny_def HasAllScopes_def HasAnyScope_def HasScope_def SetScopes_def
      list_all_iff list_ex_iff)

section \<open>Field masks\<close>

text \<open>A mask is the set of its paths; a nil mask is \<open>None\<close> where the code checks for it.\<close>

type_synonym FieldMask = "string set"

definition fm_New :: "string list \<Rightarrow> FieldMask" where
  "fm_New paths = trimmed paths"

definition fm_Parse :: "string \<Rightarrow> FieldMask" where
  "fm_Parse s = (if TrimSpace s = [] then fm_New []
     else fm_New (filter (\<lambda>p. p \<noteq> []) (map TrimSpace (split_on (CHR '','') s))))"

definition fm_Contains :: "FieldMask option \<Rightarrow> string \<Rightarrow> bool" where
  "fm_Contains fm path = (case fm of None \<Rightarrow> False | Some ps \<Rightarrow> path \<in> ps)"

definition ContainsPrefix :: "FieldMask option \<Rightarrow> string \<Rightarrow> bool" where
  "ContainsPrefix fm pfx = (case fm of None \<Rightarrow> False | Some ps \<Rightarrow> \<exists>p\<in>ps. p = pfx \<or> prefix (pfx @ ''.'') p)"

definition fm_Paths :: "FieldMask option \<Rightarrow> string list" where
  "fm_Paths fm = (case fm of None \<Rightarrow> [] | Some ps \<Rightarrow> sorted_list_of_set ps)"

definition fm_Add :: "string \<Rightarrow> FieldMask \<Rightarrow> FieldMask" where
  "fm_Add path fm = (if TrimSpace path \<noteq> [] then insert (TrimSpace path) fm else fm)"

definition fm_Remove :: "string \<Rightarrow> FieldMask \<Rightarrow> FieldMask" where
  "fm_Remove path fm = fm - {path}"

definition fm_Union :: "FieldMask option \<Rightarrow> FieldMask option \<Rightarrow> FieldMask" where
  "fm_Union fm other = fold fm_Add (fm_Paths other) (fm_New (fm_Paths fm))"

definition fm_Intersect :: "FieldMask option \<Rightarrow> FieldMask option \<Rightarrow> FieldMask" where
  "fm_Intersect fm other = (case (fm, other) of
     (Some ps, Some qs) \<Rightarrow> fold (\<lambda>p r. if fm_Contains other p then fm_Add p r else r) (sorted_list_of_set ps) (fm_New [])
   | _ \<Rightarrow> fm_New [])"

fun join :: "string \<Rightarrow> string list \<Rightarrow> string" where
  "join sep [] = []"
| "join sep [x] = x"
| "join sep (x # y # xs) = x @ sep @ join sep (y # xs)"

definition fm_String :: "FieldMask option \<Rightarrow> string" where
  "fm_String fm = join '','' (fm_Paths fm)"

definition fm_Validate :: "FieldMask option \<Rightarrow> string list \<Rightarrow> string" where
  "fm_Validate fm allowed = (case find (\<lambda>p. p \<notin> set allowed) (fm_Paths fm) of None \<Rightarrow> [] | Some p \<Rightarrow> p)"

definition fm_Filter :: "(string \<rightharpoonup> 'a) \<Rightarrow> FieldMask option \<Rightarrow> string \<rightharpoonup> 'a" where
  "fm_Filter d fm = (if fm_Paths fm = [] then d else (\<lambda>k. if fm_Contains fm k then d k else None))"

text \<open>The paths every operation leaves behind: not empty, without white space at the ends.\<close>

definition fm_ok :: "FieldMask \<Rightarrow> bool" where
  "fm_ok ps \<longleftrightarrow> finite ps \<and> (\<forall>p\<in>ps. p \<noteq> [] \<and> TrimSpace p = p)"

lemma trimmed_id: "\<forall>p\<in>set xs. p \<noteq> [] \<and> TrimSpace p = p \<Longrightarrow> trimmed xs = set xs"
  by (force simp: trimmed_def)

lemma fm_Add_id: "p \<noteq> [] \<Longrightarrow> TrimSpace p = p \<Longrightarrow> fm_Add p fm = insert p fm"
  by (simp add: fm_Add_def)

lemma fold_fm_Add: "\<forall>p\<in>set xs. p \<noteq> [] \<and> TrimSpace p = p \<Longrightarrow> fold fm_Add xs fm = set xs \<union> fm"
  by (induction xs arbitrary: fm) (auto simp: fm_Add_id)

lemma fold_fm_Add_if:
  "\<forall>p\<in>set xs. p \<noteq> [] \<and> TrimSpace p = p \<Longrightarrow> fold (\<lambda>p r. if P p then fm_Add p r else r) xs fm = {p \<in> set xs. P p} \<union> fm"
  by (induction xs arbitrary: fm) (auto simp: fm_Add_id)

lemma fm_set_operations:
  assumes "fm_ok ps" "fm_ok qs"
  shows "fm_Union (Some ps) (Some qs) = ps \<union> qs" "fm_Intersect (Some ps) (Some qs) = ps \<inter> qs"
  using assms
  by (auto simp: fm_Union_def fm_Intersect_def fm_New_def fm_Paths_def fm_ok_def fold_fm_Add fold_fm_Add_if trimmed_id fm_Contains_def
      trimmed_id [of "[]"])

lemma split_of_join:
  "xs \<noteq> [] \<Longrightarrow> \<forall>x\<in>set xs. d \<notin> set x \<Longrightarrow> split_on d (join [d] xs) = xs"
proof (induction xs rule: induct_list012)
  case (3 x y zs)
  then show ?case using split_on_append [of d x "join [d] (y # zs)"] by simp
qed (simp_all add: split_on_none)

text \<open>A mask whose paths hold no comma survives being written and read.\<close>

lemma fieldmask_roundtrip:
  assumes "fm_ok ps" "\<forall>p\<in>ps. CHR '','' \<notin> set p" "TrimSpace (fm_String (Some ps)) \<noteq> [] \<or> ps = {}"
  shows "fm_Parse (fm_String (Some ps)) = ps"
proof (cases "ps = {}")
  case True
  have "TrimSpace [] = []" by code_simp
  then show ?thesis using True by (simp add: fm_String_def fm_Paths_def fm_Parse_def fm_New_def trimmed_def)
next
  case False
  have fin: "finite ps" and ok: "\<forall>p\<in>ps. p \<noteq> [] \<and> TrimSpace p = p" using assms(1) by (auto simp: fm_ok_def)
  have s: "split_on (CHR '','') (fm_String (Some ps)) = sorted_list_of_set ps"
    unfolding fm_String_def fm_Paths_def option.case by (rule split_of_join) (use False fin assms(2) in auto)
  have m: "map TrimSpace (sorted_list_of_set ps) = sorted_list_of_set ps" using ok fin by (intro map_idI) simp
  show ?thesis
    using assms(3) False ok fin
    by (simp add: fm_Parse_def s m fm_New_def trimmed_id)
qed

end
