(* ===== verification/Lib_Containers.thy ===== *)
theory Lib_Containers
  imports GP_Prelude "HOL-Library.Word"
begin

text \<open>
  Containers of the shared library: the least-recently-used cache (\<open>packages/golib/lru\<close>), the ring buffer
  (\<open>packages/golib/ringbuf\<close>) and the slot map with generations (\<open>packages/golib/slotmap\<close>).
  Each keeps its representation -- a doubly linked list beside a map, an array with a head and a count,
  an array of slots with a free list -- and is shown to implement its abstract container.
\<close>

section \<open>The cache\<close>

text \<open>
  \<open>container/list\<close> elements are addresses: \<open>lc_order\<close> is the list from front to back and \<open>lc_heap\<close> the
  entries its elements point to.
  An operation also returns the calls of \<open>onEvict\<close>.
\<close>

record ('k, 'v) Cache =
  lc_capacity :: int
  lc_items :: "'k \<rightharpoonup> nat"
  lc_order :: "nat list"
  lc_heap :: "nat \<Rightarrow> 'k \<times> 'v"
  lc_next :: nat

definition lru_cap :: "int \<Rightarrow> int" where
  "lru_cap capacity = (if capacity \<le> 0 then 128 else capacity)"

definition lru_New :: "int \<Rightarrow> (nat \<Rightarrow> 'k \<times> 'v) \<Rightarrow> ('k, 'v) Cache" where
  "lru_New capacity h = \<lparr>lc_capacity = lru_cap capacity, lc_items = Map.empty, lc_order = [],
     lc_heap = h, lc_next = 0\<rparr>"

definition MoveToFront :: "nat \<Rightarrow> nat list \<Rightarrow> nat list" where
  "MoveToFront e xs = e # remove1 e xs"

definition removeElement :: "nat \<Rightarrow> ('k, 'v) Cache \<Rightarrow> ('k \<times> 'v) list \<times> ('k, 'v) Cache" where
  "removeElement e c =
     ([lc_heap c e], c\<lparr>lc_order := remove1 e (lc_order c), lc_items := (lc_items c)(fst (lc_heap c e) := None)\<rparr>)"

definition evictOldest :: "('k, 'v) Cache \<Rightarrow> ('k \<times> 'v) list \<times> ('k, 'v) Cache" where
  "evictOldest c = (if lc_order c = [] then ([], c) else removeElement (last (lc_order c)) c)"

definition lru_Get :: "'k \<Rightarrow> ('k, 'v) Cache \<Rightarrow> 'v option \<times> ('k, 'v) Cache" where
  "lru_Get key c =
     (case lc_items c key of
        Some e \<Rightarrow> (Some (snd (lc_heap c e)), c\<lparr>lc_order := MoveToFront e (lc_order c)\<rparr>)
      | None \<Rightarrow> (None, c))"

definition lru_Set :: "'k \<Rightarrow> 'v \<Rightarrow> ('k, 'v) Cache \<Rightarrow> ('k \<times> 'v) list \<times> ('k, 'v) Cache" where
  "lru_Set key v c =
     (case lc_items c key of
        Some e \<Rightarrow> ([], c\<lparr>lc_order := MoveToFront e (lc_order c), lc_heap := (lc_heap c)(e := (fst (lc_heap c e), v))\<rparr>)
      | None \<Rightarrow>
          let (ev, c1) = (if int (length (lc_order c)) \<ge> lc_capacity c then evictOldest c else ([], c));
              e = lc_next c1
          in (ev, c1\<lparr>lc_heap := (lc_heap c1)(e := (key, v)), lc_order := e # lc_order c1,
                     lc_items := (lc_items c1)(key \<mapsto> e), lc_next := e + 1\<rparr>))"

definition lru_Delete :: "'k \<Rightarrow> ('k, 'v) Cache \<Rightarrow> bool \<times> ('k \<times> 'v) list \<times> ('k, 'v) Cache" where
  "lru_Delete key c =
     (case lc_items c key of None \<Rightarrow> (False, [], c) | Some e \<Rightarrow> (True, removeElement e c))"

definition lru_Has :: "'k \<Rightarrow> ('k, 'v) Cache \<Rightarrow> bool" where
  "lru_Has key c \<longleftrightarrow> lc_items c key \<noteq> None"

definition lru_Len :: "('k, 'v) Cache \<Rightarrow> nat" where
  "lru_Len c = length (lc_order c)"

definition lru_Clear :: "('k, 'v) Cache \<Rightarrow> ('k, 'v) Cache" where
  "lru_Clear c = c\<lparr>lc_items := Map.empty, lc_order := []\<rparr>"

definition lru_Keys :: "('k, 'v) Cache \<Rightarrow> 'k list" where
  "lru_Keys c = map (\<lambda>e. fst (lc_heap c e)) (lc_order c)"

subsection \<open>The abstract cache\<close>

text \<open>The entries from the most to the least recently used.\<close>

definition lru_abs :: "('k, 'v) Cache \<Rightarrow> ('k \<times> 'v) list" where
  "lru_abs c = map (lc_heap c) (lc_order c)"

definition without :: "'k \<Rightarrow> ('k \<times> 'v) list \<Rightarrow> ('k \<times> 'v) list" where
  "without k xs = filter (\<lambda>x. fst x \<noteq> k) xs"

definition touch :: "'k \<Rightarrow> ('k \<times> 'v) list \<Rightarrow> ('k \<times> 'v) list" where
  "touch k xs = (case map_of xs k of None \<Rightarrow> xs | Some v \<Rightarrow> (k, v) # without k xs)"

definition put :: "int \<Rightarrow> 'k \<Rightarrow> 'v \<Rightarrow> ('k \<times> 'v) list \<Rightarrow> ('k \<times> 'v) list" where
  "put cap k v xs =
     (if map_of xs k \<noteq> None then (k, v) # without k xs
      else (k, v) # (if int (length xs) \<ge> cap then butlast xs else xs))"

definition dropped :: "int \<Rightarrow> 'k \<Rightarrow> ('k \<times> 'v) list \<Rightarrow> ('k \<times> 'v) list" where
  "dropped cap k xs = (if map_of xs k = None \<and> int (length xs) \<ge> cap then [last xs] else [])"

definition lru_inv :: "('k, 'v) Cache \<Rightarrow> bool" where
  "lru_inv c \<longleftrightarrow> 1 \<le> lc_capacity c \<and> int (length (lc_order c)) \<le> lc_capacity c \<and> distinct (lc_order c) \<and>
     (\<forall>e\<in>set (lc_order c). e < lc_next c) \<and>
     (\<forall>k e. lc_items c k = Some e \<longleftrightarrow> e \<in> set (lc_order c) \<and> fst (lc_heap c e) = k)"

lemma lru_abs_length: "length (lru_abs c) = length (lc_order c)"
  by (simp add: lru_abs_def)

lemma lru_inv_New: "lru_inv (lru_New capacity h)"
  by (simp add: lru_inv_def lru_New_def lru_cap_def)

lemma map_of_heap:
  assumes "distinct es" "inj_on (\<lambda>e. fst (h e)) (set es)" "e \<in> set es"
  shows "map_of (map h es) (fst (h e)) = Some (snd (h e))"
proof (rule map_of_is_SomeI)
  show "distinct (map fst (map h es))" using assms(1,2) by (simp add: distinct_map comp_def inj_on_def)
  show "(fst (h e), snd (h e)) \<in> set (map h es)" using assms(3) by force
qed

lemma without_heap:
  assumes "distinct es" "inj_on (\<lambda>e. fst (h e)) (set es)" "e \<in> set es"
  shows "without (fst (h e)) (map h es) = map h (remove1 e es)"
proof -
  have "without (fst (h e)) (map h es) = map h (filter (\<lambda>x. fst (h x) \<noteq> fst (h e)) es)"
    by (simp add: without_def filter_map comp_def)
  also have "filter (\<lambda>x. fst (h x) \<noteq> fst (h e)) es = filter (\<lambda>x. x \<noteq> e) es"
    using assms(2,3) by (intro filter_cong) (auto simp: inj_on_def)
  also have "\<dots> = remove1 e es" using assms(1) by (simp add: distinct_remove1_removeAll removeAll_filter_not_eq eq_commute)
  finally show ?thesis .
qed

lemma inj_keys: "lru_inv c \<Longrightarrow> inj_on (\<lambda>e. fst (lc_heap c e)) (set (lc_order c))"
  unfolding lru_inv_def inj_on_def by (metis option.inject)

lemma order_distinct: "lru_inv c \<Longrightarrow> distinct (lc_order c)"
  by (simp add: lru_inv_def)

lemma item_in: "lru_inv c \<Longrightarrow> lc_items c k = Some e \<Longrightarrow> e \<in> set (lc_order c) \<and> fst (lc_heap c e) = k"
  by (simp add: lru_inv_def)

lemma item_lookup:
  assumes inv: "lru_inv c"
  shows "map_of (lru_abs c) k = map_option (\<lambda>e. snd (lc_heap c e)) (lc_items c k)"
proof (cases "lc_items c k")
  case None
  then have "\<forall>e\<in>set (lc_order c). fst (lc_heap c e) \<noteq> k" using inv unfolding lru_inv_def by (metis option.distinct(1))
  then have "k \<notin> fst ` set (lru_abs c)" by (auto simp: lru_abs_def)
  then show ?thesis using None by (simp add: map_of_eq_None_iff)
next
  case (Some e)
  have "map_of (map (lc_heap c) (lc_order c)) (fst (lc_heap c e)) = Some (snd (lc_heap c e))"
    using item_in [OF inv Some] by (intro map_of_heap order_distinct inj_keys inv) simp
  with item_in [OF inv Some] Some show ?thesis by (simp add: lru_abs_def)
qed

lemma moved_to_front:
  assumes inv: "lru_inv c" and "lc_items c k = Some e"
  shows "map (lc_heap c) (MoveToFront e (lc_order c)) = (k, snd (lc_heap c e)) # without k (lru_abs c)"
    "lru_inv (c\<lparr>lc_order := MoveToFront e (lc_order c)\<rparr>)"
proof -
  note e = item_in [OF assms]
  have "without (fst (lc_heap c e)) (map (lc_heap c) (lc_order c)) = map (lc_heap c) (remove1 e (lc_order c))"
    using e by (intro without_heap order_distinct inj_keys inv) simp
  then show "map (lc_heap c) (MoveToFront e (lc_order c)) = (k, snd (lc_heap c e)) # without k (lru_abs c)"
    using e by (simp add: MoveToFront_def lru_abs_def prod_eq_iff)
  have "set (MoveToFront e (lc_order c)) = set (lc_order c)" "distinct (MoveToFront e (lc_order c))"
    "length (MoveToFront e (lc_order c)) = length (lc_order c)"
    using e order_distinct [OF inv] by (auto simp: MoveToFront_def length_remove1 neq_Nil_conv dest: length_pos_if_in_set)
  with inv show "lru_inv (c\<lparr>lc_order := MoveToFront e (lc_order c)\<rparr>)" unfolding lru_inv_def by simp
qed

lemma lru_Get_refines:
  assumes inv: "lru_inv c"
  shows "fst (lru_Get k c) = map_of (lru_abs c) k" "lru_abs (snd (lru_Get k c)) = touch k (lru_abs c)"
    "lru_inv (snd (lru_Get k c))" "lc_capacity (snd (lru_Get k c)) = lc_capacity c"
proof -
  show "lru_abs (snd (lru_Get k c)) = touch k (lru_abs c)"
    using moved_to_front(1) [OF inv]
    by (cases "lc_items c k") (simp_all add: lru_Get_def touch_def item_lookup [OF inv], simp add: lru_abs_def)
  show "lru_inv (snd (lru_Get k c))"
    using inv moved_to_front(2) [OF inv] by (cases "lc_items c k") (simp_all add: lru_Get_def)
qed (simp_all add: lru_Get_def item_lookup [OF inv] split: option.splits)

lemma removeElement_refines:
  assumes inv: "lru_inv c" and "e \<in> set (lc_order c)"
  shows "lru_abs (snd (removeElement e c)) = without (fst (lc_heap c e)) (lru_abs c)" "lru_inv (snd (removeElement e c))"
proof -
  note d = order_distinct [OF inv] and i = inj_keys [OF inv]
  show "lru_abs (snd (removeElement e c)) = without (fst (lc_heap c e)) (lru_abs c)"
    using without_heap [OF d i assms(2)] by (simp add: removeElement_def lru_abs_def)
  have k: "x = e" if "x \<in> set (lc_order c)" "fst (lc_heap c x) = fst (lc_heap c e)" for x
    using i assms(2) that by (auto simp: inj_on_def)
  have "((lc_items c)(fst (lc_heap c e) := None)) k = Some x \<longleftrightarrow> x \<in> set (lc_order c) - {e} \<and> fst (lc_heap c x) = k" for k x
    using inv assms(2) k unfolding lru_inv_def fun_upd_apply by (metis Diff_iff insertCI insertE empty_iff option.distinct(1))
  then show "lru_inv (snd (removeElement e c))"
    using inv unfolding lru_inv_def removeElement_def by (simp add: length_remove1 set_remove1_eq [OF d]) linarith
qed

lemma evictOldest_refines:
  assumes inv: "lru_inv c" and "lc_order c \<noteq> []"
  shows "evictOldest c = removeElement (last (lc_order c)) c" "fst (evictOldest c) = [last (lru_abs c)]"
    "lru_abs (snd (evictOldest c)) = butlast (lru_abs c)" "lru_inv (snd (evictOldest c))"
    "lc_capacity (snd (evictOldest c)) = lc_capacity c" "length (lc_order (snd (evictOldest c))) = length (lc_order c) - 1"
proof -
  let ?e = "last (lc_order c)"
  have e: "?e \<in> set (lc_order c)" using assms(2) by simp
  show ev: "evictOldest c = removeElement ?e c" using assms(2) by (simp add: evictOldest_def)
  show "fst (evictOldest c) = [last (lru_abs c)]" unfolding ev using assms(2) by (simp add: removeElement_def lru_abs_def last_map)
  obtain es where es: "lc_order c = es @ [?e]" using assms(2) by (metis append_butlast_last_id)
  then have "?e \<notin> set es" using order_distinct [OF inv] by (metis distinct_append disjoint_iff list.set_intros(1))
  then have "remove1 ?e (lc_order c) = butlast (lc_order c)" by (subst (2) es, subst es) (simp add: remove1_append)
  then show "lru_abs (snd (evictOldest c)) = butlast (lru_abs c)" unfolding ev by (simp add: removeElement_def lru_abs_def map_butlast)
  show "lru_inv (snd (evictOldest c))" unfolding ev by (rule removeElement_refines(2) [OF inv e])
  show "lc_capacity (snd (evictOldest c)) = lc_capacity c" "length (lc_order (snd (evictOldest c))) = length (lc_order c) - 1"
    unfolding ev using e by (simp_all add: removeElement_def length_remove1)
qed

lemma update_at:
  assumes "distinct (e # es)"
  shows "map (h(e := x)) (e # es) = x # map h es"
  using assms by (auto intro: map_cong)

lemma lru_Set_refines:
  assumes inv: "lru_inv c"
  shows "fst (lru_Set k v c) = dropped (lc_capacity c) k (lru_abs c)"
    "lru_abs (snd (lru_Set k v c)) = put (lc_capacity c) k v (lru_abs c)"
    "lru_inv (snd (lru_Set k v c))" "lc_capacity (snd (lru_Set k v c)) = lc_capacity c"
proof -
  have "fst (lru_Set k v c) = dropped (lc_capacity c) k (lru_abs c) \<and>
    lru_abs (snd (lru_Set k v c)) = put (lc_capacity c) k v (lru_abs c) \<and> lru_inv (snd (lru_Set k v c)) \<and>
    lc_capacity (snd (lru_Set k v c)) = lc_capacity c"
  proof (cases "lc_items c k")
    case (Some e)
    let ?h = "(lc_heap c)(e := (fst (lc_heap c e), v))"
    note e = item_in [OF inv Some] and m = moved_to_front [OF inv Some]
    have d: "distinct (MoveToFront e (lc_order c))" using m(2) by (simp add: lru_inv_def)
    have s: "lru_Set k v c = ([], c\<lparr>lc_order := MoveToFront e (lc_order c), lc_heap := ?h\<rparr>)" using Some by (simp add: lru_Set_def)
    have "lru_abs (snd (lru_Set k v c)) = (k, v) # without k (lru_abs c)"
    proof -
      have "lru_abs (snd (lru_Set k v c)) = map ?h (e # remove1 e (lc_order c))" unfolding s by (simp add: lru_abs_def MoveToFront_def)
      also have "\<dots> = (fst (lc_heap c e), v) # map (lc_heap c) (remove1 e (lc_order c))"
        using d unfolding MoveToFront_def by (rule update_at)
      also have "\<dots> = (k, v) # without k (lru_abs c)" using m(1) e by (simp add: MoveToFront_def)
      finally show ?thesis .
    qed
    moreover have "fst (?h x) = fst (lc_heap c x)" for x by simp
    then have "lru_inv (snd (lru_Set k v c))" unfolding s using m(2) unfolding lru_inv_def by simp
    ultimately show ?thesis using Some by (simp add: put_def dropped_def item_lookup [OF inv] s)
  next
    case None
    define full where "full \<longleftrightarrow> int (length (lc_order c)) \<ge> lc_capacity c"
    define c1 where "c1 = (if full then snd (evictOldest c) else c)"
    define ev where "ev = (if full then fst (evictOldest c) else [])"
    have s: "lru_Set k v c = (ev, c1\<lparr>lc_heap := (lc_heap c1)(lc_next c1 := (k, v)), lc_order := lc_next c1 # lc_order c1,
        lc_items := (lc_items c1)(k \<mapsto> lc_next c1), lc_next := lc_next c1 + 1\<rparr>)"
      using None by (simp add: lru_Set_def Let_def full_def c1_def ev_def split_beta)
    have cap: "1 \<le> lc_capacity c" using inv by (simp add: lru_inv_def)
    have ne: "lc_order c \<noteq> []" if full using that cap by (auto simp: full_def)
    note er = evictOldest_refines [OF inv]
    have inv1: "lru_inv c1" and cp: "lc_capacity c1 = lc_capacity c" and short: "int (length (lc_order c1)) < lc_capacity c"
      and abs1: "lru_abs c1 = (if full then butlast (lru_abs c) else lru_abs c)" and ev1: "ev = (if full then [last (lru_abs c)] else [])"
      using er ne cap inv by (auto simp: c1_def ev_def full_def lru_inv_def)
    have k1: "lc_items c1 k = None"
      using None er(1) ne by (simp add: c1_def removeElement_def)
    have new: "lc_next c1 \<notin> set (lc_order c1)" using inv1 by (auto simp: lru_inv_def)
    then have ab: "lru_abs (snd (lru_Set k v c)) = (k, v) # lru_abs c1"
      unfolding s lru_abs_def by (auto intro!: map_cong)
    have it: "((lc_items c1)(k \<mapsto> lc_next c1)) q = Some x \<longleftrightarrow>
        x \<in> set (lc_next c1 # lc_order c1) \<and> fst (((lc_heap c1)(lc_next c1 := (k, v))) x) = q" for q x
    proof (cases "x = lc_next c1")
      case True
      then show ?thesis using inv1 new by (auto simp: lru_inv_def)
    next
      case False
      have "lc_items c1 q = Some x \<longleftrightarrow> x \<in> set (lc_order c1) \<and> fst (lc_heap c1 x) = q" using inv1 by (simp add: lru_inv_def)
      then show ?thesis using False k1 by auto
    qed
    have "\<forall>e\<in>set (lc_next c1 # lc_order c1). e < lc_next c1 + 1" using inv1 by (auto simp: lru_inv_def intro: less_SucI)
    then have "lru_inv (snd (lru_Set k v c))"
      unfolding s lru_inv_def using it inv1 new short cp by (simp add: lru_inv_def)
    moreover have no: "map_of (lru_abs c) k = None" using None by (simp add: item_lookup [OF inv])
    then have "lru_abs (snd (lru_Set k v c)) = put (lc_capacity c) k v (lru_abs c)"
      unfolding ab abs1 put_def full_def by (simp add: lru_abs_length)
    moreover have "fst (lru_Set k v c) = dropped (lc_capacity c) k (lru_abs c)" "lc_capacity (snd (lru_Set k v c)) = lc_capacity c"
      using no cp unfolding s dropped_def ev1 full_def by (simp_all add: lru_abs_length)
    ultimately show ?thesis by blast
  qed
  then show "fst (lru_Set k v c) = dropped (lc_capacity c) k (lru_abs c)"
    "lru_abs (snd (lru_Set k v c)) = put (lc_capacity c) k v (lru_abs c)"
    "lru_inv (snd (lru_Set k v c))" "lc_capacity (snd (lru_Set k v c)) = lc_capacity c" by simp_all
qed

lemma lru_Delete_refines:
  assumes inv: "lru_inv c"
  shows "lru_Delete k c = (map_of (lru_abs c) k \<noteq> None, (case map_of (lru_abs c) k of None \<Rightarrow> [] | Some v \<Rightarrow> [(k, v)]), snd (snd (lru_Delete k c)))"
    "lru_abs (snd (snd (lru_Delete k c))) = without k (lru_abs c)" "lru_inv (snd (snd (lru_Delete k c)))"
    "lc_capacity (snd (snd (lru_Delete k c))) = lc_capacity c"
proof -
  have n: "without k xs = xs" if "map_of xs k = None" for xs :: "('a \<times> 'b) list"
    using that by (auto simp: without_def map_of_eq_None_iff filter_id_conv)
  have "lru_Delete k c = (map_of (lru_abs c) k \<noteq> None, (case map_of (lru_abs c) k of None \<Rightarrow> [] | Some v \<Rightarrow> [(k, v)]), snd (snd (lru_Delete k c))) \<and>
    lru_abs (snd (snd (lru_Delete k c))) = without k (lru_abs c) \<and> lru_inv (snd (snd (lru_Delete k c))) \<and>
    lc_capacity (snd (snd (lru_Delete k c))) = lc_capacity c"
  proof (cases "lc_items c k")
    case None
    with inv n [of "lru_abs c"] show ?thesis by (simp add: lru_Delete_def item_lookup [OF inv])
  next
    case (Some e)
    note e = item_in [OF inv Some]
    have "lc_heap c e = (k, snd (lc_heap c e))" using e by (simp add: prod_eq_iff)
    with Some e removeElement_refines [OF inv, of e] show ?thesis
      by (simp add: lru_Delete_def item_lookup [OF inv]) (simp add: removeElement_def)
  qed
  then show "lru_Delete k c = (map_of (lru_abs c) k \<noteq> None, (case map_of (lru_abs c) k of None \<Rightarrow> [] | Some v \<Rightarrow> [(k, v)]), snd (snd (lru_Delete k c)))"
    "lru_abs (snd (snd (lru_Delete k c))) = without k (lru_abs c)" "lru_inv (snd (snd (lru_Delete k c)))"
    "lc_capacity (snd (snd (lru_Delete k c))) = lc_capacity c" by auto
qed

subsection \<open>Sequences of calls\<close>

datatype ('k, 'v) lru_op = OGet 'k | OSet 'k 'v | ODelete 'k | OClear

text \<open>A call shows the value that it returns, whether it returns true, and the calls of \<open>onEvict\<close>.\<close>

fun lru_do :: "('k, 'v) lru_op \<Rightarrow> ('k, 'v) Cache \<Rightarrow> ('v option \<times> bool \<times> ('k \<times> 'v) list) \<times> ('k, 'v) Cache" where
  "lru_do (OGet k) c = (let (r, c') = lru_Get k c in ((r, r \<noteq> None, []), c'))"
| "lru_do (OSet k v) c = (let (ev, c') = lru_Set k v c in ((None, False, ev), c'))"
| "lru_do (ODelete k) c = (let (b, ev, c') = lru_Delete k c in ((None, b, ev), c'))"
| "lru_do OClear c = ((None, False, []), lru_Clear c)"

fun lru_run :: "('k, 'v) lru_op list \<Rightarrow> ('k, 'v) Cache \<Rightarrow> ('v option \<times> bool \<times> ('k \<times> 'v) list) list \<times> ('k, 'v) Cache" where
  "lru_run [] c = ([], c)"
| "lru_run (a # as) c = (let (r, c') = lru_do a c; (rs, c'') = lru_run as c' in (r # rs, c''))"

text \<open>The same calls on the list of the entries, most recently used first.\<close>

fun spec_do :: "int \<Rightarrow> ('k, 'v) lru_op \<Rightarrow> ('k \<times> 'v) list \<Rightarrow> ('v option \<times> bool \<times> ('k \<times> 'v) list) \<times> ('k \<times> 'v) list" where
  "spec_do cap (OGet k) xs = ((map_of xs k, map_of xs k \<noteq> None, []), touch k xs)"
| "spec_do cap (OSet k v) xs = ((None, False, dropped cap k xs), put cap k v xs)"
| "spec_do cap (ODelete k) xs =
     ((None, map_of xs k \<noteq> None, (case map_of xs k of None \<Rightarrow> [] | Some v \<Rightarrow> [(k, v)])), without k xs)"
| "spec_do cap OClear xs = ((None, False, []), [])"

fun spec_run :: "int \<Rightarrow> ('k, 'v) lru_op list \<Rightarrow> ('k \<times> 'v) list \<Rightarrow> ('v option \<times> bool \<times> ('k \<times> 'v) list) list \<times> ('k \<times> 'v) list" where
  "spec_run cap [] xs = ([], xs)"
| "spec_run cap (a # as) xs = (let (r, xs') = spec_do cap a xs; (rs, xs'') = spec_run cap as xs' in (r # rs, xs''))"

lemma lru_do_refines:
  assumes inv: "lru_inv c"
  shows "fst (lru_do a c) = fst (spec_do (lc_capacity c) a (lru_abs c)) \<and>
    lru_abs (snd (lru_do a c)) = snd (spec_do (lc_capacity c) a (lru_abs c)) \<and>
    lru_inv (snd (lru_do a c)) \<and> lc_capacity (snd (lru_do a c)) = lc_capacity c"
proof (cases a)
  case (ODelete k)
  obtain b ev c' where d: "lru_Delete k c = (b, ev, c')" by (cases "lru_Delete k c") auto
  with ODelete lru_Delete_refines [OF inv, of k] show ?thesis by simp
next
  case OClear
  with inv show ?thesis by (simp add: lru_Clear_def lru_inv_def lru_abs_def)
qed (use lru_Get_refines [OF inv] lru_Set_refines [OF inv] in \<open>auto simp: Let_def split_beta\<close>)

lemma lru_run_refines:
  "lru_inv c \<Longrightarrow> fst (lru_run as c) = fst (spec_run (lc_capacity c) as (lru_abs c)) \<and>
    lru_abs (snd (lru_run as c)) = snd (spec_run (lc_capacity c) as (lru_abs c)) \<and>
    lru_inv (snd (lru_run as c)) \<and> lc_capacity (snd (lru_run as c)) = lc_capacity c"
proof (induction as arbitrary: c)
  case (Cons a as)
  from lru_do_refines [OF Cons.prems, of a] Cons.IH [of "snd (lru_do a c)"]
  show ?case by (simp add: Let_def split_beta)
qed simp

text \<open>
  C30. The linked list and the map of the cache behave as the list of entries in the order of their use:
  whatever calls are made, the answers and the calls of \<open>onEvict\<close> are those of that list, it never
  exceeds the capacity and holds a key at most once, and \<open>Keys\<close>, \<open>Has\<close> and \<open>Len\<close> report it.
\<close>

theorem lru_refines:
  "fst (lru_run as (lru_New n h)) = fst (spec_run (lru_cap n) as []) \<and>
    (let c = snd (lru_run as (lru_New n h)); xs = snd (spec_run (lru_cap n) as [])
     in lru_abs c = xs \<and> lru_Keys c = map fst xs \<and> distinct (lru_Keys c) \<and> lru_Len c = length xs \<and>
        int (lru_Len c) \<le> lru_cap n \<and> (\<forall>k. lru_Has k c \<longleftrightarrow> k \<in> fst ` set xs))"
proof -
  have new: "lru_abs (lru_New n h) = []" "lc_capacity (lru_New n h) = lru_cap n" by (simp_all add: lru_abs_def lru_New_def lru_cap_def)
  define c where "c = snd (lru_run as (lru_New n h))"
  have r: "fst (lru_run as (lru_New n h)) = fst (spec_run (lru_cap n) as [])" "lru_abs c = snd (spec_run (lru_cap n) as [])"
    "lru_inv c" "lc_capacity c = lru_cap n"
    using lru_run_refines [OF lru_inv_New [of n h], of as] new by (simp_all add: c_def)
  have keys: "lru_Keys c = map fst (lru_abs c)" by (simp add: lru_Keys_def lru_abs_def)
  have "distinct (lru_Keys c)"
    unfolding lru_Keys_def using inj_keys [OF r(3)] order_distinct [OF r(3)] by (simp add: distinct_map)
  moreover have "lru_Has k c \<longleftrightarrow> k \<in> fst ` set (lru_abs c)" for k
    using item_lookup [OF r(3), of k] map_of_eq_None_iff [of "lru_abs c" k] by (auto simp: lru_Has_def)
  moreover have "lru_Len c = length (lru_abs c)" by (simp add: lru_Len_def lru_abs_length)
  moreover have "int (lru_Len c) \<le> lru_cap n" using r(3,4) by (simp add: lru_Len_def lru_inv_def)
  ultimately show ?thesis unfolding Let_def c_def [symmetric] using r(1,2) keys by metis
qed

section \<open>The ring buffer\<close>

record 'a Ring =
  rb_data :: "'a list"
  rb_head :: nat
  rb_count :: nat
  rb_cap :: nat

definition rb_New :: "int \<Rightarrow> 'a \<Rightarrow> 'a Ring" where
  "rb_New capacity zero =
     (let n = (if capacity \<le> 0 then 16 else nat capacity)
      in \<lparr>rb_data = replicate n zero, rb_head = 0, rb_count = 0, rb_cap = n\<rparr>)"

definition rb_Push :: "'a \<Rightarrow> 'a Ring \<Rightarrow> 'a Ring" where
  "rb_Push v b =
     (let b1 = b\<lparr>rb_data := (rb_data b)[(rb_head b + rb_count b) mod rb_cap b := v]\<rparr>
      in if rb_count b = rb_cap b then b1\<lparr>rb_head := (rb_head b + 1) mod rb_cap b\<rparr> else b1\<lparr>rb_count := rb_count b + 1\<rparr>)"

definition rb_Pop :: "'a Ring \<Rightarrow> 'a option \<times> 'a Ring" where
  "rb_Pop b =
     (if rb_count b = 0 then (None, b)
      else (Some (rb_data b ! rb_head b), b\<lparr>rb_head := (rb_head b + 1) mod rb_cap b, rb_count := rb_count b - 1\<rparr>))"

definition rb_Peek :: "'a Ring \<Rightarrow> 'a option" where
  "rb_Peek b = (if rb_count b = 0 then None else Some (rb_data b ! rb_head b))"

definition rb_PeekLast :: "'a Ring \<Rightarrow> 'a option" where
  "rb_PeekLast b = (if rb_count b = 0 then None else Some (rb_data b ! ((rb_head b + rb_count b - 1) mod rb_cap b)))"

definition rb_Clear :: "'a Ring \<Rightarrow> 'a Ring" where
  "rb_Clear b = b\<lparr>rb_head := 0, rb_count := 0\<rparr>"

definition rb_ToSlice :: "'a Ring \<Rightarrow> 'a list" where
  "rb_ToSlice b = map (\<lambda>i. rb_data b ! ((rb_head b + i) mod rb_cap b)) [0..<rb_count b]"

definition rb_inv :: "'a Ring \<Rightarrow> bool" where
  "rb_inv b \<longleftrightarrow> 0 < rb_cap b \<and> length (rb_data b) = rb_cap b \<and> rb_head b < rb_cap b \<and> rb_count b \<le> rb_cap b"

lemma rb_inv_New: "rb_inv (rb_New n z)" "rb_ToSlice (rb_New n z) = []"
  by (simp_all add: rb_inv_def rb_New_def rb_ToSlice_def Let_def)

lemma mod_inj: "i < c \<Longrightarrow> j < c \<Longrightarrow> (h + i) mod c = (h + j) mod c \<longleftrightarrow> i = (j :: nat)"
proof (induction i j rule: linorder_wlog)
  case (le i j)
  show ?case
  proof
    assume "(h + i) mod c = (h + j) mod c"
    then have "c dvd j - i" using le mod_eq_dvd_iff_nat [of "h + i" "h + j" c] by (metis add_diff_cancel_left add_left_mono)
    moreover have "j - i < c" using le by simp
    ultimately show "i = j" using le nat_dvd_not_less [of "j - i" c] by (cases "j - i = 0") auto
  qed simp
qed (simp add: eq_commute)

lemma ToSlice_nth: "i < rb_count b \<Longrightarrow> rb_ToSlice b ! i = rb_data b ! ((rb_head b + i) mod rb_cap b)"
  by (simp add: rb_ToSlice_def)

lemma ToSlice_length: "length (rb_ToSlice b) = rb_count b"
  by (simp add: rb_ToSlice_def)

text \<open>\<open>Push\<close> drops the oldest element of a full buffer; \<open>Pop\<close>, \<open>Peek\<close> and \<open>PeekLast\<close> see the two ends.\<close>

lemma rb_Push_slice:
  assumes inv: "rb_inv b"
  shows "rb_ToSlice (rb_Push v b) = (if rb_count b = rb_cap b then tl (rb_ToSlice b) else rb_ToSlice b) @ [v]"
    "rb_inv (rb_Push v b)" "rb_cap (rb_Push v b) = rb_cap b"
proof -
  let ?h = "rb_head b" and ?n = "rb_count b" and ?c = "rb_cap b"
  have c: "0 < ?c" "length (rb_data b) = ?c" "?h < ?c" "?n \<le> ?c" using inv by (simp_all add: rb_inv_def)
  show "rb_inv (rb_Push v b)" "rb_cap (rb_Push v b) = ?c" using inv by (auto simp: rb_inv_def rb_Push_def Let_def)
  let ?d = "(rb_data b)[(?h + ?n) mod ?c := v]"
  have old: "?d ! ((?h + i) mod ?c) = rb_data b ! ((?h + i) mod ?c)" if "i < ?c" "i \<noteq> ?n" "?n < ?c" for i
    using mod_inj [of ?n ?c i ?h] that by simp
  show "rb_ToSlice (rb_Push v b) = (if ?n = ?c then tl (rb_ToSlice b) else rb_ToSlice b) @ [v]"
  proof (cases "?n = ?c")
    case True
    have sl: "rb_ToSlice (rb_Push v b) = map (\<lambda>i. (rb_data b)[?h := v] ! ((?h + Suc i) mod ?c)) [0..<?c]"
      using True c by (simp add: rb_ToSlice_def rb_Push_def Let_def mod_add_left_eq)
    have e: "rb_data b ! ((?h + Suc i) mod ?c) = (rb_data b)[?h := v] ! ((?h + Suc i) mod ?c)" if "Suc i < ?c" for i
      using mod_inj [of 0 ?c "Suc i" ?h] that c by simp
    show ?thesis
    proof (rule nth_equalityI)
      show "length (rb_ToSlice (rb_Push v b)) = length ((if ?n = ?c then tl (rb_ToSlice b) else rb_ToSlice b) @ [v])"
        using True c by (simp add: sl ToSlice_length)
      fix i assume "i < length (rb_ToSlice (rb_Push v b))"
      then have i: "i < ?c" by (simp add: sl)
      show "rb_ToSlice (rb_Push v b) ! i = ((if ?n = ?c then tl (rb_ToSlice b) else rb_ToSlice b) @ [v]) ! i"
      proof (cases "Suc i < ?c")
        case True
        then have "i < length (tl (rb_ToSlice b))" using \<open>?n = ?c\<close> by (simp add: ToSlice_length)
        with i True \<open>?n = ?c\<close> e [of i] show ?thesis by (simp add: sl nth_append nth_tl ToSlice_nth)
      next
        case False
        with i have "Suc i = ?c" by simp
        then have "(?h + Suc i) mod ?c = ?h" "length (tl (rb_ToSlice b)) = i"
          using c \<open>?n = ?c\<close> by (metis mod_add_self2 mod_less, simp add: ToSlice_length)
        with i \<open>?n = ?c\<close> c show ?thesis by (simp add: sl nth_append)
      qed
    qed
  next
    case False
    with c have lt: "?n < ?c" by simp
    then have "rb_ToSlice (rb_Push v b) = map (\<lambda>i. ?d ! ((?h + i) mod ?c)) [0..<?n] @ [?d ! ((?h + ?n) mod ?c)]"
      using False by (simp add: rb_ToSlice_def rb_Push_def Let_def)
    also have "map (\<lambda>i. ?d ! ((?h + i) mod ?c)) [0..<?n] = rb_ToSlice b"
      using old lt by (simp add: rb_ToSlice_def)
    also have "?d ! ((?h + ?n) mod ?c) = v" using c by simp
    finally show ?thesis using False by simp
  qed
qed

lemma rb_Pop_slice:
  assumes inv: "rb_inv b"
  shows "fst (rb_Pop b) = (case rb_ToSlice b of [] \<Rightarrow> None | x # xs \<Rightarrow> Some x)"
    "rb_ToSlice (snd (rb_Pop b)) = tl (rb_ToSlice b)" "rb_inv (snd (rb_Pop b))" "rb_cap (snd (rb_Pop b)) = rb_cap b"
proof -
  have c: "0 < rb_cap b" "rb_head b < rb_cap b" using inv by (simp_all add: rb_inv_def)
  have "rb_ToSlice b = rb_data b ! rb_head b # rb_ToSlice (snd (rb_Pop b))" if "rb_count b \<noteq> 0"
  proof -
    from that obtain n where "rb_count b = Suc n" by (cases "rb_count b") auto
    with c show ?thesis
      by (simp add: rb_ToSlice_def rb_Pop_def mod_add_left_eq map_upt_Suc del: upt_Suc)
  qed
  moreover have "rb_count b = 0 \<Longrightarrow> rb_ToSlice b = []" by (simp add: rb_ToSlice_def)
  ultimately show "fst (rb_Pop b) = (case rb_ToSlice b of [] \<Rightarrow> None | x # xs \<Rightarrow> Some x)"
    "rb_ToSlice (snd (rb_Pop b)) = tl (rb_ToSlice b)"
    by (cases "rb_count b = 0"; simp add: rb_Pop_def)+
  show "rb_inv (snd (rb_Pop b))" "rb_cap (snd (rb_Pop b)) = rb_cap b" using inv by (auto simp: rb_inv_def rb_Pop_def)
qed

lemma rb_ends:
  assumes inv: "rb_inv b"
  shows "rb_Peek b = (if rb_ToSlice b = [] then None else Some (hd (rb_ToSlice b)))"
    "rb_PeekLast b = (if rb_ToSlice b = [] then None else Some (last (rb_ToSlice b)))"
proof -
  have "rb_ToSlice b = [] \<longleftrightarrow> rb_count b = 0" using ToSlice_length [of b] by (metis length_0_conv)
  then show "rb_Peek b = (if rb_ToSlice b = [] then None else Some (hd (rb_ToSlice b)))"
    "rb_PeekLast b = (if rb_ToSlice b = [] then None else Some (last (rb_ToSlice b)))"
    using inv ToSlice_nth [of 0 b] ToSlice_nth [of "rb_count b - 1" b] ToSlice_length [of b]
    by (auto simp: rb_Peek_def rb_PeekLast_def hd_conv_nth last_conv_nth rb_inv_def)
qed

text \<open>After any number of \<open>Push\<close> calls the buffer holds the last \<open>Cap()\<close> values in their order.\<close>

lemma rb_keeps_latest:
  "rb_ToSlice (foldl (\<lambda>b v. rb_Push v b) (rb_New n z) vs) = drop (length vs - rb_cap (rb_New n z)) vs"
proof -
  have "rb_inv (foldl (\<lambda>b v. rb_Push v b) (rb_New n z) vs) \<and>
    rb_cap (foldl (\<lambda>b v. rb_Push v b) (rb_New n z) vs) = rb_cap (rb_New n z) \<and>
    rb_ToSlice (foldl (\<lambda>b v. rb_Push v b) (rb_New n z) vs) = drop (length vs - rb_cap (rb_New n z)) vs"
  proof (induction vs rule: rev_induct)
    case (snoc v vs)
    let ?b = "foldl (\<lambda>b v. rb_Push v b) (rb_New n z) vs" and ?c = "rb_cap (rb_New n z)"
    have IH: "rb_inv ?b" "rb_cap ?b = ?c" "rb_ToSlice ?b = drop (length vs - ?c) vs" using snoc.IH by blast+
    have len: "rb_count ?b = length vs - (length vs - ?c)" using IH(3) ToSlice_length [of ?b] by simp
    note ps = rb_Push_slice [OF IH(1), of v]
    have "(if rb_count ?b = ?c then tl (drop (length vs - ?c) vs) else drop (length vs - ?c) vs) @ [v] =
        drop (length (vs @ [v]) - ?c) (vs @ [v])"
    proof (cases "length vs < ?c")
      case False
      then have "rb_count ?b = ?c" "length (vs @ [v]) - ?c = Suc (length vs - ?c)" using len by auto
      with False rb_inv_New(1) [of n z] show ?thesis by (simp add: drop_Suc tl_drop rb_inv_def)
    qed (use len in simp)
    then have "rb_ToSlice (rb_Push v ?b) = drop (length (vs @ [v]) - ?c) (vs @ [v])"
      unfolding ps(1) IH(2,3) .
    with ps(2,3) IH(2) show ?case unfolding foldl_append foldl.simps by metis
  qed (simp add: rb_inv_New)
  then show ?thesis by simp
qed

section \<open>The slot map\<close>

record Handle =
  h_index :: "32 word"
  h_generation :: "32 word"

record 'a slot =
  s_value :: 'a
  s_generation :: "32 word"
  s_occupied :: bool

record 'a SlotMap =
  m_slots :: "'a slot list"
  m_freeList :: "32 word list"
  m_count :: int

definition sm_New :: "'a SlotMap" where
  "sm_New = \<lparr>m_slots = [], m_freeList = [], m_count = 0\<rparr>"

definition sm_Insert :: "'a \<Rightarrow> 'a SlotMap \<Rightarrow> Handle \<times> 'a SlotMap" where
  "sm_Insert v m =
     (if m_freeList m \<noteq> [] then
        let idx = last (m_freeList m);
            g = s_generation (m_slots m ! unat idx) + 1
        in (\<lparr>h_index = idx, h_generation = g\<rparr>,
            m\<lparr>m_freeList := butlast (m_freeList m),
              m_slots := (m_slots m)[unat idx := \<lparr>s_value = v, s_generation = g, s_occupied = True\<rparr>],
              m_count := m_count m + 1\<rparr>)
      else
        (\<lparr>h_index = word_of_nat (length (m_slots m)), h_generation = 1\<rparr>,
         m\<lparr>m_slots := m_slots m @ [\<lparr>s_value = v, s_generation = 1, s_occupied = True\<rparr>], m_count := m_count m + 1\<rparr>))"

text \<open>The test that \<open>Get\<close>, \<open>Remove\<close> and \<open>Update\<close> begin with.\<close>

definition live :: "Handle \<Rightarrow> 'a SlotMap \<Rightarrow> bool" where
  "live h m \<longleftrightarrow> unat (h_index h) < length (m_slots m) \<and> s_occupied (m_slots m ! unat (h_index h)) \<and>
     s_generation (m_slots m ! unat (h_index h)) = h_generation h"

definition sm_Get :: "Handle \<Rightarrow> 'a SlotMap \<Rightarrow> 'a option" where
  "sm_Get h m = (if live h m then Some (s_value (m_slots m ! unat (h_index h))) else None)"

definition sm_Remove :: "'a \<Rightarrow> Handle \<Rightarrow> 'a SlotMap \<Rightarrow> bool \<times> 'a SlotMap" where
  "sm_Remove zero h m =
     (if live h m then
        (True, m\<lparr>m_slots := (m_slots m)[unat (h_index h) := (m_slots m ! unat (h_index h))\<lparr>s_value := zero, s_occupied := False\<rparr>],
                m_freeList := m_freeList m @ [h_index h], m_count := m_count m - 1\<rparr>)
      else (False, m))"

definition sm_Update :: "Handle \<Rightarrow> 'a \<Rightarrow> 'a SlotMap \<Rightarrow> bool \<times> 'a SlotMap" where
  "sm_Update h v m =
     (if live h m then
        (True, m\<lparr>m_slots := (m_slots m)[unat (h_index h) := (m_slots m ! unat (h_index h))\<lparr>s_value := v\<rparr>]\<rparr>)
      else (False, m))"

subsection \<open>The life of a handle\<close>

datatype 'a sm_op = SInsert 'a | SRemove Handle | SUpdate Handle 'a

fun sm_do :: "'a \<Rightarrow> 'a sm_op \<Rightarrow> 'a SlotMap \<Rightarrow> 'a SlotMap" where
  "sm_do zero (SInsert v) m = snd (sm_Insert v m)"
| "sm_do zero (SRemove h) m = snd (sm_Remove zero h m)"
| "sm_do zero (SUpdate h v) m = snd (sm_Update h v m)"

fun inserts :: "'a sm_op list \<Rightarrow> nat" where
  "inserts [] = 0"
| "inserts (SInsert v # as) = Suc (inserts as)"
| "inserts (a # as) = inserts as"

definition sm_inv :: "'a SlotMap \<Rightarrow> bool" where
  "sm_inv m \<longleftrightarrow> distinct (m_freeList m) \<and> length (m_slots m) < 2 ^ 32 \<and>
     (\<forall>i. i \<in> set (m_freeList m) \<longleftrightarrow> unat i < length (m_slots m) \<and> \<not> s_occupied (m_slots m ! unat i)) \<and>
     m_count m = int (length (filter s_occupied (m_slots m)))"

text \<open>
  Slot \<open>i\<close> was removed at generation \<open>g\<close>; \<open>k\<close> insertions later its generation is \<open>g\<close> plus the number of
  insertions into it, and it is still free if there were none.
\<close>

definition aged :: "nat \<Rightarrow> 32 word \<Rightarrow> nat \<Rightarrow> 'a SlotMap \<Rightarrow> bool" where
  "aged i g k m \<longleftrightarrow> i < length (m_slots m) \<and>
     (\<exists>n\<le>k. s_generation (m_slots m ! i) = g + word_of_nat n \<and> (n = 0 \<longrightarrow> \<not> s_occupied (m_slots m ! i)))"

lemma aged_do:
  assumes "aged i g k m"
  shows "aged i g (inserts [a] + k) (sm_do z a m)"
proof -
  from assms obtain n where n: "n \<le> k" "s_generation (m_slots m ! i) = g + word_of_nat n" "n = 0 \<longrightarrow> \<not> s_occupied (m_slots m ! i)"
    and i: "i < length (m_slots m)" by (auto simp: aged_def)
  show ?thesis
  proof (cases a)
    case (SInsert v)
    show ?thesis
    proof (cases "m_freeList m \<noteq> [] \<and> unat (last (m_freeList m)) = i")
      case True
      with SInsert i n show ?thesis
        by (auto simp: aged_def sm_Insert_def Let_def intro!: exI [of _ "Suc n"])
    next
      case False
      with SInsert i n show ?thesis
        by (auto simp: aged_def sm_Insert_def Let_def nth_append nth_list_update intro!: exI [of _ n])
    qed
  next
    case (SRemove h)
    with i n show ?thesis
      by (cases "unat (h_index h) = i") (auto simp: aged_def sm_Remove_def intro!: exI [of _ n])
  next
    case (SUpdate h v)
    with i n show ?thesis
      by (auto simp: aged_def sm_Update_def nth_list_update live_def intro!: exI [of _ n])
  qed
qed

lemma inserts_Cons: "inserts (a # as) = inserts [a] + inserts as"
  by (cases a) simp_all

lemma aged_run: "aged i g k m \<Longrightarrow> aged i g (inserts as + k) (fold (sm_do z) as m)"
proof (induction as arbitrary: k m)
  case (Cons a as)
  from Cons.IH [OF aged_do [OF Cons.prems, of a z]] show ?case by (simp add: inserts_Cons [of a as] add_ac)
qed simp

text \<open>
  A handle stays refused after a successful \<open>Remove\<close> of it for the next 2 to the power 32, less one,
  insertions, whatever else is called in between.
\<close>

theorem removed_handle_refused:
  assumes "sm_Remove z h m = (True, m')" and "inserts as < 2 ^ 32"
  shows "sm_Get h (fold (sm_do z) as m') = None"
proof -
  have l: "live h m" and m': "m' = snd (sm_Remove z h m)" using assms(1) by (auto simp: sm_Remove_def split: if_splits)
  have "aged (unat (h_index h)) (h_generation h) 0 m'"
    using l unfolding m' by (auto simp: aged_def sm_Remove_def live_def)
  from aged_run [OF this, of as z] obtain n where n: "n \<le> inserts as"
    and s: "s_generation (m_slots (fold (sm_do z) as m') ! unat (h_index h)) = h_generation h + word_of_nat n"
    "n = 0 \<longrightarrow> \<not> s_occupied (m_slots (fold (sm_do z) as m') ! unat (h_index h))" by (auto simp: aged_def)
  have "n = 0" if "live h (fold (sm_do z) as m')"
  proof -
    have "(word_of_nat n :: 32 word) = 0" using that s(1) by (simp add: live_def)
    then have "2 ^ 32 dvd n" by (simp add: word_of_nat_eq_0_iff)
    moreover have "n < 2 ^ 32" using n assms(2) by simp
    ultimately show ?thesis by (metis dvd_imp_le not_less zero_less_iff_neq_zero)
  qed
  with s(2) have "\<not> live h (fold (sm_do z) as m')" by (auto simp: live_def)
  then show ?thesis by (simp add: sm_Get_def)
qed

theorem removed_handle_refused_witness:
  "sm_Get \<lparr>h_index = 0, h_generation = 1\<rparr> (fold (sm_do 0) [SInsert (7 :: nat), SInsert 8] (snd (sm_Remove 0 \<lparr>h_index = 0, h_generation = 1\<rparr>
     (snd (sm_Insert 5 sm_New))))) = None"
proof -
  have "sm_Remove 0 \<lparr>h_index = 0, h_generation = 1\<rparr> (snd (sm_Insert (5 :: nat) sm_New)) =
    (True, snd (sm_Remove 0 \<lparr>h_index = 0, h_generation = 1\<rparr> (snd (sm_Insert 5 sm_New))))"
    by (simp add: sm_Insert_def sm_New_def sm_Remove_def live_def)
  from removed_handle_refused [OF this, of "[SInsert 7, SInsert 8]"] show ?thesis by simp
qed

text \<open>
  With exactly that many insertions into its slot the handle names the value that is there then: each round
  of an insertion and the removal of what it returned advances the generation by one.
\<close>

definition recycle :: "'a \<Rightarrow> 'a \<Rightarrow> 'a SlotMap \<Rightarrow> 'a SlotMap" where
  "recycle zero v m = (let (h, m1) = sm_Insert v m in snd (sm_Remove zero h m1))"

lemma recycle_generation:
  assumes "m_freeList m = fs @ [i]" "unat i < length (m_slots m)" "\<not> s_occupied (m_slots m ! unat i)"
  shows "m_freeList (recycle z v m) = fs @ [i]" "length (m_slots (recycle z v m)) = length (m_slots m)"
    "\<not> s_occupied (m_slots (recycle z v m) ! unat i)"
    "s_generation (m_slots (recycle z v m) ! unat i) = s_generation (m_slots m ! unat i) + 1"
  using assms by (simp_all add: recycle_def sm_Insert_def sm_Remove_def live_def Let_def)

lemma recycled:
  assumes "m_freeList m = fs @ [i]" "unat i < length (m_slots m)" "\<not> s_occupied (m_slots m ! unat i)"
  shows "m_freeList ((recycle z v ^^ n) m) = fs @ [i] \<and> length (m_slots ((recycle z v ^^ n) m)) = length (m_slots m) \<and>
    \<not> s_occupied (m_slots ((recycle z v ^^ n) m) ! unat i) \<and>
    s_generation (m_slots ((recycle z v ^^ n) m) ! unat i) = s_generation (m_slots m ! unat i) + word_of_nat n"
proof (induction n)
  case (Suc n)
  with recycle_generation [of "(recycle z v ^^ n) m" fs i z v] assms(2) show ?case by (simp add: add_ac)
qed (use assms in simp)

lemma handle_revived:
  assumes "m_freeList m = fs @ [h_index h]" "unat (h_index h) < length (m_slots m)"
    "\<not> s_occupied (m_slots m ! unat (h_index h))" "s_generation (m_slots m ! unat (h_index h)) = h_generation h"
  shows "sm_Get h (snd (sm_Insert w ((recycle z v ^^ (2 ^ 32 - 1)) m))) = Some w"
proof -
  define n :: nat where "n = 2 ^ 32 - 1"
  have "Suc n = 2 ^ LENGTH(32)" by (simp add: n_def)
  then have "(word_of_nat (Suc n) :: 32 word) = 0" by (metis of_nat_numeral of_nat_power word_exp_length_eq_0)
  then have "h_generation h + (word_of_nat n + 1) = h_generation h" by (simp add: add.commute)
  with recycled [OF assms(1-3), where z = z and v = v and n = n] assms(2,4) show ?thesis
    unfolding n_def [symmetric] by (simp add: sm_Get_def sm_Insert_def live_def Let_def add.assoc)
qed

text \<open>Every operation keeps the free list and the count in step with the slots while indices fit 32 bits.\<close>

lemma count_update:
  assumes "i < length xs"
  shows "length (filter P (xs[i := x])) + (if P (xs ! i) then 1 else 0) = length (filter P xs) + (if P x then 1 else 0)"
  using assms
proof (induction xs arbitrary: i)
  case (Cons y ys)
  show ?case
  proof (cases i)
    case (Suc j)
    with Cons.IH [of j] Cons.prems show ?thesis by (cases "P y") simp_all
  qed simp
qed simp

lemma sm_inv_New: "sm_inv sm_New"
  by (simp add: sm_inv_def sm_New_def)

lemma sm_inv_Remove:
  assumes "sm_inv m"
  shows "sm_inv (snd (sm_Remove z h m))"
proof (cases "live h m")
  case True
  then have l: "unat (h_index h) < length (m_slots m)" "s_occupied (m_slots m ! unat (h_index h))" by (simp_all add: live_def)
  let ?s = "(m_slots m ! unat (h_index h))\<lparr>s_value := z, s_occupied := False\<rparr>"
  have fl: "i \<in> set (m_freeList m) \<longleftrightarrow> unat i < length (m_slots m) \<and> \<not> s_occupied (m_slots m ! unat i)" for i
    using assms by (simp add: sm_inv_def)
  have "i \<in> set (m_freeList m @ [h_index h]) \<longleftrightarrow> unat i < length (m_slots m) \<and> \<not> s_occupied ((m_slots m)[unat (h_index h) := ?s] ! unat i)" for i
    using fl [of i] l word_unat_eq_iff [of i "h_index h"] by (cases "i = h_index h") (auto simp: nth_list_update)
  moreover have "int (length (filter s_occupied ((m_slots m)[unat (h_index h) := ?s]))) = m_count m - 1"
    using count_update [OF l(1), of s_occupied ?s] l(2) assms by (simp add: sm_inv_def)
  moreover have "h_index h \<notin> set (m_freeList m)" using fl l by blast
  moreover have "snd (sm_Remove z h m) = m\<lparr>m_slots := (m_slots m)[unat (h_index h) := ?s], m_freeList := m_freeList m @ [h_index h], m_count := m_count m - 1\<rparr>"
    using True by (simp add: sm_Remove_def)
  ultimately show ?thesis using assms unfolding sm_inv_def by simp
qed (use assms in \<open>simp add: sm_Remove_def\<close>)

lemma sm_inv_Insert:
  assumes inv: "sm_inv m" and small: "length (m_slots m) + 1 < 2 ^ 32"
  shows "sm_inv (snd (sm_Insert v m))" "sm_Get (fst (sm_Insert v m)) (snd (sm_Insert v m)) = Some v"
    "\<And>h. live h m \<Longrightarrow> sm_Get h (snd (sm_Insert v m)) = sm_Get h m"
proof -
  have fl: "i \<in> set (m_freeList m) \<longleftrightarrow> unat i < length (m_slots m) \<and> \<not> s_occupied (m_slots m ! unat i)" for i
    using inv by (simp add: sm_inv_def)
  have d: "distinct (m_freeList m)" and cnt: "m_count m = int (length (filter s_occupied (m_slots m)))"
    using inv by (simp_all add: sm_inv_def)
  have "sm_inv (snd (sm_Insert v m)) \<and> sm_Get (fst (sm_Insert v m)) (snd (sm_Insert v m)) = Some v \<and>
    (\<forall>h. live h m \<longrightarrow> sm_Get h (snd (sm_Insert v m)) = sm_Get h m)"
  proof (cases "m_freeList m = []")
    case True
    let ?s = "\<lparr>s_value = v, s_generation = 1 :: 32 word, s_occupied = True\<rparr>"
    have u: "unat (word_of_nat (length (m_slots m)) :: 32 word) = length (m_slots m)"
      using small by (simp add: unat_of_nat take_bit_nat_eq_self)
    have ins: "sm_Insert v m = (\<lparr>h_index = word_of_nat (length (m_slots m)), h_generation = 1\<rparr>,
        m\<lparr>m_slots := m_slots m @ [?s], m_count := m_count m + 1\<rparr>)" using True by (simp add: sm_Insert_def)
    have occ: "s_occupied (m_slots m ! unat i)" if "unat i < length (m_slots m)" for i :: "32 word"
      using fl [of i] that True by simp
    have "\<not> (unat i < length (m_slots m @ [?s]) \<and> \<not> s_occupied ((m_slots m @ [?s]) ! unat i))" for i :: "32 word"
      using occ [of i] by (auto simp: nth_append less_Suc_eq)
    then have "sm_inv (snd (sm_Insert v m))"
      unfolding ins sm_inv_def using True small cnt by simp
    then show ?thesis unfolding ins using u by (auto simp: sm_Get_def live_def nth_append)
  next
    case False
    define idx where "idx = last (m_freeList m)"
    define s where "s = \<lparr>s_value = v, s_generation = s_generation (m_slots m ! unat idx) + 1, s_occupied = True\<rparr>"
    obtain fs where fs: "m_freeList m = fs @ [idx]" using False unfolding idx_def by (metis append_butlast_last_id)
    have free: "unat idx < length (m_slots m)" "\<not> s_occupied (m_slots m ! unat idx)" using fl [of idx] fs by auto
    have ins: "sm_Insert v m = (\<lparr>h_index = idx, h_generation = s_generation (m_slots m ! unat idx) + 1\<rparr>,
        m\<lparr>m_freeList := fs, m_slots := (m_slots m)[unat idx := s], m_count := m_count m + 1\<rparr>)"
      using False by (simp add: sm_Insert_def Let_def fs s_def)
    have "i \<in> set fs \<longleftrightarrow> unat i < length (m_slots m) \<and> \<not> s_occupied ((m_slots m)[unat idx := s] ! unat i)" for i
      using fl [of i] d free fs word_unat_eq_iff [of i idx] by (cases "i = idx") (auto simp: nth_list_update s_def)
    moreover have "int (length (filter s_occupied ((m_slots m)[unat idx := s]))) = m_count m + 1"
      using count_update [OF free(1), of s_occupied s] free(2) cnt by (simp add: s_def)
    ultimately have "sm_inv (snd (sm_Insert v m))"
      unfolding ins sm_inv_def using d small fs by simp
    then show ?thesis unfolding ins using free by (auto simp: sm_Get_def live_def nth_list_update s_def)
  qed
  then show "sm_inv (snd (sm_Insert v m))" "sm_Get (fst (sm_Insert v m)) (snd (sm_Insert v m)) = Some v"
    "\<And>h. live h m \<Longrightarrow> sm_Get h (snd (sm_Insert v m)) = sm_Get h m" by blast+
qed

end
