(* ===== verification/Corp_Postgres.thy ===== *)
theory Corp_Postgres
  imports Corp_System
begin

text \<open>
  The production stores of the corporate service (\<open>store/postgres_entity.go\<close>, \<open>postgres_role.go\<close>,
  \<open>postgres_ubo.go\<close>) on the tables of \<open>infrastructure/db/migrations\<close>.
  The tables are kept in the state \<open>corp\<close>: the rows of \<open>entity_officers\<close> and \<open>entity_shareholders\<close>,
  whose foreign key names an entity, stand in that entity's lists, those of \<open>beneficial_owners\<close> in the
  result of their entity.
  A query without \<open>ORDER BY\<close> returns its rows in an order of the database's choice.
  Ids are in the spelling in which Postgres prints them, and instants have the precision of the columns.
\<close>

section \<open>The database\<close>

text \<open>
  \<open>pg_fail n\<close>: how the \<open>n\<close>-th statement of a call fails, if it does; \<open>pg_uuid\<close>: the strings that a \<open>UUID\<close>
  column accepts; \<open>pg_date\<close>: a \<open>DATE\<close> as Postgres reads and prints it; the rest are the orders of rows.
\<close>

record pg_env =
  pg_fail :: "nat \<Rightarrow> string option"
  pg_key :: "nat \<Rightarrow> ident"
  pg_now :: time
  pg_uuid :: "string \<Rightarrow> bool"
  pg_date :: "string \<Rightarrow> string option"
  pg_keys :: "ident list"
  pg_officers :: "EntityOfficer list \<Rightarrow> EntityOfficer list"
  pg_holders :: "EntityShareholder list \<Rightarrow> EntityShareholder list"
  pg_owners :: "BeneficialOwner list \<Rightarrow> BeneficialOwner list"

definition first_fail :: "pg_env \<Rightarrow> nat list \<Rightarrow> string option" where
  "first_fail P ns = first_err (map (pg_fail P) ns)"

definition bad_uuid :: corp_err where
  "bad_uuid = Backend ''invalid input syntax for type uuid''"

definition duplicate_key :: corp_err where
  "duplicate_key = Backend ''duplicate key value violates unique constraint''"

text \<open>\<open>DECIMAL(5,2)\<close>: two decimals, halves away from zero; the stored values are not negative.\<close>

definition decimal2 :: "real \<Rightarrow> real" where
  "decimal2 x = of_int \<lfloor>x * 100 + 1 / 2\<rfloor> / 100"

section \<open>Entities\<close>

definition pg_entity_Create :: "pg_env \<Rightarrow> Entity \<Rightarrow> corp \<Rightarrow> corp_err + Entity \<times> corp" where
  "pg_entity_Create P e s =
     (case ValidateEntity (Some e) of
        Some err \<Rightarrow> Inl (InvalidRecord err)
      | None \<Rightarrow>
         (case pg_fail P 0 of
            Some err \<Rightarrow> Inl (Backend err)
          | None \<Rightarrow>
             (let i = pg_key P (corp_drawn s);
                  e' = e\<lparr>en_ID := i, en_CreatedAt := pg_now P, en_UpdatedAt := pg_now P\<rparr>
              in if corp_entities s i \<noteq> None \<or>
                    list_ex (\<lambda>r. en_AHUSKNumber r = en_AHUSKNumber e) (range_vals (pg_keys P) (corp_entities s))
                 then Inl duplicate_key
                 else Inr (e', s\<lparr>corp_entities := (corp_entities s)(i \<mapsto> e'\<lparr>en_Officers := [], en_Shareholders := []\<rparr>),
                                 corp_drawn := Suc (corp_drawn s)\<rparr>))))"

definition getEntity :: "pg_env \<Rightarrow> Entity option \<Rightarrow> corp_err + Entity" where
  "getEntity P row =
     (case pg_fail P 0 of
        Some err \<Rightarrow> Inl (Backend err)
      | None \<Rightarrow>
         (case row of
            None \<Rightarrow> Inl ErrEntityNotFound
          | Some e \<Rightarrow>
             (case first_fail P [1, 2] of
                Some err \<Rightarrow> Inl (Backend err)
              | None \<Rightarrow> Inr (e\<lparr>en_Officers := pg_officers P (en_Officers e),
                               en_Shareholders := pg_holders P (en_Shareholders e)\<rparr>))))"

definition pg_entity_GetByID :: "pg_env \<Rightarrow> ident \<Rightarrow> corp \<Rightarrow> corp_err + Entity" where
  "pg_entity_GetByID P i s = (if \<not> pg_uuid P i then Inl bad_uuid else getEntity P (corp_entities s i))"

definition pg_entity_GetBySKNumber :: "pg_env \<Rightarrow> string \<Rightarrow> corp \<Rightarrow> corp_err + Entity" where
  "pg_entity_GetBySKNumber P sk s =
     getEntity P (find (\<lambda>e. en_AHUSKNumber e = sk) (range_vals (pg_keys P) (corp_entities s)))"

text \<open>The rows of one \<open>AddOfficers\<close>: statement \<open>n\<close> inserts an officer under the \<open>d\<close>-th key, without its user.\<close>

fun officer_rows :: "pg_env \<Rightarrow> nat \<Rightarrow> nat \<Rightarrow> ident \<Rightarrow> EntityOfficer list \<Rightarrow> corp_err + EntityOfficer list" where
  "officer_rows P n d i [] = Inr []"
| "officer_rows P n d i (off # offs) =
     (case pg_fail P n of
        Some err \<Rightarrow> Inl (Backend err)
      | None \<Rightarrow>
         (if eo_AppointmentDate off \<noteq> [] \<and> pg_date P (eo_AppointmentDate off) = None
          then Inl (Backend ''invalid input syntax for type date'')
          else map_sum id
            (\<lambda>rows. off\<lparr>eo_ID := pg_key P d, eo_EntityID := i, eo_UserID := [],
               eo_AppointmentDate := (if eo_AppointmentDate off = [] then [] else the (pg_date P (eo_AppointmentDate off)))\<rparr> # rows)
            (officer_rows P (n + 1) (d + 1) i offs)))"

definition pg_entity_AddOfficers :: "pg_env \<Rightarrow> ident \<Rightarrow> EntityOfficer list \<Rightarrow> corp \<Rightarrow> corp_err + corp" where
  "pg_entity_AddOfficers P i offs s =
     (case first_err (map (\<lambda>off. ValidateOfficer (Some off)) offs) of
        Some err \<Rightarrow> Inl (InvalidRecord err)
      | None \<Rightarrow>
         (case first_fail P [0, 1] of
            Some err \<Rightarrow> Inl (Backend err)
          | None \<Rightarrow>
             (if \<not> pg_uuid P i then Inl bad_uuid
              else case corp_entities s i of
                None \<Rightarrow> Inl ErrEntityNotFound
              | Some e \<Rightarrow>
                 (case officer_rows P 2 (corp_drawn s) i offs of
                    Inl err \<Rightarrow> Inl err
                  | Inr rows \<Rightarrow>
                     (case first_fail P [2 + length offs, 3 + length offs] of
                        Some err \<Rightarrow> Inl (Backend err)
                      | None \<Rightarrow>
                          Inr (s\<lparr>corp_entities := (corp_entities s)(i \<mapsto>
                                   e\<lparr>en_Officers := en_Officers e @ rows, en_UpdatedAt := pg_now P\<rparr>),
                                 corp_drawn := corp_drawn s + length offs\<rparr>))))))"

fun holder_rows :: "pg_env \<Rightarrow> nat \<Rightarrow> nat \<Rightarrow> ident \<Rightarrow> EntityShareholder list \<Rightarrow> corp_err + EntityShareholder list" where
  "holder_rows P n d i [] = Inr []"
| "holder_rows P n d i (sh # shs) =
     (case pg_fail P n of
        Some err \<Rightarrow> Inl (Backend err)
      | None \<Rightarrow> map_sum id
          (\<lambda>rows. sh\<lparr>es_ID := pg_key P d, es_EntityID := i, es_Percentage := decimal2 (es_Percentage sh)\<rparr> # rows)
          (holder_rows P (n + 1) (d + 1) i shs))"

definition pg_entity_AddShareholders :: "pg_env \<Rightarrow> ident \<Rightarrow> EntityShareholder list \<Rightarrow> corp \<Rightarrow> corp_err + corp" where
  "pg_entity_AddShareholders P i shs s =
     (case first_err (map (\<lambda>sh. ValidateShareholder (Some sh)) shs) of
        Some err \<Rightarrow> Inl (InvalidRecord err)
      | None \<Rightarrow>
         (case first_fail P [0, 1] of
            Some err \<Rightarrow> Inl (Backend err)
          | None \<Rightarrow>
             (if \<not> pg_uuid P i then Inl bad_uuid
              else case corp_entities s i of
                None \<Rightarrow> Inl ErrEntityNotFound
              | Some e \<Rightarrow>
                 (case holder_rows P 2 (corp_drawn s) i shs of
                    Inl err \<Rightarrow> Inl err
                  | Inr rows \<Rightarrow>
                     (case first_fail P [2 + length shs, 3 + length shs] of
                        Some err \<Rightarrow> Inl (Backend err)
                      | None \<Rightarrow>
                          Inr (s\<lparr>corp_entities := (corp_entities s)(i \<mapsto>
                                   e\<lparr>en_Shareholders := en_Shareholders e @ rows, en_UpdatedAt := pg_now P\<rparr>),
                                 corp_drawn := corp_drawn s + length shs\<rparr>))))))"

definition PostgresEntityStore :: "pg_env \<Rightarrow> corp EntityStore" where
  "PostgresEntityStore P = \<lparr>
     st_Create = pg_entity_Create P,
     st_GetByID = pg_entity_GetByID P,
     st_GetBySKNumber = pg_entity_GetBySKNumber P,
     st_AddOfficers = pg_entity_AddOfficers P,
     st_AddShareholders = pg_entity_AddShareholders P\<rparr>"

section \<open>Roles\<close>

definition pg_role_Assign :: "pg_env \<Rightarrow> EntityRole \<Rightarrow> corp \<Rightarrow> corp_err + EntityRole \<times> corp" where
  "pg_role_Assign P r s =
     (case ValidateRole (Some r) of
        Some err \<Rightarrow> Inl (InvalidRecord err)
      | None \<Rightarrow>
         (case pg_fail P 0 of
            Some err \<Rightarrow> Inl (Backend err)
          | None \<Rightarrow>
             (let i = pg_key P (corp_drawn s);
                  r' = r\<lparr>er_ID := i, er_Status := StatusActive, er_GrantedAt := pg_now P\<rparr>
              in if \<not> pg_uuid P (er_EntityID r) \<or> \<not> pg_uuid P (er_UserID r) \<or>
                    er_GrantedBy r \<noteq> [] \<and> \<not> pg_uuid P (er_GrantedBy r)
                 then Inl bad_uuid
                 else if corp_entities s (er_EntityID r) = None
                 then Inl (Backend ''insert or update violates foreign key constraint'')
                 else if corp_roles s i \<noteq> None \<or>
                         list_ex (\<lambda>q. er_EntityID q = er_EntityID r \<and> er_UserID q = er_UserID r \<and> er_Status q = StatusActive)
                           (range_vals (pg_keys P) (corp_roles s))
                 then Inl duplicate_key
                 else Inr (r', s\<lparr>corp_roles := (corp_roles s)(i \<mapsto> r'\<lparr>er_RevokedAt := None\<rparr>), corp_drawn := Suc (corp_drawn s)\<rparr>))))"

definition pg_role_ListByEntity :: "pg_env \<Rightarrow> ident \<Rightarrow> corp \<Rightarrow> corp_err + EntityRole list" where
  "pg_role_ListByEntity P i s =
     (case pg_fail P 0 of
        Some err \<Rightarrow> Inl (Backend err)
      | None \<Rightarrow> if \<not> pg_uuid P i then Inl bad_uuid
                else Inr (filter (\<lambda>r. er_EntityID r = i) (range_vals (pg_keys P) (corp_roles s))))"

definition pg_role_GetByID :: "pg_env \<Rightarrow> ident \<Rightarrow> corp \<Rightarrow> corp_err + EntityRole" where
  "pg_role_GetByID P i s =
     (case pg_fail P 0 of
        Some err \<Rightarrow> Inl (Backend err)
      | None \<Rightarrow> if \<not> pg_uuid P i then Inl bad_uuid
                else case corp_roles s i of None \<Rightarrow> Inl ErrRoleNotFound | Some r \<Rightarrow> Inr r)"

definition pg_role_Revoke :: "pg_env \<Rightarrow> ident \<Rightarrow> corp \<Rightarrow> corp_err + corp" where
  "pg_role_Revoke P i s =
     (case pg_fail P 0 of
        Some err \<Rightarrow> Inl (Backend err)
      | None \<Rightarrow>
         (if \<not> pg_uuid P i then Inl bad_uuid
          else let rows = (case corp_roles s i of None \<Rightarrow> 0 | Some r \<Rightarrow> if er_Status r \<noteq> StatusRevoked then 1 else (0 :: nat));
                   s' = (if rows = 0 then s
                         else s\<lparr>corp_roles := (corp_roles s)(i \<mapsto>
                           (the (corp_roles s i))\<lparr>er_Status := StatusRevoked, er_RevokedAt := Some (pg_now P)\<rparr>)\<rparr>)
               in if rows = 0
                  then (case pg_fail P 1 of
                          Some err \<Rightarrow> Inl (Backend err)
                        | None \<Rightarrow>
                           (case corp_roles s' i of
                              None \<Rightarrow> Inl ErrRoleNotFound
                            | Some r \<Rightarrow> if er_Status r = StatusRevoked then Inl ErrRoleAlreadyRevoked else Inr s'))
                  else Inr s'))"

definition pg_role_GetUserRole :: "pg_env \<Rightarrow> ident \<Rightarrow> ident \<Rightarrow> corp \<Rightarrow> corp_err + EntityRole" where
  "pg_role_GetUserRole P i u s =
     (case pg_fail P 0 of
        Some err \<Rightarrow> Inl (Backend err)
      | None \<Rightarrow> if \<not> pg_uuid P i \<or> \<not> pg_uuid P u then Inl bad_uuid
                else case find (\<lambda>r. er_EntityID r = i \<and> er_UserID r = u \<and> er_Status r = StatusActive)
                            (range_vals (pg_keys P) (corp_roles s)) of
                       None \<Rightarrow> Inl ErrRoleNotFound | Some r \<Rightarrow> Inr r)"

definition PostgresRoleStore :: "pg_env \<Rightarrow> corp RoleStore" where
  "PostgresRoleStore P = \<lparr>
     rs_Assign = pg_role_Assign P,
     rs_ListByEntity = pg_role_ListByEntity P,
     rs_GetByID = pg_role_GetByID P,
     rs_Revoke = pg_role_Revoke P,
     rs_GetUserRole = pg_role_GetUserRole P\<rparr>"

section \<open>Beneficial owners\<close>

definition owner_row :: "pg_env \<Rightarrow> BeneficialOwner \<Rightarrow> BeneficialOwner" where
  "owner_row P b = b\<lparr>bo_Percentage := decimal2 (bo_Percentage b), bo_VerifiedAt := rfc3339 (pg_now P)\<rparr>"

text \<open>
  The transaction of \<open>Save\<close>: statement 0 begins it, 1 deletes, then one insertion for each owner, then
  the commit; a result without owners leaves no row.
\<close>

definition ubo_tx :: "pg_env \<Rightarrow> AnalysisResult \<Rightarrow> corp \<Rightarrow> corp_err + corp" where
  "ubo_tx P r s =
     (case first_fail P [0 ..< 3 + length (ar_BeneficialOwners r)] of
        Some err \<Rightarrow> Inl (Backend err)
      | None \<Rightarrow>
         (if \<not> pg_uuid P (ar_EntityID r) then Inl bad_uuid
          else if ar_BeneficialOwners r \<noteq> [] \<and> corp_entities s (ar_EntityID r) = None
          then Inl (Backend ''insert or update violates foreign key constraint'')
          else if ar_BeneficialOwners r \<noteq> [] \<and>
                  (rune_count (ar_Criteria r) > 20 \<or> list_ex (\<lambda>b. rune_count (bo_Source b) > 20) (ar_BeneficialOwners r))
          then Inl (Backend ''value too long for type character varying(20)'')
          else Inr (s\<lparr>corp_ubos := (corp_ubos s)(ar_EntityID r :=
                 if ar_BeneficialOwners r = [] then None
                 else Some (r\<lparr>ar_EntityName := [], ar_AnalyzedAt := rfc3339 (pg_now P),
                            ar_BeneficialOwners := map (owner_row P) (ar_BeneficialOwners r)\<rparr>))\<rparr>)))"

definition pg_ubo_GetByEntityID :: "pg_env \<Rightarrow> ident \<Rightarrow> corp \<Rightarrow> corp_err + AnalysisResult" where
  "pg_ubo_GetByEntityID P i s =
     (case pg_fail P 0 of
        Some err \<Rightarrow> Inl (Backend err)
      | None \<Rightarrow> if \<not> pg_uuid P i then Inl bad_uuid
                else case corp_ubos s i of
                       None \<Rightarrow> Inl ErrUBONotFound
                     | Some r \<Rightarrow> Inr (r\<lparr>ar_BeneficialOwners := pg_owners P (ar_BeneficialOwners r)\<rparr>))"

fun ubo_collect :: "(ident \<Rightarrow> corp_err + AnalysisResult) \<Rightarrow> ident list \<Rightarrow> corp_err + AnalysisResult list" where
  "ubo_collect get [] = Inr []"
| "ubo_collect get (i # is) =
     (case get i of Inl err \<Rightarrow> Inl err | Inr r \<Rightarrow> map_sum id (\<lambda>rs. r # rs) (ubo_collect get is))"

definition pg_ubo_ListAll :: "pg_env \<Rightarrow> corp \<Rightarrow> corp_err + AnalysisResult list" where
  "pg_ubo_ListAll P s =
     (case pg_fail P 0 of
        Some err \<Rightarrow> Inl (Backend err)
      | None \<Rightarrow> ubo_collect (\<lambda>i. pg_ubo_GetByEntityID P i s) (filter (\<lambda>i. corp_ubos s i \<noteq> None) (pg_keys P)))"

definition PostgresUBOStore :: "pg_env \<Rightarrow> corp UBOStore" where
  "PostgresUBOStore P = \<lparr>
     us_Save = PostgresUBO_Save (ubo_tx P),
     us_GetByEntityID = pg_ubo_GetByEntityID P,
     us_ListAll = pg_ubo_ListAll P\<rparr>"

section \<open>Registration in production\<close>

text \<open>
  \<open>Register\<close> grants its role in the name of \<open>system\<close>, which the column \<open>granted_by UUID\<close> does not accept.
\<close>

lemma system_grant_refused:
  assumes "\<not> pg_uuid P ''system''" "er_GrantedBy r = ''system''"
  shows "\<exists>err. rs_Assign (PostgresRoleStore P) r s = Inl err"
  using assms by (auto simp: PostgresRoleStore_def pg_role_Assign_def Let_def split: option.splits)

definition sk_taken :: "string \<Rightarrow> corp \<Rightarrow> bool" where
  "sk_taken sk s \<longleftrightarrow> (\<exists>i e. corp_entities s i = Some e \<and> en_AHUSKNumber e = sk)"

lemma sk_taken_upd:
  assumes "sk_taken sk s" "corp_entities s i = Some e" "corp_entities s' = (corp_entities s)(i \<mapsto> e')"
    "en_AHUSKNumber e' = en_AHUSKNumber e"
  shows "sk_taken sk s'"
proof -
  from assms(1) obtain j q where q: "corp_entities s j = Some q" "en_AHUSKNumber q = sk" by (auto simp: sk_taken_def)
  show ?thesis
  proof (cases "j = i")
    case True
    with q assms(2-4) have "corp_entities s' i = Some e'" "en_AHUSKNumber e' = sk" by simp_all
    then show ?thesis unfolding sk_taken_def by blast
  next
    case False
    with q assms(3) have "corp_entities s' j = Some q" by simp
    with q(2) show ?thesis unfolding sk_taken_def by blast
  qed
qed

lemma pg_entities_kept:
  "st_AddOfficers (PostgresEntityStore P) i offs s = Inr s' \<Longrightarrow>
     corp_roles s' = corp_roles s \<and> (sk_taken sk s \<longrightarrow> sk_taken sk s')"
  "st_AddShareholders (PostgresEntityStore P) i shs s = Inr s' \<Longrightarrow>
     corp_roles s' = corp_roles s \<and> (sk_taken sk s \<longrightarrow> sk_taken sk s')"
  by (auto simp: PostgresEntityStore_def pg_entity_AddOfficers_def pg_entity_AddShareholders_def
      intro: sk_taken_upd split: option.splits if_splits sum.splits)

lemma pg_Create_Inr:
  assumes "st_Create (PostgresEntityStore P) e s = Inr (e', s')"
  shows "corp_roles s' = corp_roles s \<and> sk_taken (en_AHUSKNumber e) s'"
proof -
  let ?i = "pg_key P (corp_drawn s)"
  from assms obtain q where q: "corp_entities s' ?i = Some q" "en_AHUSKNumber q = en_AHUSKNumber e" "corp_roles s' = corp_roles s"
    by (auto simp: PostgresEntityStore_def pg_entity_Create_def Let_def split: option.splits if_splits)
  then show ?thesis unfolding sk_taken_def by blast
qed

lemma pg_Create_taken:
  assumes "sk_taken (en_AHUSKNumber e) s" "dom (corp_entities s) \<subseteq> set (pg_keys P)"
  shows "\<exists>err. st_Create (PostgresEntityStore P) e s = Inl err"
proof -
  from assms(1) obtain i q where q: "corp_entities s i = Some q" "en_AHUSKNumber q = en_AHUSKNumber e"
    by (auto simp: sk_taken_def)
  then have "q \<in> set (range_vals (pg_keys P) (corp_entities s))" using assms(2) by (auto simp: set_range_vals)
  then have "list_ex (\<lambda>r. en_AHUSKNumber r = en_AHUSKNumber e) (range_vals (pg_keys P) (corp_entities s))"
    using q(2) by (auto simp: list_ex_iff)
  then show ?thesis by (simp add: PostgresEntityStore_def pg_entity_Create_def Let_def split: option.splits)
qed

lemma register_entity_refused:
  assumes "\<not> pg_uuid P ''system''"
    and "register_entity mac key now (PostgresEntityStore P) (PostgresRoleStore P) req c offs shs s = (ans, s')"
  shows "is_error ans \<and> corp_roles s' = corp_roles s \<and> (s' = s \<or> sk_taken (cs_SKNumber c) s')"
proof (cases "st_Create (PostgresEntityStore P) (to_entity now c) s")
  case (Inl err)
  with assms(2) show ?thesis by (auto simp: register_entity_def)
next
  case (Inr es)
  obtain e s1 where es: "es = (e, s1)" by (cases es)
  define s2 where "s2 = (case st_AddOfficers (PostgresEntityStore P) (en_ID e)
      (map (to_officer mac key (tokenizeNIK mac (rq_CallerNIK req) key)) offs) s1 of Inl err \<Rightarrow> s1 | Inr s' \<Rightarrow> s')"
  define s3 where "s3 = (if shs = [] then s2 else case st_AddShareholders (PostgresEntityStore P) (en_ID e)
      (map to_shareholder shs) s2 of Inl err \<Rightarrow> s2 | Inr s' \<Rightarrow> s')"
  have 1: "corp_roles s1 = corp_roles s" "sk_taken (cs_SKNumber c) s1"
    using pg_Create_Inr [OF Inr [unfolded es]] by (simp_all add: to_entity_def)
  then have 2: "corp_roles s2 = corp_roles s \<and> sk_taken (cs_SKNumber c) s2"
    by (auto simp: s2_def dest: pg_entities_kept(1) [where sk = "cs_SKNumber c"] split: sum.splits)
  then have 3: "corp_roles s3 = corp_roles s \<and> sk_taken (cs_SKNumber c) s3"
    by (auto simp: s3_def dest: pg_entities_kept(2) [where sk = "cs_SKNumber c"] split: sum.splits)
  obtain err where "rs_Assign (PostgresRoleStore P) \<lparr>er_ID = [], er_EntityID = en_ID e, er_UserID = rq_CallerUserID req,
      er_Role = RoleRegisteredOfficer, er_GrantedBy = ''system'', er_ServiceAccess = [''signing'', ''garudainfo''],
      er_Status = [], er_GrantedAt = zero_time, er_RevokedAt = None\<rparr> s3 = Inl err"
    using system_grant_refused [OF assms(1)] by fastforce
  then have "register_entity mac key now (PostgresEntityStore P) (PostgresRoleStore P) req c offs shs s =
      (WriteError 500 ''internal_error'' ''Failed to assign role'', s3)"
    unfolding register_entity_def Inr es sum.case prod.case Let_def s2_def [symmetric] s3_def [symmetric] by (simp only: sum.case)
  with assms(2) 3 show ?thesis by auto
qed

lemma Register_path:
  assumes "Register mac key now A E R body s = (ans, s')"
  shows "is_error ans \<and> s' = s \<or> (\<exists>req c offs shs. body = Some req \<and> ahu_SearchCompany A (rq_SKNumber req) = Inr c \<and>
    register_entity mac key now E R req c offs shs s = (ans, s'))"
  using assms by (auto simp: Register_def Let_def split: option.splits sum.splits if_splits)

lemma register_taken:
  assumes "sk_taken (cs_SKNumber c) s" "dom (corp_entities s) \<subseteq> set (pg_keys P)"
  shows "register_entity mac key now (PostgresEntityStore P) R req c offs shs s =
    (WriteError 500 ''internal_error'' ''Failed to create entity'', s)"
proof -
  have "en_AHUSKNumber (to_entity now c) = cs_SKNumber c" by (simp add: to_entity_def)
  then obtain err where "st_Create (PostgresEntityStore P) (to_entity now c) s = Inl err"
    using pg_Create_taken [of "to_entity now c" s P] assms by auto
  then show ?thesis by (simp add: register_entity_def)
qed

text \<open>
  C32. On the production stores no registration ever succeeds: the role store refuses the grant by \<open>system\<close>,
  so every answer is an error and no role appears; but the entity stays behind whenever it was inserted,
  and then every further registration of that company is refused without a change, because its SK number
  is taken.
\<close>

theorem postgres_registration_fails:
  assumes "\<not> pg_uuid P ''system''"
    and "Register mac key now A (PostgresEntityStore P) (PostgresRoleStore P) body s = (ans, s')"
  shows "is_error ans \<and> corp_roles s' = corp_roles s \<and>
    (s' = s \<or> (\<exists>req c. body = Some req \<and> ahu_SearchCompany A (rq_SKNumber req) = Inr c \<and> sk_taken (cs_SKNumber c) s' \<and>
       (\<forall>P' A' now' req' c'. ahu_SearchCompany A' (rq_SKNumber req') = Inr c' \<longrightarrow>
          cs_SKNumber c' = cs_SKNumber c \<longrightarrow> dom (corp_entities s') \<subseteq> set (pg_keys P') \<longrightarrow>
          (\<exists>ans'. Register mac key now' A' (PostgresEntityStore P') (PostgresRoleStore P') (Some req') s' = (ans', s') \<and>
                  is_error ans'))))"
proof -
  have again: "\<exists>ans'. Register mac key now' A' (PostgresEntityStore P') (PostgresRoleStore P') (Some req') s' = (ans', s') \<and> is_error ans'"
    if "ahu_SearchCompany A' (rq_SKNumber req') = Inr c'" "sk_taken (cs_SKNumber c') s'" "dom (corp_entities s') \<subseteq> set (pg_keys P')"
    for P' A' now' req' c'
  proof -
    obtain ans' t where r: "Register mac key now' A' (PostgresEntityStore P') (PostgresRoleStore P') (Some req') s' = (ans', t)"
      by fastforce
    from Register_path [OF r] that(1) register_taken [OF that(2,3)] show ?thesis using r by auto
  qed
  from Register_path [OF assms(2)] show ?thesis
  proof
    assume "\<exists>req c offs shs. body = Some req \<and> ahu_SearchCompany A (rq_SKNumber req) = Inr c \<and>
      register_entity mac key now (PostgresEntityStore P) (PostgresRoleStore P) req c offs shs s = (ans, s')"
    then obtain req c offs shs where c: "body = Some req" "ahu_SearchCompany A (rq_SKNumber req) = Inr c"
      and r: "register_entity mac key now (PostgresEntityStore P) (PostgresRoleStore P) req c offs shs s = (ans, s')" by blast
    from register_entity_refused [OF assms(1) r] c again show ?thesis by metis
  qed simp
qed

definition example_pg :: pg_env where
  "example_pg = \<lparr>pg_fail = \<lambda>n. None, pg_key = \<lambda>n. CHR ''k'' # replicate n CHR ''x'', pg_now = 0,
     pg_uuid = \<lambda>u. u \<noteq> ''system'', pg_date = Some, pg_keys = [''k''], pg_officers = id, pg_holders = id, pg_owners = id\<rparr>"

definition example_refused :: "(corp_err, registerResponse) answer \<times> corp" where
  "example_refused = Register (\<lambda>k m. m) ''k'' 0 example_ahu (PostgresEntityStore example_pg) (PostgresRoleStore example_pg)
     (Some \<lparr>rq_SKNumber = ''S'', rq_CallerUserID = ''u'', rq_CallerNIK = ''1''\<rparr>) corp_init"

lemma example_refused_leaves: "snd example_refused \<noteq> corp_init"
proof -
  have "corp_entities (snd example_refused) ''k'' \<noteq> None"
    by code_simp
  then show ?thesis by (auto simp: corp_init_def)
qed

theorem postgres_registration_fails_witness:
  "is_error (fst example_refused) \<and> sk_taken ''S'' (snd example_refused) \<and> corp_roles (snd example_refused) = Map.empty"
proof -
  obtain ans s' where r: "example_refused = (ans, s')" by (cases example_refused)
  have "\<not> pg_uuid example_pg ''system''" by (simp add: example_pg_def)
  from postgres_registration_fails [OF this r [unfolded example_refused_def]] have "is_error ans \<and> corp_roles s' = Map.empty \<and>
      (s' = corp_init \<or> sk_taken ''S'' s')" by (auto simp: example_ahu_def corp_init_def)
  moreover have "s' \<noteq> corp_init" using example_refused_leaves unfolding r by simp
  ultimately show ?thesis unfolding r by simp
qed

section \<open>The contract of the role store\<close>

interpretation pg_roles: role_store "PostgresRoleStore P" corp_roles for P
  by unfold_locales
    (auto simp: PostgresRoleStore_def pg_role_Assign_def pg_role_GetUserRole_def pg_role_GetByID_def pg_role_Revoke_def
      Let_def set_range_vals ran_def dest!: find_SomeD split: option.splits if_splits)

text \<open>Unlike the in-memory store, this one keeps at most one active role for an entity and a user.\<close>

definition one_active_role :: "corp \<Rightarrow> bool" where
  "one_active_role s \<longleftrightarrow> (\<forall>i j q r. corp_roles s i = Some q \<longrightarrow> corp_roles s j = Some r \<longrightarrow>
     er_Status q = StatusActive \<longrightarrow> er_Status r = StatusActive \<longrightarrow>
     er_EntityID q = er_EntityID r \<longrightarrow> er_UserID q = er_UserID r \<longrightarrow> i = j)"

lemma pg_role_Assign_one:
  assumes "one_active_role s" "dom (corp_roles s) \<subseteq> set (pg_keys P)" "pg_role_Assign P r s = Inr (r', s')"
  shows "one_active_role s'"
proof -
  let ?i = "pg_key P (corp_drawn s)"
  from assms(3) have s': "corp_roles s' = (corp_roles s)(?i \<mapsto> r'\<lparr>er_RevokedAt := None\<rparr>)" "corp_roles s ?i = None"
    and r': "er_EntityID r' = er_EntityID r" "er_UserID r' = er_UserID r"
    and free: "\<not> list_ex (\<lambda>q. er_EntityID q = er_EntityID r \<and> er_UserID q = er_UserID r \<and> er_Status q = StatusActive)
      (range_vals (pg_keys P) (corp_roles s))"
    by (auto simp: pg_role_Assign_def Let_def split: option.splits if_splits)
  have none: "\<not> (er_EntityID q = er_EntityID r \<and> er_UserID q = er_UserID r \<and> er_Status q = StatusActive)"
    if "corp_roles s j = Some q" for j q
  proof -
    have "q \<in> set (range_vals (pg_keys P) (corp_roles s))" using that assms(2) by (auto simp: set_range_vals)
    with free show ?thesis by (auto simp: list_ex_iff)
  qed
  show ?thesis
    unfolding one_active_role_def
  proof (intro allI impI)
    fix i j q p
    assume a: "corp_roles s' i = Some q" "corp_roles s' j = Some p" "er_Status q = StatusActive" "er_Status p = StatusActive"
      "er_EntityID q = er_EntityID p" "er_UserID q = er_UserID p"
    show "i = j"
    proof (cases "i = ?i \<or> j = ?i")
      case True
      then show ?thesis using a none [of i q] none [of j p] s'(1) r' by (auto split: if_splits)
    next
      case False
      then have "corp_roles s i = Some q" "corp_roles s j = Some p" using a(1,2) s'(1) by simp_all
      with assms(1) a(3-6) show ?thesis unfolding one_active_role_def by blast
    qed
  qed
qed

lemma pg_role_Revoke_one:
  assumes "one_active_role s" "pg_role_Revoke P i s = Inr s'"
  shows "one_active_role s'"
proof -
  have ok: "rs_Revoke (PostgresRoleStore P) i s = Inr s'" using assms(2) by (simp add: PostgresRoleStore_def)
  from pg_roles.revoke_ok [OF ok] obtain r t where
    s': "corp_roles s' = (corp_roles s)(i \<mapsto> r\<lparr>er_Status := StatusRevoked, er_RevokedAt := Some t\<rparr>)" by blast
  show ?thesis
    unfolding one_active_role_def
  proof (intro allI impI)
    fix j k q p
    assume a: "corp_roles s' j = Some q" "corp_roles s' k = Some p" "er_Status q = StatusActive" "er_Status p = StatusActive"
      "er_EntityID q = er_EntityID p" "er_UserID q = er_UserID p"
    have "j \<noteq> i" "k \<noteq> i" using a(1-4) s' by auto
    with a(1,2) s' have "corp_roles s j = Some q" "corp_roles s k = Some p" by simp_all
    with assms(1) a(3-6) show "j = k" unfolding one_active_role_def by blast
  qed
qed

section \<open>Agreement with the in-memory store\<close>

text \<open>
  Where the database does not fail and the records are valid, the two entity stores do the same, except
  that officers lose their user and shares are rounded to two decimals.
\<close>

lemma first_fail_None: "\<forall>n. pg_fail P n = None \<Longrightarrow> first_fail P ns = None"
  by (auto simp: first_fail_def)

lemma officer_rows_ok:
  assumes "\<forall>n. pg_fail P n = None"
  shows "\<forall>off\<in>set offs. eo_AppointmentDate off = [] \<or> pg_date P (eo_AppointmentDate off) = Some (eo_AppointmentDate off) \<Longrightarrow>
    officer_rows P n d i offs = Inr (stamp_officers (pg_key P) d i (map (\<lambda>off. off\<lparr>eo_UserID := []\<rparr>) offs))"
proof (induction offs arbitrary: n d)
  case (Cons off offs)
  from Cons.IH [of "n + 1" "d + 1"] Cons.prems assms show ?case
    by (auto simp: stamp_officers_def)
qed (simp add: stamp_officers_def)

lemma holder_rows_ok:
  assumes "\<forall>n. pg_fail P n = None"
  shows "holder_rows P n d i shs =
    Inr (stamp_shareholders (pg_key P) d i (map (\<lambda>sh. sh\<lparr>es_Percentage := decimal2 (es_Percentage sh)\<rparr>) shs))"
proof (induction shs arbitrary: n d)
  case (Cons sh shs)
  from Cons.IH [of "n + 1" "d + 1"] assms show ?case by (simp add: stamp_shareholders_def)
qed (simp add: stamp_shareholders_def)

lemma pg_AddOfficers_agrees:
  assumes "\<forall>n. pg_fail P n = None" "pg_uuid P i" "\<forall>off\<in>set offs. ValidateOfficer (Some off) = None"
    "\<forall>off\<in>set offs. eo_AppointmentDate off = [] \<or> pg_date P (eo_AppointmentDate off) = Some (eo_AppointmentDate off)"
  shows "st_AddOfficers (PostgresEntityStore P) i offs s =
    st_AddOfficers (InMemoryEntityStore (pg_key P) (pg_now P) ks) i (map (\<lambda>off. off\<lparr>eo_UserID := []\<rparr>) offs) s"
  using assms officer_rows_ok [OF assms(1,4)]
  by (auto simp: PostgresEntityStore_def InMemoryEntityStore_def pg_entity_AddOfficers_def entity_AddOfficers_def first_fail_None
      split: option.splits)

lemma pg_AddShareholders_agrees:
  assumes "\<forall>n. pg_fail P n = None" "pg_uuid P i" "\<forall>sh\<in>set shs. ValidateShareholder (Some sh) = None"
  shows "st_AddShareholders (PostgresEntityStore P) i shs s =
    st_AddShareholders (InMemoryEntityStore (pg_key P) (pg_now P) ks) i (map (\<lambda>sh. sh\<lparr>es_Percentage := decimal2 (es_Percentage sh)\<rparr>) shs) s"
  using assms holder_rows_ok [OF assms(1)]
  by (auto simp: PostgresEntityStore_def InMemoryEntityStore_def pg_entity_AddShareholders_def entity_AddShareholders_def first_fail_None
      split: option.splits)

lemma pg_GetByID_agrees:
  assumes "\<forall>n. pg_fail P n = None" "pg_uuid P i" "pg_officers P = id" "pg_holders P = id"
  shows "st_GetByID (PostgresEntityStore P) i s = st_GetByID (InMemoryEntityStore (pg_key P) (pg_now P) ks) i s"
  using assms
  by (auto simp: PostgresEntityStore_def InMemoryEntityStore_def pg_entity_GetByID_def getEntity_def entity_GetByID_def first_fail_None
      split: option.splits)

end
