(* ===== verification/Sign_Postgres.thy ===== *)
theory Sign_Postgres
  imports Sign_System
begin

text \<open>
  The production stores of the signing service (\<open>store/postgres_certificate.go\<close>, \<open>postgres_request.go\<close>,
  \<open>postgres_document.go\<close>) on the tables of \<open>infrastructure/db/migrations\<close>, kept in the state \<open>sign\<close>.
  Each is compared with the in-memory store of the same interface.
  Ids are in the spelling in which Postgres prints them, and instants have the precision of the columns.
\<close>

section \<open>The database\<close>

text \<open>
  \<open>sp_fail\<close>: how the statement of a call fails, if it does; \<open>sp_uuid\<close>: what a \<open>UUID\<close> column accepts;
  \<open>sp_user\<close>: the keys of the table \<open>users\<close>; \<open>sp_recent_certs\<close>, \<open>sp_recent_reqs\<close>: \<open>ORDER BY created_at DESC\<close>.
\<close>

record sp_env =
  sp_fail :: "string option"
  sp_key :: "nat \<Rightarrow> ident"
  sp_now :: time
  sp_uuid :: "string \<Rightarrow> bool"
  sp_user :: "ident \<Rightarrow> bool"
  sp_keys :: "ident list"
  sp_recent_certs :: "Certificate list \<Rightarrow> Certificate list"
  sp_recent_reqs :: "SigningRequest list \<Rightarrow> SigningRequest list"

text \<open>One statement whose ids have to be of type \<open>UUID\<close>.\<close>

definition statement :: "sp_env \<Rightarrow> ident list \<Rightarrow> (sign_err + 'a) \<Rightarrow> sign_err + 'a" where
  "statement P ids result =
     (case sp_fail P of
        Some err \<Rightarrow> Inl (Other err)
      | None \<Rightarrow> if list_all (sp_uuid P) ids then result else Inl (Other ''invalid input syntax for type uuid''))"

abbreviation violates :: "string \<Rightarrow> sign_err + 'a" where
  "violates constraint \<equiv> Inl (Other constraint)"

section \<open>Certificates\<close>

definition pg_cert_Create :: "sp_env \<Rightarrow> Certificate \<Rightarrow> sign \<Rightarrow> sign_err + Certificate \<times> sign" where
  "pg_cert_Create P cert s =
     (case ValidateCertificate (Some cert) of
        Some err \<Rightarrow> Inl (Invalid err)
      | None \<Rightarrow> statement P [ce_UserID cert]
         (let i = sp_key P (sg_drawn s);
              cert' = cert\<lparr>ce_ID := i, ce_CreatedAt := sp_now P, ce_UpdatedAt := sp_now P\<rparr>
          in if \<not> sp_user P (ce_UserID cert) then violates ''foreign key''
             else if sg_certs s i \<noteq> None \<or>
                     list_ex (\<lambda>c. ce_SerialNumber c = ce_SerialNumber cert) (range_vals (sp_keys P) (sg_certs s))
             then violates ''unique''
             else if rune_count (ce_FingerprintSHA256 cert) > 64 then violates ''value too long''
             else Inr (cert', s\<lparr>sg_certs := (sg_certs s)(i \<mapsto> cert'\<lparr>ce_RevokedAt := None, ce_RevocationReason := []\<rparr>),
                                sg_drawn := Suc (sg_drawn s)\<rparr>)))"

definition pg_cert_GetByID :: "sp_env \<Rightarrow> ident \<Rightarrow> sign \<Rightarrow> sign_err + Certificate" where
  "pg_cert_GetByID P i s = statement P [i] (cert_GetByID i (sg_certs s))"

definition pg_cert_GetActiveByUser :: "sp_env \<Rightarrow> ident \<Rightarrow> sign \<Rightarrow> sign_err + Certificate" where
  "pg_cert_GetActiveByUser P u s = statement P [u]
     (case filter (\<lambda>c. ce_UserID c = u \<and> ce_Status c = ''ACTIVE'') (range_vals (sp_keys P) (sg_certs s)) of
        [] \<Rightarrow> Inl (NoActiveCertificate u)
      | c # _ \<Rightarrow> Inr c)"

definition pg_cert_ListByUser :: "sp_env \<Rightarrow> ident \<Rightarrow> string \<Rightarrow> sign \<Rightarrow> sign_err + Certificate list" where
  "pg_cert_ListByUser P u statusFilter s = statement P [u]
     (Inr (sp_recent_certs P (filter (\<lambda>c. ce_UserID c = u \<and> (statusFilter \<noteq> [] \<longrightarrow> ce_Status c = statusFilter))
        (range_vals (sp_keys P) (sg_certs s)))))"

definition pg_cert_UpdateStatus :: "sp_env \<Rightarrow> ident \<Rightarrow> string \<Rightarrow> time option \<Rightarrow> string \<Rightarrow> sign \<Rightarrow> sign_err + sign" where
  "pg_cert_UpdateStatus P i status revokedAt reason s =
     (case ValidateUpdateCertStatus status reason of
        Some err \<Rightarrow> Inl (Invalid err)
      | None \<Rightarrow> statement P [i]
         (case sg_certs s i of
            None \<Rightarrow> Inl (CertificateNotFound i)
          | Some c \<Rightarrow> Inr (s\<lparr>sg_certs := (sg_certs s)(i \<mapsto> c\<lparr>ce_Status := status, ce_RevokedAt := revokedAt,
                                 ce_RevocationReason := reason, ce_UpdatedAt := sp_now P\<rparr>)\<rparr>)))"

definition PostgresCertificateStore :: "sp_env \<Rightarrow> sign CertificateStore" where
  "PostgresCertificateStore P = \<lparr>
     cs_Create = pg_cert_Create P,
     cs_GetByID = pg_cert_GetByID P,
     cs_GetActiveByUser = pg_cert_GetActiveByUser P,
     cs_ListByUser = pg_cert_ListByUser P,
     cs_UpdateStatus = pg_cert_UpdateStatus P\<rparr>"

section \<open>Requests\<close>

definition pg_req_Create :: "sp_env \<Rightarrow> SigningRequest \<Rightarrow> sign \<Rightarrow> sign_err + SigningRequest \<times> sign" where
  "pg_req_Create P r s =
     (case ValidateSigningRequest (Some r) of
        Some err \<Rightarrow> Inl (Invalid err)
      | None \<Rightarrow> statement P ([sr_UserID r] @ (if sr_CertificateID r = [] then [] else [sr_CertificateID r]))
         (let i = sp_key P (sg_drawn s);
              r' = r\<lparr>sr_ID := i, sr_CreatedAt := sp_now P, sr_UpdatedAt := sp_now P\<rparr>
          in if \<not> sp_user P (sr_UserID r) \<or> sr_CertificateID r \<noteq> [] \<and> sg_certs s (sr_CertificateID r) = None
             then violates ''foreign key''
             else if sg_requests s i \<noteq> None then violates ''unique''
             else if rune_count (sr_DocumentHash r) > 64 then violates ''value too long''
             else Inr (r', s\<lparr>sg_requests := (sg_requests s)(i \<mapsto> r'\<lparr>sr_ErrorMessage := []\<rparr>), sg_drawn := Suc (sg_drawn s)\<rparr>)))"

definition pg_req_GetByID :: "sp_env \<Rightarrow> ident \<Rightarrow> sign \<Rightarrow> sign_err + SigningRequest" where
  "pg_req_GetByID P i s = statement P [i] (req_GetByID i (sg_requests s))"

definition pg_req_ListByUser :: "sp_env \<Rightarrow> ident \<Rightarrow> sign \<Rightarrow> sign_err + SigningRequest list" where
  "pg_req_ListByUser P u s = statement P [u]
     (Inr (sp_recent_reqs P (filter (\<lambda>r. sr_UserID r = u) (range_vals (sp_keys P) (sg_requests s)))))"

definition pg_req_UpdateStatus :: "sp_env \<Rightarrow> ident \<Rightarrow> string \<Rightarrow> ident \<Rightarrow> string \<Rightarrow> sign \<Rightarrow> sign_err + sign" where
  "pg_req_UpdateStatus P i status certificateID errorMsg s =
     (case ValidateUpdateRequestStatus status errorMsg of
        Some err \<Rightarrow> Inl (Invalid err)
      | None \<Rightarrow> statement P ([i] @ (if certificateID = [] then [] else [certificateID]))
         (case sg_requests s i of
            None \<Rightarrow> Inl (RequestNotFound i)
          | Some r \<Rightarrow>
              if certificateID \<noteq> [] \<and> sg_certs s certificateID = None then violates ''foreign key''
              else Inr (s\<lparr>sg_requests := (sg_requests s)(i \<mapsto> r\<lparr>sr_Status := status,
                     sr_CertificateID := (if certificateID = [] then sr_CertificateID r else certificateID),
                     sr_ErrorMessage := errorMsg, sr_UpdatedAt := sp_now P\<rparr>)\<rparr>)))"

definition PostgresRequestStore :: "sp_env \<Rightarrow> sign RequestStore" where
  "PostgresRequestStore P = \<lparr>
     rt_Create = pg_req_Create P,
     rt_GetByID = pg_req_GetByID P,
     rt_ListByUser = pg_req_ListByUser P,
     rt_UpdateStatus = pg_req_UpdateStatus P\<rparr>"

section \<open>Signed documents\<close>

text \<open>The table is kept by its unique column \<open>request_id\<close>, next to the map by primary key.\<close>

definition pg_doc_Create :: "sp_env \<Rightarrow> SignedDocument \<Rightarrow> sign \<Rightarrow> sign_err + SignedDocument \<times> sign" where
  "pg_doc_Create P d s =
     (case ValidateSignedDocument (Some d) of
        Some err \<Rightarrow> Inl (Invalid err)
      | None \<Rightarrow> statement P [sd_RequestID d, sd_CertificateID d]
         (let i = sp_key P (sg_drawn s); d' = d\<lparr>sd_ID := i, sd_CreatedAt := sp_now P\<rparr>
          in if sg_requests s (sd_RequestID d) = None \<or> sg_certs s (sd_CertificateID d) = None then violates ''foreign key''
             else if sg_docs s (sd_RequestID d) \<noteq> None \<or> sg_byID s i \<noteq> None then violates ''unique''
             else if rune_count (sd_SignedHash d) > 64 then violates ''value too long''
             else Inr (d', s\<lparr>sg_docs := (sg_docs s)(sd_RequestID d \<mapsto> d'), sg_byID := (sg_byID s)(i \<mapsto> d'),
                             sg_drawn := Suc (sg_drawn s)\<rparr>)))"

definition pg_doc_GetByRequestID :: "sp_env \<Rightarrow> ident \<Rightarrow> sign \<Rightarrow> sign_err + SignedDocument" where
  "pg_doc_GetByRequestID P i s = statement P [i] (doc_GetByRequestID i (sg_docs s))"

definition PostgresDocumentStore :: "sp_env \<Rightarrow> sign DocumentStore" where
  "PostgresDocumentStore P = \<lparr>dt_Create = pg_doc_Create P, dt_GetByRequestID = pg_doc_GetByRequestID P\<rparr>"

section \<open>Agreement with the in-memory stores\<close>

lemma statement_ok: "sp_fail P = None \<Longrightarrow> list_all (sp_uuid P) ids \<Longrightarrow> statement P ids r = r"
  by (simp add: statement_def)

lemma statement_Inr: "statement P ids r = Inr x \<longleftrightarrow> sp_fail P = None \<and> list_all (sp_uuid P) ids \<and> r = Inr x"
  by (auto simp: statement_def split: option.splits)

text \<open>Whatever a production store answers with success, its in-memory version does and answers too.\<close>

lemma pg_req_Create_refines:
  assumes "pg_req_Create P r s = Inr (r', s')" "generateID rnd (sg_drawn s) = sp_key P (sg_drawn s)" "sr_ErrorMessage r = []"
  shows "rt_Create (InMemoryRequestStore rnd (sp_now P) ks) r s = Inr (r', s')"
proof -
  have e: "q\<lparr>sr_ErrorMessage := []\<rparr> = q" if "sr_ErrorMessage q = []" for q :: SigningRequest
    using that by (cases q) simp
  from assms show ?thesis
    by (auto simp: pg_req_Create_def InMemoryRequestStore_def req_Create_def Let_def statement_Inr e split: option.splits if_splits)
qed

lemma pg_req_UpdateStatus_refines:
  assumes "pg_req_UpdateStatus P i st c err s = Inr s'"
  shows "rt_UpdateStatus (InMemoryRequestStore rnd (sp_now P) ks) i st c err s = Inr s'"
  using assms
  by (auto simp: pg_req_UpdateStatus_def InMemoryRequestStore_def req_UpdateStatus_def Let_def statement_Inr split: option.splits if_splits)

lemma pg_req_GetByID_refines:
  "pg_req_GetByID P i s = Inr r \<Longrightarrow> rt_GetByID (InMemoryRequestStore rnd now ks) i s = Inr r"
  by (simp add: pg_req_GetByID_def InMemoryRequestStore_def statement_Inr)

lemma pg_doc_Create_refines:
  assumes "pg_doc_Create P d s = Inr (d', s')" "generateID rnd (sg_drawn s) = sp_key P (sg_drawn s)"
  shows "dt_Create (InMemoryDocumentStore rnd (sp_now P)) d s = Inr (d', s')"
  using assms
  by (auto simp: pg_doc_Create_def InMemoryDocumentStore_def doc_Create_def Let_def statement_Inr split: option.splits if_splits)

lemma pg_doc_GetByRequestID_refines:
  "pg_doc_GetByRequestID P i s = Inr d \<Longrightarrow> dt_GetByRequestID (InMemoryDocumentStore rnd now) i s = Inr d"
  by (simp add: pg_doc_GetByRequestID_def InMemoryDocumentStore_def statement_Inr)

lemma pg_cert_UpdateStatus_refines:
  assumes "pg_cert_UpdateStatus P i st t reason s = Inr s'"
  shows "cs_UpdateStatus (InMemoryCertificateStore rnd (sp_now P) ks) i st t reason s = Inr s'"
  using assms
  by (auto simp: pg_cert_UpdateStatus_def InMemoryCertificateStore_def cert_UpdateStatus_def statement_Inr split: option.splits)

text \<open>
  The certificate store does not look for an active certificate: where a second request of the same user
  came between the lookup and the insertion of the first, both certificates are stored ACTIVE.
  The in-memory store refuses the second.
\<close>

lemma pg_cert_Create_Inr:
  assumes "pg_cert_Create P c s = Inr (c', s')"
  shows "ce_ID c' = sp_key P (sg_drawn s)" "sg_certs s (ce_ID c') = None" "sg_drawn s' = Suc (sg_drawn s)"
    "sg_certs s' = (sg_certs s)(ce_ID c' \<mapsto> c'\<lparr>ce_RevokedAt := None, ce_RevocationReason := []\<rparr>)"
    "ce_Status c' = ce_Status c" "ce_UserID c' = ce_UserID c"
  using assms by (auto simp: pg_cert_Create_def Let_def statement_Inr split: option.splits if_splits)

lemma second_active_certificate:
  assumes c1: "pg_cert_Create P c1 s = Inr (c1', s1)" "ce_Status c1 = ''ACTIVE''" "ce_UserID c1 \<noteq> []"
    and c2: "pg_cert_Create P c2 s = Inr (c2', s2)" "ce_Status c2 = ''ACTIVE''" "ce_UserID c2 = ce_UserID c1"
    and other: "ce_SerialNumber c2 \<noteq> ce_SerialNumber c1" "sg_certs s1 (sp_key P (sg_drawn s1)) = None"
    and ks: "distinct ks" "set ks = dom (sg_certs s1)"
  shows "\<exists>d s3. pg_cert_Create P c2 s1 = Inr (d, s3) \<and> ce_ID d \<noteq> ce_ID c1' \<and>
      (\<forall>i\<in>{ce_ID d, ce_ID c1'}. \<exists>c. sg_certs s3 i = Some c \<and> ce_UserID c = ce_UserID c1 \<and> ce_Status c = ''ACTIVE'')"
    "cs_Create (InMemoryCertificateStore rnd now ks) c2 s1 = Inl ErrActiveCertificateExists"
proof -
  note 1 = pg_cert_Create_Inr [OF c1(1)]
  let ?c = "c1'\<lparr>ce_RevokedAt := None, ce_RevocationReason := []\<rparr>"
  have serial: "ce_SerialNumber ?c = ce_SerialNumber c1"
    using c1(1) by (auto simp: pg_cert_Create_def Let_def statement_Inr split: option.splits if_splits)
  have old: "\<not> list_ex (\<lambda>c. ce_SerialNumber c = ce_SerialNumber c2) (range_vals (sp_keys P) (sg_certs s))"
    using c2(1) by (auto simp: pg_cert_Create_def Let_def statement_Inr split: option.splits if_splits)
  have "\<not> list_ex (\<lambda>c. ce_SerialNumber c = ce_SerialNumber c2) (range_vals (sp_keys P) (sg_certs s1))"
  proof
    assume "list_ex (\<lambda>c. ce_SerialNumber c = ce_SerialNumber c2) (range_vals (sp_keys P) (sg_certs s1))"
    then obtain k q where q: "k \<in> set (sp_keys P)" "sg_certs s1 k = Some q" "ce_SerialNumber q = ce_SerialNumber c2"
      by (auto simp: list_ex_iff set_range_vals)
    show False
    proof (cases "k = ce_ID c1'")
      case True
      with q 1(4) serial other(1) show False by simp
    next
      case False
      with q 1(4) have "sg_certs s k = Some q" by simp
      with q old show False by (auto simp: list_ex_iff set_range_vals)
    qed
  qed
  then obtain d s3 where d: "pg_cert_Create P c2 s1 = Inr (d, s3)"
    using c2(1) other(2) by (auto simp: pg_cert_Create_def Let_def statement_Inr split: option.splits if_splits)
  note 2 = pg_cert_Create_Inr [OF d]
  have "ce_ID d \<noteq> ce_ID c1'" using 2(2) 1(4) by auto
  then show "\<exists>d s3. pg_cert_Create P c2 s1 = Inr (d, s3) \<and> ce_ID d \<noteq> ce_ID c1' \<and>
      (\<forall>i\<in>{ce_ID d, ce_ID c1'}. \<exists>c. sg_certs s3 i = Some c \<and> ce_UserID c = ce_UserID c1 \<and> ce_Status c = ''ACTIVE'')"
    using d 2(4-6) 1(4-6) c1(2) c2(2,3) by (intro exI [of _ d] exI [of _ s3]) simp
  have "?c \<in> set (range_vals ks (sg_certs s1))" using 1(4) ks(2) by (auto simp: set_range_vals)
  then have "list_ex (\<lambda>e. ce_UserID e = ce_UserID c2 \<and> ce_Status e = ''ACTIVE'') (range_vals ks (sg_certs s1))"
    unfolding list_ex_iff using 1(5,6) c1(2) c2(3) by (intro bexI [of _ ?c]) simp_all
  then show "cs_Create (InMemoryCertificateStore rnd now ks) c2 s1 = Inl ErrActiveCertificateExists"
    using c1(3) c2(2,3) by (simp add: InMemoryCertificateStore_def cert_Create_def)
qed

end
