(* ===== verification/Portal_Repository.thy ===== *)
theory Portal_Repository
  imports Portal_Store "HOL-Library.Word"
begin

unbundle bit_operations_syntax

text \<open>
  The repositories of the developer portal (\<open>services/garudaportal/repository\<close>): apps and API keys, in
  memory with their index maps and in Postgres.
  The records have the fields of those of the \<open>store\<close> package and are modelled by the same types.
  The in-memory key repository is shown to implement one table, and the two versions of \<open>Update\<close> to agree
  on the columns that both know.
\<close>

section \<open>Identifiers\<close>

text \<open>\<open>generateUUID\<close> on the 16 bytes of \<open>rand.Read\<close>; a failing source is \<open>None\<close>.\<close>

definition set_version :: "8 word list \<Rightarrow> 8 word list" where
  "set_version b = b[6 := (b ! 6 AND 0x0f) OR 0x40, 8 := (b ! 8 AND 0x3f) OR 0x80]"

definition hex_bytes :: "8 word list \<Rightarrow> string" where
  "hex_bytes b = hex_encode (map (\<lambda>w. char_of (unat w)) b)"

definition generateUUID :: "8 word list option \<Rightarrow> string option" where
  "generateUUID r = map_option (\<lambda>bytes. let b = set_version bytes in
     hex_bytes (take 4 b) @ ''-'' @ hex_bytes (take 2 (drop 4 b)) @ ''-'' @ hex_bytes (take 2 (drop 6 b)) @ ''-'' @
     hex_bytes (take 2 (drop 8 b)) @ ''-'' @ hex_bytes (drop 10 b)) r"

section \<open>API keys in memory\<close>

datatype repo_err = ErrNotFound | ErrDuplicateApp | RepoError string

record KeyRepo =
  kr_keys :: "ident \<rightharpoonup> APIKey"
  kr_byHash :: "string \<rightharpoonup> ident"
  kr_byApp :: "ident \<rightharpoonup> ident list"

definition NewKeyRepo :: KeyRepo where
  "NewKeyRepo = \<lparr>kr_keys = Map.empty, kr_byHash = Map.empty, kr_byApp = Map.empty\<rparr>"

definition kr_Create :: "8 word list option \<Rightarrow> time \<Rightarrow> APIKey \<Rightarrow> KeyRepo \<Rightarrow> repo_err + APIKey \<times> KeyRepo" where
  "kr_Create r now key s =
     (if kr_byHash s (ky_KeyHash key) \<noteq> None then Inl (RepoError ''api key hash already exists'')
      else case generateUUID r of
        None \<Rightarrow> Inl (RepoError ''generate id'')
      | Some i \<Rightarrow>
         (let key' = key\<lparr>ky_ID := i, ky_CreatedAt := now\<rparr>;
              ids = (case kr_byApp s (ky_AppID key) of None \<Rightarrow> [] | Some l \<Rightarrow> l)
          in Inr (key', \<lparr>kr_keys = (kr_keys s)(i \<mapsto> key'), kr_byHash = (kr_byHash s)(ky_KeyHash key \<mapsto> i),
                         kr_byApp = (kr_byApp s)(ky_AppID key \<mapsto> ids @ [i])\<rparr>)))"

text \<open>\<open>byHash\<close> only names stored keys (\<open>kr_inv\<close> below), so the dereference cannot fail.\<close>

definition kr_GetByHash :: "string \<Rightarrow> KeyRepo \<Rightarrow> repo_err + APIKey" where
  "kr_GetByHash h s =
     (case kr_byHash s h of None \<Rightarrow> Inl ErrNotFound | Some i \<Rightarrow> Inr (the (kr_keys s i)))"

definition kr_ListByApp :: "ident \<Rightarrow> KeyRepo \<Rightarrow> APIKey list" where
  "kr_ListByApp a s = range_vals (case kr_byApp s a of None \<Rightarrow> [] | Some l \<Rightarrow> l) (kr_keys s)"

definition kr_Revoke :: "time \<Rightarrow> ident \<Rightarrow> KeyRepo \<Rightarrow> repo_err option \<times> KeyRepo" where
  "kr_Revoke now i s =
     (case kr_keys s i of
        None \<Rightarrow> (Some ErrNotFound, s)
      | Some k \<Rightarrow> if ky_Status k \<noteq> ''active'' then (Some ErrNotFound, s)
          else (None, s\<lparr>kr_keys := (kr_keys s)(i \<mapsto> k\<lparr>ky_Status := ''revoked'', ky_RevokedAt := Some now\<rparr>)\<rparr>))"

definition kr_UpdateLastUsed :: "time \<Rightarrow> ident \<Rightarrow> KeyRepo \<Rightarrow> repo_err option \<times> KeyRepo" where
  "kr_UpdateLastUsed now i s =
     (case kr_keys s i of
        None \<Rightarrow> (Some ErrNotFound, s)
      | Some k \<Rightarrow> (None, s\<lparr>kr_keys := (kr_keys s)(i \<mapsto> k\<lparr>ky_LastUsedAt := Some now\<rparr>)\<rparr>))"

section \<open>API keys in Postgres\<close>

text \<open>
  The table \<open>api_keys\<close>, oldest row first; \<open>fail\<close> is the database's error, if it has one.
  The schema declares no column but \<open>id\<close> unique.
\<close>

definition pk_Create :: "string option \<Rightarrow> ident \<Rightarrow> time \<Rightarrow> APIKey \<Rightarrow> APIKey list \<Rightarrow> repo_err + APIKey \<times> APIKey list" where
  "pk_Create fail i now key t =
     (case fail of
        Some e \<Rightarrow> Inl (RepoError e)
      | None \<Rightarrow> if list_ex (\<lambda>k. ky_ID k = i) t then Inl (RepoError ''api key already exists'')
                else let key' = key\<lparr>ky_ID := i, ky_CreatedAt := now\<rparr>
                     in Inr (key', t @ [key'\<lparr>ky_LastUsedAt := None, ky_RevokedAt := None\<rparr>]))"

definition pk_GetByHash :: "string option \<Rightarrow> string \<Rightarrow> APIKey list \<Rightarrow> repo_err + APIKey" where
  "pk_GetByHash fail h t =
     (case fail of
        Some e \<Rightarrow> Inl (RepoError e)
      | None \<Rightarrow> (case find (\<lambda>k. ky_KeyHash k = h) t of None \<Rightarrow> Inl ErrNotFound | Some k \<Rightarrow> Inr k))"

text \<open>\<open>ORDER BY created_at DESC\<close>\<close>

definition pk_ListByApp :: "string option \<Rightarrow> ident \<Rightarrow> APIKey list \<Rightarrow> repo_err + APIKey list" where
  "pk_ListByApp fail a t =
     (case fail of
        Some e \<Rightarrow> Inl (RepoError e)
      | None \<Rightarrow> Inr (sort_key (\<lambda>k. - ky_CreatedAt k) (filter (\<lambda>k. ky_AppID k = a) t)))"

text \<open>An \<open>UPDATE ... WHERE\<close> and the error of no affected row.\<close>

definition pk_update :: "string option \<Rightarrow> (APIKey \<Rightarrow> bool) \<Rightarrow> (APIKey \<Rightarrow> APIKey) \<Rightarrow> APIKey list \<Rightarrow> repo_err option \<times> APIKey list" where
  "pk_update fail P f t =
     (case fail of
        Some e \<Rightarrow> (Some (RepoError e), t)
      | None \<Rightarrow> ((if list_ex P t then None else Some ErrNotFound), map (\<lambda>k. if P k then f k else k) t))"

definition pk_Revoke :: "string option \<Rightarrow> time \<Rightarrow> ident \<Rightarrow> APIKey list \<Rightarrow> repo_err option \<times> APIKey list" where
  "pk_Revoke fail now i t = pk_update fail (\<lambda>k. ky_ID k = i \<and> ky_Status k = ''active'')
     (\<lambda>k. k\<lparr>ky_Status := ''revoked'', ky_RevokedAt := Some now\<rparr>) t"

definition pk_UpdateLastUsed :: "string option \<Rightarrow> time \<Rightarrow> ident \<Rightarrow> APIKey list \<Rightarrow> repo_err option \<times> APIKey list" where
  "pk_UpdateLastUsed fail now i t = pk_update fail (\<lambda>k. ky_ID k = i) (\<lambda>k. k\<lparr>ky_LastUsedAt := Some now\<rparr>) t"

section \<open>The in-memory repository implements the table\<close>

text \<open>\<open>kr_table s t\<close>: the three maps of \<open>s\<close> hold the rows of the table \<open>t\<close>.\<close>

definition kr_table :: "KeyRepo \<Rightarrow> APIKey list \<Rightarrow> bool" where
  "kr_table s t \<longleftrightarrow> distinct (map ky_ID t) \<and> distinct (map ky_KeyHash t) \<and>
     kr_keys s = map_of (map (\<lambda>k. (ky_ID k, k)) t) \<and>
     kr_byHash s = map_of (map (\<lambda>k. (ky_KeyHash k, ky_ID k)) t) \<and>
     (\<forall>a. (case kr_byApp s a of None \<Rightarrow> [] | Some l \<Rightarrow> l) = map ky_ID (filter (\<lambda>k. ky_AppID k = a) t))"

lemma kr_table_New: "kr_table NewKeyRepo []"
  by (simp add: kr_table_def NewKeyRepo_def)

lemma map_of_key:
  assumes "distinct (map f t)" "k \<in> set t"
  shows "map_of (map (\<lambda>k. (f k, g k)) t) (f k) = Some (g k)"
  using assms by (induction t) (auto simp: image_iff)

lemma map_of_key_None: "map_of (map (\<lambda>k. (f k, g k)) t) x = None \<longleftrightarrow> x \<notin> f ` set t"
  by (induction t) auto

lemma map_of_key_Some: "map_of (map (\<lambda>k. (f k, g k)) t) x = Some y \<Longrightarrow> \<exists>k\<in>set t. f k = x \<and> g k = y"
  by (induction t) (auto split: if_splits)

lemma kr_ListByApp_table:
  assumes "kr_table s t"
  shows "kr_ListByApp a s = filter (\<lambda>k. ky_AppID k = a) t"
proof -
  have d: "distinct (map ky_ID t)" and m: "kr_keys s = map_of (map (\<lambda>k. (ky_ID k, k)) t)"
    using assms by (simp_all add: kr_table_def)
  have "set ks \<subseteq> set t \<Longrightarrow> range_vals (map ky_ID ks) (kr_keys s) = ks" for ks
    by (induction ks) (simp_all add: m map_of_key [OF d])
  then show ?thesis using assms by (simp add: kr_ListByApp_def kr_table_def)
qed

lemma kr_GetByHash_table:
  assumes "kr_table s t"
  shows "kr_GetByHash h s = pk_GetByHash None h t"
proof (cases "find (\<lambda>k. ky_KeyHash k = h) t")
  case None
  then have "kr_byHash s h = None" using assms by (auto simp: kr_table_def map_of_key_None find_None_iff)
  with None show ?thesis by (simp add: kr_GetByHash_def pk_GetByHash_def)
next
  case (Some k)
  then have k: "k \<in> set t" "ky_KeyHash k = h" by (auto simp: find_Some_iff)
  with assms map_of_key [of ky_KeyHash t k ky_ID] map_of_key [of ky_ID t k "\<lambda>k. k"] have
    "kr_byHash s h = Some (ky_ID k)" "kr_keys s (ky_ID k) = Some k" by (simp_all add: kr_table_def)
  with Some show ?thesis by (simp add: kr_GetByHash_def pk_GetByHash_def)
qed

lemma kr_Create_table:
  assumes t: "kr_table s t" and c: "kr_Create r now key s = Inr (key', s')"
    and fresh: "\<forall>i. generateUUID r = Some i \<longrightarrow> i \<notin> ky_ID ` set t" and new: "ky_LastUsedAt key = None" "ky_RevokedAt key = None"
  shows "\<exists>i. generateUUID r = Some i \<and> pk_Create None i now key t = Inr (key', t @ [key']) \<and> kr_table s' (t @ [key'])"
proof -
  from c obtain i where i: "generateUUID r = Some i" "kr_byHash s (ky_KeyHash key) = None"
    "key' = key\<lparr>ky_ID := i, ky_CreatedAt := now\<rparr>"
    "s' = \<lparr>kr_keys = (kr_keys s)(i \<mapsto> key'), kr_byHash = (kr_byHash s)(ky_KeyHash key \<mapsto> i),
           kr_byApp = (kr_byApp s)(ky_AppID key \<mapsto> (case kr_byApp s (ky_AppID key) of None \<Rightarrow> [] | Some l \<Rightarrow> l) @ [i])\<rparr>"
    by (auto simp: kr_Create_def Let_def split: if_splits option.splits)
  have h: "ky_KeyHash key \<notin> ky_KeyHash ` set t" using i(2) t by (simp add: kr_table_def map_of_key_None)
  have f: "i \<notin> ky_ID ` set t" using fresh i(1) by simp
  have key': "ky_ID key' = i" "ky_KeyHash key' = ky_KeyHash key" "ky_AppID key' = ky_AppID key" by (simp_all add: i(3))
  have add: "map_of (map g t @ [(x, y)]) = (map_of (map g t))(x \<mapsto> y)" if "x \<notin> fst ` set (map g t)"
    for g :: "APIKey \<Rightarrow> ident \<times> 'b" and x y
  proof -
    have "map_of (map g t) x = None" using that by (simp add: map_of_eq_None_iff)
    then show ?thesis by (auto simp: map_add_def fun_eq_iff split: option.splits)
  qed
  have "kr_table s' (t @ [key'])"
    unfolding kr_table_def
  proof (intro conjI allI)
    show "distinct (map ky_ID (t @ [key']))" "distinct (map ky_KeyHash (t @ [key']))"
      using t f h by (simp_all add: kr_table_def key')
    show "kr_keys s' = map_of (map (\<lambda>k. (ky_ID k, k)) (t @ [key']))"
      using t f add [of i "\<lambda>k. (ky_ID k, k)" key'] by (simp add: kr_table_def i(4) key' image_image)
    show "kr_byHash s' = map_of (map (\<lambda>k. (ky_KeyHash k, ky_ID k)) (t @ [key']))"
      using t h add [of "ky_KeyHash key" "\<lambda>k. (ky_KeyHash k, ky_ID k)" i] by (simp add: kr_table_def i(4) key' image_image)
    show "(case kr_byApp s' a of None \<Rightarrow> [] | Some l \<Rightarrow> l) = map ky_ID (filter (\<lambda>k. ky_AppID k = a) (t @ [key']))" for a
      using t by (auto simp: kr_table_def i(4) key')
  qed
  moreover have "key'\<lparr>ky_LastUsedAt := None, ky_RevokedAt := None\<rparr> = key'"
    using new by (cases key) (simp add: i(3))
  then have "pk_Create None i now key t = Inr (key', t @ [key'])"
    using f by (auto simp: pk_Create_def Let_def i(3) list_ex_iff)
  ultimately show ?thesis using i(1) by blast
qed

lemma pk_update_table:
  assumes t: "kr_table s t" and same: "\<And>k. ky_ID (f k) = ky_ID k \<and> ky_KeyHash (f k) = ky_KeyHash k \<and> ky_AppID (f k) = ky_AppID k"
    and P: "\<And>k. P k \<longleftrightarrow> ky_ID k = i \<and> Q k"
  shows "pk_update None P f t = (case kr_keys s i of None \<Rightarrow> (Some ErrNotFound, snd (pk_update None P f t))
      | Some k \<Rightarrow> if Q k then (None, snd (pk_update None P f t)) else (Some ErrNotFound, snd (pk_update None P f t)))"
    "kr_table (case kr_keys s i of None \<Rightarrow> s | Some k \<Rightarrow> if Q k then s\<lparr>kr_keys := (kr_keys s)(i \<mapsto> f k)\<rparr> else s)
      (snd (pk_update None P f t))"
proof -
  let ?u = "\<lambda>k. if P k then f k else k"
  have d: "distinct (map ky_ID t)" and m: "kr_keys s = map_of (map (\<lambda>k. (ky_ID k, k)) t)"
    using t by (simp_all add: kr_table_def)
  have at: "kr_keys s i = Some k \<longleftrightarrow> k \<in> set t \<and> ky_ID k = i" for k
    using map_of_key [OF d, of k "\<lambda>k. k"] map_of_key_Some [of ky_ID "\<lambda>k. k" t i k] by (auto simp: m)
  have uniq: "k = k'" if "k \<in> set t" "k' \<in> set t" "ky_ID k = ky_ID k'" for k k'
    using d that by (auto simp: distinct_map inj_on_def)
  have ex: "list_ex P t \<longleftrightarrow> (\<exists>k. kr_keys s i = Some k \<and> Q k)" by (auto simp: list_ex_iff P at)
  show "pk_update None P f t = (case kr_keys s i of None \<Rightarrow> (Some ErrNotFound, snd (pk_update None P f t))
      | Some k \<Rightarrow> if Q k then (None, snd (pk_update None P f t)) else (Some ErrNotFound, snd (pk_update None P f t)))"
    by (auto simp: pk_update_def ex split: option.splits)
  have cols: "map ky_ID (map ?u t) = map ky_ID t" "map ky_KeyHash (map ?u t) = map ky_KeyHash t"
    "map (\<lambda>k. (ky_KeyHash k, ky_ID k)) (map ?u t) = map (\<lambda>k. (ky_KeyHash k, ky_ID k)) t"
    "map ky_ID (filter (\<lambda>k. ky_AppID k = a) (map ?u t)) = map ky_ID (filter (\<lambda>k. ky_AppID k = a) t)" for a
    using same by (induction t) auto
  let ?s = "case kr_keys s i of None \<Rightarrow> s | Some k \<Rightarrow> if Q k then s\<lparr>kr_keys := (kr_keys s)(i \<mapsto> f k)\<rparr> else s"
  have keys: "kr_keys ?s = map_of (map (\<lambda>k. (ky_ID k, k)) (map ?u t))"
  proof
    fix j
    show "kr_keys ?s j = map_of (map (\<lambda>k. (ky_ID k, k)) (map ?u t)) j"
    proof (cases "kr_keys s j")
      case None
      then have n: "j \<notin> ky_ID ` set t" by (simp add: m map_of_key_None)
      then have "j \<notin> ky_ID ` set (map ?u t)" using same by (auto simp: image_iff split: if_splits)
      then have "map_of (map (\<lambda>k. (ky_ID k, k)) (map ?u t)) j = None" by (simp only: map_of_key_None not_False_eq_True)
      moreover have "kr_keys ?s j = None" using None by (auto split: option.splits)
      ultimately show ?thesis by simp
    next
      case (Some k)
      then have k: "k \<in> set t" "ky_ID k = j" using map_of_key_Some [of ky_ID "\<lambda>k. k" t j k] by (auto simp: m)
      have du: "distinct (map ky_ID (map ?u t))" using d by (simp only: cols)
      have "ky_ID (?u k) = j" "?u k \<in> set (map ?u t)" using same k by auto
      with map_of_key [OF du, of "?u k" "\<lambda>k. k"] have "map_of (map (\<lambda>k. (ky_ID k, k)) (map ?u t)) j = Some (?u k)" by simp
      moreover have "kr_keys ?s j = Some (?u k)"
      proof (cases "j = i")
        case True
        with Some k P [of k] show ?thesis by simp
      next
        case False
        with Some k P [of k] show ?thesis by (auto split: option.splits)
      qed
      ultimately show ?thesis by simp
    qed
  qed
  have rest: "kr_byHash ?s = kr_byHash s" "kr_byApp ?s = kr_byApp s" by (simp_all split: option.splits)
  show "kr_table ?s (snd (pk_update None P f t))"
    using t unfolding kr_table_def rest keys by (simp add: pk_update_def cols del: map_map)
qed

text \<open>The repository and the table side by side, through any successful calls that draw new ids.\<close>

inductive kr_run :: "KeyRepo \<Rightarrow> APIKey list \<Rightarrow> bool" where
  kr_new: "kr_run NewKeyRepo []"
| kr_create: "kr_run s t \<Longrightarrow> kr_Create r now key s = Inr (key', s') \<Longrightarrow>
    \<forall>i. generateUUID r = Some i \<longrightarrow> i \<notin> ky_ID ` set t \<Longrightarrow> ky_LastUsedAt key = None \<Longrightarrow> ky_RevokedAt key = None \<Longrightarrow>
    pk_Create None i now key t = Inr (key', t') \<Longrightarrow> generateUUID r = Some i \<Longrightarrow> kr_run s' t'"
| kr_revoke: "kr_run s t \<Longrightarrow> kr_run (snd (kr_Revoke now i s)) (snd (pk_Revoke None now i t))"
| kr_used: "kr_run s t \<Longrightarrow> kr_run (snd (kr_UpdateLastUsed now i s)) (snd (pk_UpdateLastUsed None now i t))"

lemma kr_Revoke_table:
  assumes "kr_table s t"
  shows "kr_table (snd (kr_Revoke now i s)) (snd (pk_Revoke None now i t))" "fst (kr_Revoke now i s) = fst (pk_Revoke None now i t)"
proof -
  note u = pk_update_table [OF assms, of "\<lambda>k. k\<lparr>ky_Status := ''revoked'', ky_RevokedAt := Some now\<rparr>"
      "\<lambda>k. ky_ID k = i \<and> ky_Status k = ''active''" i "\<lambda>k. ky_Status k = ''active''", folded pk_Revoke_def]
  have s: "snd (kr_Revoke now i s) = (case kr_keys s i of None \<Rightarrow> s | Some k \<Rightarrow> if ky_Status k = ''active''
      then s\<lparr>kr_keys := (kr_keys s)(i \<mapsto> k\<lparr>ky_Status := ''revoked'', ky_RevokedAt := Some now\<rparr>)\<rparr> else s)"
    by (simp add: kr_Revoke_def split: option.splits)
  show "kr_table (snd (kr_Revoke now i s)) (snd (pk_Revoke None now i t))" unfolding s by (rule u(2)) simp_all
  have "pk_Revoke None now i t = (case kr_keys s i of None \<Rightarrow> (Some ErrNotFound, snd (pk_Revoke None now i t))
      | Some k \<Rightarrow> if ky_Status k = ''active'' then (None, snd (pk_Revoke None now i t)) else (Some ErrNotFound, snd (pk_Revoke None now i t)))"
    by (rule u(1)) simp_all
  then show "fst (kr_Revoke now i s) = fst (pk_Revoke None now i t)"
    by (simp add: kr_Revoke_def split: option.splits if_splits) (metis fst_conv)+
qed

lemma kr_UpdateLastUsed_table:
  assumes "kr_table s t"
  shows "kr_table (snd (kr_UpdateLastUsed now i s)) (snd (pk_UpdateLastUsed None now i t))"
    "fst (kr_UpdateLastUsed now i s) = fst (pk_UpdateLastUsed None now i t)"
proof -
  note u = pk_update_table [OF assms, of "\<lambda>k. k\<lparr>ky_LastUsedAt := Some now\<rparr>" "\<lambda>k. ky_ID k = i" i "\<lambda>k. True", folded pk_UpdateLastUsed_def]
  have s: "snd (kr_UpdateLastUsed now i s) = (case kr_keys s i of None \<Rightarrow> s | Some k \<Rightarrow> if True
      then s\<lparr>kr_keys := (kr_keys s)(i \<mapsto> k\<lparr>ky_LastUsedAt := Some now\<rparr>)\<rparr> else s)"
    by (simp add: kr_UpdateLastUsed_def split: option.splits)
  show "kr_table (snd (kr_UpdateLastUsed now i s)) (snd (pk_UpdateLastUsed None now i t))" unfolding s by (rule u(2)) simp_all
  have "pk_UpdateLastUsed None now i t = (case kr_keys s i of None \<Rightarrow> (Some ErrNotFound, snd (pk_UpdateLastUsed None now i t))
      | Some k \<Rightarrow> if True then (None, snd (pk_UpdateLastUsed None now i t)) else (Some ErrNotFound, snd (pk_UpdateLastUsed None now i t)))"
    by (rule u(1)) simp_all
  then show "fst (kr_UpdateLastUsed now i s) = fst (pk_UpdateLastUsed None now i t)"
    by (simp add: kr_UpdateLastUsed_def split: option.splits if_splits) (metis fst_conv)+
qed

lemma kr_run_table: "kr_run s t \<Longrightarrow> kr_table s t"
proof (induction rule: kr_run.induct)
  case (kr_create s t r now key key' s' i t')
  from kr_Create_table [OF kr_create.IH kr_create.hyps(2-5)] kr_create.hyps(6,7) show ?case by auto
qed (simp_all add: kr_table_New kr_Revoke_table kr_UpdateLastUsed_table)


definition example_bytes :: "8 word list" where
  "example_bytes = map word_of_nat [0 ..< 16]"

definition example_key :: APIKey where
  "example_key = \<lparr>ky_ID = [], ky_AppID = ''a'', ky_KeyHash = ''h'', ky_KeyPrefix = [], ky_Name = [], ky_Environment = [],
     ky_Status = ''active'', ky_LastUsedAt = None, ky_RevokedAt = None, ky_ExpiresAt = None, ky_CreatedAt = 0\<rparr>"


section \<open>Apps in memory\<close>

record AppRepo =
  ar_apps :: "ident \<rightharpoonup> App"
  ar_byOwner :: "ident \<rightharpoonup> ident list"

definition NewAppRepo :: AppRepo where
  "NewAppRepo = \<lparr>ar_apps = Map.empty, ar_byOwner = Map.empty\<rparr>"

definition ar_Create ::
  "ident list \<Rightarrow> 8 word list option \<Rightarrow> time \<Rightarrow> App \<Rightarrow> AppRepo \<Rightarrow> repo_err + App \<times> AppRepo" where
  "ar_Create ks r now app s =
     (if list_ex (\<lambda>e. ap_OwnerUserID e = ap_OwnerUserID app \<and> ap_Name e = ap_Name app) (range_vals ks (ar_apps s))
      then Inl ErrDuplicateApp
      else case generateUUID r of
        None \<Rightarrow> Inl (RepoError ''generate id'')
      | Some i \<Rightarrow>
         (let app' = app\<lparr>ap_ID := i, ap_CreatedAt := now, ap_UpdatedAt := now\<rparr>;
              ids = (case ar_byOwner s (ap_OwnerUserID app) of None \<Rightarrow> [] | Some l \<Rightarrow> l)
          in Inr (app', \<lparr>ar_apps = (ar_apps s)(i \<mapsto> app'), ar_byOwner = (ar_byOwner s)(ap_OwnerUserID app \<mapsto> ids @ [i])\<rparr>)))"

definition ar_GetByID :: "ident \<Rightarrow> AppRepo \<Rightarrow> repo_err + App" where
  "ar_GetByID i s = (case ar_apps s i of None \<Rightarrow> Inl ErrNotFound | Some a \<Rightarrow> Inr a)"

definition ar_ListByOwner :: "ident \<Rightarrow> AppRepo \<Rightarrow> App list" where
  "ar_ListByOwner u s = range_vals (case ar_byOwner s u of None \<Rightarrow> [] | Some l \<Rightarrow> l) (ar_apps s)"

text \<open>The values of \<open>map[string]interface{}\<close>: the dynamic types that the code tells apart.\<close>

datatype uval = UString string | UInt int | UStrings "string list" | UOther string

definition set_field :: "string \<times> uval \<Rightarrow> App \<Rightarrow> App" where
  "set_field u a = (case u of (key, val) \<Rightarrow>
     if key = ''name'' then (case val of UString v \<Rightarrow> a\<lparr>ap_Name := v\<rparr> | _ \<Rightarrow> a)
     else if key = ''description'' then (case val of UString v \<Rightarrow> a\<lparr>ap_Description := v\<rparr> | _ \<Rightarrow> a)
     else if key = ''environment'' then (case val of UString v \<Rightarrow> a\<lparr>ap_Environment := v\<rparr> | _ \<Rightarrow> a)
     else if key = ''tier'' then (case val of UString v \<Rightarrow> a\<lparr>ap_Tier := v\<rparr> | _ \<Rightarrow> a)
     else if key = ''daily_limit'' then (case val of UInt v \<Rightarrow> a\<lparr>ap_DailyLimit := v\<rparr> | _ \<Rightarrow> a)
     else if key = ''callback_urls'' then (case val of UStrings v \<Rightarrow> a\<lparr>ap_CallbackURLs := v\<rparr> | _ \<Rightarrow> a)
     else if key = ''status'' then (case val of UString v \<Rightarrow> a\<lparr>ap_Status := v\<rparr> | _ \<Rightarrow> a)
     else a)"

text \<open>\<open>updates\<close> is the map in the order in which \<open>range\<close> visits it.\<close>

definition ar_Update :: "time \<Rightarrow> ident \<Rightarrow> (string \<times> uval) list \<Rightarrow> AppRepo \<Rightarrow> repo_err option \<times> AppRepo" where
  "ar_Update now i updates s =
     (case ar_apps s i of
        None \<Rightarrow> (Some ErrNotFound, s)
      | Some a \<Rightarrow> (None, s\<lparr>ar_apps := (ar_apps s)(i \<mapsto> (fold set_field updates a)\<lparr>ap_UpdatedAt := now\<rparr>)\<rparr>))"

definition ar_UpdateStatus :: "time \<Rightarrow> ident \<Rightarrow> string \<Rightarrow> AppRepo \<Rightarrow> repo_err option \<times> AppRepo" where
  "ar_UpdateStatus now i status s =
     (case ar_apps s i of
        None \<Rightarrow> (Some ErrNotFound, s)
      | Some a \<Rightarrow> (None, s\<lparr>ar_apps := (ar_apps s)(i \<mapsto> a\<lparr>ap_Status := status, ap_UpdatedAt := now\<rparr>)\<rparr>))"

section \<open>Apps in Postgres\<close>

text \<open>
  The table \<open>apps\<close> by its primary key.
  \<open>dup\<close> is the database's verdict that an insertion violates a unique constraint (23505 in the error text),
  \<open>pg_set\<close> what it does to a row for one assignment of the \<open>SET\<close> clause, \<open>None\<close> an error.
\<close>

definition pa_Create :: "string option \<Rightarrow> (App \<Rightarrow> bool) \<Rightarrow> ident \<Rightarrow> time \<Rightarrow> App \<Rightarrow> (ident \<rightharpoonup> App) \<Rightarrow> repo_err + App \<times> (ident \<rightharpoonup> App)" where
  "pa_Create fail dup i now app m =
     (if dup app then Inl ErrDuplicateApp
      else case fail of
        Some e \<Rightarrow> Inl (RepoError e)
      | None \<Rightarrow> let app' = app\<lparr>ap_ID := i, ap_CreatedAt := now, ap_UpdatedAt := now\<rparr> in Inr (app', m(i \<mapsto> app')))"

definition pa_GetByID :: "string option \<Rightarrow> ident \<Rightarrow> (ident \<rightharpoonup> App) \<Rightarrow> repo_err + App" where
  "pa_GetByID fail i m =
     (case fail of
        Some e \<Rightarrow> Inl (RepoError e)
      | None \<Rightarrow> (case m i of None \<Rightarrow> Inl ErrNotFound | Some a \<Rightarrow> Inr a))"

definition pa_ListByOwner :: "string option \<Rightarrow> ident list \<Rightarrow> ident \<Rightarrow> (ident \<rightharpoonup> App) \<Rightarrow> repo_err + App list" where
  "pa_ListByOwner fail ks u m =
     (case fail of
        Some e \<Rightarrow> Inl (RepoError e)
      | None \<Rightarrow> Inr (sort_key (\<lambda>a. - ap_CreatedAt a) (filter (\<lambda>a. ap_OwnerUserID a = u) (range_vals ks m))))"

text \<open>A clause \<open>key = $idx\<close> is the pair of its column and its placeholder; \<open>args\<close> are the arguments so far.\<close>

fun set_clauses :: "(string \<times> uval) list \<Rightarrow> (string \<times> nat) list \<Rightarrow> uval list \<Rightarrow> nat \<Rightarrow> ((string \<times> nat) list \<times> uval list) option" where
  "set_clauses [] clauses args paramIdx = Some (clauses, args)"
| "set_clauses ((key, val) # us) clauses args paramIdx =
     (if key = ''callback_urls''
      then (case val of
              UStrings urls \<Rightarrow> set_clauses us (clauses @ [(key, paramIdx)]) (args @ [UStrings urls]) (paramIdx + 1)
            | _ \<Rightarrow> None)
      else set_clauses us (clauses @ [(key, paramIdx)]) (args @ [val]) (paramIdx + 1))"

text \<open>The database carries out the statement: placeholder \<open>i\<close> is the \<open>i\<close>-th argument, counted from 1.\<close>

fun run_clauses :: "(string \<Rightarrow> uval \<Rightarrow> App \<Rightarrow> App option) \<Rightarrow> (string \<times> nat) list \<Rightarrow> uval list \<Rightarrow> App \<Rightarrow> App option" where
  "run_clauses pg_set [] args a = Some a"
| "run_clauses pg_set ((key, i) # cs) args a = Option.bind (pg_set key (args ! (i - 1)) a) (run_clauses pg_set cs args)"

definition pa_Update ::
  "string option \<Rightarrow> (string \<Rightarrow> uval \<Rightarrow> App \<Rightarrow> App option) \<Rightarrow> time \<Rightarrow> ident \<Rightarrow> (string \<times> uval) list \<Rightarrow> (ident \<rightharpoonup> App) \<Rightarrow>
     repo_err option \<times> (ident \<rightharpoonup> App)" where
  "pa_Update fail pg_set now i updates m =
     (if updates = [] then (None, m)
      else case set_clauses updates [] [] 1 of
        None \<Rightarrow> (Some (RepoError ''invalid type for callback_urls''), m)
      | Some (clauses, args) \<Rightarrow>
         (let all = args @ [UString i] in
          case fail of
            Some e \<Rightarrow> (Some (RepoError e), m)
          | None \<Rightarrow>
             (case all ! length args of
                UString key \<Rightarrow>
                  (case m key of
                     None \<Rightarrow> (Some ErrNotFound, m)
                   | Some a \<Rightarrow>
                      (case run_clauses pg_set clauses all a of
                         None \<Rightarrow> (Some (RepoError ''update app''), m)
                       | Some a' \<Rightarrow> (None, m(key \<mapsto> a'\<lparr>ap_UpdatedAt := now\<rparr>))))
              | _ \<Rightarrow> (Some (RepoError ''update app''), m))))"

definition pa_UpdateStatus :: "string option \<Rightarrow> time \<Rightarrow> ident \<Rightarrow> string \<Rightarrow> (ident \<rightharpoonup> App) \<Rightarrow> repo_err option \<times> (ident \<rightharpoonup> App)" where
  "pa_UpdateStatus fail now i status m =
     (case fail of
        Some e \<Rightarrow> (Some (RepoError e), m)
      | None \<Rightarrow> (case m i of
           None \<Rightarrow> (Some ErrNotFound, m)
         | Some a \<Rightarrow> (None, m(i \<mapsto> a\<lparr>ap_Status := status, ap_UpdatedAt := now\<rparr>))))"

section \<open>The two updates agree\<close>

text \<open>An assignment to one of the seven columns that both versions know, with a value of its type.\<close>

definition typed :: "string \<times> uval \<Rightarrow> bool" where
  "typed u \<longleftrightarrow> (case u of (key, val) \<Rightarrow>
     key \<in> {''name'', ''description'', ''environment'', ''tier'', ''status''} \<and> (\<exists>v. val = UString v) \<or>
     key = ''daily_limit'' \<and> (\<exists>v. val = UInt v) \<or> key = ''callback_urls'' \<and> (\<exists>v. val = UStrings v))"

lemma set_clauses_typed:
  assumes pg: "\<And>key val a. typed (key, val) \<Longrightarrow> pg_set key val a = Some (set_field (key, val) a)"
  shows "\<forall>u\<in>set us. typed u \<Longrightarrow> \<exists>cl. set_clauses us clauses args (Suc (length args)) = Some (clauses @ cl, args @ map snd us) \<and>
    (\<forall>extra a. run_clauses pg_set cl (args @ map snd us @ extra) a = Some (fold set_field us a))"
proof (induction us arbitrary: clauses args)
  case (Cons u us)
  obtain key val where u: "u = (key, val)" by (cases u)
  have ty: "typed (key, val)" using Cons.prems u by simp
  have ok: "key = ''callback_urls'' \<Longrightarrow> \<exists>v. val = UStrings v" using ty by (auto simp: typed_def)
  let ?n = "Suc (length args)"
  from Cons.IH [of "clauses @ [(key, ?n)]" "args @ [val]"] Cons.prems obtain cl where
    cl: "set_clauses us (clauses @ [(key, ?n)]) (args @ [val]) (Suc ?n) = Some (clauses @ (key, ?n) # cl, args @ map snd (u # us))"
    "\<And>extra a. run_clauses pg_set cl (args @ map snd (u # us) @ extra) a = Some (fold set_field us a)"
    by (auto simp: u)
  have "set_clauses (u # us) clauses args ?n = Some (clauses @ (key, ?n) # cl, args @ map snd (u # us))"
    using cl(1) ok by (cases "key = ''callback_urls''") (auto simp: u)
  moreover have "run_clauses pg_set ((key, ?n) # cl) (args @ map snd (u # us) @ extra) a = Some (fold set_field (u # us) a)" for extra a
    using cl(2) [of extra "set_field u a"] pg [OF ty] by (simp add: u nth_append)
  ultimately show ?case by blast
qed simp

lemma set_field_id [simp]: "ap_ID (set_field u a) = ap_ID a"
  by (cases u) (simp add: set_field_def split: uval.splits)

text \<open>The order in which \<open>range\<close> visits the map does not matter.\<close>

datatype field =
    FName string | FDescription string | FEnvironment string | FTier string | FDailyLimit int
  | FCallbackURLs "string list" | FStatus string

primrec column :: "field \<Rightarrow> string" where
  "column (FName v) = ''name''"
| "column (FDescription v) = ''description''"
| "column (FEnvironment v) = ''environment''"
| "column (FTier v) = ''tier''"
| "column (FDailyLimit v) = ''daily_limit''"
| "column (FCallbackURLs v) = ''callback_urls''"
| "column (FStatus v) = ''status''"

primrec assign :: "field \<Rightarrow> App \<Rightarrow> App" where
  "assign (FName v) a = a\<lparr>ap_Name := v\<rparr>"
| "assign (FDescription v) a = a\<lparr>ap_Description := v\<rparr>"
| "assign (FEnvironment v) a = a\<lparr>ap_Environment := v\<rparr>"
| "assign (FTier v) a = a\<lparr>ap_Tier := v\<rparr>"
| "assign (FDailyLimit v) a = a\<lparr>ap_DailyLimit := v\<rparr>"
| "assign (FCallbackURLs v) a = a\<lparr>ap_CallbackURLs := v\<rparr>"
| "assign (FStatus v) a = a\<lparr>ap_Status := v\<rparr>"

lemma assign_commute: "column f \<noteq> column g \<Longrightarrow> assign f (assign g a) = assign g (assign f a)"
  by (cases f; cases g) simp_all

lemma set_field_columns:
  "set_field (''name'', UString v) = assign (FName v)" "set_field (''description'', UString v) = assign (FDescription v)"
  "set_field (''environment'', UString v) = assign (FEnvironment v)" "set_field (''tier'', UString v) = assign (FTier v)"
  "set_field (''status'', UString v) = assign (FStatus v)" "set_field (''daily_limit'', UInt n) = assign (FDailyLimit n)"
  "set_field (''callback_urls'', UStrings l) = assign (FCallbackURLs l)"
  by (simp_all add: set_field_def fun_eq_iff)

lemma set_field_other:
  "k \<notin> {''name'', ''description'', ''environment'', ''tier'', ''status''} \<Longrightarrow> set_field (k, UString v) a = a"
  "k \<noteq> ''daily_limit'' \<Longrightarrow> set_field (k, UInt n) a = a"
  "k \<noteq> ''callback_urls'' \<Longrightarrow> set_field (k, UStrings l) a = a"
  "set_field (k, UOther o') a = a"
  by (simp_all add: set_field_def)

lemma set_field_assign: "(\<forall>a. set_field (k, x) a = a) \<or> (\<exists>f. column f = k \<and> set_field (k, x) = assign f)"
proof (cases x)
  case (UString v)
  show ?thesis
  proof (cases "k \<in> {''name'', ''description'', ''environment'', ''tier'', ''status''}")
    case True
    then have "k = ''name'' \<or> k = ''description'' \<or> k = ''environment'' \<or> k = ''tier'' \<or> k = ''status''" by simp
    with UString set_field_columns(1-5) [of v] column.simps(1-4,7) [of v] show ?thesis by metis
  next
    case False
    then show ?thesis unfolding UString by (simp only: set_field_other simp_thms)
  qed
next
  case (UInt n)
  with set_field_columns(6) [of n] set_field_other(2) [of k n] column.simps(5) [of n] show ?thesis by metis
next
  case (UStrings l)
  with set_field_columns(7) [of l] set_field_other(3) [of k l] column.simps(6) [of l] show ?thesis by metis
qed (simp only: set_field_other simp_thms)

lemma set_field_commute:
  assumes "fst u \<noteq> fst v"
  shows "set_field u (set_field v a) = set_field v (set_field u a)"
proof -
  obtain k x l y where uv: "u = (k, x)" "v = (l, y)" by (cases u, cases v) auto
  with set_field_assign [of k x] set_field_assign [of l y] assms show ?thesis by (auto simp: assign_commute)
qed

lemma fold_set_field_perm:
  assumes "distinct (map fst us)" "mset us = mset vs"
  shows "fold set_field us = fold set_field vs"
proof (rule fold_multiset_equiv)
  show "set_field x \<circ> set_field y = set_field y \<circ> set_field x" if "x \<in> set us" "y \<in> set us" for x y
  proof (cases "x = y")
    case False
    with that assms(1) have "fst x \<noteq> fst y" by (auto simp: distinct_map inj_on_def)
    then show ?thesis by (simp add: fun_eq_iff set_field_commute)
  qed simp
qed (use assms in simp)

text \<open>
  On the columns that both repositories know and values of their types, \<open>Update\<close> numbers its
  placeholders so that the statement assigns to each column its own value: a row becomes what the
  in-memory app becomes, in whatever orders the two calls visit the map.
  Without updates Postgres reports success even where the app does not exist.
\<close>

theorem app_update_agrees:
  assumes pg: "\<And>key val a. typed (key, val) \<Longrightarrow> pg_set key val a = Some (set_field (key, val) a)"
    and us: "us \<noteq> []" "\<forall>u\<in>set us. typed u" "distinct (map fst us)" "mset us = mset vs"
  shows "pa_Update None pg_set now i us (ar_apps s) =
      (fst (ar_Update now i vs s), ar_apps (snd (ar_Update now i vs s))) \<and>
    pa_Update None pg_set now i [] m = (None, m)"
proof -
  obtain cl where cl: "set_clauses us [] [] 1 = Some (cl, map snd us)"
    "\<And>extra a. run_clauses pg_set cl (map snd us @ extra) a = Some (fold set_field us a)"
    using set_clauses_typed [OF pg us(2), of "[]" "[]"] by auto
  have "fold set_field us = fold set_field vs" by (rule fold_set_field_perm [OF us(3,4)])
  then show ?thesis
    using cl us(1) by (auto simp: pa_Update_def ar_Update_def Let_def nth_append split: option.splits)
qed

theorem app_update_agrees_witness:
  "\<exists>s. ar_apps s ''i'' \<noteq> None \<and>
     pa_Update None (\<lambda>key val a. Some (set_field (key, val) a)) 9 ''i'' [(''name'', UString ''x''), (''tier'', UString ''free'')] (ar_apps s) =
       (fst (ar_Update 9 ''i'' [(''tier'', UString ''free''), (''name'', UString ''x'')] s),
        ar_apps (snd (ar_Update 9 ''i'' [(''tier'', UString ''free''), (''name'', UString ''x'')] s)))"
proof -
  have u: "\<forall>u\<in>set [(''name'', UString ''x''), (''tier'', UString ''free'')]. typed u"
    "distinct (map fst [(''name'', UString ''x''), (''tier'', UString ''free'')])"
    "mset [(''name'', UString ''x''), (''tier'', UString ''free'')] = mset [(''tier'', UString ''free''), (''name'', UString ''x'')]"
    by (simp_all add: typed_def)
  have p: "\<And>key val a. typed (key, val) \<Longrightarrow> (\<lambda>key val a. Some (set_field (key, val) a)) key val a = Some (set_field (key, val) a)"
    by simp
  note agrees = app_update_agrees [OF p list.distinct(2) u, of 9 "''i''"]
  obtain a :: App where "True" by simp
  have "ar_apps \<lparr>ar_apps = [''i'' \<mapsto> a], ar_byOwner = Map.empty\<rparr> ''i'' \<noteq> None" by simp
  with agrees show ?thesis by blast
qed

end
