(* ===== verification/Portal_Pages.thy ===== *)
theory Portal_Pages
  imports Portal_Usage
begin

text \<open>
  The remaining pages of the developer portal: analytics (\<open>handler/analytics.go\<close>), the changelog
  (\<open>handler/changelog.go\<close>), the webhook templates (\<open>handler/templates.go\<close>) and the API sandbox
  (\<open>handler/sandbox.go\<close>).
  Percentages (rounded \<open>float64\<close>), \<open>sort.Slice\<close>, \<open>time.Parse\<close> and the HTTP client of the sandbox are parameters.
\<close>

section \<open>The changelog\<close>

record ChangelogEntry =
  ch_Version :: string
  ch_Date :: string
  ch_Type :: string
  ch_Endpoint :: string
  ch_Description :: string
  ch_Breaking :: bool

record changelogResponse =
  cr_Entries :: "ChangelogEntry list"
  cr_Total :: int
  cr_Page :: int
  cr_PerPage :: int
  cr_TotalPages :: int

text \<open>
  The value of \<open>strconv.Atoi\<close> when its error is dropped: 0 for what is no number, the nearest bound for a
  number out of range; \<open>ParseUint\<close> stops at the first digit that overflows.
\<close>

fun uint_loop :: "nat \<Rightarrow> string \<Rightarrow> nat option" where
  "uint_loop n [] = Some n"
| "uint_loop n (c # cs) =
     (if \<not> is_digit c then None
      else if n \<ge> (2 ^ 64 - 1) div 10 + 1 then Some (2 ^ 64 - 1)
      else if n * 10 + digit_val c \<ge> 2 ^ 64 then Some (2 ^ 64 - 1)
      else uint_loop (n * 10 + digit_val c) cs)"

definition Atoi_value :: "string \<Rightarrow> int" where
  "Atoi_value s = (case s of [] \<Rightarrow> 0 | c # cs \<Rightarrow>
     (let neg = (c = CHR ''-''); ds = (if neg \<or> c = CHR ''+'' then cs else s) in
      if ds = [] then 0
      else case uint_loop 0 ds of None \<Rightarrow> 0
      | Some un \<Rightarrow> if neg then (if un > 2 ^ 63 then - (2 ^ 63) else - int un)
                   else (if un \<ge> 2 ^ 63 then 2 ^ 63 - 1 else int un)))"

definition change_entry :: "string \<Rightarrow> string \<Rightarrow> string \<Rightarrow> string \<Rightarrow> string \<Rightarrow> bool \<Rightarrow> ChangelogEntry" where
  "change_entry ver date ty ep descr breaking =
     \<lparr>ch_Version = ver, ch_Date = date, ch_Type = ty, ch_Endpoint = ep, ch_Description = descr, ch_Breaking = breaking\<rparr>"

definition change_matches :: "string \<Rightarrow> string \<Rightarrow> ChangelogEntry \<Rightarrow> bool" where
  "change_matches versionFilter typeFilter e \<longleftrightarrow>
     \<not> (versionFilter \<noteq> [] \<and> \<not> prefix versionFilter (ch_Version e)) \<and>
     (if typeFilter = ''breaking'' then ch_Breaking e
      else \<not> (typeFilter \<noteq> [] \<and> ch_Type e \<noteq> typeFilter))"

definition change_page :: "string \<Rightarrow> int" where
  "change_page q = (let page = Atoi_value q in if page < 1 then 1 else page)"

definition change_perPage :: "string \<Rightarrow> int" where
  "change_perPage q = (let n = Atoi_value q; perPage = (if n < 1 then 20 else n) in if perPage > 100 then 100 else perPage)"

text \<open>The slice expression panics (\<open>None\<close>) unless its bounds are in order.\<close>

definition go_slice :: "'a list \<Rightarrow> int \<Rightarrow> int \<Rightarrow> 'a list option" where
  "go_slice xs i j = (if 0 \<le> i \<and> i \<le> j \<and> j \<le> int (length xs) then Some (take (nat (j - i)) (drop (nat i) xs)) else None)"

definition GetChangelog :: "ChangelogEntry list \<Rightarrow> (string \<Rightarrow> string) \<Rightarrow> changelogResponse option" where
  "GetChangelog entries query =
     (let page = change_page (query ''page''); perPage = change_perPage (query ''per_page'');
          filtered = filter (change_matches (query ''version'') (query ''type'')) entries;
          total = int (length filtered);
          pages = (total + perPage - 1) div perPage;
          totalPages = (if pages < 1 then 1 else pages);
          start = (let st = i64 ((page - 1) * perPage) in if st > total then total else st);
          stop = (let en = i64 (start + perPage) in if en > total then total else en)
      in map_option (\<lambda>es. \<lparr>cr_Entries = es, cr_Total = total, cr_Page = page, cr_PerPage = perPage, cr_TotalPages = totalPages\<rparr>)
           (go_slice filtered start stop))"

definition DefaultChangelog :: "ChangelogEntry list" where
  "DefaultChangelog = [
      change_entry ''v1.0.0'' ''2026-01-15'' ''added'' []
        ''Initial release with identity verification, corporate entity, digital signing, and developer portal APIs'' False,
      change_entry ''v1.0.0'' ''2026-01-15'' ''added'' ''/api/v1/identity/verify''
        ''Identity verification endpoint with Dukcapil integration'' False,
      change_entry ''v1.0.0'' ''2026-01-15'' ''added'' ''/api/v1/corporate/nib''
        ''Corporate entity NIB lookup via OSS/BKPM integration'' False,
      change_entry ''v1.0.0'' ''2026-01-15'' ''added'' ''/api/v1/sign/documents''
        ''Digital document signing with certificate management'' False,
      change_entry ''v1.0.0'' ''2026-01-15'' ''added'' ''/api/v1/portal/apps''
        ''Developer portal application management'' False,
      change_entry ''v1.1.0'' ''2026-02-20'' ''added'' ''/api/v1/portal/webhooks''
        ''Webhook v2 signing with Ed25519 for improved security'' False,
      change_entry ''v1.1.0'' ''2026-02-20'' ''added'' ''/api/v1/portal/analytics''
        ''API usage analytics with time-series data and top endpoints'' False,
      change_entry ''v1.1.0'' ''2026-02-20'' ''changed'' ''/api/v1/portal/webhooks''
        ''Deprecated HMAC-SHA256 webhook signing in favor of Ed25519'' False,
      change_entry ''v1.2.0'' ''2026-03-25'' ''added'' ''/api/v1/certificates/revoke''
        ''Certificate revocation endpoint with CRL distribution'' False,
      change_entry ''v1.2.0'' ''2026-03-25'' ''added'' ''/api/v1/keys/rotate''
        ''API key rotation with grace period for seamless migration'' False,
      change_entry ''v1.2.0'' ''2026-03-25'' ''added'' ''/api/v1/batch''
        ''Batch API for executing multiple operations in a single request'' False,
      change_entry ''v1.2.0'' ''2026-03-25'' ''changed'' ''/api/v1/sign/documents''
        ''Signing endpoint now requires auth_level >= 2 for all operations'' True,
      change_entry ''v1.2.0'' ''2026-03-25'' ''security'' []
        ''Enforced minimum TLS 1.3 for all API connections'' True]"

section \<open>The webhook templates\<close>

datatype payload = PStr string | PInt int | PList "string list"

record FieldDescription =
  fd_Name :: string
  fd_Type :: string
  fd_Description :: string
  fd_Required :: bool

record WebhookTemplate =
  wt_EventType :: string
  wt_Description :: string
  wt_ExamplePayload :: "(string \<times> payload) list"
  wt_Fields :: "FieldDescription list"

definition field_desc :: "string \<Rightarrow> string \<Rightarrow> string \<Rightarrow> bool \<Rightarrow> FieldDescription" where
  "field_desc n t d r = \<lparr>fd_Name = n, fd_Type = t, fd_Description = d, fd_Required = r\<rparr>"

definition AllTemplates :: "WebhookTemplate list" where
  "AllTemplates = [
      \<lparr>wt_EventType = ''identity.verified'', wt_Description = ''Fired when a user completes identity verification'',
       wt_ExamplePayload = [(''user_id'', PStr ''550e8400-e29b-41d4-a716-446655440000''),
         (''verification_status'', PStr ''VERIFIED''),
         (''auth_level'', PInt 2),
         (''timestamp'', PStr ''2026-04-06T10:30:00Z'')],
       wt_Fields = [field_desc ''user_id'' ''string'' ''User identifier'' True,
         field_desc ''verification_status'' ''string'' ''Verification result: VERIFIED or REJECTED'' True,
         field_desc ''auth_level'' ''integer'' ''Authentication assurance level (1-3)'' True,
         field_desc ''timestamp'' ''string'' ''ISO 8601 timestamp of the event'' True]\<rparr>,
      \<lparr>wt_EventType = ''identity.consent.granted'', wt_Description = ''Fired when a user grants data access consent'',
       wt_ExamplePayload = [(''consent_id'', PStr ''550e8400-e29b-41d4-a716-446655440001''),
         (''user_id'', PStr ''550e8400-e29b-41d4-a716-446655440000''),
         (''client_id'', PStr ''app-123''),
         (''fields'', PList [''name'', ''nik'', ''dob'']),
         (''expires_at'', PStr ''2026-07-06T10:30:00Z''),
         (''timestamp'', PStr ''2026-04-06T10:30:00Z'')],
       wt_Fields = [field_desc ''consent_id'' ''string'' ''Unique consent identifier'' True,
         field_desc ''user_id'' ''string'' ''User granting consent'' True,
         field_desc ''client_id'' ''string'' ''Application receiving consent'' True,
         field_desc ''fields'' ''array'' ''Data fields included in consent'' True,
         field_desc ''expires_at'' ''string'' ''Consent expiration time'' True,
         field_desc ''timestamp'' ''string'' ''ISO 8601 timestamp of the event'' True]\<rparr>,
      \<lparr>wt_EventType = ''identity.consent.revoked'', wt_Description = ''Fired when a user revokes data access consent'',
       wt_ExamplePayload = [(''consent_id'', PStr ''550e8400-e29b-41d4-a716-446655440001''),
         (''user_id'', PStr ''550e8400-e29b-41d4-a716-446655440000''),
         (''client_id'', PStr ''app-123''),
         (''reason'', PStr ''user_requested''),
         (''timestamp'', PStr ''2026-04-06T10:30:00Z'')],
       wt_Fields = [field_desc ''consent_id'' ''string'' ''Revoked consent identifier'' True,
         field_desc ''user_id'' ''string'' ''User revoking consent'' True,
         field_desc ''client_id'' ''string'' ''Application whose consent was revoked'' True,
         field_desc ''reason'' ''string'' ''Revocation reason'' False,
         field_desc ''timestamp'' ''string'' ''ISO 8601 timestamp of the event'' True]\<rparr>,
      \<lparr>wt_EventType = ''corp.entity.verified'', wt_Description = ''Fired when a corporate entity passes verification'',
       wt_ExamplePayload = [(''entity_id'', PStr ''550e8400-e29b-41d4-a716-446655440002''),
         (''entity_name'', PStr ''PT Maju Bersama''),
         (''entity_type'', PStr ''PT''),
         (''nib'', PStr ''1234567890123''),
         (''status'', PStr ''VERIFIED''),
         (''timestamp'', PStr ''2026-04-06T10:30:00Z'')],
       wt_Fields = [field_desc ''entity_id'' ''string'' ''Corporate entity identifier'' True,
         field_desc ''entity_name'' ''string'' ''Registered entity name'' True,
         field_desc ''entity_type'' ''string'' ''Entity type (PT, CV, etc.)'' True,
         field_desc ''nib'' ''string'' ''Nomor Induk Berusaha'' True,
         field_desc ''status'' ''string'' ''Verification status'' True,
         field_desc ''timestamp'' ''string'' ''ISO 8601 timestamp of the event'' True]\<rparr>,
      \<lparr>wt_EventType = ''corp.role.assigned'', wt_Description = ''Fired when a role is assigned to a user within a corporate entity'',
       wt_ExamplePayload = [(''entity_id'', PStr ''550e8400-e29b-41d4-a716-446655440002''),
         (''user_id'', PStr ''550e8400-e29b-41d4-a716-446655440000''),
         (''role'', PStr ''DIRECTOR''),
         (''assigned_by'', PStr ''550e8400-e29b-41d4-a716-446655440003''),
         (''timestamp'', PStr ''2026-04-06T10:30:00Z'')],
       wt_Fields = [field_desc ''entity_id'' ''string'' ''Corporate entity identifier'' True,
         field_desc ''user_id'' ''string'' ''User receiving the role'' True,
         field_desc ''role'' ''string'' ''Role name assigned'' True,
         field_desc ''assigned_by'' ''string'' ''User who assigned the role'' True,
         field_desc ''timestamp'' ''string'' ''ISO 8601 timestamp of the event'' True]\<rparr>,
      \<lparr>wt_EventType = ''corp.role.revoked'', wt_Description = ''Fired when a role is revoked from a user within a corporate entity'',
       wt_ExamplePayload = [(''entity_id'', PStr ''550e8400-e29b-41d4-a716-446655440002''),
         (''user_id'', PStr ''550e8400-e29b-41d4-a716-446655440000''),
         (''role'', PStr ''DIRECTOR''),
         (''revoked_by'', PStr ''550e8400-e29b-41d4-a716-446655440003''),
         (''reason'', PStr ''role_change''),
         (''timestamp'', PStr ''2026-04-06T10:30:00Z'')],
       wt_Fields = [field_desc ''entity_id'' ''string'' ''Corporate entity identifier'' True,
         field_desc ''user_id'' ''string'' ''User whose role was revoked'' True,
         field_desc ''role'' ''string'' ''Role name revoked'' True,
         field_desc ''revoked_by'' ''string'' ''User who revoked the role'' True,
         field_desc ''reason'' ''string'' ''Revocation reason'' False,
         field_desc ''timestamp'' ''string'' ''ISO 8601 timestamp of the event'' True]\<rparr>,
      \<lparr>wt_EventType = ''sign.certificate.issued'', wt_Description = ''Fired when a digital certificate is issued to a user'',
       wt_ExamplePayload = [(''certificate_id'', PStr ''550e8400-e29b-41d4-a716-446655440004''),
         (''user_id'', PStr ''550e8400-e29b-41d4-a716-446655440000''),
         (''issuer'', PStr ''GarudaSign CA''),
         (''serial_number'', PStr ''ABC123DEF456''),
         (''valid_from'', PStr ''2026-04-06T00:00:00Z''),
         (''valid_until'', PStr ''2027-04-06T00:00:00Z''),
         (''timestamp'', PStr ''2026-04-06T10:30:00Z'')],
       wt_Fields = [field_desc ''certificate_id'' ''string'' ''Certificate identifier'' True,
         field_desc ''user_id'' ''string'' ''User the certificate was issued to'' True,
         field_desc ''issuer'' ''string'' ''Certificate authority name'' True,
         field_desc ''serial_number'' ''string'' ''Certificate serial number'' True,
         field_desc ''valid_from'' ''string'' ''Certificate validity start'' True,
         field_desc ''valid_until'' ''string'' ''Certificate validity end'' True,
         field_desc ''timestamp'' ''string'' ''ISO 8601 timestamp of the event'' True]\<rparr>,
      \<lparr>wt_EventType = ''sign.document.signed'', wt_Description = ''Fired when a document is successfully signed'',
       wt_ExamplePayload = [(''document_id'', PStr ''550e8400-e29b-41d4-a716-446655440005''),
         (''signer_id'', PStr ''550e8400-e29b-41d4-a716-446655440000''),
         (''certificate_id'', PStr ''550e8400-e29b-41d4-a716-446655440004''),
         (''signature_type'', PStr ''qualified''),
         (''hash'', PStr ''sha256:abc123def456''),
         (''timestamp'', PStr ''2026-04-06T10:30:00Z'')],
       wt_Fields = [field_desc ''document_id'' ''string'' ''Signed document identifier'' True,
         field_desc ''signer_id'' ''string'' ''User who signed the document'' True,
         field_desc ''certificate_id'' ''string'' ''Certificate used for signing'' True,
         field_desc ''signature_type'' ''string'' ''Signature type (basic, advanced, qualified)'' True,
         field_desc ''hash'' ''string'' ''Document hash with algorithm prefix'' True,
         field_desc ''timestamp'' ''string'' ''ISO 8601 timestamp of the event'' True]\<rparr>,
      \<lparr>wt_EventType = ''sign.document.failed'', wt_Description = ''Fired when a document signing attempt fails'',
       wt_ExamplePayload = [(''document_id'', PStr ''550e8400-e29b-41d4-a716-446655440005''),
         (''signer_id'', PStr ''550e8400-e29b-41d4-a716-446655440000''),
         (''error_code'', PStr ''CERTIFICATE_EXPIRED''),
         (''error_message'', PStr ''The signing certificate has expired''),
         (''timestamp'', PStr ''2026-04-06T10:30:00Z'')],
       wt_Fields = [field_desc ''document_id'' ''string'' ''Document that failed to sign'' True,
         field_desc ''signer_id'' ''string'' ''User who attempted signing'' True,
         field_desc ''error_code'' ''string'' ''Machine-readable error code'' True,
         field_desc ''error_message'' ''string'' ''Human-readable error description'' True,
         field_desc ''timestamp'' ''string'' ''ISO 8601 timestamp of the event'' True]\<rparr>]"

definition GetTemplates :: "('e, WebhookTemplate list) answer" where
  "GetTemplates = WriteJSON 200 AllTemplates"

definition GetTemplate :: "string \<Rightarrow> ('e, WebhookTemplate) answer" where
  "GetTemplate eventType = (case find (\<lambda>t. wt_EventType t = eventType) AllTemplates of
     Some t \<Rightarrow> WriteJSON 200 t
   | None \<Rightarrow> WriteError 404 ''not_found'' ''webhook template not found'')"

section \<open>Analytics\<close>

record 'f analyticsResponse =
  an_AppID :: ident
  an_From :: time
  an_To :: time
  an_TotalCalls :: int
  an_TotalErrors :: int
  an_ErrorRate :: 'f
  an_TimeSeries :: "DailyUsage list"
  an_TopEndpoints :: "EndpointUsage list"
  an_StatusCodes :: "string \<rightharpoonup> int"
  an_CallsChangePct :: 'f
  an_ErrorsChangePct :: 'f

definition sum_calls :: "DailyUsage list \<Rightarrow> int" where
  "sum_calls daily = fold (\<lambda>d n. i64 (n + du_Calls d)) daily 0"

definition sum_errors :: "DailyUsage list \<Rightarrow> int" where
  "sum_errors daily = fold (\<lambda>d n. i64 (n + du_Errors d)) daily 0"

definition status_codes :: "int \<Rightarrow> int \<Rightarrow> string \<rightharpoonup> int" where
  "status_codes totalCalls totalErrors =
     (if totalCalls > 0 then
        (let successCalls = i64 (totalCalls - totalErrors);
             m = (if successCalls > 0 then [''200'' \<mapsto> successCalls] else Map.empty)
         in if totalErrors > 0 then m(''500'' \<mapsto> totalErrors) else m)
      else Map.empty)"

text \<open>
  \<open>pct x y\<close> is \<open>math.Round(float64(x)/float64(y)*10000) / 100\<close>, \<open>zero\<close> the \<open>float64\<close> 0, \<open>by_calls\<close> the sort.
  The dates of the answer are formatted to days.
\<close>

definition analytics ::
  "(int \<Rightarrow> int \<Rightarrow> 'f) \<Rightarrow> 'f \<Rightarrow> (EndpointUsage list \<Rightarrow> EndpointUsage list) \<Rightarrow> ident \<Rightarrow> time \<Rightarrow> time \<Rightarrow>
     DailyUsage list \<Rightarrow> EndpointUsage list \<Rightarrow> DailyUsage list \<Rightarrow> 'f analyticsResponse" where
  "analytics pct zero by_calls appID fr to daily byEndpoint prevDaily =
     (let totalCalls = sum_calls daily; totalErrors = sum_errors daily;
          prevCalls = sum_calls prevDaily; prevErrors = sum_errors prevDaily
      in \<lparr>an_AppID = appID, an_From = fr, an_To = to, an_TotalCalls = totalCalls, an_TotalErrors = totalErrors,
          an_ErrorRate = (if totalCalls > 0 then pct totalErrors totalCalls else zero),
          an_TimeSeries = daily, an_TopEndpoints = by_calls byEndpoint,
          an_StatusCodes = status_codes totalCalls totalErrors,
          an_CallsChangePct = (if prevCalls > 0 then pct (i64 (totalCalls - prevCalls)) prevCalls else zero),
          an_ErrorsChangePct = (if prevErrors > 0 then pct (i64 (totalErrors - prevErrors)) prevErrors else zero)\<rparr>)"

definition prev_from :: "time \<Rightarrow> time \<Rightarrow> time" where
  "prev_from fr to = fr - time_Sub to fr"

definition prev_to :: "time \<Rightarrow> time" where
  "prev_to fr = fr - 24 * hour"

definition GetAnalytics ::
  "(int \<Rightarrow> int \<Rightarrow> 'f) \<Rightarrow> 'f \<Rightarrow> (EndpointUsage list \<Rightarrow> EndpointUsage list) \<Rightarrow> (string \<Rightarrow> time option) \<Rightarrow> time \<Rightarrow>
     's AppStore \<Rightarrow> 's UsageStore \<Rightarrow> ident \<Rightarrow> ident \<Rightarrow> (string \<Rightarrow> string) \<Rightarrow> 's \<Rightarrow> (portal_err, 'f analyticsResponse) answer" where
  "GetAnalytics pct zero by_calls parse now A U userID appID query s =
     (if userID = [] then WriteError 400 ''invalid_request'' ''X-User-ID header is required''
      else if appID = [] then WriteError 400 ''invalid_request'' ''app_id is required''
      else case owned_app A userID appID s of
        Inl ans \<Rightarrow> ans
      | Inr _ \<Rightarrow>
         (case (if query ''from'' \<noteq> [] then parse (query ''from'') else Some (now - 30 * 24 * hour)) of
            None \<Rightarrow> WriteError 400 ''invalid_request'' ''Invalid from date format (use YYYY-MM-DD)''
          | Some fr \<Rightarrow>
             (case (if query ''to'' \<noteq> [] then parse (query ''to'') else Some now) of
                None \<Rightarrow> WriteError 400 ''invalid_request'' ''Invalid to date format (use YYYY-MM-DD)''
              | Some to \<Rightarrow>
                 (case ux_GetUsageRange U appID fr to s of
                    Inl _ \<Rightarrow> WriteError 500 ''internal_error'' ''Failed to get analytics''
                  | Inr daily \<Rightarrow>
                     (case ux_GetUsageByEndpoint U appID fr to s of
                        Inl _ \<Rightarrow> WriteError 500 ''internal_error'' ''Failed to get analytics''
                      | Inr byEndpoint \<Rightarrow>
                          WriteJSON 200 (analytics pct zero by_calls appID fr to daily byEndpoint
                            (case ux_GetUsageRange U appID (prev_from fr to) (prev_to fr) s of Inl _ \<Rightarrow> [] | Inr prevDaily \<Rightarrow> prevDaily)))))))"

section \<open>The sandbox\<close>

record SandboxRequest =
  sb_ID :: ident
  sb_UserID :: ident
  sb_Method :: string
  sb_URL :: string
  sb_Status :: int
  sb_LatencyMs :: int
  sb_CreatedAt :: time

text \<open>\<open>InMemorySandboxStore\<close>: the requests in the order they were saved.\<close>

definition sandbox_Save :: "SandboxRequest \<Rightarrow> SandboxRequest list \<Rightarrow> SandboxRequest list" where
  "sandbox_Save req reqs = reqs @ [req]"

fun sandbox_loop :: "ident \<Rightarrow> int \<Rightarrow> SandboxRequest list \<Rightarrow> SandboxRequest list \<Rightarrow> SandboxRequest list" where
  "sandbox_loop u limit [] result = result"
| "sandbox_loop u limit (q # qs) result =
     (if sb_UserID q = u
      then (let result' = result @ [q] in if int (length result') \<ge> limit then result' else sandbox_loop u limit qs result')
      else sandbox_loop u limit qs result)"

definition sandbox_ListByUser :: "ident \<Rightarrow> int \<Rightarrow> SandboxRequest list \<Rightarrow> SandboxRequest list" where
  "sandbox_ListByUser u limit reqs = sandbox_loop u limit (rev reqs) []"

record EndpointInfo =
  ei_Method :: string
  ei_Path :: string
  ei_Description :: string

definition endpoint_info :: "string \<Rightarrow> string \<Rightarrow> string \<Rightarrow> EndpointInfo" where
  "endpoint_info m p d = \<lparr>ei_Method = m, ei_Path = p, ei_Description = d\<rparr>"

definition availableEndpoints :: "EndpointInfo list" where
  "availableEndpoints = [
     endpoint_info ''POST'' ''/api/v1/identity/register'' ''Register a new identity'',
     endpoint_info ''GET'' ''/api/v1/identity/verify'' ''Verify an identity'',
     endpoint_info ''POST'' ''/api/v1/identity/lookup'' ''Look up identity by NIK'',
     endpoint_info ''GET'' ''/api/v1/signing/status'' ''Check signing status'',
     endpoint_info ''POST'' ''/api/v1/signing/request'' ''Request a digital signature'']"

record executeRequest =
  xr_Method :: string
  xr_URL :: string
  xr_Headers :: "string \<rightharpoonup> string"
  xr_Body :: string
  xr_APIKey :: string

text \<open>The request that goes out: the client's headers in the order \<open>ks\<close> of its map, then the key.\<close>

record proxy_request =
  px_Method :: string
  px_URL :: string
  px_Headers :: "string \<rightharpoonup> string list"
  px_Body :: string

definition proxy_headers :: "(string \<Rightarrow> string) \<Rightarrow> string list \<Rightarrow> executeRequest \<Rightarrow> string \<rightharpoonup> string list" where
  "proxy_headers canon ks req =
     (fold (\<lambda>k h. case xr_Headers req k of None \<Rightarrow> h | Some v \<Rightarrow> h(canon k \<mapsto> [v])) ks Map.empty)(canon ''X-API-Key'' \<mapsto> [xr_APIKey req])"

datatype sandbox_err = BadRequestURL string | ProxyFailed string

datatype 'b sandbox_body = Executed 'b | Endpoints "EndpointInfo list" | History "SandboxRequest list"

record executeResponse =
  xs_StatusCode :: int
  xs_Headers :: "string \<rightharpoonup> string"
  xs_Body :: string
  xs_LatencyMs :: int

text \<open>
  \<open>canon\<close> is the canonical form of a header name, \<open>valid\<close> the error of \<open>NewRequestWithContext\<close>, \<open>send\<close> the
  exchange: an error, or the status, the headers and the body (\<open>None\<close>: it could not be read) with the
  milliseconds it took.
  The result carries the request that was sent, if one was.
\<close>

type_synonym proxy_client = "proxy_request \<Rightarrow> string + (int \<times> (string \<rightharpoonup> string list) \<times> string option \<times> int)"

definition first_value :: "(string \<rightharpoonup> string list) \<Rightarrow> string \<rightharpoonup> string" where
  "first_value h k = (case h k of None \<Rightarrow> None | Some [] \<Rightarrow> Some [] | Some (v # vs) \<Rightarrow> Some v)"

definition ExecuteRequest ::
  "(string \<Rightarrow> string) \<Rightarrow> (string \<Rightarrow> string \<Rightarrow> string option) \<Rightarrow> proxy_client \<Rightarrow> string list \<Rightarrow> ident \<Rightarrow> time \<Rightarrow> ident \<Rightarrow>
     executeRequest option \<Rightarrow> SandboxRequest list \<Rightarrow>
     (sandbox_err, executeResponse sandbox_body) answer \<times> proxy_request option \<times> SandboxRequest list" where
  "ExecuteRequest canon valid send ks newID now userID body s =
     (case body of
        None \<Rightarrow> (WriteError 400 ''invalid_request'' ''Invalid JSON body'', None, s)
      | Some req \<Rightarrow>
          if xr_APIKey req = [] then (WriteError 400 ''invalid_request'' ''api_key is required'', None, s)
          else if \<not> prefix ''gp_test_'' (xr_APIKey req)
          then (WriteError 403 ''forbidden'' ''Production keys are not allowed in sandbox; use a gp_test_ key'', None, s)
          else if xr_Method req = [] \<or> xr_URL req = []
          then (WriteError 400 ''invalid_request'' ''method and url are required'', None, s)
          else case valid (xr_Method req) (xr_URL req) of
            Some e \<Rightarrow> (WriteErrText 400 ''invalid_request'' (BadRequestURL e), None, s)
          | None \<Rightarrow>
              (let out = \<lparr>px_Method = xr_Method req, px_URL = xr_URL req, px_Headers = proxy_headers canon ks req,
                          px_Body = xr_Body req\<rparr> in
               case send out of
                 Inl e \<Rightarrow> (WriteErrText 502 ''proxy_error'' (ProxyFailed e), Some out, s)
               | Inr (st, h, None, ms) \<Rightarrow> (WriteError 502 ''proxy_error'' ''Failed to read response body'', Some out, s)
               | Inr (st, h, Some b, ms) \<Rightarrow>
                   (WriteJSON 200 (Executed \<lparr>xs_StatusCode = st, xs_Headers = first_value h, xs_Body = b, xs_LatencyMs = ms\<rparr>),
                    Some out,
                    if userID \<noteq> []
                    then sandbox_Save \<lparr>sb_ID = newID, sb_UserID = userID, sb_Method = xr_Method req, sb_URL = xr_URL req,
                           sb_Status = st, sb_LatencyMs = ms, sb_CreatedAt = now\<rparr> s
                    else s)))"

definition ListEndpoints :: "(sandbox_err, executeResponse sandbox_body) answer" where
  "ListEndpoints = WriteJSON 200 (Endpoints availableEndpoints)"

definition GetRequestHistory :: "ident \<Rightarrow> SandboxRequest list \<Rightarrow> (sandbox_err, executeResponse sandbox_body) answer" where
  "GetRequestHistory userID s =
     (if userID = [] then WriteError 401 ''unauthorized'' ''X-User-ID header is required''
      else WriteJSON 200 (History (sandbox_ListByUser userID 50 s)))"

section \<open>The pages of the changelog\<close>

lemma go_slice_take:
  "0 \<le> i \<Longrightarrow> i \<le> j \<Longrightarrow> j \<le> int (length xs) \<Longrightarrow> go_slice xs i j = Some (take (nat (j - i)) (drop (nat i) xs))"
  by (simp add: go_slice_def)

lemma change_perPage_range: "1 \<le> change_perPage q \<and> change_perPage q \<le> 100"
  by (simp add: change_perPage_def Let_def)

lemma change_page_pos: "1 \<le> change_page q"
  by (simp add: change_page_def Let_def)

text \<open>The slice of a page, from where the code's \<open>int\<close> product lands.\<close>

definition page_slice :: "'a list \<Rightarrow> int \<Rightarrow> int \<Rightarrow> 'a list option" where
  "page_slice xs st n =
     (let total = int (length xs); start = (if st > total then total else st);
          stop = (let en = i64 (start + n) in if en > total then total else en)
      in go_slice xs start stop)"

lemma page_slice_Some:
  assumes "0 \<le> st" "1 \<le> n" "n \<le> 100" "int (length xs) < 2 ^ 62"
  shows "page_slice xs st n = Some (take (nat n) (drop (nat st) xs))"
proof (cases "st > int (length xs)")
  case True
  then have "i64 (int (length xs) + n) = int (length xs) + n" using assms by (intro i64_id) auto
  with True assms show ?thesis by (simp add: page_slice_def go_slice_def Let_def)
next
  case False
  then have e: "i64 (st + n) = st + n" using assms by (intro i64_id) auto
  show ?thesis
  proof (cases "st + n > int (length xs)")
    case True
    with False assms e have "page_slice xs st n = Some (take (nat (int (length xs) - st)) (drop (nat st) xs))"
      by (simp add: page_slice_def go_slice_def Let_def)
    moreover have "length (drop (nat st) xs) \<le> nat (int (length xs) - st)" "length (drop (nat st) xs) \<le> nat n"
      using True False assms by auto
    ultimately show ?thesis by simp
  next
    case le: False
    with False assms e show ?thesis by (simp add: page_slice_def go_slice_def Let_def)
  qed
qed

lemma page_slice_None: "st < 0 \<Longrightarrow> page_slice xs st n = None"
  by (simp add: page_slice_def go_slice_def Let_def)

lemma GetChangelog_slice:
  "map_option cr_Entries (GetChangelog entries query) =
     page_slice (filter (change_matches (query ''version'') (query ''type'')) entries)
       (i64 ((change_page (query ''page'') - 1) * change_perPage (query ''per_page''))) (change_perPage (query ''per_page''))"
  by (simp add: GetChangelog_def page_slice_def Let_def option.map_comp comp_def option.map_ident)

text \<open>The pages of a list, one after the other, are the list.\<close>

lemma pages_concat:
  assumes "0 < n"
  shows "concat (map (\<lambda>p. take n (drop (p * n) xs)) [0..<k]) = take (k * n) xs"
proof (induction k)
  case (Suc k)
  have "take (Suc k * n) xs = take (k * n) xs @ take n (drop (k * n) xs)"
    by (metis add.commute mult_Suc take_add)
  with Suc show ?case by simp
qed simp

text \<open>
  C36. GetChangelog returns the entries of the page among those that match the filters, so that the pages up to
  the last are the matching entries in order; but the offset is an int product that wraps: where it becomes
  negative the handler panics, and only there.
\<close>

theorem changelog_pages:
  assumes small: "int (length entries) < 2 ^ 62"
  shows "let es = filter (change_matches (query ''version'') (query ''type'')) entries;
       n = change_perPage (query ''per_page''); off = i64 ((change_page (query ''page'') - 1) * n) in
     (GetChangelog entries query = None \<longleftrightarrow> off < 0) \<and>
     (\<forall>r. GetChangelog entries query = Some r \<longrightarrow>
        cr_Entries r = take (nat n) (drop (nat off) es) \<and> cr_Total r = int (length es) \<and>
        cr_TotalPages r = max 1 ((int (length es) + n - 1) div n)) \<and>
     concat (map (\<lambda>p. take (nat n) (drop (p * nat n) es)) [0..<nat (max 1 ((int (length es) + n - 1) div n))]) = es"
proof -
  let ?es = "filter (change_matches (query ''version'') (query ''type'')) entries"
  let ?n = "change_perPage (query ''per_page'')"
  let ?off = "i64 ((change_page (query ''page'') - 1) * ?n)"
  let ?k = "max 1 ((int (length ?es) + ?n - 1) div ?n)"
  have n: "1 \<le> ?n" "?n \<le> 100" using change_perPage_range by auto
  have len: "int (length ?es) < 2 ^ 62" using small length_filter_le [of "change_matches (query ''version'') (query ''type'')" entries]
    by linarith
  have none: "GetChangelog entries query = None \<longleftrightarrow> ?off < 0"
    using GetChangelog_slice [of entries query] page_slice_None [of ?off ?es ?n] page_slice_Some [OF _ n len, of ?off]
    by (cases "?off < 0") auto
  have some: "cr_Entries r = take (nat ?n) (drop (nat ?off) ?es)" if "GetChangelog entries query = Some r" for r
    using that none GetChangelog_slice [of entries query] page_slice_Some [OF _ n len, of ?off] by auto
  have rest: "cr_Total r = int (length ?es) \<and> cr_TotalPages r = ?k" if "GetChangelog entries query = Some r" for r
    using that by (auto simp: GetChangelog_def Let_def max_def)
  have "int (length ?es) \<le> ?k * ?n"
  proof -
    have "(int (length ?es) + ?n - 1) div ?n * ?n = int (length ?es) + ?n - 1 - (int (length ?es) + ?n - 1) mod ?n"
      by (simp add: minus_mod_eq_div_mult)
    moreover have "(int (length ?es) + ?n - 1) mod ?n \<le> ?n - 1" using n pos_mod_bound [of ?n "int (length ?es) + ?n - 1"] by linarith
    moreover have "(int (length ?es) + ?n - 1) div ?n * ?n \<le> ?k * ?n" using n by (intro mult_right_mono) auto
    ultimately show ?thesis by linarith
  qed
  then have "length ?es \<le> nat ?k * nat ?n" using n by (simp add: nat_mult_distrib [symmetric])
  then have "concat (map (\<lambda>p. take (nat ?n) (drop (p * nat ?n) ?es)) [0..<nat ?k]) = ?es"
    using n by (subst pages_concat) auto
  with none some rest show ?thesis unfolding Let_def by blast
qed

text \<open>Page 461168601842738792 with the default size panics; page 1 lists the breaking changes.\<close>

theorem changelog_pages_witness:
  "GetChangelog DefaultChangelog (\<lambda>k. if k = ''page'' then ''461168601842738792'' else []) = None \<and>
     (\<exists>r. GetChangelog DefaultChangelog (\<lambda>k. if k = ''type'' then ''breaking'' else []) = Some r \<and>
        cr_Total r = 2 \<and> cr_TotalPages r = 1)"
proof -
  have small: "int (length DefaultChangelog) < 2 ^ 62" by (simp add: DefaultChangelog_def)
  have "change_page ''461168601842738792'' = 461168601842738792" "change_perPage [] = 20"
    by (simp_all add: change_page_def change_perPage_def Atoi_value_def is_digit_def digit_val_def byte_def)
  then have "GetChangelog DefaultChangelog (\<lambda>k. if k = ''page'' then ''461168601842738792'' else []) = None"
    using changelog_pages [OF small, of "\<lambda>k. if k = ''page'' then ''461168601842738792'' else []"]
    by (simp add: Let_def i64_def)
  moreover have "change_page [] = 1" "change_perPage [] = 20"
    "length (filter (change_matches [] ''breaking'') DefaultChangelog) = 2" by code_simp+
  then have "\<exists>r. GetChangelog DefaultChangelog (\<lambda>k. if k = ''type'' then ''breaking'' else []) = Some r \<and>
      cr_Total r = 2 \<and> cr_TotalPages r = 1"
    using changelog_pages [OF small, of "\<lambda>k. if k = ''type'' then ''breaking'' else []"]
    by (auto simp: Let_def)
  ultimately show ?thesis by blast
qed

section \<open>The templates\<close>

definition payload_type :: "payload \<Rightarrow> string" where
  "payload_type v = (case v of PStr _ \<Rightarrow> ''string'' | PInt _ \<Rightarrow> ''integer'' | PList _ \<Rightarrow> ''array'')"

text \<open>Every template documents exactly the fields of its example, with their types, and is found by its name.\<close>

lemma templates_documented:
  "t \<in> set AllTemplates \<Longrightarrow>
     map (\<lambda>f. (fd_Name f, fd_Type f)) (wt_Fields t) = map (\<lambda>(k, v). (k, payload_type v)) (wt_ExamplePayload t)"
proof -
  have "list_all (\<lambda>t. map (\<lambda>f. (fd_Name f, fd_Type f)) (wt_Fields t) =
      map (\<lambda>(k, v). (k, payload_type v)) (wt_ExamplePayload t)) AllTemplates"
    by (simp add: AllTemplates_def field_desc_def payload_type_def)
  then show "t \<in> set AllTemplates \<Longrightarrow> ?thesis" by (simp add: list_all_iff)
qed

lemma template_names_distinct: "distinct (map wt_EventType AllTemplates)"
  by (simp add: AllTemplates_def)

lemma find_by_key: "distinct (map f xs) \<Longrightarrow> x \<in> set xs \<Longrightarrow> find (\<lambda>y. f y = f x) xs = Some x"
  by (induction xs) (auto simp: rev_image_eqI)

lemma template_found: "t \<in> set AllTemplates \<Longrightarrow> GetTemplate (wt_EventType t) = WriteJSON 200 t"
  using find_by_key [OF template_names_distinct] by (simp add: GetTemplate_def)

section \<open>The growth of analytics\<close>

lemma in_period_days:
  "in_period a (f * day) (t * day) = (\<lambda>k. fst k = a \<and> f \<le> fst (snd k) \<and> fst (snd k) \<le> t)"
  by (auto simp: in_period_def dateKey_def fun_eq_iff)

definition calls_between :: "ident \<Rightarrow> int \<Rightarrow> int \<Rightarrow> call list \<Rightarrow> int" where
  "calls_between a f t cs = count_calls (\<lambda>k. fst k = a \<and> f \<le> fst (snd k) \<and> fst (snd k) \<le> t) cs"

definition errors_between :: "ident \<Rightarrow> int \<Rightarrow> int \<Rightarrow> call list \<Rightarrow> int" where
  "errors_between a f t cs = count_errors (\<lambda>k. fst k = a \<and> f \<le> fst (snd k) \<and> fst (snd k) \<le> t) cs"

lemma sum_range:
  assumes "range_of ks (usage_of cs)"
  shows "sum_calls (usage_GetUsageRange ks a (f * day) (t * day) (usage_of cs)) = i64 (calls_between a f t cs)"
    and "sum_errors (usage_GetUsageRange ks a (f * day) (t * day) (usage_of cs)) = i64 (errors_between a f t cs)"
  using range_total [OF assms, of a "f * day" "t * day"] unfolding in_period_days
  by (simp_all add: sum_calls_def sum_errors_def calls_between_def errors_between_def)

lemma count_bounds: "0 \<le> count_calls P cs \<and> count_calls P cs \<le> int (length cs)"
  by (simp add: count_calls_def)

lemma calls_between_id:
  assumes "int (length cs) < 2 ^ 62"
  shows "i64 (calls_between a f t cs) = calls_between a f t cs"
    "i64 (calls_between a f t cs - calls_between a f' t' cs) = calls_between a f t cs - calls_between a f' t' cs"
  using assms count_bounds [of "\<lambda>k. fst k = a \<and> f \<le> fst (snd k) \<and> fst (snd k) \<le> t" cs]
    count_bounds [of "\<lambda>k. fst k = a \<and> f' \<le> fst (snd k) \<and> fst (snd k) \<le> t'" cs]
  by (auto simp: calls_between_def intro!: i64_id)

text \<open>
  The analytics of the days f to t of an app: the totals and the time series are the calls of those
  t - f + 1 days, but the period they are compared with has only t - f days, the last of them the day
  before f; so steady traffic is reported as growth.
\<close>

theorem analytics_growth:
  assumes ks: "range_of ks (usage_of cs)" and days: "f \<le> t" "t - f < 100000" and small: "int (length cs) < 2 ^ 62"
    and s: "po_usage s = usage_of cs" and app: "a \<noteq> []" "u \<noteq> []" "ax_GetByID A a s = Inr app" "ap_OwnerUserID app = u"
    and q: "q ''from'' \<noteq> []" "parse (q ''from'') = Some (f * day)" "q ''to'' \<noteq> []" "parse (q ''to'') = Some (t * day)"
  shows "\<exists>r. GetAnalytics pct zero by_calls parse now A (InMemoryUsageStore now ks es) u a q s = WriteJSON 200 r \<and>
     an_TotalCalls r = calls_between a f t cs \<and>
     map du_Date (an_TimeSeries r) =
       map (\<lambda>d. d * day) (filter (\<lambda>d. \<exists>c\<in>set cs. fst (call_key c) = a \<and> fst (snd (call_key c)) = d) [f..t]) \<and>
     an_CallsChangePct r =
       (let prev = calls_between a (f - (t - f)) (f - 1) cs in
        if prev > 0 then pct (calls_between a f t cs - prev) prev else zero)"
proof -
  have "time_Sub (t * day) (f * day) = (t - f) * day" using days by (simp add: time_Sub_def algebra_simps)
  then have prev: "prev_from (f * day) (t * day) = (f - (t - f)) * day" "prev_to (f * day) = (f - 1) * day"
    by (simp_all add: prev_from_def prev_to_def algebra_simps)
  have "GetAnalytics pct zero by_calls parse now A (InMemoryUsageStore now ks es) u a q s =
    WriteJSON 200 (analytics pct zero by_calls a (f * day) (t * day) (usage_GetUsageRange ks a (f * day) (t * day) (usage_of cs))
      (usage_GetUsageByEndpoint ks es a (f * day) (t * day) (usage_of cs))
      (usage_GetUsageRange ks a (prev_from (f * day) (t * day)) (prev_to (f * day)) (usage_of cs)))"
    using app q by (simp add: GetAnalytics_def owned_app_def InMemoryUsageStore_def s)
  moreover have "map du_Date (usage_GetUsageRange ks a (f * day) (t * day) (usage_of cs)) =
       map (\<lambda>d. d * day) (filter (\<lambda>d. \<exists>c\<in>set cs. fst (call_key c) = a \<and> fst (snd (call_key c)) = d) [f..t])"
    unfolding usage_range_spec [OF ks] by (simp add: dateKey_def comp_def)
  ultimately show ?thesis
    unfolding prev analytics_def sum_range [OF ks] calls_between_id [OF small] Let_def by simp
qed

text \<open>One call a day for three days, asked for the last two: two calls against one, reported as growth.\<close>

definition steady :: "call list" where
  "steady = [(0, ''a'', ''/x'', False), (day, ''a'', ''/x'', False), (2 * day, ''a'', ''/x'', False)]"

definition demo_app :: App where
  "demo_app = \<lparr>ap_ID = ''a'', ap_OwnerUserID = ''u'', ap_Name = [], ap_Description = [], ap_Environment = [], ap_Tier = [],
     ap_DailyLimit = 0, ap_CallbackURLs = [], ap_OAuthClientID = [], ap_Status = [], ap_CreatedAt = 0, ap_UpdatedAt = 0\<rparr>"

definition demo_portal :: portal where
  "demo_portal = portal_init\<lparr>po_usage := usage_of steady, po_apps := [''a'' \<mapsto> demo_app]\<rparr>"

definition demo_parse :: "string \<Rightarrow> time option" where
  "demo_parse q = (if q = ''d1'' then Some (1 * day) else Some (2 * day))"

definition demo_query :: "string \<Rightarrow> string" where
  "demo_query k = (if k = ''from'' then ''d1'' else ''d2'')"

theorem analytics_growth_witness:
  "\<exists>r. GetAnalytics (\<lambda>x y. (x * 100) div y) 0 id demo_parse 0 (InMemoryAppStore (\<lambda>_. []) 0 [''a''])
     (InMemoryUsageStore 0 [(''a'', 0, ''/x''), (''a'', 1, ''/x''), (''a'', 2, ''/x'')] [''/x'']) ''u'' ''a''
     demo_query demo_portal = WriteJSON 200 r \<and> an_TotalCalls r = 2 \<and> an_CallsChangePct r = 100"
proof -
  have ks: "range_of [(''a'', 0, ''/x''), (''a'', 1, ''/x''), (''a'', 2, ''/x'')] (usage_of steady)"
    by (auto simp: range_of_def dom_usage_of call_key_def dateKey_def steady_def)
  have counts: "calls_between ''a'' 1 2 steady = 2" "calls_between ''a'' (1 - (2 - 1)) (1 - 1) steady = 1"
    by (simp_all add: calls_between_def count_calls_def steady_def call_key_def dateKey_def)
  have small: "int (length steady) < 2 ^ 62" by (simp add: steady_def)
  have s: "po_usage demo_portal = usage_of steady" by (simp add: demo_portal_def)
  have app: "ax_GetByID (InMemoryAppStore (\<lambda>_. []) 0 [''a'']) ''a'' demo_portal = Inr demo_app" "ap_OwnerUserID demo_app = ''u''"
    by (simp_all add: InMemoryAppStore_def app_GetByID_def demo_portal_def demo_app_def)
  have q: "demo_query ''from'' \<noteq> []" "demo_parse (demo_query ''from'') = Some (1 * day)"
    "demo_query ''to'' \<noteq> []" "demo_parse (demo_query ''to'') = Some (2 * day)"
    by (simp_all add: demo_query_def demo_parse_def)
  have "(1::int) \<le> 2" "(2::int) - 1 < 100000" "''a'' \<noteq> []" "''u'' \<noteq> []" by simp_all
  from analytics_growth [OF ks this(1,2) small s this(3,4) app q, of "\<lambda>x y. (x * 100) div y" 0 id 0 "[''/x'']"] counts
  show ?thesis unfolding Let_def by auto
qed

section \<open>The sandbox\<close>

lemma sandbox_loop_take:
  "int (length result) < limit \<Longrightarrow>
     sandbox_loop u limit qs result = result @ take (nat limit - length result) (filter (\<lambda>q. sb_UserID q = u) qs)"
proof (induction qs arbitrary: result)
  case (Cons q qs)
  show ?case
  proof (cases "sb_UserID q = u \<and> int (length result) + 1 < limit")
    case True
    then have "nat limit - length result = Suc (nat limit - Suc (length result))" by auto
    with Cons.IH [of "result @ [q]"] True show ?thesis by simp
  next
    case False
    then have "sb_UserID q = u \<Longrightarrow> nat limit - length result = 1" using Cons.prems by auto
    with False Cons show ?thesis by auto
  qed
qed simp

lemma sandbox_history:
  "0 < limit \<Longrightarrow> sandbox_ListByUser u limit reqs = take (nat limit) (filter (\<lambda>q. sb_UserID q = u) (rev reqs))"
  by (simp add: sandbox_ListByUser_def sandbox_loop_take)

text \<open>A limit that is not positive still gives one request.\<close>

lemma sandbox_limit_0: "sandbox_ListByUser u 0 [q\<lparr>sb_UserID := u\<rparr>] = [q\<lparr>sb_UserID := u\<rparr>]"
  by (simp add: sandbox_ListByUser_def)

text \<open>
  C37. The sandbox sends a request only with a test key, which it carries in X-API-Key whatever headers were asked
  for; the history grows by one entry exactly when a named user's request was answered 200, and then that
  entry is the first of the user's history, and nobody else's changes.
\<close>

theorem sandbox_test_keys:
  assumes x: "ExecuteRequest canon valid send ks i now u body s = (ans, sent, s')"
  shows "(\<forall>out. sent = Some out \<longrightarrow> (\<exists>req. body = Some req \<and> prefix ''gp_test_'' (xr_APIKey req) \<and>
       px_Headers out (canon ''X-API-Key'') = Some [xr_APIKey req] \<and> px_URL out = xr_URL req)) \<and>
     (s' = s \<and> (u = [] \<or> status_of ans \<noteq> 200) \<or>
      u \<noteq> [] \<and> status_of ans = 200 \<and> sent \<noteq> None \<and>
      (\<exists>e. s' = s @ [e] \<and> sb_UserID e = u \<and> sb_CreatedAt e = now \<and> sandbox_ListByUser u 50 s' = e # take 49 (sandbox_ListByUser u 50 s))) \<and>
     (\<forall>v. v \<noteq> u \<longrightarrow> GetRequestHistory v s' = GetRequestHistory v s)"
proof (cases "\<exists>req h st b ms. body = Some req \<and> prefix ''gp_test_'' (xr_APIKey req) \<and> xr_Method req \<noteq> [] \<and> xr_URL req \<noteq> [] \<and>
    valid (xr_Method req) (xr_URL req) = None \<and>
    send \<lparr>px_Method = xr_Method req, px_URL = xr_URL req, px_Headers = proxy_headers canon ks req, px_Body = xr_Body req\<rparr> =
      Inr (st, h, Some b, ms)")
  case True
  then obtain req h st b ms where r: "body = Some req" "prefix ''gp_test_'' (xr_APIKey req)" "xr_Method req \<noteq> []" "xr_URL req \<noteq> []"
    "valid (xr_Method req) (xr_URL req) = None"
    "send \<lparr>px_Method = xr_Method req, px_URL = xr_URL req, px_Headers = proxy_headers canon ks req, px_Body = xr_Body req\<rparr> =
      Inr (st, h, Some b, ms)" by blast
  have k: "xr_APIKey req \<noteq> []" using r(2) by auto
  show ?thesis
  proof (cases "u = []")
    case True
    with x r k show ?thesis by (auto simp: ExecuteRequest_def Let_def proxy_headers_def)
  next
    case False
    let ?e = "\<lparr>sb_ID = i, sb_UserID = u, sb_Method = xr_Method req, sb_URL = xr_URL req, sb_Status = st, sb_LatencyMs = ms,
      sb_CreatedAt = now\<rparr>"
    from x r k False have eq: "s' = s @ [?e]" "status_of ans = 200"
      "sent = Some \<lparr>px_Method = xr_Method req, px_URL = xr_URL req, px_Headers = proxy_headers canon ks req, px_Body = xr_Body req\<rparr>"
      by (auto simp: ExecuteRequest_def Let_def sandbox_Save_def)
    moreover have "sandbox_ListByUser u 50 (s @ [?e]) = ?e # take 49 (sandbox_ListByUser u 50 s)"
      by (simp add: sandbox_history min_def)
    moreover have "GetRequestHistory v (s @ [?e]) = GetRequestHistory v s" if "v \<noteq> u" for v
      using that by (auto simp: GetRequestHistory_def sandbox_history)
    ultimately show ?thesis using False r(1,2) by (auto simp: proxy_headers_def)
  qed
next
  case False
  with x show ?thesis
    unfolding ExecuteRequest_def
    by (auto simp: Let_def proxy_headers_def split: option.splits if_splits sum.splits prod.splits)
qed

theorem sandbox_test_keys_witness:
  "let req = \<lparr>xr_Method = ''GET'', xr_URL = ''http://x'', xr_Headers = [''X-API-Key'' \<mapsto> ''gp_live_1''], xr_Body = [],
        xr_APIKey = ''gp_test_1''\<rparr>;
       (ans, sent, s') = ExecuteRequest id (\<lambda>_ _. None) (\<lambda>_. Inr (200, Map.empty, Some ''ok'', 3)) [''X-API-Key''] ''i'' 7 ''u'' (Some req) []
   in (\<exists>out. sent = Some out \<and> px_Headers out ''X-API-Key'' = Some [''gp_test_1'']) \<and> length s' = 1"
proof -
  let ?req = "\<lparr>xr_Method = ''GET'', xr_URL = ''http://x'', xr_Headers = [''X-API-Key'' \<mapsto> ''gp_live_1''], xr_Body = [],
        xr_APIKey = ''gp_test_1''\<rparr>"
  let ?x = "ExecuteRequest id (\<lambda>_ _. None) (\<lambda>_. Inr (200, Map.empty, Some ''ok'', 3)) [''X-API-Key''] ''i'' 7 ''u'' (Some ?req) []"
  obtain ans sent s' where x: "?x = (ans, sent, s')" by (metis prod.exhaust)
  have "status_of (fst ?x) = 200" "fst (snd ?x) \<noteq> None" by (simp_all add: ExecuteRequest_def Let_def)
  with x sandbox_test_keys [OF x] show ?thesis by (auto simp: Let_def)
qed

end
