(* ===== verification/Svc_Middleware.thy ===== *)
theory Svc_Middleware
  imports Bff_Http Lib_Access
begin

text \<open>
  The middleware that every service and simulator wraps around its routes (\<open>packages/golib/httpx\<close>, mounted
  by each \<open>main.go\<close>): security headers, request ids, the access log, metrics, panic recovery, limits on bodies
  and time, compression, CORS, the readiness probe and the version endpoint.
  A \<open>http.ResponseWriter\<close> is a value of the types that implement it, \<open>net/http\<close>'s connection and the two
  wrappers of the package; a handler works on one and on the state of the service, and may end in a panic.
  gzip, \<open>json.Marshal\<close>, the runtime's figures and the quoting of \<open>%q\<close> are parameters.
\<close>

section \<open>Requests and response writers\<close>

text \<open>
  The request with what middleware adds to its context (request id, deadline) and to its body (the limit of
  \<open>http.MaxBytesReader\<close>).
\<close>

type_synonym header = "string \<rightharpoonup> string list"

record svc_request = request +
  sr_RequestID :: "string option"
  sr_Deadline :: "time option"
  sr_MaxBody :: "int option"

definition header_Add :: "string \<Rightarrow> string \<Rightarrow> header \<Rightarrow> header" where
  "header_Add k v h = h(CanonicalHeaderKey k \<mapsto>
     (case h (CanonicalHeaderKey k) of None \<Rightarrow> [v] | Some vs \<Rightarrow> vs @ [v]))"

text \<open>
  The writers: the connection holds the header map, what was sent (the first status and a snapshot of the
  headers at that moment) and the bytes of the body; the recorder its status and its count of bytes; the gzip
  writer its buffer, the bytes given to \<open>gzip.Writer\<close>, and \<open>hijacked\<close>, \<open>statusSet\<close>, \<open>wroteGzip\<close>.
\<close>

datatype writer =
    Conn header "(int \<times> header) option" string
  | StatusRecorder writer int int
  | GzipResponseWriter writer string string bool bool bool

fun w_Header :: "writer \<Rightarrow> header" where
  "w_Header (Conn h sent body) = h"
| "w_Header (StatusRecorder w st n) = w_Header w"
| "w_Header (GzipResponseWriter w buf gz hj ss wg) = w_Header w"

text \<open>\<open>Header()\<close> returns the map itself: an assignment to its entries changes the connection's map.\<close>

fun w_SetHeader :: "header \<Rightarrow> writer \<Rightarrow> writer" where
  "w_SetHeader h' (Conn h sent body) = Conn h' sent body"
| "w_SetHeader h' (StatusRecorder w st n) = StatusRecorder (w_SetHeader h' w) st n"
| "w_SetHeader h' (GzipResponseWriter w buf gz hj ss wg) = GzipResponseWriter (w_SetHeader h' w) buf gz hj ss wg"

text \<open>\<open>net/http\<close> keeps the first (final) status and the headers of that moment; later calls are ignored.\<close>

fun w_WriteHeader :: "int \<Rightarrow> writer \<Rightarrow> writer" where
  "w_WriteHeader code (Conn h sent body) = Conn h (case sent of None \<Rightarrow> Some (code, h) | Some x \<Rightarrow> Some x) body"
| "w_WriteHeader code (StatusRecorder w st n) = StatusRecorder (w_WriteHeader code w) code n"
| "w_WriteHeader code (GzipResponseWriter w buf gz hj ss wg) = GzipResponseWriter (w_WriteHeader code w) buf gz hj True wg"

definition MinCompressBytes :: nat where
  "MinCompressBytes = 1024"

text \<open>\<open>strings.ToLower\<close> on the ASCII of a content type.\<close>

definition precompressed_types :: "string list" where
  "precompressed_types = [''image/jpeg'', ''image/png'', ''image/webp'', ''image/gif'', ''image/avif'', ''video/'', ''audio/'',
     ''application/zip'', ''application/gzip'', ''application/x-gzip'', ''application/x-bzip2'', ''application/x-xz'',
     ''application/x-7z'', ''application/pdf'']"

definition isPrecompressed :: "string \<Rightarrow> bool" where
  "isPrecompressed ct \<longleftrightarrow> (\<exists>p\<in>set precompressed_types. prefix p (map lower ct))"

definition gzip_headers :: "header \<Rightarrow> header" where
  "gzip_headers h = header_Del ''Content-Length'' (header_Add ''Vary'' ''Accept-Encoding'' (header_Set ''Content-Encoding'' ''gzip'' h))"

text \<open>
  \<open>Write\<close>, with the count it returns.
  \<open>gzip.Writer\<close> writes its fixed header \<open>gh\<close> at its first \<open>Write\<close>; the rest of the stream, a function of all
  the bytes it was given, follows (here: when it is closed).
\<close>

primrec depth :: "writer \<Rightarrow> nat" where
  "depth (Conn h sent body) = 0"
| "depth (StatusRecorder w st n) = Suc (depth w)"
| "depth (GzipResponseWriter w buf gz hj ss wg) = Suc (depth w)"

lemma depth_SetHeader [simp]: "depth (w_SetHeader h w) = depth w"
  by (induction h w rule: w_SetHeader.induct) simp_all

function w_Write :: "string \<Rightarrow> string \<Rightarrow> writer \<Rightarrow> int \<times> writer" where
  "w_Write gh b (Conn h sent body) =
     (int (length b), Conn h (case sent of None \<Rightarrow> Some (200, h) | Some x \<Rightarrow> Some x) (body @ b))"
| "w_Write gh b (StatusRecorder w st n) =
     (let (k, w') = w_Write gh b w in (k, StatusRecorder w' (if st = 0 then 200 else st) (n + k)))"
| "w_Write gh b (GzipResponseWriter w buf gz hj ss wg) =
     (if hj then (let (k, w') = w_Write gh b w in (k, GzipResponseWriter w' buf gz hj ss wg))
      else if wg then (int (length b), GzipResponseWriter w buf (gz @ b) hj ss wg)
      else if MinCompressBytes \<le> length (buf @ b) then
        (if header_Get (w_Header w) ''Content-Encoding'' = [] \<and> \<not> isPrecompressed (header_Get (w_Header w) ''Content-Type'')
         then (let (k, w') = w_Write gh gh (w_SetHeader (gzip_headers (w_Header w)) w)
               in (int (length (buf @ b)), GzipResponseWriter w' [] (buf @ b) hj ss True))
         else (let (k, w') = w_Write gh (buf @ b) w in (int (length b), GzipResponseWriter w' [] gz True ss wg)))
      else (int (length b), GzipResponseWriter w (buf @ b) gz hj ss wg))"
  by pat_completeness auto
termination
  by (relation "measure (\<lambda>(gh, b, w). depth w)") auto

text \<open>\<open>flush\<close>; closing the gzip writer emits the rest of the stream, \<open>gt\<close> of its input.\<close>

fun gzip_flush :: "string \<Rightarrow> (string \<Rightarrow> string) \<Rightarrow> writer \<Rightarrow> writer" where
  "gzip_flush gh gt (GzipResponseWriter w buf gz hj ss wg) =
     (if wg then GzipResponseWriter (snd (w_Write gh (gt gz) w)) buf gz hj ss wg
      else if buf \<noteq> [] then GzipResponseWriter (snd (w_Write gh buf w)) [] gz hj ss wg
      else GzipResponseWriter w buf gz hj ss wg)"
| "gzip_flush gh gt w = w"

text \<open>The writer behind a wrapper.\<close>

fun inner :: "writer \<Rightarrow> writer" where
  "inner (StatusRecorder w st n) = w"
| "inner (GzipResponseWriter w buf gz hj ss wg) = w"
| "inner (Conn h sent body) = Conn h sent body"

fun recorded :: "writer \<Rightarrow> int \<times> int" where
  "recorded (StatusRecorder w st n) = (st, n)"
| "recorded w = (0, 0)"

section \<open>Handlers\<close>

text \<open>
  A route's handler is given by the calls it makes on its writer (their results are not used), whether it
  panics after them, and its effect on the service's own state.
\<close>

datatype wop = SetH string string | Status int | Body string

definition do_op :: "string \<Rightarrow> wop \<Rightarrow> writer \<Rightarrow> writer" where
  "do_op gh op w = (case op of
     SetH k v \<Rightarrow> w_SetHeader (header_Set k v (w_Header w)) w
   | Status code \<Rightarrow> w_WriteHeader code w
   | Body b \<Rightarrow> snd (w_Write gh b w))"

definition run_ops :: "string \<Rightarrow> wop list \<Rightarrow> writer \<Rightarrow> writer" where
  "run_ops gh ops w = fold (do_op gh) ops w"

record log_entry =
  lg_level :: string
  lg_request_id :: string
  lg_method :: string
  lg_path :: string
  lg_status :: int
  lg_bytes :: int
  lg_duration :: int
  lg_remote :: string
  lg_user_agent :: string

text \<open>\<open>Metrics\<close>: requests by status class, panics, the cumulative histogram, the sum in microseconds.\<close>

record Metrics =
  mt_requests :: "nat list"
  mt_panics :: nat
  mt_histBuckets :: "nat list"
  mt_histSum :: nat
  mt_histCount :: nat

record 'a service =
  sc_log :: "log_entry list"
  sc_metrics :: Metrics
  sc_app :: 'a

type_synonym 'a svc_handler = "svc_request \<Rightarrow> writer \<Rightarrow> 'a service \<Rightarrow> bool \<times> writer \<times> 'a service"

definition serve :: "string \<Rightarrow> (svc_request \<Rightarrow> 'a \<Rightarrow> wop list \<times> bool \<times> 'a) \<Rightarrow> 'a svc_handler" where
  "serve gh prog r w s = (let (ops, panics, a) = prog r (sc_app s) in (panics, run_ops gh ops w, s\<lparr>sc_app := a\<rparr>))"

definition NewMetrics :: Metrics where
  "NewMetrics = \<lparr>mt_requests = replicate 6 0, mt_panics = 0, mt_histBuckets = replicate 11 0, mt_histSum = 0, mt_histCount = 0\<rparr>"

text \<open>Integer division of Go truncates; \<open>idx\<close> outside the array is 0.\<close>

definition RecordRequest :: "int \<Rightarrow> Metrics \<Rightarrow> Metrics" where
  "RecordRequest status m =
     (let q = (if status < 0 then - ((- status) div 100) else status div 100);
          idx = (if q < 0 \<or> q \<ge> int (length (mt_requests m)) then 0 else nat q)
      in m\<lparr>mt_requests := (mt_requests m)[idx := mt_requests m ! idx + 1]\<rparr>)"

definition RecordPanic :: "Metrics \<Rightarrow> Metrics" where
  "RecordPanic m = m\<lparr>mt_panics := mt_panics m + 1\<rparr>"

text \<open>
  The bounds of the buckets in nanoseconds: a duration of whole nanoseconds is at most a bound in seconds
  exactly when it is in nanoseconds.
  \<open>micros\<close> is \<open>uint64(seconds*1_000_000)\<close> on the \<open>float64\<close>.
\<close>

definition durationBuckets :: "int list" where
  "durationBuckets = [5000000, 10000000, 25000000, 50000000, 100000000, 250000000, 500000000, 1000000000,
     2500000000, 5000000000, 10000000000]"

definition RecordDuration :: "(int \<Rightarrow> nat) \<Rightarrow> int \<Rightarrow> Metrics \<Rightarrow> Metrics" where
  "RecordDuration micros d m = m\<lparr>
     mt_histBuckets := map2 (\<lambda>ub c. if d \<le> ub then c + 1 else c) durationBuckets (mt_histBuckets m),
     mt_histSum := mt_histSum m + micros d,
     mt_histCount := mt_histCount m + 1\<rparr>"

section \<open>The middleware\<close>

definition recovery_ops :: "wop list" where
  "recovery_ops = [SetH ''Content-Type'' ''application/json'', Status 500,
     Body ''{\"error\":\"internal_error\",\"message\":\"an internal error occurred\"}'']"

definition Recover :: "string \<Rightarrow> 'a svc_handler \<Rightarrow> 'a svc_handler" where
  "Recover gh h r w s =
     (let (panics, w', s') = h r w s in
      if panics
      then (False, run_ops gh recovery_ops w', s')
      else (False, w', s'))"

definition RequestIDFromContext :: "svc_request \<Rightarrow> string" where
  "RequestIDFromContext r = (case sr_RequestID r of Some v \<Rightarrow> v | None \<Rightarrow> [])"

definition newRequestID :: "string option \<Rightarrow> string" where
  "newRequestID rnd = (case rnd of None \<Rightarrow> ''no-rand'' | Some b \<Rightarrow> hex_encode b)"

definition request_id :: "string option \<Rightarrow> svc_request \<Rightarrow> string" where
  "request_id rnd r =
     (let hid = header_Get (rq_Headers r) ''X-Request-Id'' in
      if hid = [] \<or> length hid > 128 then newRequestID rnd else hid)"

definition RequestID :: "string option \<Rightarrow> 'a svc_handler \<Rightarrow> 'a svc_handler" where
  "RequestID rnd h r w s =
     h (r\<lparr>sr_RequestID := Some (request_id rnd r)\<rparr>)
       (w_SetHeader (header_Set ''X-Request-Id'' (request_id rnd r) (w_Header w)) w) s"

definition log_level :: "int \<Rightarrow> string" where
  "log_level st = (if st \<ge> 500 then ''ERROR'' else if st \<ge> 400 then ''WARN'' else ''INFO'')"

definition AccessLog :: "int \<Rightarrow> 'a svc_handler \<Rightarrow> 'a svc_handler" where
  "AccessLog dur h r w s =
     (if rq_Path r = ''/health'' \<or> rq_Path r = ''/readyz'' \<or> rq_Path r = ''/metrics'' \<or> rq_Path r = ''/version''
      then h r w s
      else let (panics, w', s') = h r (StatusRecorder w 0 0) s; (st, n) = recorded w' in
        if panics then (True, inner w', s')
        else (False, inner w', s'\<lparr>sc_log := sc_log s' @
          [\<lparr>lg_level = log_level st, lg_request_id = RequestIDFromContext r, lg_method = rq_Method r, lg_path = rq_Path r,
            lg_status = st, lg_bytes = n, lg_duration = dur, lg_remote = rq_RemoteAddr r,
            lg_user_agent = rq_UserAgent r\<rparr>]\<rparr>))"

definition Instrument :: "(int \<Rightarrow> nat) \<Rightarrow> int \<Rightarrow> 'a svc_handler \<Rightarrow> 'a svc_handler" where
  "Instrument micros dur h r w s =
     (if rq_Path r = ''/metrics'' then h r w s
      else let (panics, w', s') = h r (StatusRecorder w 0 0) s; (st, n) = recorded w' in
        if panics then (True, inner w', s')
        else (False, inner w', s'\<lparr>sc_metrics :=
          RecordDuration micros dur (RecordRequest (if st = 0 then 200 else st) (sc_metrics s'))\<rparr>))"

definition DefaultMaxBodyBytes :: int where
  "DefaultMaxBodyBytes = 2 ^ 20"

definition MaxBodyBytes :: "'a svc_handler \<Rightarrow> int \<Rightarrow> 'a svc_handler" where
  "MaxBodyBytes h limit r w s =
     (let limit' = (if limit \<le> 0 then DefaultMaxBodyBytes else limit) in
      h (r\<lparr>sr_MaxBody := Some (case sr_MaxBody r of None \<Rightarrow> limit' | Some l \<Rightarrow> min l limit')\<rparr>) w s)"

definition DefaultRequestTimeout :: int where
  "DefaultRequestTimeout = 30 * second"

definition Timeout :: "time \<Rightarrow> 'a svc_handler \<Rightarrow> int \<Rightarrow> 'a svc_handler" where
  "Timeout now h d r w s =
     (let due = now + (if d \<le> 0 then DefaultRequestTimeout else d) in
      h (r\<lparr>sr_Deadline := Some (case sr_Deadline r of None \<Rightarrow> due | Some t \<Rightarrow> min t due)\<rparr>) w s)"

definition Compress :: "string \<Rightarrow> (string \<Rightarrow> string) \<Rightarrow> 'a svc_handler \<Rightarrow> 'a svc_handler" where
  "Compress gh gt h r w s =
     (if \<not> sublist ''gzip'' (header_Get (rq_Headers r) ''Accept-Encoding'') then h r w s
      else let (panics, w', s') = h r (GzipResponseWriter w [] [] False False False) s
           in (panics, inner (gzip_flush gh gt w'), s'))"

text \<open>
  \<open>itoa\<close>: the digits are written from the end of a buffer; the loop ends because \<open>n\<close> shrinks.
  Negating the least \<open>int\<close> gives it back, and then no digit is written.
\<close>

function itoa_loop :: "int \<Rightarrow> string \<Rightarrow> string" where
  "itoa_loop n buf = (if n > 0 then itoa_loop (n div 10) (digit_char (nat (n mod 10)) # buf) else buf)"
  by pat_completeness auto
termination
  by (relation "measure (\<lambda>(n, buf). nat n)") auto

declare itoa_loop.simps [simp del]

definition itoa :: "int \<Rightarrow> string" where
  "itoa n = (if n = 0 then ''0''
     else let neg = n < 0; n' = (if neg then i64 (- n) else n); buf = itoa_loop n' []
       in if neg then CHR ''-'' # buf else buf)"

record CORSOptions =
  co_AllowedOrigins :: "string list"
  co_AllowedMethods :: "string list"
  co_AllowedHeaders :: "string list"
  co_AllowCredentials :: bool
  co_MaxAgeSeconds :: int

definition defaultStr :: "string list \<Rightarrow> string list \<Rightarrow> string list" where
  "defaultStr v d = (if v = [] then d else v)"

definition cors_ok :: "CORSOptions \<Rightarrow> string \<Rightarrow> bool" where
  "cors_ok opts origin \<longleftrightarrow> origin \<noteq> [] \<and> (''*'' \<in> set (co_AllowedOrigins opts) \<or> origin \<in> set (co_AllowedOrigins opts))"

definition cors_allow :: "CORSOptions \<Rightarrow> string \<Rightarrow> header \<Rightarrow> header" where
  "cors_allow opts origin h =
     (let wildcard = ''*'' \<in> set (co_AllowedOrigins opts); credentials = co_AllowCredentials opts \<and> \<not> wildcard in
      if \<not> cors_ok opts origin then h
      else let h1 = (if wildcard \<and> \<not> credentials then header_Set ''Access-Control-Allow-Origin'' ''*'' h
                     else header_Set ''Vary'' ''Origin'' (header_Set ''Access-Control-Allow-Origin'' origin h))
           in if credentials then header_Set ''Access-Control-Allow-Credentials'' ''true'' h1 else h1)"

definition cors_preflight :: "CORSOptions \<Rightarrow> header \<Rightarrow> header" where
  "cors_preflight opts h =
     (let methods = join '', '' (defaultStr (co_AllowedMethods opts)
            [''GET'', ''POST'', ''PUT'', ''PATCH'', ''DELETE'', ''OPTIONS'']);
          headers = join '', '' (defaultStr (co_AllowedHeaders opts) [''Content-Type'', ''Authorization'', ''X-Request-Id'']);
          maxAge = (if co_MaxAgeSeconds opts \<le> 0 then 600 else co_MaxAgeSeconds opts)
      in header_Set ''Access-Control-Max-Age'' (itoa maxAge)
           (header_Set ''Access-Control-Allow-Headers'' headers (header_Set ''Access-Control-Allow-Methods'' methods h)))"

definition CORS :: "'a svc_handler \<Rightarrow> CORSOptions \<Rightarrow> 'a svc_handler" where
  "CORS h opts r w s =
     (let origin = header_Get (rq_Headers r) ''Origin''; h2 = cors_allow opts origin (w_Header w) in
      if rq_Method r = ''OPTIONS'' \<and> header_Get (rq_Headers r) ''Access-Control-Request-Method'' \<noteq> []
      then (False, w_WriteHeader 204 (w_SetHeader (if cors_ok opts origin then cors_preflight opts h2 else h2) w), s)
      else h r (w_SetHeader h2 w) s)"

record SecurityHeaderOptions =
  so_HSTS :: bool
  so_HSTSMaxAge :: int
  so_HSTSIncludeSubdomains :: bool
  so_HSTSPreload :: bool
  so_ContentSecurityPolicy :: string
  so_FrameOptions :: string

definition hsts_value :: "SecurityHeaderOptions \<Rightarrow> string" where
  "hsts_value opts = (if \<not> so_HSTS opts then [] else
     ''max-age='' @ itoa (if so_HSTSMaxAge opts \<le> 0 then 31536000 else so_HSTSMaxAge opts) @
     (if so_HSTSIncludeSubdomains opts then ''; includeSubDomains'' @ (if so_HSTSPreload opts then ''; preload'' else []) else []))"

definition quoted_none :: string where
  "quoted_none = CHR 0x27 # ''none'' @ [CHR 0x27]"

definition security_headers :: "SecurityHeaderOptions \<Rightarrow> (string \<times> string) list" where
  "security_headers opts =
     (let csp = (if so_ContentSecurityPolicy opts = [] then ''default-src '' @ quoted_none @ ''; frame-ancestors '' @ quoted_none else so_ContentSecurityPolicy opts);
          frame = (if so_FrameOptions opts = [] then ''DENY'' else so_FrameOptions opts) in
      [(''X-Content-Type-Options'', ''nosniff'')] @
      (if frame \<noteq> [] then [(''X-Frame-Options'', frame)] else []) @
      [(''Referrer-Policy'', ''no-referrer''), (''X-XSS-Protection'', ''0''),
       (''Permissions-Policy'', ''accelerometer=(), camera=(), geolocation=(), gyroscope=(), magnetometer=(), microphone=(), payment=(), usb=()''),
       (''Cross-Origin-Resource-Policy'', ''same-origin''), (''Content-Security-Policy'', csp)] @
      (if hsts_value opts \<noteq> [] then [(''Strict-Transport-Security'', hsts_value opts)] else []))"

definition SecurityHeaders :: "'a svc_handler \<Rightarrow> SecurityHeaderOptions \<Rightarrow> 'a svc_handler" where
  "SecurityHeaders h opts r w s =
     h r (w_SetHeader (fold (\<lambda>(k, v). header_Set k v) (security_headers opts) (w_Header w)) w) s"

section \<open>The probes\<close>

text \<open>
  \<open>Readiness\<close>: the database, if there is one, gives the result of its ping (an error text) and its pool
  figures; \<open>quote\<close> is the \<open>%q\<close> of \<open>fmt\<close>.
\<close>

record pool_stats =
  ps_OpenConnections :: int
  ps_InUse :: int
  ps_Idle :: int
  ps_WaitCount :: int

record Readiness =
  rd_service :: string
  rd_db :: "(string option \<times> pool_stats) option"
  rd_draining :: bool

definition NewReadiness :: "string \<Rightarrow> (string option \<times> pool_stats) option \<Rightarrow> Readiness" where
  "NewReadiness service db = \<lparr>rd_service = service, rd_db = db, rd_draining = False\<rparr>"

definition Drain :: "Readiness \<Rightarrow> Readiness" where
  "Drain r = r\<lparr>rd_draining := True\<rparr>"

definition readiness_ops :: "(string \<Rightarrow> string) \<Rightarrow> Readiness \<Rightarrow> wop list" where
  "readiness_ops quote rd = SetH ''Content-Type'' ''application/json'' #
     (if rd_draining rd
      then [Status 503, Body (''{\"status\":\"draining\",\"service\":'' @ quote (rd_service rd) @ ''}'')]
      else case rd_db rd of
        None \<Rightarrow> [Status 200, Body (''{\"status\":\"ok\",\"service\":'' @ quote (rd_service rd) @ '',\"db\":\"in-memory\"}'')]
      | Some (Some err, st) \<Rightarrow> [Status 503, Body (''{\"status\":\"unavailable\",\"service\":'' @ quote (rd_service rd) @
            '',\"db\":\"ping_failed\",\"error\":'' @ quote err @ ''}'')]
      | Some (None, st) \<Rightarrow> [Status 200, Body (''{\"status\":\"ok\",\"service\":'' @ quote (rd_service rd) @
            '',\"db\":\"postgres\",\"open\":'' @ show_int (ps_OpenConnections st) @ '',\"in_use\":'' @ show_int (ps_InUse st) @
            '',\"idle\":'' @ show_int (ps_Idle st) @ ''}'')])"

record VersionInfo =
  vi_Service :: string
  vi_Version :: string
  vi_Commit :: string
  vi_BuildTime :: string
  vi_GoVersion :: string
  vi_Module :: string

text \<open>\<open>debug.ReadBuildInfo\<close>: the main module's path and version and the settings, or nothing.\<close>

definition fill_setting :: "string \<times> string \<Rightarrow> VersionInfo \<Rightarrow> VersionInfo" where
  "fill_setting kv info =
     (if fst kv = ''vcs.revision'' then (if vi_Commit info = [] then info\<lparr>vi_Commit := snd kv\<rparr> else info)
      else if fst kv = ''vcs.time'' then (if vi_BuildTime info = [] then info\<lparr>vi_BuildTime := snd kv\<rparr> else info)
      else info)"

definition version_info :: "string \<Rightarrow> (string \<times> string \<times> (string \<times> string) list) option \<Rightarrow> VersionInfo \<Rightarrow> VersionInfo" where
  "version_info goversion bi info0 =
     (let info = (if vi_GoVersion info0 = [] then info0\<lparr>vi_GoVersion := goversion\<rparr> else info0) in
      case bi of None \<Rightarrow> info
      | Some (path, ver, settings) \<Rightarrow>
          (let info1 = (if vi_Module info = [] then info\<lparr>vi_Module := path\<rparr> else info);
               info2 = (if vi_Version info1 = [] \<and> ver \<noteq> [] \<and> ver \<noteq> ''(devel)'' then info1\<lparr>vi_Version := ver\<rparr> else info1)
           in fold fill_setting settings info2))"

definition version_ops :: "(VersionInfo \<Rightarrow> string) \<Rightarrow> string \<Rightarrow> (string \<times> string \<times> (string \<times> string) list) option \<Rightarrow>
    VersionInfo \<Rightarrow> wop list" where
  "version_ops marshal goversion bi info =
     [SetH ''Content-Type'' ''application/json'', Status 200, Body (marshal (version_info goversion bi info))]"

text \<open>The text of the metrics endpoint, one element per \<open>Fprintf\<close>; the runtime's gauges are parameters.\<close>

definition help_type :: "string \<Rightarrow> string \<Rightarrow> string \<Rightarrow> wop list" where
  "help_type name help kind = [Body (''# HELP '' @ name @ '' '' @ help @ [CHR 0x0A]), Body (''# TYPE '' @ name @ '' '' @ kind @ [CHR 0x0A])]"

definition sample :: "(string \<Rightarrow> string) \<Rightarrow> string \<Rightarrow> string \<Rightarrow> string \<Rightarrow> string \<Rightarrow> wop" where
  "sample quote name service labels v = Body (name @ ''{service='' @ quote service @ labels @ ''} '' @ v @ [CHR 0x0A])"

definition bucket_names :: "string list" where
  "bucket_names = [''0.005'', ''0.01'', ''0.025'', ''0.05'', ''0.1'', ''0.25'', ''0.5'', ''1'', ''2.5'', ''5'', ''10'']"

definition metrics_ops :: "(string \<Rightarrow> string) \<Rightarrow> (nat \<Rightarrow> string) \<Rightarrow> nat \<Rightarrow> nat \<Rightarrow> pool_stats option \<Rightarrow> string \<Rightarrow> Metrics \<Rightarrow> wop list" where
  "metrics_ops quote seconds goroutines alloc db svc m =
     [SetH ''Content-Type'' ''text/plain; version=0.0.4; charset=utf-8''] @
     help_type ''http_requests_total'' ''Total HTTP requests by status class'' ''counter'' @
     map (\<lambda>c. sample quote ''http_requests_total'' svc ('',class=\"'' @ digits c @ ''xx\"'') (digits (mt_requests m ! c))) [1..<length (mt_requests m)] @
     help_type ''http_request_duration_seconds'' ''Request duration histogram'' ''histogram'' @
     map2 (\<lambda>ub c. sample quote ''http_request_duration_seconds_bucket'' svc ('',le=\"'' @ ub @ ''\"'') (digits c)) bucket_names (mt_histBuckets m) @
     [sample quote ''http_request_duration_seconds_bucket'' svc '',le=\"+Inf\"'' (digits (mt_histCount m)),
      sample quote ''http_request_duration_seconds_sum'' svc [] (seconds (mt_histSum m)),
      sample quote ''http_request_duration_seconds_count'' svc [] (digits (mt_histCount m))] @
     help_type ''http_panics_total'' ''Total panics recovered in HTTP handlers'' ''counter'' @
     [sample quote ''http_panics_total'' svc [] (digits (mt_panics m))] @
     help_type ''go_goroutines'' ''Current goroutine count'' ''gauge'' @ [sample quote ''go_goroutines'' svc [] (digits goroutines)] @
     help_type ''go_memstats_alloc_bytes'' ''Heap bytes allocated'' ''gauge'' @ [sample quote ''go_memstats_alloc_bytes'' svc [] (digits alloc)] @
     (case db of None \<Rightarrow> [] | Some st \<Rightarrow>
       help_type ''db_pool_open_connections'' ''Currently open DB connections'' ''gauge'' @
       [sample quote ''db_pool_open_connections'' svc [] (show_int (ps_OpenConnections st))] @
       help_type ''db_pool_in_use'' ''Currently in-use DB connections'' ''gauge'' @
       [sample quote ''db_pool_in_use'' svc [] (show_int (ps_InUse st))] @
       help_type ''db_pool_idle'' ''Currently idle DB connections'' ''gauge'' @
       [sample quote ''db_pool_idle'' svc [] (show_int (ps_Idle st))] @
       help_type ''db_pool_wait_count'' ''Total connections waited for'' ''counter'' @
       [sample quote ''db_pool_wait_count'' svc [] (show_int (ps_WaitCount st))])"

section \<open>The chain of a service\<close>

text \<open>
  What one request draws: random bytes for its id, the clock, and the durations the log and the histogram
  measure.
\<close>

record request_env =
  en_rand :: "string option"
  en_now :: time
  en_logDuration :: int
  en_metricDuration :: int

definition default_security :: SecurityHeaderOptions where
  "default_security = \<lparr>so_HSTS = False, so_HSTSMaxAge = 0, so_HSTSIncludeSubdomains = False, so_HSTSPreload = False,
     so_ContentSecurityPolicy = [], so_FrameOptions = []\<rparr>"

definition service_chain :: "string \<Rightarrow> (string \<Rightarrow> string) \<Rightarrow> (int \<Rightarrow> nat) \<Rightarrow> request_env \<Rightarrow> int \<Rightarrow> 'a svc_handler \<Rightarrow> 'a svc_handler" where
  "service_chain gh gt micros en limit mux =
     Compress gh gt (SecurityHeaders (RequestID (en_rand en) (AccessLog (en_logDuration en)
       (Instrument micros (en_metricDuration en) (Recover gh (MaxBodyBytes (Timeout (en_now en) mux DefaultRequestTimeout) limit)))))
       default_security)"

text \<open>\<open>net/http\<close> serves a request on a new connection state and sends 200 when nothing was written.\<close>

definition serve_request :: "string \<Rightarrow> (string \<Rightarrow> string) \<Rightarrow> (int \<Rightarrow> nat) \<Rightarrow> request_env \<Rightarrow> int \<Rightarrow> 'a svc_handler \<Rightarrow>
    svc_request \<Rightarrow> 'a service \<Rightarrow> bool \<times> writer \<times> 'a service" where
  "serve_request gh gt micros en limit mux r s =
     (let (panics, w, s') = service_chain gh gt micros en limit mux r (Conn Map.empty None []) s
      in (panics, w_WriteHeader 200 w, s'))"

section \<open>Lemmas\<close>

text \<open>\<open>itoa\<close> is the decimal notation, except for the least integer.\<close>

lemma itoa_loop_digits: "0 < n \<Longrightarrow> itoa_loop n buf = digits (nat n) @ buf"
proof (induction n buf rule: itoa_loop.induct)
  case (1 n buf)
  show ?case
  proof (cases "n div 10 > 0")
    case True
    then have "\<not> nat n < 10" by auto
    then have "digits (nat n) = digits (nat (n div 10)) @ [digit_char (nat (n mod 10))]"
      using 1(2) by (simp add: digits_def to_base.simps [of _ "nat n"] nat_div_distrib nat_mod_distrib)
    with 1 True show ?thesis by (simp add: itoa_loop.simps [of n])
  next
    case False
    with 1(2) have "n < 10" by auto
    with 1(2) show ?thesis
      by (simp add: itoa_loop.simps [of n] itoa_loop.simps [of 0] digits_def to_base.simps [of _ "nat n"])
  qed
qed

lemma digit_char_0: "digit_char 0 = CHR ''0''"
  by (simp add: digit_char_def char_of_eq_iff take_bit_eq_mod)

lemma itoa_show_int: "- (2 ^ 63) < n \<Longrightarrow> n < 2 ^ 63 \<Longrightarrow> itoa n = show_int n"
  by (auto simp: itoa_def show_int_def i64_id itoa_loop_digits digits_def to_base.simps [of _ 0] digit_char_0 Let_def)

lemma itoa_least: "itoa (- (2 ^ 63)) = ''-''"
  by (simp add: itoa_def i64_def itoa_loop.simps)

text \<open>The header map of a writer.\<close>

lemma w_Header_SetHeader [simp]: "w_Header (w_SetHeader h w) = h"
  by (induction w) simp_all

lemma w_SetHeader_twice [simp]: "w_SetHeader h (w_SetHeader h' w) = w_SetHeader h w"
  by (induction w) simp_all

lemma w_SetHeader_self [simp]: "w_SetHeader (w_Header w) w = w"
  by (induction w) simp_all

lemma w_Header_WriteHeader [simp]: "w_Header (w_WriteHeader c w) = w_Header w"
  by (induction w) simp_all

lemma run_ops_simps [simp]:
  "run_ops gh [] w = w"
  "run_ops gh (op # ops) w = run_ops gh ops (do_op gh op w)"
  "run_ops gh (ops @ ops') w = run_ops gh ops' (run_ops gh ops w)"
  by (simp_all add: run_ops_def)

lemma run_SetH: "run_ops gh (map (\<lambda>(k, v). SetH k v) kvs) w = w_SetHeader (fold (\<lambda>(k, v). header_Set k v) kvs (w_Header w)) w"
  by (induction kvs arbitrary: w) (auto simp: do_op_def)

text \<open>What a recorder sees of the calls it passes on.\<close>

fun rec_status :: "wop list \<Rightarrow> int \<Rightarrow> int" where
  "rec_status [] st = st"
| "rec_status (SetH k v # ops) st = rec_status ops st"
| "rec_status (Status c # ops) st = rec_status ops c"
| "rec_status (Body b # ops) st = rec_status ops (if st = 0 then 200 else st)"

lemma run_recorder:
  "\<exists>n'. run_ops gh ops (StatusRecorder w st n) = StatusRecorder (run_ops gh ops w) (rec_status ops st) n'"
proof (induction ops arbitrary: w st n)
  case (Cons op ops)
  show ?case
  proof (cases op)
    case (Body b)
    then show ?thesis using Cons.IH by (cases "w_Write gh b w") (simp add: do_op_def)
  qed (use Cons.IH in \<open>simp_all add: do_op_def\<close>)
qed simp

lemma inner_run_recorder [simp]: "inner (run_ops gh ops (StatusRecorder w st n)) = run_ops gh ops w"
  using run_recorder [of gh ops w st n] by auto

lemma fst_recorded [simp]: "fst (recorded (run_ops gh ops (StatusRecorder w st n))) = rec_status ops st"
  using run_recorder [of gh ops w st n] by auto

text \<open>The chain is the compression of the handler's calls between those of the middleware.\<close>

definition chain_ops :: "request_env \<Rightarrow> svc_request \<Rightarrow> wop list \<Rightarrow> bool \<Rightarrow> wop list" where
  "chain_ops en r ops panics = map (\<lambda>(k, v). SetH k v) (security_headers default_security) @
     SetH ''X-Request-Id'' (request_id (en_rand en) r) # ops @ (if panics then recovery_ops else [])"

definition context_of :: "request_env \<Rightarrow> int \<Rightarrow> svc_request \<Rightarrow> svc_request" where
  "context_of en limit r = r\<lparr>sr_RequestID := Some (request_id (en_rand en) r),
     sr_MaxBody := Some (let limit' = (if limit \<le> 0 then DefaultMaxBodyBytes else limit) in
       case sr_MaxBody r of None \<Rightarrow> limit' | Some l \<Rightarrow> min l limit'),
     sr_Deadline := Some (case sr_Deadline r of None \<Rightarrow> en_now en + DefaultRequestTimeout
       | Some t \<Rightarrow> min t (en_now en + DefaultRequestTimeout))\<rparr>"

lemma DefaultRequestTimeout_pos [simp]: "\<not> DefaultRequestTimeout \<le> 0"
  by (simp add: DefaultRequestTimeout_def)


definition compressed :: "string \<Rightarrow> (string \<Rightarrow> string) \<Rightarrow> svc_request \<Rightarrow> wop list \<Rightarrow> writer \<Rightarrow> writer" where
  "compressed gh gt r ops w =
     (if \<not> sublist ''gzip'' (header_Get (rq_Headers r) ''Accept-Encoding'') then run_ops gh ops w
      else inner (gzip_flush gh gt (run_ops gh ops (GzipResponseWriter w [] [] False False False))))"

definition unlogged :: "string \<Rightarrow> bool" where
  "unlogged p \<longleftrightarrow> p = ''/health'' \<or> p = ''/readyz'' \<or> p = ''/metrics'' \<or> p = ''/version''"

lemma chain_inner:
  assumes "prog (context_of en limit r) (sc_app s) = (ops, panics, a)"
  shows "Recover gh (MaxBodyBytes (Timeout (en_now en) (serve gh prog) DefaultRequestTimeout) limit)
       (r\<lparr>sr_RequestID := Some (request_id (en_rand en) r)\<rparr>) w s =
     (False, run_ops gh (ops @ (if panics then recovery_ops else [])) w, s\<lparr>sc_app := a\<rparr>)"
  using assms
  by (simp add: Recover_def serve_def MaxBodyBytes_def Timeout_def context_of_def Let_def)


definition logged :: "request_env \<Rightarrow> svc_request \<Rightarrow> wop list \<Rightarrow> int \<Rightarrow> log_entry list" where
  "logged en r ops n = (if unlogged (rq_Path r) then [] else
     [\<lparr>lg_level = log_level (rec_status ops 0), lg_request_id = request_id (en_rand en) r, lg_method = rq_Method r,
       lg_path = rq_Path r, lg_status = rec_status ops 0, lg_bytes = n, lg_duration = en_logDuration en,
       lg_remote = rq_RemoteAddr r, lg_user_agent = rq_UserAgent r\<rparr>])"

definition measured :: "(int \<Rightarrow> nat) \<Rightarrow> request_env \<Rightarrow> svc_request \<Rightarrow> wop list \<Rightarrow> Metrics \<Rightarrow> Metrics" where
  "measured micros en r ops m = (if rq_Path r = ''/metrics'' then m else
     RecordDuration micros (en_metricDuration en) (RecordRequest (if rec_status ops 0 = 0 then 200 else rec_status ops 0) m))"

lemma instrument_inner:
  assumes "prog (context_of en limit r) (sc_app s) = (ops, panics, a)"
  shows "Instrument micros (en_metricDuration en)
       (Recover gh (MaxBodyBytes (Timeout (en_now en) (serve gh prog) DefaultRequestTimeout) limit))
       (r\<lparr>sr_RequestID := Some (request_id (en_rand en) r)\<rparr>) w s =
     (let ops' = ops @ (if panics then recovery_ops else []) in
      (False, run_ops gh ops' w,
       s\<lparr>sc_app := a, sc_metrics := measured micros en r ops' (sc_metrics s)\<rparr>))"
proof (cases "rq_Path r = ''/metrics''")
  case True
  then show ?thesis using chain_inner [where prog = prog and en = en and limit = limit and r = r and s = s, OF assms, of gh w] by (simp add: Instrument_def measured_def)
next
  case False
  obtain n where n: "run_ops gh (ops @ (if panics then recovery_ops else [])) (StatusRecorder w 0 0) =
      StatusRecorder (run_ops gh (ops @ (if panics then recovery_ops else [])) w)
        (rec_status (ops @ (if panics then recovery_ops else [])) 0) n"
    using run_recorder by blast
  show ?thesis using False chain_inner [where prog = prog and en = en and limit = limit and r = r and s = s, OF assms, of gh "StatusRecorder w 0 0"] unfolding n
    by (simp add: Instrument_def measured_def Let_def)
qed

lemma log_inner:
  assumes "prog (context_of en limit r) (sc_app s) = (ops, panics, a)"
  shows "\<exists>n. AccessLog (en_logDuration en) (Instrument micros (en_metricDuration en)
       (Recover gh (MaxBodyBytes (Timeout (en_now en) (serve gh prog) DefaultRequestTimeout) limit)))
       (r\<lparr>sr_RequestID := Some (request_id (en_rand en) r)\<rparr>) w s =
     (let ops' = ops @ (if panics then recovery_ops else []) in
      (False, run_ops gh ops' w,
       \<lparr>sc_log = sc_log s @ logged en r ops' n, sc_metrics = measured micros en r ops' (sc_metrics s), sc_app = a\<rparr>))"
proof (cases "unlogged (rq_Path r)")
  case True
  then show ?thesis using instrument_inner [where prog = prog and en = en and limit = limit and r = r and s = s, OF assms, of micros gh w]
    by (simp add: AccessLog_def unlogged_def logged_def Let_def)
next
  case False
  obtain n where n: "run_ops gh (ops @ (if panics then recovery_ops else [])) (StatusRecorder w 0 0) =
      StatusRecorder (run_ops gh (ops @ (if panics then recovery_ops else [])) w)
        (rec_status (ops @ (if panics then recovery_ops else [])) 0) n"
    using run_recorder by blast
  show ?thesis using False instrument_inner [where prog = prog and en = en and limit = limit and r = r and s = s, OF assms, of micros gh "StatusRecorder w 0 0"] unfolding Let_def n
    by (intro exI [of _ n]) (simp add: AccessLog_def unlogged_def logged_def RequestIDFromContext_def Let_def)
qed

lemma service_chain_serve:
  assumes "prog (context_of en limit r) (sc_app s) = (ops, panics, a)"
  shows "\<exists>n. service_chain gh gt micros en limit (serve gh prog) r w s =
     (let ops' = ops @ (if panics then recovery_ops else []) in
      (False, compressed gh gt r (chain_ops en r ops panics) w,
       \<lparr>sc_log = sc_log s @ logged en r ops' n, sc_metrics = measured micros en r ops' (sc_metrics s), sc_app = a\<rparr>))"
proof -
  have run: "run_ops gh (chain_ops en r ops panics) w' =
      run_ops gh (ops @ (if panics then recovery_ops else []))
        (w_SetHeader (header_Set ''X-Request-Id'' (request_id (en_rand en) r)
          (fold (\<lambda>(k, v). header_Set k v) (security_headers default_security) (w_Header w'))) w')" for w'
    by (simp add: chain_ops_def run_SetH do_op_def)
  define v where "v = (if sublist ''gzip'' (header_Get (rq_Headers r) ''Accept-Encoding'')
    then GzipResponseWriter w [] [] False False False else w)"
  define v0 where "v0 = w_SetHeader (header_Set ''X-Request-Id'' (request_id (en_rand en) r)
    (fold (\<lambda>(k, v). header_Set k v) (security_headers default_security) (w_Header v))) v"
  obtain n where n: "AccessLog (en_logDuration en) (Instrument micros (en_metricDuration en)
       (Recover gh (MaxBodyBytes (Timeout (en_now en) (serve gh prog) DefaultRequestTimeout) limit)))
       (r\<lparr>sr_RequestID := Some (request_id (en_rand en) r)\<rparr>) v0 s =
     (let ops' = ops @ (if panics then recovery_ops else []) in
      (False, run_ops gh ops' v0,
       \<lparr>sc_log = sc_log s @ logged en r ops' n, sc_metrics = measured micros en r ops' (sc_metrics s), sc_app = a\<rparr>))"
    using log_inner [where prog = prog and en = en and limit = limit and r = r and s = s, OF assms] by blast
  show ?thesis
    using n unfolding v0_def v_def
    by (intro exI [of _ n]) (auto simp: service_chain_def Compress_def SecurityHeaders_def RequestID_def compressed_def run Let_def)
qed

section \<open>What the client reads\<close>

text \<open>
  The bytes of the body a handler writes, the first status it sets before its 1024th byte (\<open>n\<close> bytes are
  written, \<open>e\<close> is the status so far), and what a client makes of an answer: it undoes the encoding that the
  headers it received name.
\<close>

fun text_of :: "wop list \<Rightarrow> string" where
  "text_of [] = []"
| "text_of (Body b # ops) = b @ text_of ops"
| "text_of (op # ops) = text_of ops"

fun early_status :: "nat \<Rightarrow> int option \<Rightarrow> wop list \<Rightarrow> int option" where
  "early_status n e [] = e"
| "early_status n e (SetH k v # ops) = early_status n e ops"
| "early_status n e (Status c # ops) = early_status n (if e = None \<and> n < MinCompressBytes then Some c else e) ops"
| "early_status n e (Body b # ops) = early_status (n + length b) e ops"

definition client_reads :: "(string \<Rightarrow> string option) \<Rightarrow> writer \<Rightarrow> string option" where
  "client_reads gunzip w = (case w of
     Conn h (Some (st, sh)) body \<Rightarrow>
       (if header_Get sh ''Content-Encoding'' = [] then Some body
        else if header_Get sh ''Content-Encoding'' = ''gzip'' then gunzip body else None)
   | _ \<Rightarrow> None)"

text \<open>The calls leave \<open>Content-Encoding\<close> alone, and (\<open>ok\<close>) set no content type that is compressed already.\<close>

definition plain_ops :: "bool \<Rightarrow> wop list \<Rightarrow> bool" where
  "plain_ops ok ops \<longleftrightarrow> (\<forall>k v. SetH k v \<in> set ops \<longrightarrow> CanonicalHeaderKey k \<noteq> ''Content-Encoding'' \<and>
     (ok \<longrightarrow> CanonicalHeaderKey k = ''Content-Type'' \<longrightarrow> \<not> isPrecompressed v))"

lemma canonical_names [simp]:
  "CanonicalHeaderKey ''Content-Encoding'' = ''Content-Encoding''"
  "CanonicalHeaderKey ''Content-Type'' = ''Content-Type''"
  "CanonicalHeaderKey ''Content-Length'' = ''Content-Length''"
  "CanonicalHeaderKey ''Vary'' = ''Vary''"
  "CanonicalHeaderKey ''X-Request-Id'' = ''X-Request-Id''"
  by code_simp+

lemma gzip_headers_CE [simp]: "gzip_headers h ''Content-Encoding'' = Some [''gzip'']"
  by (simp add: gzip_headers_def header_Set_def header_Del_def header_Add_def)

text \<open>The three phases of the gzip writer: buffering, passing on, compressing.\<close>

definition buffering :: "bool \<Rightarrow> string \<Rightarrow> int option \<Rightarrow> writer \<Rightarrow> bool" where
  "buffering ok t e w \<longleftrightarrow> (\<exists>h sent ss. w = GzipResponseWriter (Conn h sent []) t [] False ss False \<and>
     length t < MinCompressBytes \<and> h ''Content-Encoding'' = None \<and>
     (ok \<longrightarrow> \<not> isPrecompressed (header_Get h ''Content-Type'')) \<and>
     (case e of None \<Rightarrow> sent = None | Some c \<Rightarrow> \<exists>sh. sent = Some (c, sh) \<and> sh ''Content-Encoding'' = None))"

definition passing :: "string \<Rightarrow> writer \<Rightarrow> bool" where
  "passing t w \<longleftrightarrow> (\<exists>h st sh ss. w = GzipResponseWriter (Conn h (Some (st, sh)) t) [] [] True ss False \<and>
     MinCompressBytes \<le> length t \<and> sh ''Content-Encoding'' = None)"

definition compressing :: "string \<Rightarrow> string \<Rightarrow> int option \<Rightarrow> writer \<Rightarrow> bool" where
  "compressing gh t e w \<longleftrightarrow> (\<exists>h st sh ss. w = GzipResponseWriter (Conn h (Some (st, sh)) gh) [] t False ss True \<and>
     MinCompressBytes \<le> length t \<and>
     (case e of None \<Rightarrow> st = 200 \<and> sh ''Content-Encoding'' = Some [''gzip'']
      | Some c \<Rightarrow> st = c \<and> sh ''Content-Encoding'' = None))"

definition gz_inv :: "string \<Rightarrow> bool \<Rightarrow> string \<Rightarrow> int option \<Rightarrow> writer \<Rightarrow> bool" where
  "gz_inv gh ok t e w \<longleftrightarrow> buffering ok t e w \<or> (\<not> ok \<and> passing t w) \<or> compressing gh t e w"

lemma gz_SetH:
  assumes "gz_inv gh ok t e w" "plain_ops ok [SetH k v]"
  shows "gz_inv gh ok t e (do_op gh (SetH k v) w)"
proof -
  have k: "CanonicalHeaderKey k \<noteq> ''Content-Encoding''"
    and ct: "ok \<Longrightarrow> CanonicalHeaderKey k = ''Content-Type'' \<Longrightarrow> \<not> isPrecompressed v"
    using assms(2) by (auto simp: plain_ops_def)
  consider "buffering ok t e w" | "\<not> ok \<and> passing t w" | "compressing gh t e w"
    using assms(1) by (auto simp: gz_inv_def)
  then show ?thesis
  proof cases
    case 1
    then have "buffering ok t e (do_op gh (SetH k v) w)"
      using k ct by (auto simp: buffering_def do_op_def header_Set_def header_Get_def)
    then show ?thesis by (simp add: gz_inv_def)
  next
    case 2
    then have "passing t (do_op gh (SetH k v) w)" by (auto simp: passing_def do_op_def)
    with 2 show ?thesis by (simp add: gz_inv_def)
  next
    case 3
    then have "compressing gh t e (do_op gh (SetH k v) w)" by (auto simp: compressing_def do_op_def)
    then show ?thesis by (simp add: gz_inv_def)
  qed
qed

lemma gz_Status:
  assumes "gz_inv gh ok t e w"
  shows "gz_inv gh ok t (if e = None \<and> length t < MinCompressBytes then Some c else e) (do_op gh (Status c) w)"
proof -
  consider "buffering ok t e w" | "\<not> ok \<and> passing t w" | "compressing gh t e w"
    using assms(1) by (auto simp: gz_inv_def)
  then show ?thesis
  proof cases
    case 1
    then have "buffering ok t (if e = None \<and> length t < MinCompressBytes then Some c else e) (do_op gh (Status c) w)"
      by (cases e) (auto simp: buffering_def do_op_def)
    then show ?thesis by (simp add: gz_inv_def)
  next
    case 2
    then have "passing t (do_op gh (Status c) w)" by (auto simp: passing_def do_op_def)
    with 2 show ?thesis by (simp add: gz_inv_def)
  next
    case 3
    then have "compressing gh t e (do_op gh (Status c) w)" "\<not> length t < MinCompressBytes"
      by (auto simp: compressing_def do_op_def)
    then show ?thesis by (simp add: gz_inv_def)
  qed
qed

lemma gz_Body:
  assumes "gz_inv gh ok t e w"
  shows "gz_inv gh ok (t @ b) e (do_op gh (Body b) w)"
proof -
  consider "buffering ok t e w" | "\<not> ok \<and> passing t w" | "compressing gh t e w"
    using assms(1) by (auto simp: gz_inv_def)
  then show ?thesis
  proof cases
    case 1
    then obtain h sent ss where w: "w = GzipResponseWriter (Conn h sent []) t [] False ss False"
      and h: "h ''Content-Encoding'' = None" "ok \<Longrightarrow> \<not> isPrecompressed (header_Get h ''Content-Type'')"
      and sent: "case e of None \<Rightarrow> sent = None | Some c \<Rightarrow> \<exists>sh. sent = Some (c, sh) \<and> sh ''Content-Encoding'' = None"
      unfolding buffering_def by blast
    have get: "header_Get h ''Content-Encoding'' = []" using h(1) by (simp add: header_Get_def)
    consider "length (t @ b) < MinCompressBytes"
      | "MinCompressBytes \<le> length (t @ b)" "isPrecompressed (header_Get h ''Content-Type'')"
      | "MinCompressBytes \<le> length (t @ b)" "\<not> isPrecompressed (header_Get h ''Content-Type'')"
      by linarith
    then show ?thesis
    proof cases
      case 1
      then have "buffering ok (t @ b) e (do_op gh (Body b) w)" using w h sent by (simp add: buffering_def do_op_def)
      then show ?thesis by (simp add: gz_inv_def)
    next
      case 2
      then have "passing (t @ b) (do_op gh (Body b) w)"
        using w h(1) get sent by (cases e) (auto simp: passing_def do_op_def)
      with 2 h(2) show ?thesis by (auto simp: gz_inv_def)
    next
      case 3
      then have "compressing gh (t @ b) e (do_op gh (Body b) w)"
        using w h(1) get sent by (cases e) (auto simp: compressing_def do_op_def)
      then show ?thesis by (simp add: gz_inv_def)
    qed
  next
    case 2
    then have "passing (t @ b) (do_op gh (Body b) w)" by (auto simp: passing_def do_op_def)
    with 2 show ?thesis by (simp add: gz_inv_def)
  next
    case 3
    then have "compressing gh (t @ b) e (do_op gh (Body b) w)" by (auto simp: compressing_def do_op_def)
    then show ?thesis by (simp add: gz_inv_def)
  qed
qed

lemma plain_ops_Cons: "plain_ops ok (op # ops) \<longleftrightarrow> plain_ops ok [op] \<and> plain_ops ok ops"
  by (auto simp: plain_ops_def)

lemma gz_run:
  "gz_inv gh ok t e w \<Longrightarrow> plain_ops ok ops \<Longrightarrow>
     gz_inv gh ok (t @ text_of ops) (early_status (length t) e ops) (run_ops gh ops w)"
proof (induction ops arbitrary: t e w)
  case (Cons op ops)
  have p: "plain_ops ok [op]" "plain_ops ok ops" using Cons.prems(2) plain_ops_Cons by blast+
  show ?case
  proof (cases op)
    case (SetH k v)
    with Cons.IH [OF gz_SetH [OF Cons.prems(1)] p(2)] p(1) show ?thesis by simp
  next
    case (Status c)
    with Cons.IH [OF gz_Status [OF Cons.prems(1)] p(2), of c] show ?thesis by simp
  next
    case (Body b)
    with Cons.IH [OF gz_Body [OF Cons.prems(1)] p(2), of b] show ?thesis by simp
  qed
qed simp

text \<open>Without compression the body is what was written.\<close>

definition raw_inv :: "string \<Rightarrow> writer \<Rightarrow> bool" where
  "raw_inv t w \<longleftrightarrow> (\<exists>h sent. w = Conn h sent t \<and> h ''Content-Encoding'' = None \<and> (sent = None \<longrightarrow> t = []) \<and>
     (\<forall>c sh. sent = Some (c, sh) \<longrightarrow> sh ''Content-Encoding'' = None))"

lemma raw_run: "raw_inv t w \<Longrightarrow> plain_ops ok ops \<Longrightarrow> raw_inv (t @ text_of ops) (run_ops gh ops w)"
proof (induction ops arbitrary: t w)
  case (Cons op ops)
  have p: "plain_ops ok [op]" "plain_ops ok ops" using Cons.prems(2) plain_ops_Cons by blast+
  have "raw_inv (t @ text_of [op]) (do_op gh op w)"
    using Cons.prems(1) p(1)
    by (cases op) (auto simp: raw_inv_def plain_ops_def do_op_def header_Set_def split: option.splits)
  from Cons.IH [OF this p(2)] show ?case by (cases op) simp_all
qed simp

lemma raw_reads: "raw_inv t w \<Longrightarrow> client_reads gunzip (w_WriteHeader 200 w) = Some t"
  by (auto simp: raw_inv_def client_reads_def header_Get_def split: option.splits)

lemma gz_start: "gz_inv gh ok [] None (GzipResponseWriter (Conn Map.empty None []) [] [] False False False)"
proof -
  have "buffering ok [] None (GzipResponseWriter (Conn Map.empty None []) [] [] False False False)"
    unfolding buffering_def by (intro exI [of _ Map.empty] exI [of _ None] exI [of _ False])
      (simp add: MinCompressBytes_def isPrecompressed_def precompressed_types_def header_Get_def)
  then show ?thesis by (simp add: gz_inv_def)
qed

lemma buffering_reads:
  "buffering ok t e w \<Longrightarrow> client_reads gunzip (w_WriteHeader 200 (inner (gzip_flush gh gt w))) = Some t"
  by (cases e) (auto simp: buffering_def client_reads_def header_Get_def split: option.splits)

lemma passing_reads:
  "passing t w \<Longrightarrow> client_reads gunzip (w_WriteHeader 200 (inner (gzip_flush gh gt w))) = Some t"
  by (auto simp: passing_def client_reads_def header_Get_def)

lemma compressing_None:
  "compressing gh t None w \<Longrightarrow> client_reads gunzip (w_WriteHeader 200 (inner (gzip_flush gh gt w))) = gunzip (gh @ gt t)"
  by (auto simp: compressing_def client_reads_def header_Get_def)

lemma compressing_Some:
  "compressing gh t (Some c) w \<Longrightarrow>
     \<exists>h sh. w_WriteHeader 200 (inner (gzip_flush gh gt w)) = Conn h (Some (c, sh)) (gh @ gt t) \<and> sh ''Content-Encoding'' = None"
  by (auto simp: compressing_def)

definition accepts_gzip :: "svc_request \<Rightarrow> bool" where
  "accepts_gzip r \<longleftrightarrow> sublist ''gzip'' (header_Get (rq_Headers r) ''Accept-Encoding'')"

lemma compressed_keeps:
  assumes ops: "plain_ops False ops" and law: "\<And>t. gunzip (gh @ gt t) = Some t"
    and ok: "\<not> accepts_gzip r \<or> length (text_of ops) < MinCompressBytes \<or> early_status 0 None ops = None"
  shows "client_reads gunzip (w_WriteHeader 200 (compressed gh gt r ops (Conn Map.empty None []))) = Some (text_of ops)"
proof (cases "accepts_gzip r")
  case False
  have "raw_inv [] (Conn Map.empty None [])" by (simp add: raw_inv_def)
  from raw_reads [OF raw_run [OF this ops, of gh], of gunzip] False show ?thesis
    by (simp add: compressed_def accepts_gzip_def)
next
  case True
  let ?w = "run_ops gh ops (GzipResponseWriter (Conn Map.empty None []) [] [] False False False)"
  have w: "compressed gh gt r ops (Conn Map.empty None []) = inner (gzip_flush gh gt ?w)"
    using True by (simp add: compressed_def accepts_gzip_def)
  have inv: "gz_inv gh False (text_of ops) (early_status 0 None ops) ?w" using gz_run [OF gz_start ops] by simp
  consider "buffering False (text_of ops) (early_status 0 None ops) ?w" | "passing (text_of ops) ?w"
    | "compressing gh (text_of ops) (early_status 0 None ops) ?w"
    using inv by (auto simp: gz_inv_def)
  then show ?thesis
  proof cases
    case 3
    then have "\<not> length (text_of ops) < MinCompressBytes" by (auto simp: compressing_def)
    with ok True have "early_status 0 None ops = None" by blast
    with 3 have "compressing gh (text_of ops) None ?w" by simp
    from compressing_None [OF this, of gunzip gt] law show ?thesis by (simp add: w)
  qed (simp_all add: w buffering_reads passing_reads)
qed

lemma compressed_breaks:
  assumes ops: "plain_ops True ops" and acc: "accepts_gzip r"
    and long: "MinCompressBytes \<le> length (text_of ops)" and early: "early_status 0 None ops = Some c"
  shows "\<exists>h sh. w_WriteHeader 200 (compressed gh gt r ops (Conn Map.empty None [])) =
     Conn h (Some (c, sh)) (gh @ gt (text_of ops)) \<and> sh ''Content-Encoding'' = None"
proof -
  let ?w = "run_ops gh ops (GzipResponseWriter (Conn Map.empty None []) [] [] False False False)"
  have w: "compressed gh gt r ops (Conn Map.empty None []) = inner (gzip_flush gh gt ?w)"
    using acc by (simp add: compressed_def accepts_gzip_def)
  have inv: "gz_inv gh True (text_of ops) (Some c) ?w" using gz_run [OF gz_start ops] early by simp
  have "\<not> buffering True (text_of ops) (Some c) ?w" using long by (auto simp: buffering_def)
  with inv have "compressing gh (text_of ops) (Some c) ?w" by (auto simp: gz_inv_def)
  from compressing_Some [OF this] show ?thesis by (simp add: w)
qed

text \<open>The calls of the middleware itself.\<close>

lemma chain_text: "text_of (chain_ops en r ops panics) = text_of (ops @ (if panics then recovery_ops else []))"
  by (simp add: chain_ops_def security_headers_def default_security_def hsts_value_def)

lemma chain_early: "early_status n e (chain_ops en r ops panics) = early_status n e (ops @ (if panics then recovery_ops else []))"
  by (simp add: chain_ops_def security_headers_def default_security_def hsts_value_def)

lemma plain_map:
  "list_all (\<lambda>kv. CanonicalHeaderKey (fst kv) \<noteq> ''Content-Encoding'' \<and> CanonicalHeaderKey (fst kv) \<noteq> ''Content-Type'') kvs \<Longrightarrow>
     plain_ops ok (map (\<lambda>(k, v). SetH k v) kvs)"
  by (induction kvs) (auto simp: plain_ops_def)

lemma security_plain: "plain_ops ok (map (\<lambda>(k, v). SetH k v) (security_headers default_security))"
  by (rule plain_map) code_simp

lemma recovery_plain: "plain_ops ok recovery_ops"
proof -
  have "\<not> isPrecompressed ''application/json''" by code_simp
  then show ?thesis by (auto simp: plain_ops_def recovery_ops_def)
qed

lemma plain_ops_append: "plain_ops ok (ops @ ops') \<longleftrightarrow> plain_ops ok ops \<and> plain_ops ok ops'"
  by (auto simp: plain_ops_def)

lemma request_id_plain: "plain_ops ok [SetH ''X-Request-Id'' v]"
  by (simp add: plain_ops_def)

lemma plain_ops_Nil: "plain_ops ok []"
  by (simp add: plain_ops_def)

lemma chain_plain: "plain_ops ok ops \<Longrightarrow> plain_ops ok (chain_ops en r ops panics)"
proof -
  assume "plain_ops ok ops"
  moreover have "chain_ops en r ops panics = map (\<lambda>(k, v). SetH k v) (security_headers default_security) @
      [SetH ''X-Request-Id'' (request_id (en_rand en) r)] @ ops @ (if panics then recovery_ops else [])"
    by (simp add: chain_ops_def)
  ultimately show ?thesis
    by (simp only: plain_ops_append security_plain request_id_plain recovery_plain plain_ops_Nil split: if_split) simp
qed

text \<open>A header that the handler leaves alone stays as it was set, and is sent so.\<close>

fun w_sent :: "writer \<Rightarrow> (int \<times> header) option" where
  "w_sent (Conn h sent body) = sent"
| "w_sent (StatusRecorder w st n) = w_sent w"
| "w_sent (GzipResponseWriter w buf gz hj ss wg) = w_sent w"

definition holds_header :: "string \<Rightarrow> string list option \<Rightarrow> writer \<Rightarrow> bool" where
  "holds_header k v w \<longleftrightarrow> w_Header w k = v \<and> (\<forall>c sh. w_sent w = Some (c, sh) \<longrightarrow> sh k = v)"

definition gzip_keys :: "string set" where
  "gzip_keys = {''Content-Encoding'', ''Vary'', ''Content-Length''}"

lemma w_sent_SetHeader [simp]: "w_sent (w_SetHeader h w) = w_sent w"
  by (induction w) simp_all

lemma gzip_headers_other: "k \<notin> gzip_keys \<Longrightarrow> gzip_headers h k = h k"
  by (simp add: gzip_headers_def gzip_keys_def header_Set_def header_Del_def header_Add_def)

lemma holds_SetHeader: "holds_header k v w \<Longrightarrow> h k = v \<Longrightarrow> holds_header k v (w_SetHeader h w)"
  by (simp add: holds_header_def)

lemma holds_Recorder [simp]: "holds_header k v (StatusRecorder w st n) = holds_header k v w"
  and holds_Gzip [simp]: "holds_header k v (GzipResponseWriter w buf gz hj ss wg) = holds_header k v w"
  by (simp_all add: holds_header_def)

lemma holds_WriteHeader: "holds_header k v w \<Longrightarrow> holds_header k v (w_WriteHeader c w)"
proof (induction w)
  case (Conn h sent body)
  then show ?case by (cases sent) (simp_all add: holds_header_def)
qed simp_all

lemma holds_Write: "k \<notin> gzip_keys \<Longrightarrow> holds_header k v w \<Longrightarrow> holds_header k v (snd (w_Write gh b w))"
proof (induction gh b w rule: w_Write.induct)
  case (1 gh b h sent body)
  then show ?case by (cases sent) (simp_all add: holds_header_def)
next
  case (2 gh b w st n)
  from "2.IH" [OF "2.prems"(1)] "2.prems"(2) show ?case by (simp add: split_beta)
next
  case (3 gh b w buf gz hj ss wg)
  have "w_Header w k = v" using "3.prems"(2) by (simp add: holds_header_def)
  then have g: "holds_header k v (w_SetHeader (gzip_headers (w_Header w)) w)"
    using "3.prems" by (intro holds_SetHeader) (simp_all add: gzip_headers_other)
  have w: "holds_header k v w" using "3.prems"(2) by simp
  consider "hj" | "\<not> hj" "wg" | "\<not> hj" "\<not> wg" "\<not> MinCompressBytes \<le> length (buf @ b)"
    | "\<not> hj" "\<not> wg" "MinCompressBytes \<le> length (buf @ b)"
      "header_Get (w_Header w) ''Content-Encoding'' = [] \<and> \<not> isPrecompressed (header_Get (w_Header w) ''Content-Type'')"
    | "\<not> hj" "\<not> wg" "MinCompressBytes \<le> length (buf @ b)"
      "\<not> (header_Get (w_Header w) ''Content-Encoding'' = [] \<and> \<not> isPrecompressed (header_Get (w_Header w) ''Content-Type''))"
    by blast
  then show ?case
  proof cases
    case 1
    then show ?thesis using "3.IH"(1) [OF 1 "3.prems"(1) w] by (simp add: split_beta)
  next
    case 4
    then show ?thesis using "3.IH"(2) [OF 4 "3.prems"(1) g] by (simp add: split_beta)
  next
    case 5
    then show ?thesis using "3.IH"(3) [OF 5 "3.prems"(1) w] by (simp add: split_beta) blast
  qed (use w in simp_all)
qed

lemma holds_run:
  assumes k: "k \<notin> gzip_keys" and ops: "\<forall>k' u. SetH k' u \<in> set ops \<longrightarrow> CanonicalHeaderKey k' \<noteq> k"
  shows "holds_header k v w \<Longrightarrow> holds_header k v (run_ops gh ops w)"
  using ops
proof (induction ops arbitrary: w)
  case (Cons op ops)
  have "holds_header k v (do_op gh op w)"
  proof (cases op)
    case (SetH k' u)
    with Cons.prems show ?thesis by (auto simp: do_op_def holds_header_def header_Set_def)
  next
    case (Status c)
    with Cons.prems holds_WriteHeader show ?thesis by (simp add: do_op_def)
  next
    case (Body b)
    with holds_Write [OF k Cons.prems(1)] show ?thesis by (simp add: do_op_def)
  qed
  moreover have "\<forall>k' u. SetH k' u \<in> set ops \<longrightarrow> CanonicalHeaderKey k' \<noteq> k" using Cons.prems(2) by simp
  ultimately show ?case using Cons.IH by simp
qed simp

lemma holds_flush: "k \<notin> gzip_keys \<Longrightarrow> holds_header k v w \<Longrightarrow> holds_header k v (gzip_flush gh gt w)"
  by (cases w) (auto simp: holds_Write)

lemma holds_inner: "holds_header k v w \<Longrightarrow> holds_header k v (inner w)"
  by (cases w) auto

lemma holds_compressed:
  assumes k: "k \<notin> gzip_keys" and ops: "\<forall>k' u. SetH k' u \<in> set ops \<longrightarrow> CanonicalHeaderKey k' \<noteq> k"
    and v: "holds_header k v (run_ops gh pre w)"
      "holds_header k v (run_ops gh pre (GzipResponseWriter w [] [] False False False))"
  shows "holds_header k v (compressed gh gt r (pre @ ops) w)"
  using holds_run [OF k ops v(1)] holds_flush [OF k holds_run [OF k ops v(2)]] holds_inner
  by (simp add: compressed_def)

lemma sent_WriteHeader: "\<exists>c sh. w_sent (w_WriteHeader code w) = Some (c, sh)"
  by (induction w) (auto split: option.splits)

lemma compressed_Conn: "\<exists>h' sent' body'. compressed gh gt r ops (Conn h sent body) = Conn h' sent' body'"
proof -
  have raw: "\<exists>h' sent' body'. run_ops gh ops (Conn h sent body) = Conn h' sent' body'" for ops h sent body
  proof (induction ops arbitrary: h sent body)
    case (Cons op ops)
    then show ?case by (cases op) (simp_all add: do_op_def)
  qed simp
  have gz: "\<exists>h' sent' body' buf' gz' hj' ss' wg'.
      run_ops gh ops (GzipResponseWriter (Conn h sent body) buf gz hj ss wg) =
      GzipResponseWriter (Conn h' sent' body') buf' gz' hj' ss' wg'" for ops h sent body buf gz hj ss wg
  proof (induction ops arbitrary: h sent body buf gz hj ss wg)
    case (Cons op ops)
    then show ?case by (cases op) (simp_all add: do_op_def)
  qed simp
  from raw [of ops h sent body] gz [of ops h sent body "[]" "[]" False False False] show ?thesis
    by (auto simp: compressed_def)
qed

section \<open>What every service guarantees\<close>

lemma canonical_security [simp]:
  "CanonicalHeaderKey ''X-Content-Type-Options'' = ''X-Content-Type-Options''"
  "CanonicalHeaderKey ''X-Frame-Options'' = ''X-Frame-Options''"
  "CanonicalHeaderKey ''Referrer-Policy'' = ''Referrer-Policy''"
  "CanonicalHeaderKey ''X-XSS-Protection'' = ''X-Xss-Protection''"
  "CanonicalHeaderKey ''Permissions-Policy'' = ''Permissions-Policy''"
  "CanonicalHeaderKey ''Cross-Origin-Resource-Policy'' = ''Cross-Origin-Resource-Policy''"
  "CanonicalHeaderKey ''Content-Security-Policy'' = ''Content-Security-Policy''"
  by code_simp+

definition features_off :: string where
  "features_off = ''accelerometer=(), camera=(), geolocation=(), gyroscope=(), magnetometer=(), microphone=(), payment=(), usb=()''"

definition hardened :: "(string \<times> string) list" where
  "hardened = [(''X-Content-Type-Options'', ''nosniff''), (''X-Frame-Options'', ''DENY''), (''Referrer-Policy'', ''no-referrer''),
     (''X-Xss-Protection'', ''0''), (''Permissions-Policy'', features_off), (''Cross-Origin-Resource-Policy'', ''same-origin''),
     (''Content-Security-Policy'', ''default-src '' @ quoted_none @ ''; frame-ancestors '' @ quoted_none)]"

definition protected_keys :: "string list" where
  "protected_keys = [''X-Request-Id'', ''X-Content-Type-Options'', ''X-Frame-Options'', ''Referrer-Policy'', ''X-Xss-Protection'',
     ''Permissions-Policy'', ''Cross-Origin-Resource-Policy'', ''Content-Security-Policy'']"

lemma hardened_protected: "(k, v) \<in> set hardened \<Longrightarrow> k \<in> set protected_keys"
  by (auto simp: hardened_def protected_keys_def)

lemma protected_not_gzip: "k \<in> set protected_keys \<Longrightarrow> k \<notin> gzip_keys \<and> k \<noteq> ''Content-Type''"
  by (auto simp: protected_keys_def gzip_keys_def)

definition setup_headers :: "string \<Rightarrow> header" where
  "setup_headers i = header_Set ''X-Request-Id'' i (fold (\<lambda>(k, v). header_Set k v) (security_headers default_security) Map.empty)"

lemma setup_id: "setup_headers i ''X-Request-Id'' = Some [i]"
  by (simp add: setup_headers_def header_Set_def)

lemma setup_fold: "fold (\<lambda>(k, v). header_Set k v) (security_headers default_security) Map.empty =
    fold (\<lambda>(k, v) h. h(k \<mapsto> [v])) hardened Map.empty"
  by (simp add: security_headers_def default_security_def hsts_value_def hardened_def header_Set_def features_off_def)

lemma fold_upd_other: "k \<notin> fst ` set kvs \<Longrightarrow> fold (\<lambda>(k, v) h. h(k \<mapsto> [v])) kvs m k = m k"
  by (induction kvs arbitrary: m) auto

lemma fold_upd_distinct:
  "distinct (map fst kvs) \<Longrightarrow> (k, v) \<in> set kvs \<Longrightarrow> fold (\<lambda>(k, v) h. h(k \<mapsto> [v])) kvs m k = Some [v]"
  by (induction kvs arbitrary: m) (auto simp: fold_upd_other)

lemma hardened_distinct: "distinct (''X-Request-Id'' # map fst hardened)"
  by (simp add: hardened_def)

lemma setup_hardened:
  assumes "(k, v) \<in> set hardened"
  shows "setup_headers i k = Some [v]"
proof -
  have "k \<in> set (map fst hardened)" using assms by (metis fst_conv image_eqI list.set_map)
  then have "k \<noteq> ''X-Request-Id''" using hardened_distinct by (metis distinct.simps(2))
  moreover have "distinct (map fst hardened)" using hardened_distinct by simp
  ultimately show ?thesis using fold_upd_distinct [OF _ assms, of Map.empty]
    by (simp add: setup_headers_def setup_fold header_Set_def)
qed

lemma chain_headers:
  assumes k: "k \<in> set protected_keys"
    and ops: "\<forall>k' u. SetH k' u \<in> set ops \<longrightarrow> CanonicalHeaderKey k' \<notin> set protected_keys"
  shows "holds_header k (setup_headers (request_id (en_rand en) r) k)
     (compressed gh gt r (chain_ops en r ops panics) (Conn Map.empty None []))"
proof -
  let ?pre = "map (\<lambda>(k, v). SetH k v) (security_headers default_security) @ [SetH ''X-Request-Id'' (request_id (en_rand en) r)]"
  have pre: "run_ops gh ?pre w = w_SetHeader (setup_headers (request_id (en_rand en) r)) w" if "w_Header w = Map.empty" for w
    using that by (simp add: run_SetH do_op_def setup_headers_def)
  have ops': "\<forall>k' u. SetH k' u \<in> set (ops @ (if panics then recovery_ops else [])) \<longrightarrow> CanonicalHeaderKey k' \<noteq> k"
    using ops k protected_not_gzip [OF k] by (auto simp: recovery_ops_def)
  have split: "chain_ops en r ops panics = ?pre @ (ops @ (if panics then recovery_ops else []))"
    by (simp add: chain_ops_def)
  have start: "holds_header k (setup_headers (request_id (en_rand en) r) k) (run_ops gh ?pre w)"
    if "w_Header w = Map.empty" "w_sent w = None" for w
    using that by (simp only: pre) (simp add: holds_header_def)
  show ?thesis unfolding split
    by (rule holds_compressed [OF conjunct1 [OF protected_not_gzip [OF k]] ops']) (rule start; simp)+
qed

lemma serve_request_serve:
  assumes "prog (context_of en limit r) (sc_app s) = (ops, panics, a)"
  shows "\<exists>h sent body n. serve_request gh gt micros en limit (serve gh prog) r s =
     (False, w_WriteHeader 200 (compressed gh gt r (chain_ops en r ops panics) (Conn Map.empty None [])),
      \<lparr>sc_log = sc_log s @ logged en r (ops @ (if panics then recovery_ops else [])) n,
       sc_metrics = measured micros en r (ops @ (if panics then recovery_ops else [])) (sc_metrics s), sc_app = a\<rparr>) \<and>
     compressed gh gt r (chain_ops en r ops panics) (Conn Map.empty None []) = Conn h sent body"
proof -
  obtain n where "service_chain gh gt micros en limit (serve gh prog) r (Conn Map.empty None []) s =
     (let ops' = ops @ (if panics then recovery_ops else []) in
      (False, compressed gh gt r (chain_ops en r ops panics) (Conn Map.empty None []),
       \<lparr>sc_log = sc_log s @ logged en r ops' n, sc_metrics = measured micros en r ops' (sc_metrics s), sc_app = a\<rparr>))"
    using service_chain_serve [where prog = prog and en = en and limit = limit and r = r and s = s, OF assms] by blast
  moreover obtain h sent body where
    "compressed gh gt r (chain_ops en r ops panics) (Conn Map.empty None []) = Conn h sent body"
    using compressed_Conn by blast
  ultimately show ?thesis
    by (intro exI [of _ h] exI [of _ sent] exI [of _ body] exI [of _ n]) (simp add: serve_request_def Let_def)
qed


definition get_request :: "string \<Rightarrow> string \<Rightarrow> svc_request" where
  "get_request path accept = \<lparr>rq_Method = ''GET'', rq_Path = path, rq_RawQuery = [], rq_Query = (\<lambda>_. []),
     rq_Headers = [''Accept-Encoding'' \<mapsto> [accept]], rq_Cookies = Map.empty, rq_RemoteAddr = ''10.0.0.1:80'',
     rq_UserAgent = ''curl'', sr_RequestID = None, sr_Deadline = None, sr_MaxBody = None\<rparr>"

definition quick_env :: request_env where
  "quick_env = \<lparr>en_rand = Some [CHR ''a''], en_now = 0, en_logDuration = 7000000, en_metricDuration = 6000000\<rparr>"

definition fresh_service :: "nat service" where
  "fresh_service = \<lparr>sc_log = [], sc_metrics = NewMetrics, sc_app = 0\<rparr>"

definition undo_gzip :: "string \<Rightarrow> string option" where
  "undo_gzip s = (case s of [] \<Rightarrow> None | c # t \<Rightarrow> Some t)"


text \<open>
  C35. But a route that calls WriteHeader first, as the JSON helpers of the services do, and then writes 1024 bytes
  or more, is unreadable for a client that accepts gzip: its headers were sent before Content-Encoding was set,
  and the compressed stream arrives as if it were the text.
\<close>

theorem large_answer_unreadable:
  assumes prog: "prog (context_of en limit r) (sc_app s) = (ops, False, a)"
    and plain: "plain_ops True ops" and acc: "accepts_gzip r"
    and long: "MinCompressBytes \<le> length (text_of ops)" and early: "early_status 0 None ops = Some c"
  shows "\<exists>h sh s'. serve_request gh gt micros en limit (serve gh prog) r s =
       (False, Conn h (Some (c, sh)) (gh @ gt (text_of ops)), s') \<and> sh ''Content-Encoding'' = None \<and>
     client_reads gunzip (Conn h (Some (c, sh)) (gh @ gt (text_of ops))) = Some (gh @ gt (text_of ops))"
proof -
  have "plain_ops True (chain_ops en r ops False)" by (rule chain_plain [OF plain])
  from compressed_breaks [OF this acc, of c gh gt] long early
  obtain h sh where "w_WriteHeader 200 (compressed gh gt r (chain_ops en r ops False) (Conn Map.empty None [])) =
     Conn h (Some (c, sh)) (gh @ gt (text_of ops))" "sh ''Content-Encoding'' = None"
    by (auto simp: chain_text chain_early)
  moreover from this(2) have "client_reads gunzip (Conn h (Some (c, sh)) body) = Some body" for body
    by (simp add: client_reads_def header_Get_def)
  ultimately show ?thesis
    using serve_request_serve [where prog = prog and en = en and limit = limit and r = r and s = s, OF prog, of gh gt micros]
    by metis
qed

text \<open>\<open>writeJSON\<close> with a body of 1024 bytes.\<close>

theorem large_answer_unreadable_witness:
  "\<exists>h sh s'. serve_request ''G'' id (\<lambda>_. 0) quick_env 0
      (serve ''G'' (\<lambda>r a. ([SetH ''Content-Type'' ''application/json'', Status 200, Body (replicate 1024 (CHR ''x''))], False, a)))
      (get_request ''/x'' ''gzip'') fresh_service =
    (False, Conn h (Some (200, sh)) (CHR ''G'' # replicate 1024 (CHR ''x'')), s') \<and> sh ''Content-Encoding'' = None"
proof -
  let ?ops = "[SetH ''Content-Type'' ''application/json'', Status 200, Body (replicate 1024 (CHR ''x''))]"
  have "\<not> isPrecompressed ''application/json''" by code_simp
  then have "plain_ops True ?ops" by (simp add: plain_ops_def)
  moreover have "accepts_gzip (get_request ''/x'' ''gzip'')" by code_simp
  moreover have "MinCompressBytes \<le> length (text_of ?ops)" "early_status 0 None ?ops = Some 200"
    by (simp_all add: MinCompressBytes_def)
  ultimately show ?thesis
    using large_answer_unreadable [where prog = "\<lambda>r a. (?ops, False, a)" and en = quick_env and limit = 0
        and r = "get_request ''/x'' ''gzip''" and s = fresh_service and ops = ?ops and a = "sc_app fresh_service"
        and gh = "''G''" and gt = id and c = 200 and micros = "\<lambda>_. 0" and gunzip = undo_gzip]
    by fastforce
qed

section \<open>The metrics\<close>

text \<open>A run of the service: its requests one after the other, each with its draws.\<close>

fun serve_all :: "string \<Rightarrow> (string \<Rightarrow> string) \<Rightarrow> (int \<Rightarrow> nat) \<Rightarrow> int \<Rightarrow> 'a svc_handler \<Rightarrow>
    (request_env \<times> svc_request) list \<Rightarrow> 'a service \<Rightarrow> 'a service" where
  "serve_all gh gt micros limit mux [] s = s"
| "serve_all gh gt micros limit mux ((en, r) # xs) s =
     serve_all gh gt micros limit mux xs (snd (snd (serve_request gh gt micros en limit mux r s)))"

definition observed :: "(request_env \<times> svc_request) list \<Rightarrow> int list" where
  "observed xs = map (\<lambda>(en, r). en_metricDuration en) (filter (\<lambda>(en, r). rq_Path r \<noteq> ''/metrics'') xs)"

lemma observed_Cons: "observed (x # xs) = observed [x] @ observed xs"
  by (simp add: observed_def split_beta)

text \<open>The counters are those of the durations seen so far.\<close>

definition metrics_of :: "int list \<Rightarrow> Metrics \<Rightarrow> bool" where
  "metrics_of ds m \<longleftrightarrow> length (mt_requests m) = 6 \<and> sum_list (mt_requests m) = length ds \<and> mt_histCount m = length ds \<and>
     mt_histBuckets m = map (\<lambda>ub. length (filter (\<lambda>d. d \<le> ub) ds)) durationBuckets"

lemma metrics_of_New: "metrics_of [] NewMetrics"
  by (simp add: metrics_of_def NewMetrics_def durationBuckets_def numeral_eq_Suc)

lemma sum_list_bump: "i < length xs \<Longrightarrow> sum_list (xs[i := xs ! i + 1]) = sum_list xs + (1 :: nat)"
  by (simp add: sum_list_update elem_le_sum_list)

lemma RecordRequest_counts:
  "length (mt_requests m) = 6 \<Longrightarrow> length (mt_requests (RecordRequest st m)) = 6 \<and>
     sum_list (mt_requests (RecordRequest st m)) = sum_list (mt_requests m) + 1"
proof -
  assume m: "length (mt_requests m) = 6"
  define q where "q = (if st < 0 then - ((- st) div 100) else st div 100)"
  define i where "i = (if q < 0 \<or> q \<ge> int (length (mt_requests m)) then 0 else nat q)"
  have "RecordRequest st m = m\<lparr>mt_requests := (mt_requests m)[i := mt_requests m ! i + 1]\<rparr>"
    by (simp only: RecordRequest_def Let_def q_def i_def)
  moreover have "i < length (mt_requests m)" using m by (auto simp: i_def)
  ultimately show ?thesis using m sum_list_bump by simp
qed

lemma RecordRequest_rest [simp]:
  "mt_histCount (RecordRequest st m) = mt_histCount m" "mt_histBuckets (RecordRequest st m) = mt_histBuckets m"
  by (simp_all add: RecordRequest_def Let_def)

lemma buckets_step:
  "map2 (\<lambda>ub c. if d \<le> ub then c + 1 else c) bs (map (\<lambda>ub. length (filter (\<lambda>d. d \<le> ub) ds)) bs) =
     map (\<lambda>ub. length (filter (\<lambda>d. d \<le> ub) (ds @ [d]))) (bs :: int list)"
  by (induction bs) auto

lemma measured_step:
  assumes "metrics_of ds m"
  shows "metrics_of (ds @ observed [(en, r)]) (measured micros en r ops m)"
proof (cases "rq_Path r = ''/metrics''")
  case True
  then show ?thesis using assms by (simp add: observed_def measured_def)
next
  case False
  then have "observed [(en, r)] = [en_metricDuration en]" by (simp add: observed_def)
  with False assms RecordRequest_counts [of m] show ?thesis
    unfolding metrics_of_def measured_def RecordDuration_def
    by (simp add: buckets_step [simplified])
qed

lemma serve_all_metrics:
  "metrics_of ds (sc_metrics s) \<Longrightarrow>
     metrics_of (ds @ observed xs) (sc_metrics (serve_all gh gt micros limit (serve gh prog) xs s))"
proof (induction xs arbitrary: ds s)
  case Nil
  then show ?case by (simp add: observed_def)
next
  case (Cons x xs)
  obtain en r where x: "x = (en, r)" by (cases x)
  obtain ops panics a where p: "prog (context_of en limit r) (sc_app s) = (ops, panics, a)"
    by (cases "prog (context_of en limit r) (sc_app s)") auto
  obtain s' where s': "snd (snd (serve_request gh gt micros en limit (serve gh prog) r s)) = s'"
    and m: "sc_metrics s' = measured micros en r (ops @ (if panics then recovery_ops else [])) (sc_metrics s)"
    using serve_request_serve [where prog = prog and en = en and limit = limit and r = r and s = s, OF p, of gh gt micros] by auto
  have "metrics_of (ds @ observed [x]) (sc_metrics s')" unfolding m x by (rule measured_step [OF Cons.prems])
  from Cons.IH [OF this] show ?case by (simp add: x s' observed_Cons [of _ xs])
qed

text \<open>
  After any requests, panicking ones included, the metrics are a function of the durations of all requests
  but those for the metrics: every request is counted once in a status class and once in the histogram, and a
  bucket holds the requests that took at most its bound.
\<close>

theorem metrics_refine_log:
  "let m = sc_metrics (serve_all gh gt micros limit (serve gh prog) xs \<lparr>sc_log = [], sc_metrics = NewMetrics, sc_app = a\<rparr>);
       ds = observed xs in
     sum_list (mt_requests m) = length ds \<and> mt_histCount m = length ds \<and>
     mt_histBuckets m = map (\<lambda>ub. length (filter (\<lambda>d. d \<le> ub) ds)) durationBuckets"
  using serve_all_metrics [of "[]" "\<lparr>sc_log = [], sc_metrics = NewMetrics, sc_app = a\<rparr>"] metrics_of_New
  by (simp add: metrics_of_def Let_def)

text \<open>
  The log and the counters tell the status that was sent when the handler sets it at most once, before the body:
  but not when a handler has answered and then panics, for the recovery's 500 reaches the recorder only.
\<close>

lemma late_panic_logged_500:
  "rec_status ([Status 200, Body b] @ recovery_ops) 0 = 500"
  by (simp add: recovery_ops_def)

section \<open>Cross-origin requests\<close>

text \<open>The headers that grant access, after the middleware has run on a writer.\<close>

definition cors_grants :: "CORSOptions \<Rightarrow> string \<Rightarrow> header \<Rightarrow> bool" where
  "cors_grants opts origin h \<longleftrightarrow>
     (h ''Access-Control-Allow-Origin'' \<noteq> None \<longrightarrow> cors_ok opts origin \<and>
        h ''Access-Control-Allow-Origin'' = Some [if ''*'' \<in> set (co_AllowedOrigins opts) then ''*'' else origin]) \<and>
     (h ''Access-Control-Allow-Credentials'' \<noteq> None \<longrightarrow> co_AllowCredentials opts \<and>
        ''*'' \<notin> set (co_AllowedOrigins opts) \<and> origin \<in> set (co_AllowedOrigins opts))"

lemma canonical_cors [simp]:
  "CanonicalHeaderKey ''Access-Control-Allow-Origin'' = ''Access-Control-Allow-Origin''"
  "CanonicalHeaderKey ''Access-Control-Allow-Credentials'' = ''Access-Control-Allow-Credentials''"
  "CanonicalHeaderKey ''Access-Control-Allow-Methods'' = ''Access-Control-Allow-Methods''"
  "CanonicalHeaderKey ''Access-Control-Allow-Headers'' = ''Access-Control-Allow-Headers''"
  "CanonicalHeaderKey ''Access-Control-Max-Age'' = ''Access-Control-Max-Age''"
  by code_simp+

lemma cors_allow_grants:
  assumes "h ''Access-Control-Allow-Origin'' = None" "h ''Access-Control-Allow-Credentials'' = None"
  shows "cors_grants opts origin (cors_allow opts origin h)"
  using assms by (simp add: cors_grants_def cors_allow_def header_Set_def Let_def) (auto simp: cors_ok_def)

lemma cors_preflight_other:
  "cors_preflight opts h ''Access-Control-Allow-Origin'' = h ''Access-Control-Allow-Origin''"
  "cors_preflight opts h ''Access-Control-Allow-Credentials'' = h ''Access-Control-Allow-Credentials''"
  by (simp_all add: cors_preflight_def header_Set_def Let_def)

lemma cors_preflight_grants: "cors_grants opts origin h \<Longrightarrow> cors_grants opts origin (cors_preflight opts h)"
  unfolding cors_grants_def cors_preflight_other .

text \<open>
  CORS: only an allowed origin gets the headers that grant access, credentials only one that is listed by name
  and never together with a wildcard; a preflight request ends here and leaves the service's state alone.
\<close>

lemma cors_safe:
  assumes h0: "w_Header w ''Access-Control-Allow-Origin'' = None" "w_Header w ''Access-Control-Allow-Credentials'' = None"
  shows "(\<exists>w'. CORS h opts r w s = h r w' s \<and> cors_grants opts (header_Get (rq_Headers r) ''Origin'') (w_Header w')) \<or>
     (\<exists>w'. rq_Method r = ''OPTIONS'' \<and> CORS h opts r w s = (False, w', s) \<and>
        cors_grants opts (header_Get (rq_Headers r) ''Origin'') (w_Header w'))"
proof (cases "rq_Method r = ''OPTIONS'' \<and> header_Get (rq_Headers r) ''Access-Control-Request-Method'' \<noteq> []")
  case False
  then show ?thesis using cors_allow_grants [OF h0] unfolding CORS_def Let_def if_not_P [OF False]
    by (metis w_Header_SetHeader)
next
  case True
  have "cors_grants opts origin (if cors_ok opts origin then cors_preflight opts (cors_allow opts origin (w_Header w))
      else cors_allow opts origin (w_Header w))" for origin
    using cors_allow_grants [OF h0] cors_preflight_grants by simp
  with True show ?thesis unfolding CORS_def Let_def if_P [OF True]
    by (metis w_Header_SetHeader w_Header_WriteHeader)
qed

section \<open>The probes\<close>

text \<open>Once draining, the readiness probe answers 503 whatever the database says.\<close>

lemma drained_not_ready: "Status 503 \<in> set (readiness_ops quote (Drain rd)) \<and> Status 200 \<notin> set (readiness_ops quote (Drain rd))"
  by (simp add: readiness_ops_def Drain_def)

lemma ready_iff:
  "Status 200 \<in> set (readiness_ops quote rd) \<longleftrightarrow>
     \<not> rd_draining rd \<and> (case rd_db rd of None \<Rightarrow> True | Some (err, st) \<Rightarrow> err = None)"
  by (auto simp: readiness_ops_def split: option.splits)

end
