(* ===== verification/Lib_Codec.thy ===== *)
theory Lib_Codec
  imports GP_Text "HOL-Library.Word"
begin

unbundle bit_operations_syntax

text \<open>
  The encodings of the shared library: CBOR (\<open>packages/golib/cbor\<close>) over bytes and 64-bit words, and base 62
  (\<open>packages/golib/base62\<close>).
\<close>

section \<open>CBOR\<close>

type_synonym bytes = "8 word list"

definition MajorUint :: "8 word" where "MajorUint = 0x00"
definition MajorNegInt :: "8 word" where "MajorNegInt = 0x20"
definition MajorBytes :: "8 word" where "MajorBytes = 0x40"
definition MajorText :: "8 word" where "MajorText = 0x60"
definition MajorArray :: "8 word" where "MajorArray = 0x80"
definition MajorMap :: "8 word" where "MajorMap = 0xa0"
definition MajorTag :: "8 word" where "MajorTag = 0xc0"
definition SimpleTrue :: "8 word" where "SimpleTrue = 0xf5"
definition SimpleFalse :: "8 word" where "SimpleFalse = 0xf4"
definition SimpleNull :: "8 word" where "SimpleNull = 0xf6"

lemmas major_defs = MajorUint_def MajorNegInt_def MajorBytes_def MajorText_def MajorArray_def MajorMap_def MajorTag_def

text \<open>\<open>binary.BigEndian\<close>: the \<open>n\<close> low bytes of a word, and back.\<close>

primrec put_be :: "nat \<Rightarrow> 64 word \<Rightarrow> bytes" where
  "put_be 0 v = []"
| "put_be (Suc n) v = ucast (drop_bit (8 * n) v) # put_be n v"

definition get_be :: "bytes \<Rightarrow> 64 word" where
  "get_be bs = fold (\<lambda>b v. push_bit 8 v OR ucast b) bs 0"

text \<open>The encoder appends to its buffer; each call is given by the bytes it appends.\<close>

definition writeHead :: "8 word \<Rightarrow> 64 word \<Rightarrow> bytes" where
  "writeHead major v =
     (if v < 24 then [major OR ucast v]
      else if v \<le> 0xff then [major OR 24, ucast v]
      else if v \<le> 0xffff then (major OR 25) # put_be 2 v
      else if v \<le> 0xffffffff then (major OR 26) # put_be 4 v
      else (major OR 27) # put_be 8 v)"

definition EncodeUint :: "64 word \<Rightarrow> bytes" where
  "EncodeUint v = writeHead MajorUint v"

definition EncodeInt :: "int \<Rightarrow> bytes" where
  "EncodeInt v = (if v \<ge> 0 then writeHead MajorUint (word_of_int v) else writeHead MajorNegInt (word_of_int (-1 - v)))"

definition EncodeBytes :: "bytes \<Rightarrow> bytes" where
  "EncodeBytes data = writeHead MajorBytes (of_nat (length data)) @ data"

definition EncodeText :: "bytes \<Rightarrow> bytes" where
  "EncodeText s = writeHead MajorText (of_nat (length s)) @ s"

definition EncodeArrayHead :: "int \<Rightarrow> bytes" where
  "EncodeArrayHead n = writeHead MajorArray (word_of_int n)"

definition EncodeMapHead :: "int \<Rightarrow> bytes" where
  "EncodeMapHead n = writeHead MajorMap (word_of_int n)"

definition EncodeBool :: "bool \<Rightarrow> bytes" where
  "EncodeBool v = [if v then SimpleTrue else SimpleFalse]"

definition EncodeNull :: bytes where
  "EncodeNull = [SimpleNull]"

definition EncodeTag :: "64 word \<Rightarrow> bytes" where
  "EncodeTag tag = writeHead MajorTag tag"

text \<open>The decoder; a result is a value, an error, or a panic.\<close>

record Decoder =
  dc_data :: bytes
  dc_pos :: int

datatype cbor_err = ErrUnexpectedEnd | ErrInvalidType

datatype 'a result = Value 'a | Error cbor_err | Panic

definition dc_len :: "Decoder \<Rightarrow> int" where
  "dc_len d = int (length (dc_data d))"

definition dc_take :: "nat \<Rightarrow> Decoder \<Rightarrow> bytes" where
  "dc_take n d = take n (drop (nat (dc_pos d)) (dc_data d))"

definition dc_skip :: "int \<Rightarrow> Decoder \<Rightarrow> Decoder" where
  "dc_skip n d = d\<lparr>dc_pos := dc_pos d + n\<rparr>"

definition readArg :: "8 word \<Rightarrow> nat \<Rightarrow> Decoder \<Rightarrow> (8 word \<times> 64 word) result \<times> Decoder" where
  "readArg major n d =
     (if dc_pos d + int n > dc_len d then (Error ErrUnexpectedEnd, d)
      else (Value (major, get_be (dc_take n d)), dc_skip (int n) d))"

definition readHead :: "Decoder \<Rightarrow> (8 word \<times> 64 word) result \<times> Decoder" where
  "readHead d0 =
     (if dc_pos d0 \<ge> dc_len d0 then (Error ErrUnexpectedEnd, d0)
      else let b = dc_data d0 ! nat (dc_pos d0); d = dc_skip 1 d0; major = b AND 0xe0; info = b AND 0x1f in
        if info < 24 then (Value (major, ucast info), d)
        else if info = 24 then readArg major 1 d
        else if info = 25 then readArg major 2 d
        else if info = 26 then readArg major 4 d
        else if info = 27 then readArg major 8 d
        else (Error ErrInvalidType, d))"

definition with_head :: "(8 word \<Rightarrow> 64 word \<Rightarrow> Decoder \<Rightarrow> 'a result \<times> Decoder) \<Rightarrow> Decoder \<Rightarrow> 'a result \<times> Decoder" where
  "with_head f d = (case readHead d of
     (Value (major, v), d') \<Rightarrow> f major v d'
   | (Error e, d') \<Rightarrow> (Error e, d')
   | (Panic, d') \<Rightarrow> (Panic, d'))"

definition DecodeUint :: "Decoder \<Rightarrow> (64 word) result \<times> Decoder" where
  "DecodeUint = with_head (\<lambda>major v d. (if major \<noteq> MajorUint then Error ErrInvalidType else Value v, d))"

definition DecodeInt :: "Decoder \<Rightarrow> int result \<times> Decoder" where
  "DecodeInt = with_head (\<lambda>major v d.
     (if major = MajorUint then Value (sint v) else if major = MajorNegInt then Value (i64 (-1 - sint v))
      else Error ErrInvalidType, d))"

text \<open>
  The length is an \<open>int\<close> in the check, so it can be negative or overflow the sum; \<open>make\<close> panics for a negative
  length and for one beyond the address space, a slice expression for bounds out of order.
\<close>

definition max_alloc :: int where
  "max_alloc = 2 ^ 48"

definition DecodeBytes :: "Decoder \<Rightarrow> bytes result \<times> Decoder" where
  "DecodeBytes = with_head (\<lambda>major v d.
     if major \<noteq> MajorBytes then (Error ErrInvalidType, d)
     else if i64 (dc_pos d + sint v) > dc_len d then (Error ErrUnexpectedEnd, d)
     else if sint v < 0 \<or> sint v > max_alloc then (Panic, d)
     else (Value (dc_take (nat (sint v)) d), dc_skip (sint v) d))"

definition DecodeText :: "Decoder \<Rightarrow> bytes result \<times> Decoder" where
  "DecodeText = with_head (\<lambda>major v d.
     if major \<noteq> MajorText then (Error ErrInvalidType, d)
     else if i64 (dc_pos d + sint v) > dc_len d then (Error ErrUnexpectedEnd, d)
     else if i64 (dc_pos d + sint v) < dc_pos d then (Panic, d)
     else (Value (dc_take (nat (sint v)) d), dc_skip (sint v) d))"

definition DecodeArrayHead :: "Decoder \<Rightarrow> int result \<times> Decoder" where
  "DecodeArrayHead = with_head (\<lambda>major v d. (if major \<noteq> MajorArray then Error ErrInvalidType else Value (sint v), d))"

definition DecodeMapHead :: "Decoder \<Rightarrow> int result \<times> Decoder" where
  "DecodeMapHead = with_head (\<lambda>major v d. (if major \<noteq> MajorMap then Error ErrInvalidType else Value (sint v), d))"

definition DecodeBool :: "Decoder \<Rightarrow> bool result \<times> Decoder" where
  "DecodeBool d =
     (if dc_pos d \<ge> dc_len d then (Error ErrUnexpectedEnd, d)
      else let b = dc_data d ! nat (dc_pos d) in
        (if b = SimpleTrue then Value True else if b = SimpleFalse then Value False else Error ErrInvalidType, dc_skip 1 d))"

definition Remaining :: "Decoder \<Rightarrow> int" where
  "Remaining d = dc_len d - dc_pos d"

section \<open>Reading a head back\<close>

lemma length_put_be [simp]: "length (put_be n v) = n"
  by (induction n) simp_all

lemma get_put_acc: "8 * n \<le> 64 \<Longrightarrow> fold (\<lambda>b w. push_bit 8 w OR ucast b) (put_be n v) a = push_bit (8 * n) a OR take_bit (8 * n) v"
proof (induction n arbitrary: a)
  case (Suc n)
  have "push_bit (8 * n) (push_bit 8 a OR ucast (ucast (drop_bit (8 * n) v) :: 8 word)) OR take_bit (8 * n) v =
      push_bit (8 * Suc n) a OR take_bit (8 * Suc n) (v :: 64 word)"
    by (rule bit_word_eqI) (auto simp: bit_simps add.commute)
  with Suc show ?case by simp
qed simp

lemma get_put_be: "8 * n \<le> 64 \<Longrightarrow> take_bit (8 * n) v = v \<Longrightarrow> get_be (put_be n v) = v"
  using get_put_acc [of n v 0] by (simp add: get_be_def)

lemma take_bit_small: "v < 2 ^ m \<Longrightarrow> m < 64 \<Longrightarrow> take_bit m (v :: 64 word) = v"
  by (simp add: take_bit_eq_mod word_arith_nat_mod word_less_nat_alt unat_of_nat)

definition majors :: "(8 word) list" where
  "majors = [MajorUint, MajorNegInt, MajorBytes, MajorText, MajorArray, MajorMap, MajorTag]"

lemma major_small:
  assumes "major \<in> set majors" "v < (24 :: 64 word)"
  shows "(major OR ucast v) AND 0xe0 = major" "ucast ((major OR ucast v) AND 0x1f :: 8 word) = v"
    "((major OR ucast v) AND 0x1f :: 8 word) < 24"
proof -
  have "unat v < 24" using assms(2) by (simp add: word_less_nat_alt)
  then have "unat v \<in> set [0..<24]" by simp
  moreover have "v = of_nat (unat v)" by simp
  ultimately have "v \<in> set (map of_nat [0..<24])" by (metis image_eqI list.set_map)
  then have v: "v \<in> set [0, 1, 2, 3, 4, 5, 6, 7, 8, 9, 10, 11, 12, 13, 14, 15, 16, 17, 18, 19, 20, 21, 22, 23]"
    by (simp add: upt_rec)
  have "\<forall>m\<in>set majors. \<forall>v\<in>set [0, 1, 2, 3, 4, 5, 6, 7, 8, 9, 10, 11, 12, 13, 14, 15, 16, 17, 18, 19, 20, 21, 22, 23 :: 64 word].
      (m OR ucast v) AND 0xe0 = m \<and> ucast ((m OR ucast v) AND 0x1f :: 8 word) = v \<and> ((m OR ucast v) AND 0x1f :: 8 word) < 24"
    unfolding list_all_iff [symmetric] by (simp add: majors_def major_defs)
  then have "(major OR ucast v) AND 0xe0 = major \<and> ucast ((major OR ucast v) AND 0x1f :: 8 word) = v \<and>
      ((major OR ucast v) AND 0x1f :: 8 word) < 24"
    using v assms(1) by blast
  then show "(major OR ucast v) AND 0xe0 = major" "ucast ((major OR ucast v) AND 0x1f :: 8 word) = v"
    "((major OR ucast v) AND 0x1f :: 8 word) < 24" by blast+
qed

lemma major_info:
  assumes "major \<in> set majors" "i \<in> set [24, 25, 26, 27]"
  shows "(major OR i) AND 0xe0 = major \<and> ((major OR i) AND 0x1f :: 8 word) = i"
  using assms by (auto simp: majors_def major_defs)

text \<open>A decoder that stands after \<open>pre\<close>.\<close>

definition stand :: "bytes \<Rightarrow> bytes \<Rightarrow> Decoder" where
  "stand pre rest = \<lparr>dc_data = pre @ rest, dc_pos = int (length pre)\<rparr>"

lemma at_simps [simp]:
  "dc_pos (stand pre rest) = int (length pre)"
  "dc_len (stand pre rest) = int (length pre) + int (length rest)"
  "dc_take n (stand pre rest) = take n rest"
  by (simp_all add: stand_def dc_len_def dc_take_def)

lemma at_first: "dc_data (stand pre (b # rest)) ! nat (dc_pos (stand pre (b # rest))) = b"
  and at_nth [simp]: "dc_data (stand pre (b # rest)) ! length pre = b"
  by (simp_all add: stand_def)

lemma skip_at: "n = int (length xs) \<Longrightarrow> dc_skip n (stand pre (xs @ rest)) = stand (pre @ xs) rest"
  by (simp add: stand_def dc_skip_def)

lemma readArg_at:
  assumes "8 * n \<le> 64" "take_bit (8 * n) v = v"
  shows "readArg major n (stand pre (put_be n v @ rest)) = (Value (major, v), stand (pre @ put_be n v) rest)"
  using assms by (simp add: readArg_def get_put_be skip_at)

lemma read_long:
  assumes m: "major \<in> set majors" and i: "(i, n) \<in> set [(24, 1), (25, 2), (26, 4), (27, 8)]" and v: "take_bit (8 * n) v = v"
  shows "readHead (stand pre ((major OR i) # put_be n v @ rest)) = (Value (major, v), stand (pre @ (major OR i) # put_be n v) rest)"
proof -
  let ?d = "stand (pre @ [major OR i]) (put_be n v @ rest)"
  have n: "8 * n \<le> 64" and i4: "i \<in> set [24, 25, 26, 27]" using i by auto
  have bits: "(major OR i) AND 0xe0 = major" "((major OR i) AND 0x1f :: 8 word) = i" using major_info [OF m i4] by auto
  have skip: "dc_skip 1 (stand pre ((major OR i) # put_be n v @ rest)) = ?d"
    using skip_at [of 1 "[major OR i]" pre "put_be n v @ rest"] by simp
  have arg: "readArg major n ?d = (Value (major, v), stand (pre @ (major OR i) # put_be n v) rest)"
    using readArg_at [OF n v, of major "pre @ [major OR i]" rest] by simp
  have "readHead (stand pre ((major OR i) # put_be n v @ rest)) =
      (if i < 24 then (Value (major, ucast i), ?d) else if i = 24 then readArg major 1 ?d
       else if i = 25 then readArg major 2 ?d else if i = 26 then readArg major 4 ?d
       else if i = 27 then readArg major 8 ?d else (Error ErrInvalidType, ?d))"
    by (simp only: readHead_def Let_def at_first bits skip) simp
  also have "\<dots> = readArg major n ?d" using i by auto
  finally show ?thesis using arg by simp
qed

lemma read_writeHead:
  assumes m: "major \<in> set majors"
  shows "readHead (stand pre (writeHead major v @ rest)) = (Value (major, v), stand (pre @ writeHead major v) rest)"
proof -
  consider "v < 24" | "\<not> v < 24" "v \<le> 0xff" | "\<not> v < 24" "\<not> v \<le> 0xff" "v \<le> 0xffff"
    | "\<not> v < 24" "\<not> v \<le> 0xff" "\<not> v \<le> 0xffff" "v \<le> 0xffffffff"
    | "\<not> v < 24" "\<not> v \<le> 0xff" "\<not> v \<le> 0xffff" "\<not> v \<le> 0xffffffff" by blast
  then show ?thesis
  proof cases
    case 1
    have "dc_skip 1 (stand pre ((major OR ucast v) # rest)) = stand (pre @ [major OR ucast v]) rest"
      using skip_at [of 1 "[major OR ucast v]" pre rest] by simp
    with 1 major_small [OF m 1] show ?thesis
      by (simp add: writeHead_def readHead_def at_first Let_def)
  next
    case 2
    have "v < 2 ^ (8 * 1)" using 2(2) by (simp add: word_less_nat_alt word_le_nat_alt)
    then have "take_bit (8 * 1) v = v" by (intro take_bit_small) simp_all
    from read_long [OF m _ this, of 24 pre rest] 2 show ?thesis by (simp add: writeHead_def)
  next
    case 3
    have "v < 2 ^ (8 * 2)" using 3(3) by (simp add: word_less_nat_alt word_le_nat_alt)
    then have "take_bit (8 * 2) v = v" by (intro take_bit_small) simp_all
    from read_long [OF m _ this, of 25 pre rest] 3 show ?thesis by (simp add: writeHead_def)
  next
    case 4
    have "v < 2 ^ (8 * 4)" using 4(4) by (simp add: word_less_nat_alt word_le_nat_alt)
    then have "take_bit (8 * 4) v = v" by (intro take_bit_small) simp_all
    from read_long [OF m _ this, of 26 pre rest] 4 show ?thesis by (simp add: writeHead_def)
  next
    case 5
    have "take_bit (8 * 8) v = v" by (rule bit_word_eqI) (auto simp: bit_simps)
    from read_long [OF m _ this, of 27 pre rest] 5 show ?thesis by (simp add: writeHead_def)
  qed
qed

lemma with_head_at:
  "major \<in> set majors \<Longrightarrow> with_head f (stand pre (writeHead major v @ rest)) = f major v (stand (pre @ writeHead major v) rest)"
  by (simp add: with_head_def read_writeHead)

section \<open>Sequences of items\<close>

text \<open>The items a caller writes and reads in turn, each with the calls for it.\<close>

datatype item = UintItem "64 word" | IntItem int | BytesItem bytes | TextItem bytes | ArrayItem int | MapItem int | BoolItem bool

datatype kind = UintKind | IntKind | BytesKind | TextKind | ArrayKind | MapKind | BoolKind

fun kind_of :: "item \<Rightarrow> kind" where
  "kind_of (UintItem v) = UintKind"
| "kind_of (IntItem v) = IntKind"
| "kind_of (BytesItem b) = BytesKind"
| "kind_of (TextItem b) = TextKind"
| "kind_of (ArrayItem n) = ArrayKind"
| "kind_of (MapItem n) = MapKind"
| "kind_of (BoolItem v) = BoolKind"

fun encode_item :: "item \<Rightarrow> bytes" where
  "encode_item (UintItem v) = EncodeUint v"
| "encode_item (IntItem v) = EncodeInt v"
| "encode_item (BytesItem b) = EncodeBytes b"
| "encode_item (TextItem b) = EncodeText b"
| "encode_item (ArrayItem n) = EncodeArrayHead n"
| "encode_item (MapItem n) = EncodeMapHead n"
| "encode_item (BoolItem v) = EncodeBool v"

definition as_item :: "('a \<Rightarrow> item) \<Rightarrow> 'a result \<times> Decoder \<Rightarrow> item result \<times> Decoder" where
  "as_item f rd = map_prod (map_result f) id rd"

fun decode_kind :: "kind \<Rightarrow> Decoder \<Rightarrow> item result \<times> Decoder" where
  "decode_kind UintKind d = as_item UintItem (DecodeUint d)"
| "decode_kind IntKind d = as_item IntItem (DecodeInt d)"
| "decode_kind BytesKind d = as_item BytesItem (DecodeBytes d)"
| "decode_kind TextKind d = as_item TextItem (DecodeText d)"
| "decode_kind ArrayKind d = as_item ArrayItem (DecodeArrayHead d)"
| "decode_kind MapKind d = as_item MapItem (DecodeMapHead d)"
| "decode_kind BoolKind d = as_item BoolItem (DecodeBool d)"

fun decode_items :: "kind list \<Rightarrow> Decoder \<Rightarrow> item list result \<times> Decoder" where
  "decode_items [] d = (Value [], d)"
| "decode_items (k # ks) d = (case decode_kind k d of
     (Value x, d') \<Rightarrow> map_prod (map_result ((#) x)) id (decode_items ks d')
   | (Error e, d') \<Rightarrow> (Error e, d')
   | (Panic, d') \<Rightarrow> (Panic, d'))"

text \<open>The values Go can hold: \<open>int\<close>s of 64 bits, and strings that fit in memory.\<close>

fun item_ok :: "item \<Rightarrow> bool" where
  "item_ok (IntItem v) \<longleftrightarrow> - (2 ^ 63) \<le> v \<and> v < 2 ^ 63"
| "item_ok (BytesItem b) \<longleftrightarrow> int (length b) \<le> max_alloc"
| "item_ok (TextItem b) \<longleftrightarrow> int (length b) \<le> max_alloc"
| "item_ok (ArrayItem n) \<longleftrightarrow> - (2 ^ 63) \<le> n \<and> n < 2 ^ 63"
| "item_ok (MapItem n) \<longleftrightarrow> - (2 ^ 63) \<le> n \<and> n < 2 ^ 63"
| "item_ok x \<longleftrightarrow> True"

lemma in_majors [simp]:
  "MajorUint \<in> set majors" "MajorNegInt \<in> set majors" "MajorBytes \<in> set majors" "MajorText \<in> set majors"
  "MajorArray \<in> set majors" "MajorMap \<in> set majors"
  by (simp_all add: majors_def)

lemma majors_differ [simp]: "MajorNegInt \<noteq> MajorUint"
  by (simp add: major_defs)

lemma sint_int: "- (2 ^ 63) \<le> n \<Longrightarrow> n < 2 ^ 63 \<Longrightarrow> sint (word_of_int n :: 64 word) = n"
  by (simp add: sint_word_of_int_i64 i64_id)

lemma sint_length: "int n \<le> max_alloc \<Longrightarrow> sint (of_nat n :: 64 word) = int n"
  using sint_int [of "int n"] by (simp add: max_alloc_def)

lemma decode_encode:
  assumes ok: "item_ok x" and len: "int (length pre) < 2 ^ 62"
  shows "decode_kind (kind_of x) (stand pre (encode_item x @ rest)) = (Value x, stand (pre @ encode_item x) rest)"
proof (cases x)
  case (UintItem v)
  then show ?thesis by (simp add: as_item_def DecodeUint_def EncodeUint_def with_head_at)
next
  case (IntItem v)
  show ?thesis
  proof (cases "v \<ge> 0")
    case True
    with IntItem ok show ?thesis by (simp add: as_item_def DecodeInt_def EncodeInt_def with_head_at sint_int)
  next
    case False
    with IntItem ok have "sint (word_of_int (-1 - v) :: 64 word) = -1 - v" by (intro sint_int) auto
    with IntItem ok False show ?thesis
      by (simp add: as_item_def DecodeInt_def EncodeInt_def with_head_at i64_id)
  qed
next
  case (BytesItem b)
  let ?h = "writeHead MajorBytes (of_nat (length b))"
  have n: "sint (of_nat (length b) :: 64 word) = int (length b)" using BytesItem ok by (simp add: sint_length)
  have "length ?h \<le> 9" by (simp add: writeHead_def)
  then have "i64 (int (length (pre @ ?h)) + int (length b)) = int (length (pre @ ?h)) + int (length b)"
    using len ok BytesItem by (intro i64_id) (auto simp: max_alloc_def)
  with BytesItem ok n show ?thesis
    by (simp add: as_item_def DecodeBytes_def EncodeBytes_def with_head_at skip_at)
next
  case (TextItem b)
  let ?h = "writeHead MajorText (of_nat (length b))"
  have n: "sint (of_nat (length b) :: 64 word) = int (length b)" using TextItem ok by (simp add: sint_length)
  have "length ?h \<le> 9" by (simp add: writeHead_def)
  then have "i64 (int (length (pre @ ?h)) + int (length b)) = int (length (pre @ ?h)) + int (length b)"
    using len ok TextItem by (intro i64_id) (auto simp: max_alloc_def)
  with TextItem ok n show ?thesis
    by (simp add: as_item_def DecodeText_def EncodeText_def with_head_at skip_at)
next
  case (ArrayItem n)
  with ok show ?thesis by (simp add: as_item_def DecodeArrayHead_def EncodeArrayHead_def with_head_at sint_int)
next
  case (MapItem n)
  with ok show ?thesis by (simp add: as_item_def DecodeMapHead_def EncodeMapHead_def with_head_at sint_int)
next
  case (BoolItem v)
  have "dc_skip 1 (stand pre (b # rest)) = stand (pre @ [b]) rest" for b using skip_at [of 1 "[b]" pre rest] by simp
  with BoolItem show ?thesis
    by (simp add: as_item_def DecodeBool_def EncodeBool_def Let_def SimpleTrue_def SimpleFalse_def)
qed

lemma decode_all:
  "\<forall>x\<in>set xs. item_ok x \<Longrightarrow> int (length pre + length (concat (map encode_item xs))) < 2 ^ 62 \<Longrightarrow>
     decode_items (map kind_of xs) (stand pre (concat (map encode_item xs) @ rest)) =
       (Value xs, stand (pre @ concat (map encode_item xs)) rest)"
proof (induction xs arbitrary: pre)
  case (Cons x xs)
  have d: "decode_kind (kind_of x) (stand pre (encode_item x @ (concat (map encode_item xs) @ rest))) =
      (Value x, stand (pre @ encode_item x) (concat (map encode_item xs) @ rest))"
    using Cons.prems by (intro decode_encode) auto
  have "decode_items (map kind_of xs) (stand (pre @ encode_item x) (concat (map encode_item xs) @ rest)) =
      (Value xs, stand ((pre @ encode_item x) @ concat (map encode_item xs)) rest)"
    using Cons.prems by (intro Cons.IH) auto
  with d show ?case by simp
qed simp

text \<open>
  C38. Decoding with the matching calls gives back every sequence of items that was encoded: integers of either
  sign, byte and text strings, array and map heads, booleans; the decoder then stands right behind them.
\<close>

theorem cbor_roundtrip:
  assumes "\<forall>x\<in>set xs. item_ok x" "int (length (concat (map encode_item xs))) < 2 ^ 62"
  shows "\<exists>d. decode_items (map kind_of xs) \<lparr>dc_data = concat (map encode_item xs) @ rest, dc_pos = 0\<rparr> = (Value xs, d) \<and>
     Remaining d = int (length rest) \<and> drop (nat (dc_pos d)) (dc_data d) = rest"
  using decode_all [of xs "[]" rest] assms by (auto simp: stand_def Remaining_def dc_len_def)

theorem cbor_roundtrip_witness:
  "\<exists>d. decode_items [IntKind, BytesKind] \<lparr>dc_data = [0x39, 0x03, 0xe7, 0x42, 0x01, 0x02] @ [0xf6], dc_pos = 0\<rparr> =
     (Value [IntItem (-1000), BytesItem [1, 2]], d) \<and> Remaining d = 1"
proof -
  let ?xs = "[IntItem (-1000), BytesItem [1, 2]]"
  have enc: "concat (map encode_item ?xs) = [0x39, 0x03, 0xe7, 0x42, 0x01, 0x02]" by code_simp
  have "\<forall>x\<in>set ?xs. item_ok x" by (simp add: max_alloc_def)
  moreover have "int (length (concat (map encode_item ?xs))) < 2 ^ 62" unfolding enc by simp
  ultimately obtain d where "decode_items (map kind_of ?xs) \<lparr>dc_data = concat (map encode_item ?xs) @ [0xf6], dc_pos = 0\<rparr> =
      (Value ?xs, d)" "Remaining d = int (length [0xf6 :: 8 word])"
    using cbor_roundtrip by blast
  then show ?thesis unfolding enc by (intro exI [of _ d]) simp
qed

text \<open>
  C39. DecodeBytes panics on a string whose declared length, read as an int, is negative or makes the sum overflow:
  nine bytes from outside are enough.
\<close>

theorem cbor_length_panics:
  assumes head: "readHead d = (Value (MajorBytes, v), d')" and pos: "0 \<le> dc_pos d'" "dc_pos d' \<le> dc_len d'" "dc_len d' < 2 ^ 47"
  shows "fst (DecodeBytes d) = Panic \<longleftrightarrow> sint v < 0 \<or> dc_pos d' + sint v \<ge> 2 ^ 63"
proof -
  have s: "- (2 ^ 63) \<le> sint v" "sint v < 2 ^ 63" using sint_range_size [of v] by (simp_all add: word_size)
  have D: "fst (DecodeBytes d) = Panic \<longleftrightarrow> i64 (dc_pos d' + sint v) \<le> dc_len d' \<and> (sint v < 0 \<or> sint v > max_alloc)"
    using head by (simp add: DecodeBytes_def with_head_def)
  consider "sint v < 0" | "0 \<le> sint v" "dc_pos d' + sint v < 2 ^ 63" | "dc_pos d' + sint v \<ge> 2 ^ 63" by linarith
  then show ?thesis
  proof cases
    case 1
    with s pos have "i64 (dc_pos d' + sint v) = dc_pos d' + sint v" by (intro i64_id) auto
    with 1 pos D show ?thesis by auto
  next
    case 2
    with pos have "i64 (dc_pos d' + sint v) = dc_pos d' + sint v" by (intro i64_id) auto
    with 2 pos D show ?thesis by (auto simp: max_alloc_def)
  next
    case 3
    with s pos have "i64 (dc_pos d' + sint v - 2 ^ 64) = dc_pos d' + sint v - 2 ^ 64" by (intro i64_id) auto
    moreover have "i64 (x - 2 ^ 64) = i64 x" for x
    proof -
      have "x - 2 ^ 64 + 2 ^ 63 = (x + 2 ^ 63) - 2 ^ 64" by simp
      then show ?thesis unfolding i64_def by (simp only: minus_mod_self2)
    qed
    ultimately have "i64 (dc_pos d' + sint v) < 0" using s pos by simp
    with 3 pos s D show ?thesis by (auto simp: max_alloc_def)
  qed
qed

theorem cbor_length_panics_witness:
  "fst (DecodeBytes \<lparr>dc_data = [0x5b, 0x80, 0, 0, 0, 0, 0, 0, 0], dc_pos = 0\<rparr>) = Panic"
proof -
  let ?d = "\<lparr>dc_data = [0x5b, 0x80, 0, 0, 0, 0, 0, 0, 0], dc_pos = 0\<rparr>"
  have w: "writeHead MajorBytes 0x8000000000000000 = [0x5b, 0x80, 0, 0, 0, 0, 0, 0, 0]" by code_simp
  let ?d' = "stand [0x5b, 0x80, 0, 0, 0, 0, 0, 0, 0] []"
  have "readHead ?d = (Value (MajorBytes, 0x8000000000000000), ?d')"
    using read_writeHead [of MajorBytes "[]" "0x8000000000000000" "[]"] unfolding w by (simp add: stand_def)
  moreover have "0 \<le> dc_pos ?d'" "dc_pos ?d' \<le> dc_len ?d'" "dc_len ?d' < 2 ^ 47" by (simp_all add: stand_def dc_len_def)
  moreover have "sint (0x8000000000000000 :: 64 word) < 0" by code_simp
  ultimately show ?thesis using cbor_length_panics by blast
qed

section \<open>Base 62\<close>

definition charset :: string where
  "charset = ''0123456789ABCDEFGHIJKLMNOPQRSTUVWXYZabcdefghijklmnopqrstuvwxyz''"

text \<open>\<open>strings.IndexRune(charset, c)\<close>; a rune outside ASCII is not in the set.\<close>

fun index_of :: "string \<Rightarrow> char \<Rightarrow> nat option" where
  "index_of [] c = None"
| "index_of (x # xs) c = (if x = c then Some 0 else map_option Suc (index_of xs c))"

text \<open>The digits are produced from the last one and the result is reversed.\<close>

function digits62 :: "nat \<Rightarrow> string" where
  "digits62 n = (if n = 0 then [] else charset ! (n mod 62) # digits62 (n div 62))"
  by pat_completeness auto
termination
  by (relation "measure id") auto

declare digits62.simps [simp del]

definition b62_EncodeInt :: "64 word \<Rightarrow> string" where
  "b62_EncodeInt n = (if n = 0 then [charset ! 0] else rev (digits62 (unat n)))"

fun b62_loop :: "string \<Rightarrow> 64 word \<Rightarrow> (64 word) option" where
  "b62_loop [] n = Some n"
| "b62_loop (c # cs) n = (case index_of charset c of None \<Rightarrow> None | Some i \<Rightarrow> b62_loop cs (n * 62 + of_nat i))"

definition b62_DecodeInt :: "string \<Rightarrow> (64 word) option" where
  "b62_DecodeInt s = (if s = [] then None else b62_loop s 0)"

text \<open>Byte strings are big-endian numbers (\<open>big.Int\<close>); a zero number is the digit 0, whatever its length.\<close>

definition b62_Encode :: "string \<Rightarrow> string" where
  "b62_Encode data =
     (let n = of_base 256 (map byte data) in
      if data = [] then []
      else if n = 0 then [charset ! 0]
      else rev (digits62 n @ map (\<lambda>_. charset ! 0) (takeWhile (\<lambda>b. byte b = 0) data)))"

fun b62_big :: "string \<Rightarrow> nat \<Rightarrow> nat option" where
  "b62_big [] n = Some n"
| "b62_big (c # cs) n = (case index_of charset c of None \<Rightarrow> None | Some i \<Rightarrow> b62_big cs (n * 62 + i))"

definition b62_Decode :: "string \<Rightarrow> string option" where
  "b62_Decode s = (if s = [] then Some []
     else map_option (\<lambda>n. if n = 0 then [] else map char_of (to_base 256 n)) (b62_big s 0))"

definition b62_IsValid :: "string \<Rightarrow> bool" where
  "b62_IsValid s \<longleftrightarrow> list_all (\<lambda>c. index_of charset c \<noteq> None) s"

lemma index_of_nth: "distinct xs \<Longrightarrow> i < length xs \<Longrightarrow> index_of xs (xs ! i) = Some i"
  by (induction xs arbitrary: i) (auto simp: nth_Cons split: nat.splits)

lemma index_charset: "i < 62 \<Longrightarrow> index_of charset (charset ! i) = Some i"
  by (rule index_of_nth) (simp_all add: charset_def)

lemma b62_big_digits: "b62_big (rev (digits62 n) @ s) 0 = b62_big s n"
proof (induction n arbitrary: s rule: digits62.induct)
  case (1 n)
  show ?case
  proof (cases "n = 0")
    case False
    then have "b62_big (rev (digits62 n) @ s) 0 = b62_big (charset ! (n mod 62) # s) (n div 62)"
      using 1 by (simp add: digits62.simps [of n])
    also have "\<dots> = b62_big s n" by (simp add: index_charset)
    finally show ?thesis .
  qed (simp add: digits62.simps)
qed

lemma b62_loop_big: "b62_loop s (of_nat n) = map_option of_nat (b62_big s n)"
proof (induction s arbitrary: n)
  case (Cons c s)
  then show ?case using Cons [of "n * 62 + i" for i] by (auto split: option.splits)
qed simp

lemma zeros_big: "\<forall>c\<in>set zs. c = charset ! 0 \<Longrightarrow> b62_big (zs @ s) 0 = b62_big s 0"
  using index_charset [of 0] by (induction zs) auto

lemma to_base_of_base:
  "2 \<le> b \<Longrightarrow> ds \<noteq> [] \<Longrightarrow> hd ds \<noteq> 0 \<Longrightarrow> \<forall>d\<in>set ds. d < b \<Longrightarrow> to_base b (of_base b ds) = ds"
proof (induction ds rule: rev_induct)
  case (snoc d ds)
  have d: "d < b" using snoc.prems by simp
  show ?case
  proof (cases "ds = []")
    case True
    with d show ?thesis by (simp add: of_base_Cons to_base.simps [of b d])
  next
    case False
    then have IH: "to_base b (of_base b ds) = ds" using snoc by simp
    obtain x xs where x: "ds = x # xs" using False by (cases ds) auto
    have "x \<noteq> 0" using snoc.prems(3) x by simp
    then have "1 \<le> of_base b ds" using snoc.prems(1) by (simp add: x of_base_Cons Suc_le_eq)
    then have "b \<le> of_base b ds * b" by simp
    then have "\<not> of_base b ds * b + d < b" by linarith
    then show ?thesis using IH d snoc.prems(1) by (simp add: to_base.simps [of b "of_base b ds * b + d"])
  qed
qed simp

lemma of_base_lead: "of_base b ds = of_base b (dropWhile (\<lambda>d. d = 0) ds)"
  by (induction ds) (simp_all add: of_base_Cons)

text \<open>
  Base 62: integers come back; bytes come back without their leading zeros, which Encode keeps as digits but
  Decode drops, and DecodeInt takes numbers beyond 64 bits modulo \<open>2 ^ 64\<close>.
\<close>

lemma b62_int_roundtrip: "b62_DecodeInt (b62_EncodeInt n) = Some n"
proof (cases "n = 0")
  case True
  then show ?thesis using index_charset [of 0] by (simp add: b62_DecodeInt_def b62_EncodeInt_def)
next
  case False
  then have "unat n \<noteq> 0" using unsigned_eq_0_iff [of n] by blast
  then have "digits62 (unat n) \<noteq> []" by (subst digits62.simps) simp
  with False show ?thesis using b62_loop_big [of "rev (digits62 (unat n))" 0] b62_big_digits [of "unat n" "[]"]
    by (simp add: b62_DecodeInt_def b62_EncodeInt_def)
qed

lemma b62_bytes_roundtrip: "b62_Decode (b62_Encode data) = Some (dropWhile (\<lambda>b. byte b = 0) data)"
proof -
  let ?ds = "map byte data" and ?zs = "map (\<lambda>_. charset ! 0) (takeWhile (\<lambda>b. byte b = 0) data)"
  let ?n = "of_base 256 ?ds" and ?rest = "dropWhile (\<lambda>b. byte b = 0) data"
  have rest: "map byte ?rest = dropWhile (\<lambda>d. d = 0) ?ds" by (simp add: dropWhile_map comp_def)
  have n: "?n = of_base 256 (map byte ?rest)" unfolding rest by (rule of_base_lead)
  show ?thesis
  proof (cases "?rest = []")
    case True
    then have "?n = 0" unfolding n True by simp
    then show ?thesis unfolding True using index_charset [of 0] by (auto simp: b62_Encode_def b62_Decode_def)
  next
    case False
    then obtain c cs where c: "?rest = c # cs" by (cases ?rest) auto
    have "byte c \<noteq> 0" using hd_dropWhile [of "\<lambda>b. byte b = 0" data] c by simp
    then have pos: "?n \<noteq> 0" unfolding n c by (simp add: of_base_Cons)
    have "to_base 256 ?n = map byte ?rest"
      unfolding n using \<open>byte c \<noteq> 0\<close> c byte_less
      by (intro to_base_of_base) auto
    then have dec: "map char_of (to_base 256 ?n) = ?rest" by (simp add: byte_def comp_def)
    have "data \<noteq> []" using False by auto
    define e where "e = rev ?zs @ rev (digits62 ?n)"
    have "b62_Encode data = e" using pos \<open>data \<noteq> []\<close> by (simp add: b62_Encode_def e_def Let_def)
    moreover have "b62_big e 0 = Some ?n"
      using zeros_big [of "rev ?zs" "rev (digits62 ?n)"] b62_big_digits [of ?n "[]"] by (simp add: e_def)
    moreover have "e \<noteq> []" using pos by (simp add: e_def digits62.simps [of ?n])
    ultimately show ?thesis using pos dec by (simp add: b62_Decode_def)
  qed
qed

end
