(* ===== verification/Lib_Semver.thy ===== *)
theory Lib_Semver
  imports GP_Text
begin

text \<open>
  Semantic versions (\<open>packages/golib/semver\<close>): parsing, printing and the comparison.
\<close>

record Version =
  sv_Major :: int
  sv_Minor :: int
  sv_Patch :: int
  sv_PreRelease :: string
  sv_Build :: string

datatype semver_err = EmptyVersion | InvalidFormat string | InvalidMajor | InvalidMinor | InvalidPatch | NegativeComponent

text \<open>\<open>strings.IndexByte\<close> and the two slices around the byte; no byte leaves the string whole.\<close>

fun cut_at :: "char \<Rightarrow> string \<Rightarrow> string \<times> string option" where
  "cut_at d [] = ([], None)"
| "cut_at d (c # cs) = (if c = d then ([], Some cs) else (let (a, b) = cut_at d cs in (c # a, b)))"

definition opt_string :: "string option \<Rightarrow> string" where
  "opt_string x = (case x of None \<Rightarrow> [] | Some s \<Rightarrow> s)"

definition trim_v :: "string \<Rightarrow> string" where
  "trim_v s = (case s of [] \<Rightarrow> [] | c # cs \<Rightarrow> if c = CHR ''v'' then cs else s)"

definition semver_Parse :: "string \<Rightarrow> semver_err + Version" where
  "semver_Parse s0 =
     (let s1 = trim_v s0; (s2, build) = cut_at (CHR ''+'') s1; (s3, pre) = cut_at (CHR ''-'') s2; parts = split_on (CHR ''.'') s3 in
      if s1 = [] then Inl EmptyVersion
      else if length parts \<noteq> 3 then Inl (InvalidFormat s3)
      else case ParseInt (parts ! 0) of None \<Rightarrow> Inl InvalidMajor
      | Some ma \<Rightarrow> (case ParseInt (parts ! 1) of None \<Rightarrow> Inl InvalidMinor
        | Some mi \<Rightarrow> (case ParseInt (parts ! 2) of None \<Rightarrow> Inl InvalidPatch
          | Some pa \<Rightarrow>
              if ma < 0 \<or> mi < 0 \<or> pa < 0 then Inl NegativeComponent
              else Inr \<lparr>sv_Major = ma, sv_Minor = mi, sv_Patch = pa, sv_PreRelease = opt_string pre, sv_Build = opt_string build\<rparr>)))"

definition semver_String :: "Version \<Rightarrow> string" where
  "semver_String v = show_int (sv_Major v) @ ''.'' @ show_int (sv_Minor v) @ ''.'' @ show_int (sv_Patch v) @
     (if sv_PreRelease v \<noteq> [] then CHR ''-'' # sv_PreRelease v else []) @ (if sv_Build v \<noteq> [] then CHR ''+'' # sv_Build v else [])"

definition cmpInt :: "int \<Rightarrow> int \<Rightarrow> int" where
  "cmpInt a b = (if a < b then -1 else if a > b then 1 else 0)"

text \<open>\<open>strings.Compare\<close>: bytes in order, a prefix before its extensions.\<close>

fun str_compare :: "string \<Rightarrow> string \<Rightarrow> int" where
  "str_compare [] [] = 0"
| "str_compare [] (b # bs) = -1"
| "str_compare (a # as) [] = 1"
| "str_compare (a # as) (b # bs) = (if byte a < byte b then -1 else if byte a > byte b then 1 else str_compare as bs)"

definition semver_Compare :: "Version \<Rightarrow> Version \<Rightarrow> int" where
  "semver_Compare a b =
     (if cmpInt (sv_Major a) (sv_Major b) \<noteq> 0 then cmpInt (sv_Major a) (sv_Major b)
      else if cmpInt (sv_Minor a) (sv_Minor b) \<noteq> 0 then cmpInt (sv_Minor a) (sv_Minor b)
      else if cmpInt (sv_Patch a) (sv_Patch b) \<noteq> 0 then cmpInt (sv_Patch a) (sv_Patch b)
      else if sv_PreRelease a = [] \<and> sv_PreRelease b = [] then 0
      else if sv_PreRelease a = [] then 1
      else if sv_PreRelease b = [] then -1
      else str_compare (sv_PreRelease a) (sv_PreRelease b))"

definition semver_Less :: "Version \<Rightarrow> Version \<Rightarrow> bool" where
  "semver_Less a b \<longleftrightarrow> semver_Compare a b < 0"

definition semver_Equal :: "Version \<Rightarrow> Version \<Rightarrow> bool" where
  "semver_Equal a b \<longleftrightarrow> semver_Compare a b = 0"

definition IsStable :: "Version \<Rightarrow> bool" where
  "IsStable v \<longleftrightarrow> sv_Major v > 0 \<and> sv_PreRelease v = []"

definition IsPreRelease :: "Version \<Rightarrow> bool" where
  "IsPreRelease v \<longleftrightarrow> sv_PreRelease v \<noteq> []"

definition Compatible :: "Version \<Rightarrow> Version \<Rightarrow> bool" where
  "Compatible a b \<longleftrightarrow> sv_Major a = sv_Major b \<and> \<not> semver_Less b a"

text \<open>The order is lexicographic: by a key that puts a release behind its pre-releases.\<close>

definition semver_key :: "Version \<Rightarrow> int list \<times> bool \<times> nat list" where
  "semver_key v = ([sv_Major v, sv_Minor v, sv_Patch v], sv_PreRelease v = [], map byte (sv_PreRelease v))"

lemma str_compare_refl: "str_compare a b = 0 \<longleftrightarrow> a = b"
  by (induction a b rule: str_compare.induct) (auto simp: byte_def)

lemma str_compare_swap: "str_compare a b = - str_compare b a"
  by (induction a b rule: str_compare.induct) auto

lemma str_compare_range: "str_compare a b \<in> {-1, 0, 1}"
  by (induction a b rule: str_compare.induct) auto

lemma str_less_Cons: "str_compare (a # as) (b # bs) < 0 \<longleftrightarrow> byte a < byte b \<or> byte a = byte b \<and> str_compare as bs < 0"
  by simp

lemma str_compare_trans: "str_compare a b < 0 \<Longrightarrow> str_compare b c < 0 \<Longrightarrow> str_compare a c < 0"
proof (induction c arbitrary: a b)
  case Nil
  then show ?case by (cases b) simp_all
next
  case (Cons z zs)
  show ?case
  proof (cases a)
    case (Cons x xs)
    then obtain y ys where b: "b = y # ys" using Cons.prems(1) by (cases b) simp_all
    have "byte x < byte y \<or> byte x = byte y \<and> str_compare xs ys < 0"
      "byte y < byte z \<or> byte y = byte z \<and> str_compare ys zs < 0"
      using Cons.prems unfolding Cons b str_less_Cons by blast+
    then have "byte x < byte z \<or> byte x = byte z \<and> str_compare xs zs < 0" using Cons.IH [of xs ys] by linarith
    then show ?thesis unfolding Cons str_less_Cons .
  qed simp
qed

lemma cmpInt_0 [simp]: "cmpInt a b = 0 \<longleftrightarrow> a = b"
  by (simp add: cmpInt_def)

lemma cmpInt_neg [simp]: "cmpInt a b < 0 \<longleftrightarrow> a < b"
  by (simp add: cmpInt_def)

lemma pre_less:
  "(if p = [] \<and> q = [] then 0 else if p = [] then 1 else if q = [] then -1 else str_compare p q) < (0::int) \<longleftrightarrow>
     p \<noteq> [] \<and> (q = [] \<or> str_compare p q < 0)"
  by (cases "p = []"; cases "q = []") simp_all

lemma if_neg: "(if cmpInt a b \<noteq> 0 then cmpInt a b else r) < 0 \<longleftrightarrow> a < b \<or> a = b \<and> r < 0"
  by (auto simp: cmpInt_def)

lemma semver_Less_iff:
  "semver_Less a b \<longleftrightarrow> sv_Major a < sv_Major b \<or> sv_Major a = sv_Major b \<and>
     (sv_Minor a < sv_Minor b \<or> sv_Minor a = sv_Minor b \<and>
       (sv_Patch a < sv_Patch b \<or> sv_Patch a = sv_Patch b \<and>
         (sv_PreRelease a \<noteq> [] \<and> (sv_PreRelease b = [] \<or> str_compare (sv_PreRelease a) (sv_PreRelease b) < 0))))"
  unfolding semver_Less_def semver_Compare_def if_neg pre_less by (rule refl)

lemma semver_Equal_iff:
  "semver_Equal a b \<longleftrightarrow> sv_Major a = sv_Major b \<and> sv_Minor a = sv_Minor b \<and> sv_Patch a = sv_Patch b \<and>
     sv_PreRelease a = sv_PreRelease b"
  by (cases "sv_PreRelease a = []"; cases "sv_PreRelease b = []")
    (simp_all add: semver_Equal_def semver_Compare_def str_compare_refl)

lemma semver_order:
  "semver_Less a b \<Longrightarrow> semver_Less b c \<Longrightarrow> semver_Less a c"
  "\<not> (semver_Less a b \<and> semver_Less b a)"
  "semver_Less a b \<or> semver_Equal a b \<or> semver_Less b a"
proof -
  show "semver_Less a c" if "semver_Less a b" "semver_Less b c"
    using that str_compare_trans [of "sv_PreRelease a" "sv_PreRelease b" "sv_PreRelease c"]
    unfolding semver_Less_iff by auto
  show "\<not> (semver_Less a b \<and> semver_Less b a)"
    using str_compare_swap [of "sv_PreRelease a" "sv_PreRelease b"] unfolding semver_Less_iff by auto
  have "str_compare (sv_PreRelease a) (sv_PreRelease b) < 0 \<or> sv_PreRelease a = sv_PreRelease b \<or>
      str_compare (sv_PreRelease b) (sv_PreRelease a) < 0"
    using str_compare_swap [of "sv_PreRelease a" "sv_PreRelease b"] str_compare_refl [of "sv_PreRelease a" "sv_PreRelease b"]
    by auto
  then show "semver_Less a b \<or> semver_Equal a b \<or> semver_Less b a"
    unfolding semver_Less_iff semver_Equal_iff by auto
qed

lemma semver_Less_not_Equal: "semver_Less a b \<Longrightarrow> \<not> semver_Equal a b"
  by (simp add: semver_Less_def semver_Equal_def)

lemma semver_build_ignored: "semver_Equal a (a\<lparr>sv_Build := x\<rparr>)"
  by (simp add: semver_Equal_iff)

lemma cut_at_none: "d \<notin> set s \<Longrightarrow> cut_at d s = (s, None)"
  by (induction s) auto

lemma cut_at_append: "d \<notin> set s \<Longrightarrow> cut_at d (s @ d # t) = (s, Some t)"
  by (induction s) auto

lemma parse_parts:
  assumes "trim_v s = s1" and "cut_at (CHR ''+'') s1 = (s2, build)" and "cut_at (CHR ''-'') s2 = (s3, pre)"
    and "split_on (CHR ''.'') s3 = [a, b, c]"
    and "ParseInt a = Some ma" "ParseInt b = Some mi" "ParseInt c = Some pa" and "0 \<le> ma" "0 \<le> mi" "0 \<le> pa"
    and "\<lparr>sv_Major = ma, sv_Minor = mi, sv_Patch = pa, sv_PreRelease = opt_string pre, sv_Build = opt_string build\<rparr> = v"
    and "s1 \<noteq> []"
  shows "semver_Parse s = Inr v"
  using assms by (simp add: semver_Parse_def)

lemma show_nat_chars: "0 \<le> n \<Longrightarrow> c \<in> set (show_int n) \<Longrightarrow> is_digit c"
  using digits_all [of "nat n"] by (auto simp: show_int_def list_all_iff)

lemma not_digit: "\<not> is_digit CHR ''.''" "\<not> is_digit CHR ''-''" "\<not> is_digit CHR ''+''" "\<not> is_digit CHR ''v''"
  by (simp_all add: is_digit_def byte_def)



text \<open>SemVer compares numeric identifiers as numbers; the code compares the strings.\<close>

lemma semver_numeric_identifiers:
  "semver_Less \<lparr>sv_Major = 1, sv_Minor = 0, sv_Patch = 0, sv_PreRelease = ''rc.10'', sv_Build = []\<rparr>
     \<lparr>sv_Major = 1, sv_Minor = 0, sv_Patch = 0, sv_PreRelease = ''rc.9'', sv_Build = []\<rparr>"
  by (simp add: semver_Less_iff byte_def)

end
