(* ===== verification/Spec2Isabelle.thy ===== *)
theory Spec2Isabelle
  imports Corp_System Circuit Sign_System Info_Masking Info_Consent Audit_Handlers Portal_System Identity_Handlers
    Identity_Users Identity_Deletion Bff_System Bff_Traffic Notify Lib_Graph Lib_Outbox Lib_Access Lib_Containers
    Corp_Postgres Sign_Postgres Portal_Repository Portal_Pages Svc_Middleware
    Lib_Codec Lib_Semver
begin

text \<open>
  A verification development for GarudaPass, an identity platform written in Go: seven services under
  \<open>services/\<close>, the backend for the front ends under \<open>apps/bff\<close> and the shared library
  \<open>packages/golib\<close>.

  \<^bold>\<open>The program and the theories.\<close>
  Each service has the same shape: HTTP handlers over store interfaces, an in-memory and a Postgres
  implementation of each store, and clients of external registries.
  A Go interface is a record of operations on a state \<open>'s\<close>, a store is a value of that record, a handler
  is a function from its dependencies, the request and the state to an answer and a state; a possible
  panic makes the result an \<open>option\<close>, an \<open>error\<close> result a sum or an \<open>option\<close> of the errors.
  The names of records, definitions and constructors are those of the Go code, with a prefix where two
  packages share a name.

  \<^item> \<open>GP_Prelude\<close>, \<open>GP_Text\<close>, \<open>GP_Interfaces\<close>: Go values (64-bit integers with their wrap-around, UTF-8
    strings, maps and the order of \<open>range\<close>, instants), \<open>strconv\<close> and \<open>strings\<close>, and the contracts that
    several stores share.
  \<^item> \<open>Corp_Model\<close>, \<open>Corp_Entity\<close>, \<open>Corp_Role\<close>, \<open>Corp_UBO\<close>, \<open>Corp_System\<close>: \<open>services/garudacorp\<close>, entities
    from the AHU registry, the role hierarchy, beneficial ownership, and the service as a step relation.
  \<^item> \<open>Circuit\<close>: the circuit breakers of the registry clients and of the signing client.
  \<^item> \<open>Sign_Model\<close>, \<open>Sign_Storage\<close>, \<open>Sign_Handlers\<close>, \<open>Sign_System\<close>: \<open>services/garudasign\<close>, certificates,
    signing requests, signed documents and the files behind them.
  \<^item> \<open>Corp_Postgres\<close>, \<open>Sign_Postgres\<close>, \<open>Portal_Repository\<close>: the Postgres stores of these services and of the
    developer portal, statement by statement over the tables, and how they agree with the in-memory stores.
  \<^item> \<open>Portal_Pages\<close>: the portal's analytics, changelog, webhook templates and sandbox.
  \<^item> \<open>Svc_Middleware\<close>: \<open>packages/golib/httpx\<close>, the chain of middleware that the \<open>main.go\<close> of every service
    mounts around its routes: recovery, request ids, access log, metrics, limits, security headers, compression, CORS, probes.
  \<^item> \<open>Info_Consent\<close>, \<open>Info_Masking\<close>: \<open>services/garudainfo\<close>, consents, the person endpoint, masking.
  \<^item> \<open>Audit_Store\<close>, \<open>Audit_Handlers\<close>: \<open>services/garudaaudit\<close>, the trail, its queries and reports.
  \<^item> \<open>Portal_Store\<close>, \<open>Portal_Keys\<close>, \<open>Portal_Usage\<close>, \<open>Portal_Webhooks\<close>, \<open>Portal_System\<close>:
    \<open>services/garudaportal\<close>, apps, API keys, usage counters, webhooks and their worker.
  \<^item> \<open>Identity_Store\<close>, \<open>Identity_Users\<close>, \<open>Identity_OTP\<close>, \<open>Identity_Deletion\<close>, \<open>Identity_Handlers\<close>:
    \<open>services/identity\<close>, field encryption, users and consents, one-time passwords on Redis, deletion
    requests, registration and session management.
  \<^item> \<open>Bff_Session\<close>, \<open>Bff_Http\<close>, \<open>Bff_System\<close>, \<open>Bff_Traffic\<close>: \<open>apps/bff\<close>, sessions, the middleware, the login
    flow, the proxy, the health checks, and what they guarantee together.
  \<^item> \<open>Notify\<close>: \<open>services/garudanotify\<close>, the senders, batches, templates and validators.
  \<^item> \<open>Lib_Codec\<close>, \<open>Lib_Semver\<close>: CBOR, base 62 and semantic versions of \<open>packages/golib\<close>; the
    decoder of CBOR reads hostile input, so that its panics are results.
  \<^item> \<open>Lib_Graph\<close>, \<open>Lib_Outbox\<close>, \<open>Lib_Access\<close>, \<open>Lib_Containers\<close>: packages of \<open>packages/golib\<close> -- the health
    graph; the outbox, the dead-letter queue and the idempotency store; permissions, policies, scope
    checks and field masks; the LRU cache, the ring buffer and the slot map.

  \<^bold>\<open>Interfaces.\<close>
  What a client relies on is a locale, interpreted on the models of the code that provides it:
  \<open>revocable_store\<close> and \<open>once_revocable_store\<close> (roles, consents, API keys), \<open>role_store\<close>, \<open>consent_store\<close>,
  \<open>audit_store\<close>, \<open>file_store\<close>, \<open>deletion_store\<close> and \<open>session_store\<close> (each on its in-memory store, and on
  the Postgres or Redis store where that has the same contract), and \<open>breaker\<close> (both circuit breakers).
  \<open>redis_server\<close> and \<open>gcm_scheme\<close> are the documented behaviour of Redis and of AES-GCM.

  \<^bold>\<open>What the lemmas show.\<close>
  For each store: its invariant and that every operation keeps it, and that the in-memory and the SQL
  versions answer alike.
  For each handler: its answer on every branch.
  For each service as a whole: an inductive relation of the steps its handlers make, the invariant of
  the reachable states, and the properties that follow -- who may grant a role, that a download returns
  what was signed, that a revoked consent, key or session is refused in every later state, that an
  accepted audit event stays, that a pending webhook arrives once its endpoint answers.
  For the packages of the library: the loops over graphs, which are partial functions, return on every
  finite graph; each container refines its abstract list; the outbox is a run of its poller.
  A property is a theorem whose text starts with its number C1, C2, and so on; a theorem with hypotheses
  is followed by an instance, named \<open>_witness\<close>, at concrete values.

  \<^bold>\<open>Parameters and their laws.\<close>
  Random bytes and \<open>uuid.New()\<close> are parameters (\<open>rand n\<close> is the \<open>n\<close>-th draw; that draws do not repeat is
  the hypothesis \<open>inj rand\<close> or \<open>distinct_ids\<close>), as are HMAC, SHA-256, bcrypt, base64, the JSON codec, the
  network and the registries behind it, the clock (\<open>now\<close>, one instant for each call that the code reads
  it in) and the iteration order of a map (\<open>ks\<close> with \<open>range_of ks m\<close>).
  A property holds for all of them that satisfy the hypotheses it names.

  \<^bold>\<open>Bounds.\<close>
  Loops over lists are structural recursion and need no fuel.
  Go's \<open>int\<close> and \<open>int64\<close> are integers wrapped by \<open>i64\<close> where a product or a sum can overflow (durations of
  consents, limits of queries, share percentages); instants and counters are unbounded where the code
  cannot reach the bounds.
  Each critical section under a mutex is one step; where the code gives up the lock or the server
  between two steps (the checks of one-time passwords) they are two definitions that can interleave.

  \<^bold>\<open>Not modelled.\<close>
  Start-up, configuration, logging, metrics and connection pools (I/O and wiring); the privacy notices; the simulators of the external registries, the packages
  of the shared library that are not named above, and the TypeScript front ends.
\<close>

end
